(* ===== verification/Prelude.thy ===== *)
theory Prelude
  imports Main "HOL-Library.Word" "HOL-Library.Sublist" "HOL-Library.Multiset"
    "HOL-Library.Char_ord" "HOL-Library.AList"
begin

text \<open>
  Shared vocabulary of the development: the machine integers of the Rust sources, the byte
  strings, the collections of rewrite rules the component theories extend, the iteration order
  of a Rust \<open>HashMap\<close>, and the generic lemmas on lists that several components use.

  A Rust \<open>u8\<close>/\<open>u32\<close>/\<open>u64\<close> value is a word of that width. A Rust \<open>str\<close> or \<open>[u8]\<close> that holds
  text is a list of bytes, and a byte of text is a HOL \<open>char\<close> (which has exactly eight bits),
  so that literals can be written as strings.
\<close>

unbundle bit_operations_syntax

type_synonym u8 = "8 word"
type_synonym u16 = "16 word"
type_synonym u32 = "32 word"
type_synonym u64 = "64 word"

text \<open>Facts about the Rust string operations, the rule passes and the kernel maps.\<close>

named_theorems str_simps \<open>equations of the Rust string operations\<close>
named_theorems pass_simps \<open>how an optimization pass acts on the fields of a rule\<close>
named_theorems map_simps \<open>lookups after updates of the kernel maps\<close>

section \<open>The iteration order of a HashMap\<close>

text \<open>
  The iteration order of \<open>std::collections::HashMap\<close> depends on a random seed. The model takes
  the seed as a list of numbers and derives an order from it, and \<open>hash_order_complete\<close> shows
  that every order of the entries is the order of some seed. A property that holds for every
  seed therefore holds for every order the standard library may choose.
\<close>

definition insert_at :: "nat \<Rightarrow> 'a \<Rightarrow> 'a list \<Rightarrow> 'a list" where
  "insert_at k x xs = take k xs @ x # drop k xs"

fun hash_order :: "nat list \<Rightarrow> 'a list \<Rightarrow> 'a list" where
  "hash_order ks [] = []"
| "hash_order [] (x # xs) = x # hash_order [] xs"
| "hash_order (k # ks) (x # xs) = insert_at k x (hash_order ks xs)"

lemma mset_insert_at [simp]: "mset (insert_at k x xs) = add_mset x (mset xs)"
proof -
  have "mset (take k xs) + mset (drop k xs) = mset xs"
    by (metis append_take_drop_id mset_append)
  then show ?thesis by (simp add: insert_at_def)
qed

lemma mset_hash_order [simp]: "mset (hash_order ks xs) = mset xs"
  by (induction ks xs rule: hash_order.induct) simp_all

lemma set_hash_order [simp]: "set (hash_order ks xs) = set xs"
  by (metis mset_hash_order set_mset_mset)

lemma length_hash_order [simp]: "length (hash_order ks xs) = length xs"
  by (metis mset_hash_order size_mset)

lemma distinct_hash_order [simp]: "distinct (hash_order ks xs) = distinct xs"
  by (metis mset_eq_imp_distinct_iff mset_hash_order)

lemma distinct_map_hash_order [simp]:
  "distinct (map f (hash_order ks xs)) = distinct (map f xs)"
  by (metis mset_eq_imp_distinct_iff mset_hash_order mset_map)

lemma insert_at_middle: "insert_at (length xs) x (xs @ ys) = xs @ x # ys"
  by (simp add: insert_at_def)

lemma hash_order_complete: "mset ys = mset xs \<Longrightarrow> \<exists>ks. hash_order ks xs = ys"
proof (induction xs arbitrary: ys)
  case Nil
  then show ?case by simp
next
  case (Cons x xs)
  from Cons.prems have "x \<in> set ys"
    by (metis list.set_intros(1) set_mset_mset)
  then obtain as bs where ys: "ys = as @ x # bs"
    by (auto simp: in_set_conv_decomp)
  with Cons.prems have "mset (as @ bs) = mset xs" by simp
  then obtain ks where "hash_order ks xs = as @ bs"
    using Cons.IH by blast
  then have "hash_order (length as # ks) (x # xs) = ys"
    by (simp add: ys insert_at_middle)
  then show ?case by blast
qed

section \<open>Filling a HashMap from a list\<close>

text \<open>
  The entries of a map that is filled one element at a time, in the order in which their keys
  first came up: an element with a new key is inserted, an element with a known key is merged
  into the value that is there (\<open>get_mut\<close>/\<open>insert\<close>, or \<open>entry().or_default()\<close>).
\<close>

fun merge_entry :: "'k \<Rightarrow> ('v \<Rightarrow> 'v) \<Rightarrow> 'v \<Rightarrow> ('k \<times> 'v) list \<Rightarrow> ('k \<times> 'v) list" where
  "merge_entry k f v [] = [(k, v)]"
| "merge_entry k f v (e # es) = (if fst e = k then (k, f (snd e)) # es else e # merge_entry k f v es)"

definition collect_by ::
    "('a \<Rightarrow> 'k) \<Rightarrow> ('a \<Rightarrow> 'v) \<Rightarrow> ('v \<Rightarrow> 'a \<Rightarrow> 'v) \<Rightarrow> 'a list \<Rightarrow> ('k \<times> 'v) list" where
  "collect_by key ins mrg xs = foldl (\<lambda>es x. merge_entry (key x) (\<lambda>v. mrg v x) (ins x) es) [] xs"

lemma map_of_merge_entry:
  "map_of (merge_entry k f v es) k' =
     (if k' = k then Some (case map_of es k of None \<Rightarrow> v | Some w \<Rightarrow> f w) else map_of es k')"
  by (induction es) auto

lemma keys_merge_entry:
  "map fst (merge_entry k f v es) =
     (if k \<in> set (map fst es) then map fst es else map fst es @ [k])"
  by (induction es) auto

lemma collect_by_Nil [simp]: "collect_by key ins mrg [] = []"
  by (simp add: collect_by_def)

lemma collect_by_snoc:
  "collect_by key ins mrg (xs @ [x]) =
     merge_entry (key x) (\<lambda>v. mrg v x) (ins x) (collect_by key ins mrg xs)"
  by (simp add: collect_by_def)

lemma distinct_collect_by [simp]: "distinct (map fst (collect_by key ins mrg xs))"
  by (induction xs rule: rev_induct) (auto simp: collect_by_snoc keys_merge_entry)

lemma keys_collect_by [simp]: "fst ` set (collect_by key ins mrg xs) = key ` set xs"
proof (induction xs rule: rev_induct)
  case (snoc x xs)
  have "fst ` set (collect_by key ins mrg (xs @ [x])) =
      set (map fst (collect_by key ins mrg (xs @ [x])))" by simp
  also have "\<dots> = insert (key x) (set (map fst (collect_by key ins mrg xs)))"
    by (auto simp: collect_by_snoc keys_merge_entry)
  finally show ?case using snoc by simp
qed simp

lemma map_of_collect_by:
  "map_of (collect_by key ins mrg xs) k =
     (case filter (\<lambda>x. key x = k) xs of [] \<Rightarrow> None | y # ys \<Rightarrow> Some (foldl mrg (ins y) ys))"
  by (induction xs rule: rev_induct)
    (auto simp: collect_by_snoc map_of_merge_entry simp del: map_of_eq_Some_iff
      split: list.splits option.splits)

lemma in_collect_by:
  "(k, v) \<in> set (collect_by key ins mrg xs) \<longleftrightarrow>
     (\<exists>y ys. filter (\<lambda>x. key x = k) xs = y # ys \<and> v = foldl mrg (ins y) ys)"
proof -
  have "(k, v) \<in> set (collect_by key ins mrg xs) \<longleftrightarrow> map_of (collect_by key ins mrg xs) k = Some v"
    by (simp add: map_of_eq_Some_iff)
  then show ?thesis by (auto simp: map_of_collect_by split: list.splits)
qed

lemma foldl_snoc_append: "foldl (\<lambda>v x. v @ [g x]) a ys = a @ map g ys"
  by (induction ys arbitrary: a) auto

text \<open>Collecting into lists loses no element.\<close>

lemma mset_merge_entry_snoc:
  "mset (concat (map snd (merge_entry k (\<lambda>v. v @ [y]) [y] es))) =
     add_mset y (mset (concat (map snd es)))"
  by (induction es) auto

lemma mset_collect_by_lists:
  "mset (concat (map snd (collect_by key (\<lambda>x. [g x]) (\<lambda>v x. v @ [g x]) xs))) = mset (map g xs)"
  by (induction xs rule: rev_induct) (simp_all add: collect_by_snoc mset_merge_entry_snoc)

section \<open>Lists\<close>

lemma distinct_map_subseteq_mset:
  assumes "image_mset f (mset xs) \<subseteq># image_mset f (mset ys)" and "distinct (map f ys)"
  shows "distinct (map f xs)"
proof -
  obtain M where M: "mset (map f ys) = mset (map f xs) + M"
    using assms(1) by (auto simp: subset_mset.le_iff_add)
  obtain zs where "mset zs = M" using ex_mset by blast
  with M have "mset (map f ys) = mset (map f xs @ zs)" by simp
  with assms(2) have "distinct (map f xs @ zs)"
    using mset_eq_imp_distinct_iff by blast
  then show ?thesis by simp
qed

lemma takeWhile_prefix: "prefix (takeWhile P xs) xs"
  by (induction xs) simp_all

lemma Min_image_snoc: "xs \<noteq> [] \<Longrightarrow> Min (f ` set (xs @ [x])) = min (Min (f ` set xs)) (f x)"
  by (simp add: min.commute)

lemma Max_image_snoc: "xs \<noteq> [] \<Longrightarrow> Max (f ` set (xs @ [x])) = max (Max (f ` set xs)) (f x)"
  by (simp add: max.commute)

text \<open>Two prefixes of one list are prefixes of each other one way or the other.\<close>

lemma prefix_total: "prefix a s \<Longrightarrow> prefix b s \<Longrightarrow> prefix a b \<or> prefix b a"
  by (rule prefix_same_cases) auto

text \<open>Writing \<open>bs\<close> over a buffer from index \<open>i\<close> on.\<close>

definition write_at :: "nat \<Rightarrow> 'a list \<Rightarrow> 'a list \<Rightarrow> 'a list" where
  "write_at i bs buf = take i buf @ bs @ drop (i + length bs) buf"

lemma length_write_at [simp]: "i + length bs \<le> length buf \<Longrightarrow> length (write_at i bs buf) = length buf"
  by (simp add: write_at_def)

section \<open>Operations that may fail\<close>

text \<open>
  An operation on mutable state that may fail answers the new state together with an error or a
  result: what was written before a failure stays. \<open>bind_io\<close> is the sequence of two operations (the
  \<open>?\<close> of Rust), \<open>fold_io\<close> a loop that ends at the first error, \<open>or_err\<close> is \<open>ok_or\<close>.
\<close>

definition bind_io ::
    "'s \<times> ('e + 'a) \<Rightarrow> ('s \<Rightarrow> 'a \<Rightarrow> 's \<times> ('e + 'b)) \<Rightarrow> 's \<times> ('e + 'b)" where
  "bind_io r f = (case r of (s, Inl e) \<Rightarrow> (s, Inl e) | (s, Inr a) \<Rightarrow> f s a)"

fun fold_io ::
    "('s \<Rightarrow> 'a \<Rightarrow> 'x \<Rightarrow> 's \<times> ('e + 'a)) \<Rightarrow> 's \<Rightarrow> 'a \<Rightarrow> 'x list \<Rightarrow> 's \<times> ('e + 'a)" where
  "fold_io f s a [] = (s, Inr a)"
| "fold_io f s a (x # xs) = bind_io (f s a x) (\<lambda>s a. fold_io f s a xs)"

lemma bind_io_simps [simp]:
  "bind_io (s, Inl e) f = (s, Inl e)" "bind_io (s, Inr a) f = f s a"
  by (simp_all add: bind_io_def)

lemma bind_io_Inr:
  "bind_io r f = (s', Inr b) \<longleftrightarrow> (\<exists>s a. r = (s, Inr a) \<and> f s a = (s', Inr b))"
  by (auto simp: bind_io_def split: prod.splits sum.splits)

lemma bind_io_assoc: "bind_io (bind_io r f) g = bind_io r (\<lambda>s a. bind_io (f s a) g)"
  by (simp add: bind_io_def split: prod.splits sum.splits)

lemma fold_io_snoc: "fold_io f s a (xs @ [x]) = bind_io (fold_io f s a xs) (\<lambda>s a. f s a x)"
proof (induction xs arbitrary: s a)
  case Nil
  then show ?case by (simp add: bind_io_def split: prod.splits sum.splits)
next
  case (Cons y xs)
  then show ?case by (simp add: bind_io_assoc)
qed

definition or_err :: "'e \<Rightarrow> 's \<Rightarrow> 'a option \<Rightarrow> 's \<times> ('e + 'a)" where
  "or_err e s x = (s, case x of None \<Rightarrow> Inl e | Some a \<Rightarrow> Inr a)"

lemma or_err_simps [simp]: "or_err e s None = (s, Inl e)" "or_err e s (Some a) = (s, Inr a)"
  by (simp_all add: or_err_def)

text \<open>The sequence of two steps of which either may fail.\<close>

definition and_then :: "'e + 'a \<Rightarrow> ('a \<Rightarrow> 'e + 'b) \<Rightarrow> 'e + 'b" where
  "and_then r f = (case r of Inl e \<Rightarrow> Inl e | Inr a \<Rightarrow> f a)"

lemma and_then_simps [simp]: "and_then (Inl e) f = Inl e" "and_then (Inr a) f = f a"
  by (simp_all add: and_then_def)

end
