(* ===== verification/RustStr.thy ===== *)
theory RustStr
  imports Prelude
begin

text \<open>
  The operations of Rust's \<open>str\<close>, integer formatting and parsing, and the byte order
  conversions that the sources use, on the byte model of text.

  \<open>rust_chars\<close> cuts the bytes of a (valid UTF-8) string into its encoded characters, so that
  the operations that work on characters (trimming, splitting at white space) see the white space
  characters outside ASCII as the library does.
\<close>

section \<open>Prefixes, suffixes, splitting and joining\<close>

definition strip_prefix :: "'a list \<Rightarrow> 'a list \<Rightarrow> 'a list option" where
  "strip_prefix p s = (if prefix p s then Some (drop (length p) s) else None)"

definition strip_suffix :: "'a list \<Rightarrow> 'a list \<Rightarrow> 'a list option" where
  "strip_suffix p s = (if suffix p s then Some (take (length s - length p) s) else None)"

fun split_by :: "('a \<Rightarrow> bool) \<Rightarrow> 'a list \<Rightarrow> 'a list list" where
  "split_by P [] = [[]]"
| "split_by P (x # xs) =
     (if P x then [] # split_by P xs
      else case split_by P xs of [] \<Rightarrow> [[x]] | y # ys \<Rightarrow> (x # y) # ys)"

abbreviation split_on :: "'a \<Rightarrow> 'a list \<Rightarrow> 'a list list" where
  "split_on c \<equiv> split_by ((=) c)"

fun join :: "'a list \<Rightarrow> 'a list list \<Rightarrow> 'a list" where
  "join sep [] = []"
| "join sep [x] = x"
| "join sep (x # y # ys) = x @ sep @ join sep (y # ys)"

fun find_idx :: "('a \<Rightarrow> bool) \<Rightarrow> 'a list \<Rightarrow> nat option" where
  "find_idx P [] = None"
| "find_idx P (x # xs) = (if P x then Some 0 else map_option Suc (find_idx P xs))"

definition rfind_idx :: "('a \<Rightarrow> bool) \<Rightarrow> 'a list \<Rightarrow> nat option" where
  "rfind_idx P xs = map_option (\<lambda>i. length xs - 1 - i) (find_idx P (rev xs))"

fun find_sub :: "'a list \<Rightarrow> 'a list \<Rightarrow> nat option" where
  "find_sub p [] = (if p = [] then Some 0 else None)"
| "find_sub p (x # xs) =
     (if prefix p (x # xs) then Some 0 else map_option Suc (find_sub p xs))"

text \<open>\<open>str::replace\<close> for a non-empty pattern.\<close>

function replace_sub :: "'a list \<Rightarrow> 'a list \<Rightarrow> 'a list \<Rightarrow> 'a list" where
  "replace_sub p r [] = []"
| "replace_sub p r (x # xs) =
     (if p \<noteq> [] \<and> prefix p (x # xs) then r @ replace_sub p r (drop (length p) (x # xs))
      else x # replace_sub p r xs)"
  by pat_completeness auto
termination
  by (relation "measure (\<lambda>(p, r, s). length s)") auto

definition trim_end_matches :: "('a \<Rightarrow> bool) \<Rightarrow> 'a list \<Rightarrow> 'a list" where
  "trim_end_matches P s = rev (dropWhile P (rev s))"

definition newline :: char where "newline = CHR 0x0A"
definition carriage_return :: char where "carriage_return = CHR 0x0D"
definition nul :: char where "nul = CHR 0x00"

definition rust_lines :: "string \<Rightarrow> string list" where
  "rust_lines s =
     (let ps = split_on newline s;
          strip = (\<lambda>l. case strip_suffix [carriage_return] l of None \<Rightarrow> l | Some l' \<Rightarrow> l')
      in map strip (butlast ps) @ (if last ps = [] then [] else [last ps]))"

lemma strip_prefix_append [simp, str_simps]: "strip_prefix p (p @ s) = Some s"
  by (simp add: strip_prefix_def)

lemma strip_suffix_append [simp, str_simps]: "strip_suffix p (s @ p) = Some s"
  by (simp add: strip_suffix_def suffix_def)

lemma strip_prefix_Some: "strip_prefix p s = Some r \<longleftrightarrow> s = p @ r"
  by (auto simp: strip_prefix_def prefix_def split: if_splits)

lemma strip_suffix_Some: "strip_suffix p s = Some r \<longleftrightarrow> s = r @ p"
  by (auto simp: strip_suffix_def suffix_def split: if_splits)

lemma split_by_not_Nil [simp]: "split_by P s \<noteq> []"
  by (induction s) (auto split: list.splits)

lemma split_by_none: "\<forall>x \<in> set s. \<not> P x \<Longrightarrow> split_by P s = [s]"
  by (induction s) auto

lemma split_by_append: "\<forall>x \<in> set a. \<not> P x \<Longrightarrow> P c \<Longrightarrow> split_by P (a @ c # s) = a # split_by P s"
  by (induction a) auto

lemma split_by_append_sep: "P c \<Longrightarrow> split_by P (a @ c # b) = split_by P a @ split_by P b"
  by (induction a) (auto split: list.splits)

lemma split_by_parts: "p \<in> set (split_by P s) \<Longrightarrow> x \<in> set p \<Longrightarrow> x \<in> set s \<and> \<not> P x"
  by (induction s arbitrary: p) (force split: if_splits list.splits)+

lemma join_Cons: "xs \<noteq> [] \<Longrightarrow> join sep (x # xs) = x @ sep @ join sep xs"
  by (cases xs) simp_all

lemma join_split [simp]: "join [c] (split_on c s) = s"
proof (induction s)
  case (Cons x s)
  then show ?case
    by (auto simp: join_Cons split: list.splits) (case_tac x22; simp)
qed simp

lemma split_join:
  "xs \<noteq> [] \<Longrightarrow> \<forall>x \<in> set xs. c \<notin> set x \<Longrightarrow> split_on c (join [c] xs) = xs"
proof (induction "[c]" xs rule: join.induct)
  case (2 x)
  then show ?case by (auto intro!: split_by_none)
next
  case (3 x y ys)
  have "\<forall>z \<in> set x. \<not> c = z" using 3 by auto
  then have "split_on c (x @ c # join [c] (y # ys)) = x # split_on c (join [c] (y # ys))"
    by (rule split_by_append) simp
  then show ?case using 3 by simp
qed simp

lemma find_idx_Some:
  "find_idx P xs = Some i \<Longrightarrow> i < length xs \<and> P (xs ! i) \<and> (\<forall>j < i. \<not> P (xs ! j))"
proof (induction xs arbitrary: i)
  case (Cons x xs)
  then show ?case
    by (auto simp: nth_Cons split: if_splits nat.splits)
qed simp

lemma find_idx_None: "find_idx P xs = None \<longleftrightarrow> (\<forall>x \<in> set xs. \<not> P x)"
  by (induction xs) auto

lemma find_idx_append: "\<forall>x \<in> set a. \<not> P x \<Longrightarrow> P c \<Longrightarrow> find_idx P (a @ c # s) = Some (length a)"
  by (induction a) auto

lemma rfind_idx_append:
  "\<forall>x \<in> set b. \<not> P x \<Longrightarrow> P c \<Longrightarrow> rfind_idx P (a @ c # b) = Some (length a)"
  by (simp add: rfind_idx_def find_idx_append)

lemma rfind_idx_Some:
  assumes "rfind_idx P xs = Some i"
  shows "\<exists>a c b. xs = a @ c # b \<and> length a = i \<and> P c \<and> (\<forall>x \<in> set b. \<not> P x)"
proof -
  from assms obtain j where j: "find_idx P (rev xs) = Some j" and i: "i = length xs - 1 - j"
    by (auto simp: rfind_idx_def)
  from find_idx_Some [OF j] have jl: "j < length xs" and pj: "P (rev xs ! j)"
    and min: "\<forall>k < j. \<not> P (rev xs ! k)" by auto
  have il: "i < length xs" using jl i by simp
  have "xs = take i xs @ xs ! i # drop (Suc i) xs" using il by (rule id_take_nth_drop)
  moreover have "P (xs ! i)" using pj jl i by (simp add: rev_nth)
  moreover have "\<forall>x \<in> set (drop (Suc i) xs). \<not> P x"
  proof
    fix x assume "x \<in> set (drop (Suc i) xs)"
    then obtain k where k: "k < length xs - Suc i" and x: "x = xs ! (Suc i + k)"
      by (auto simp: in_set_conv_nth)
    have "length xs - Suc (Suc i + k) < j" using k jl i by simp
    with min have "\<not> P (rev xs ! (length xs - Suc (Suc i + k)))" by blast
    moreover have "rev xs ! (length xs - Suc (Suc i + k)) = xs ! (Suc i + k)"
      using k by (subst rev_nth) auto
    ultimately show "\<not> P x" using x by simp
  qed
  ultimately show ?thesis using il
    by (metis length_take min.absorb4 order_less_imp_le)
qed

section \<open>Characters and white space\<close>

definition utf8_width :: "char \<Rightarrow> nat" where
  "utf8_width c =
     (let n = of_char c :: nat in
      if n < 0x80 then 1 else if n < 0xE0 then 2 else if n < 0xF0 then 3 else 4)"

fun rust_chars :: "string \<Rightarrow> string list" where
  "rust_chars [] = []"
| "rust_chars (c # cs) =
     (c # take (utf8_width c - 1) cs) # rust_chars (drop (utf8_width c - 1) cs)"

text \<open>The encodings of the characters with the Unicode property White\_Space.\<close>

definition utf8_white_space :: "string list" where
  "utf8_white_space =
     [[CHR 0x09], [CHR 0x0A], [CHR 0x0B], [CHR 0x0C], [CHR 0x0D], [CHR 0x20],
      [CHR 0xC2, CHR 0x85], [CHR 0xC2, CHR 0xA0], [CHR 0xE1, CHR 0x9A, CHR 0x80],
      [CHR 0xE2, CHR 0x80, CHR 0x80], [CHR 0xE2, CHR 0x80, CHR 0x81],
      [CHR 0xE2, CHR 0x80, CHR 0x82], [CHR 0xE2, CHR 0x80, CHR 0x83],
      [CHR 0xE2, CHR 0x80, CHR 0x84], [CHR 0xE2, CHR 0x80, CHR 0x85],
      [CHR 0xE2, CHR 0x80, CHR 0x86], [CHR 0xE2, CHR 0x80, CHR 0x87],
      [CHR 0xE2, CHR 0x80, CHR 0x88], [CHR 0xE2, CHR 0x80, CHR 0x89],
      [CHR 0xE2, CHR 0x80, CHR 0x8A], [CHR 0xE2, CHR 0x80, CHR 0xA8],
      [CHR 0xE2, CHR 0x80, CHR 0xA9], [CHR 0xE2, CHR 0x80, CHR 0xAF],
      [CHR 0xE2, CHR 0x81, CHR 0x9F], [CHR 0xE3, CHR 0x80, CHR 0x80]]"

definition is_ws :: "string \<Rightarrow> bool" where
  "is_ws ch = (ch \<in> set utf8_white_space)"

definition trim_start :: "string \<Rightarrow> string" where
  "trim_start s = concat (dropWhile is_ws (rust_chars s))"

definition trim_end :: "string \<Rightarrow> string" where
  "trim_end s = concat (trim_end_matches is_ws (rust_chars s))"

definition trim :: "string \<Rightarrow> string" where
  "trim s = trim_end (trim_start s)"

definition split_whitespace :: "string \<Rightarrow> string list" where
  "split_whitespace s = map concat (filter (\<lambda>t. t \<noteq> []) (split_by is_ws (rust_chars s)))"

definition split_once_ws :: "string \<Rightarrow> (string \<times> string) option" where
  "split_once_ws s =
     (case dropWhile (\<lambda>ch. \<not> is_ws ch) (rust_chars s) of
        [] \<Rightarrow> None
      | w # r \<Rightarrow> Some (concat (takeWhile (\<lambda>ch. \<not> is_ws ch) (rust_chars s)), concat r))"

text \<open>The text before the last white space character, that character, and the text after it.\<close>

definition rsplit_ws :: "string \<Rightarrow> (string \<times> string \<times> string) option" where
  "rsplit_ws s =
     (case dropWhile (\<lambda>ch. \<not> is_ws ch) (rev (rust_chars s)) of
        [] \<Rightarrow> None
      | w # r \<Rightarrow>
          Some (concat (rev r), w, concat (rev (takeWhile (\<lambda>ch. \<not> is_ws ch) (rev (rust_chars s))))))"

definition is_ascii :: "char \<Rightarrow> bool" where
  "is_ascii c = ((of_char c :: nat) < 0x80)"

lemma concat_rust_chars [simp]: "concat (rust_chars s) = s"
  by (induction s rule: rust_chars.induct) auto

lemma rust_chars_ascii: "\<forall>c \<in> set s. is_ascii c \<Longrightarrow> rust_chars s = map (\<lambda>c. [c]) s"
  by (induction s) (auto simp: is_ascii_def utf8_width_def)

text \<open>A byte of ASCII text that is not white space.\<close>

definition plain_char :: "char \<Rightarrow> bool" where
  "plain_char c = (is_ascii c \<and> \<not> is_ws [c])"

section \<open>String::from_utf8_lossy\<close>

text \<open>
  The ranges that the bytes after a leading byte must lie in; \<open>None\<close> for a byte that cannot lead. A
  sequence that breaks off is replaced, as far as it went, by one U+FFFD.
\<close>

definition utf8_tail :: "nat \<Rightarrow> (nat \<times> nat) list option" where
  "utf8_tail b =
     (if b < 0x80 then Some []
      else if 0xC2 \<le> b \<and> b \<le> 0xDF then Some [(0x80, 0xBF)]
      else if b = 0xE0 then Some [(0xA0, 0xBF), (0x80, 0xBF)]
      else if b = 0xED then Some [(0x80, 0x9F), (0x80, 0xBF)]
      else if 0xE1 \<le> b \<and> b \<le> 0xEF then Some [(0x80, 0xBF), (0x80, 0xBF)]
      else if b = 0xF0 then Some [(0x90, 0xBF), (0x80, 0xBF), (0x80, 0xBF)]
      else if 0xF1 \<le> b \<and> b \<le> 0xF3 then Some [(0x80, 0xBF), (0x80, 0xBF), (0x80, 0xBF)]
      else if b = 0xF4 then Some [(0x80, 0x8F), (0x80, 0xBF), (0x80, 0xBF)]
      else None)"

fun matched_tail :: "(nat \<times> nat) list \<Rightarrow> string \<Rightarrow> nat" where
  "matched_tail ((lo, hi) # rs) (c # cs) =
     (if lo \<le> of_char c \<and> of_char c \<le> hi then Suc (matched_tail rs cs) else 0)"
| "matched_tail _ _ = 0"

definition replacement_char :: string where
  "replacement_char = [char_of (0xEF :: nat), char_of (0xBF :: nat), char_of (0xBD :: nat)]"

function from_utf8_lossy :: "string \<Rightarrow> string" where
  "from_utf8_lossy [] = []"
| "from_utf8_lossy (c # cs) =
     (case utf8_tail (of_char c) of
        None \<Rightarrow> replacement_char @ from_utf8_lossy cs
      | Some rs \<Rightarrow>
          (let n = matched_tail rs cs in
           (if n = length rs then c # take n cs else replacement_char) @ from_utf8_lossy (drop n cs)))"
  by pat_completeness auto
termination
  by (relation "measure length") auto

lemma from_utf8_lossy_ascii: "\<forall>c \<in> set s. is_ascii c \<Longrightarrow> from_utf8_lossy s = s"
  by (induction s) (auto simp: is_ascii_def utf8_tail_def)

section \<open>Numbers\<close>

definition digit_char :: "nat \<Rightarrow> char" where
  "digit_char d = char_of (48 + d)"

fun show_nat :: "nat \<Rightarrow> string" where
  "show_nat n = (if n < 10 then [digit_char n] else show_nat (n div 10) @ [digit_char (n mod 10)])"

declare show_nat.simps [simp del]

definition show_int :: "int \<Rightarrow> string" where
  "show_int i = (if i < 0 then ''-'' @ show_nat (nat (- i)) else show_nat (nat i))"

definition is_digit :: "char \<Rightarrow> bool" where
  "is_digit c = (CHR ''0'' \<le> c \<and> c \<le> CHR ''9'')"

definition digit_val :: "char \<Rightarrow> nat" where
  "digit_val c = of_char c - 48"

definition nat_of_digits :: "string \<Rightarrow> nat" where
  "nat_of_digits s = foldl (\<lambda>n c. 10 * n + digit_val c) 0 s"

text \<open>
  \<open>str::parse\<close> for an unsigned type with values below \<open>bound\<close>: an optional plus sign, then at
  least one digit, and no overflow.
\<close>

definition parse_uint :: "nat \<Rightarrow> string \<Rightarrow> nat option" where
  "parse_uint bound s =
     (let ds = (case s of c # cs \<Rightarrow> if c = CHR ''+'' \<and> cs \<noteq> [] then cs else s | [] \<Rightarrow> [])
      in if ds = [] \<or> \<not> list_all is_digit ds then None
         else if nat_of_digits ds < bound then Some (nat_of_digits ds) else None)"

definition parse_u8 :: "string \<Rightarrow> u8 option" where
  "parse_u8 s = map_option of_nat (parse_uint (2 ^ 8) s)"

definition parse_u32 :: "string \<Rightarrow> u32 option" where
  "parse_u32 s = map_option of_nat (parse_uint (2 ^ 32) s)"

lemma of_char_digit_char: "d < 10 \<Longrightarrow> (of_char (digit_char d) :: nat) = 48 + d"
  by (simp add: digit_char_def)

lemma digit_val_char [simp]: "d < 10 \<Longrightarrow> digit_val (digit_char d) = d"
  by (simp add: digit_val_def of_char_digit_char)

lemma is_digit_char [simp]: "d < 10 \<Longrightarrow> is_digit (digit_char d)"
  by (simp add: is_digit_def less_eq_char_def of_char_digit_char)

lemma show_nat_not_Nil [simp]: "show_nat n \<noteq> []"
  by (subst show_nat.simps) simp

lemma show_nat_digits: "c \<in> set (show_nat n) \<Longrightarrow> is_digit c"
proof (induction n rule: show_nat.induct)
  case (1 n)
  then show ?case
    by (cases "n < 10") (auto simp: show_nat.simps [of n])
qed

lemma nat_of_digits_snoc: "nat_of_digits (s @ [c]) = 10 * nat_of_digits s + digit_val c"
  by (simp add: nat_of_digits_def)

lemma nat_of_digits_show [simp]: "nat_of_digits (show_nat n) = n"
proof (induction n rule: show_nat.induct)
  case (1 n)
  show ?case
  proof (cases "n < 10")
    case True
    then show ?thesis by (simp add: show_nat.simps [of n] nat_of_digits_def)
  next
    case False
    with 1 have "nat_of_digits (show_nat (n div 10)) = n div 10" by simp
    with False show ?thesis
      by (simp add: show_nat.simps [of n] nat_of_digits_snoc)
  qed
qed

lemma is_digit_not_plus: "is_digit c \<Longrightarrow> c \<noteq> CHR ''+''"
  by (auto simp: is_digit_def less_eq_char_def)

lemma parse_uint_show: "n < b \<Longrightarrow> parse_uint b (show_nat n) = Some n"
proof -
  assume n: "n < b"
  obtain c cs where s: "show_nat n = c # cs" by (cases "show_nat n") auto
  then have "c \<noteq> CHR ''+''"
    using show_nat_digits [of c n] is_digit_not_plus by auto
  moreover have "list_all is_digit (show_nat n)"
    by (simp add: list_all_iff show_nat_digits)
  moreover have "nat_of_digits (c # cs) = n" using s nat_of_digits_show [of n] by simp
  ultimately show ?thesis using n s by (simp add: parse_uint_def Let_def)
qed

lemma parse_u8_show [simp]: "parse_u8 (show_nat (unat (w :: u8))) = Some w"
proof -
  have "unat w < 2 ^ 8" using unsigned_less [of w] by simp
  then show ?thesis by (simp add: parse_u8_def parse_uint_show)
qed

lemma parse_u32_show [simp]: "parse_u32 (show_nat (unat (w :: u32))) = Some w"
proof -
  have "unat w < 2 ^ 32" using unsigned_less [of w] by simp
  then show ?thesis by (simp add: parse_u32_def parse_uint_show)
qed

section \<open>Byte order\<close>

definition to_le_bytes :: "u32 \<Rightarrow> u8 \<times> u8 \<times> u8 \<times> u8" where
  "to_le_bytes w = (ucast w, ucast (drop_bit 8 w), ucast (drop_bit 16 w), ucast (drop_bit 24 w))"

definition from_le_bytes :: "u8 \<Rightarrow> u8 \<Rightarrow> u8 \<Rightarrow> u8 \<Rightarrow> u32" where
  "from_le_bytes a b c d =
     ucast a OR push_bit 8 (ucast b) OR push_bit 16 (ucast c) OR push_bit 24 (ucast d)"

lemma from_to_le_bytes:
  assumes "to_le_bytes w = (a, b, c, d)"
  shows "from_le_bytes a b c d = w"
proof (rule bit_word_eqI)
  fix n assume n: "n < LENGTH(32)"
  have abcd: "a = ucast w" "b = ucast (drop_bit 8 w)" "c = ucast (drop_bit 16 w)"
    "d = ucast (drop_bit 24 w)" using assms by (auto simp: to_le_bytes_def)
  consider "n < 8" | "8 \<le> n" "n < 16" | "16 \<le> n" "n < 24" | "24 \<le> n" "n < 32"
    using n by (simp, linarith)
  then show "bit (from_le_bytes a b c d) n = bit w n"
    by (cases; auto simp: abcd from_le_bytes_def bit_simps; linarith?)
qed

end
