(* ===== verification/PathPattern.thy ===== *)
theory PathPattern
  imports RustStr
begin

text \<open>
  The path classes of \<open>ebpf-mon-common/src/fs.rs\<close>: the \<open>PathPattern\<close> enum with its \<open>repr(u8)\<close>
  discriminants, the wildcard string of each class, the variant names that serde and \<open>Debug\<close>
  print, and the \<open>FileOperation\<close> enum. Every class is determined by its discriminant, its name
  and its wildcard string alike.
\<close>

datatype PathPattern =
    Regular | ProcPidCmdline | ProcPidComm | ProcPidCwd | ProcPidEnviron |
    ProcPidExe | ProcPidFd | ProcPidMaps | ProcPidMem | ProcPidMountinfo |
    ProcPidMounts | ProcPidNet | ProcPidNs | ProcPidRoot | ProcPidStat |
    ProcPidStatus | ProcPidTask | ProcPidCgroup | ProcPidOther | ProcSelf |
    ProcGlobal | ProcGlobalSys | ProcGlobalNet | SysCgroupDocker | SysCgroupOther |
    SysClassNet | SysOther | RunDocker | RunUser | RunOther |
    DevPts | DevShm | DevOther | TmpRandom | TmpOther

datatype FileOperation = READ | WRITE | OPEN | STAT | OTHER

primrec file_op_u8 :: "FileOperation \<Rightarrow> u8" where
  "file_op_u8 READ = 0"
| "file_op_u8 WRITE = 1"
| "file_op_u8 OPEN = 2"
| "file_op_u8 STAT = 3"
| "file_op_u8 OTHER = 4"

text \<open>\<open>pattern as u8\<close>\<close>

primrec pattern_u8 :: "PathPattern \<Rightarrow> u8" where
  "pattern_u8 Regular = 0"
| "pattern_u8 ProcPidCmdline = 1"
| "pattern_u8 ProcPidComm = 2"
| "pattern_u8 ProcPidCwd = 3"
| "pattern_u8 ProcPidEnviron = 4"
| "pattern_u8 ProcPidExe = 5"
| "pattern_u8 ProcPidFd = 6"
| "pattern_u8 ProcPidMaps = 7"
| "pattern_u8 ProcPidMem = 8"
| "pattern_u8 ProcPidMountinfo = 9"
| "pattern_u8 ProcPidMounts = 10"
| "pattern_u8 ProcPidNet = 11"
| "pattern_u8 ProcPidNs = 12"
| "pattern_u8 ProcPidRoot = 13"
| "pattern_u8 ProcPidStat = 14"
| "pattern_u8 ProcPidStatus = 15"
| "pattern_u8 ProcPidTask = 16"
| "pattern_u8 ProcPidCgroup = 17"
| "pattern_u8 ProcPidOther = 18"
| "pattern_u8 ProcSelf = 20"
| "pattern_u8 ProcGlobal = 30"
| "pattern_u8 ProcGlobalSys = 31"
| "pattern_u8 ProcGlobalNet = 32"
| "pattern_u8 SysCgroupDocker = 40"
| "pattern_u8 SysCgroupOther = 41"
| "pattern_u8 SysClassNet = 42"
| "pattern_u8 SysOther = 43"
| "pattern_u8 RunDocker = 50"
| "pattern_u8 RunUser = 51"
| "pattern_u8 RunOther = 52"
| "pattern_u8 DevPts = 60"
| "pattern_u8 DevShm = 61"
| "pattern_u8 DevOther = 62"
| "pattern_u8 TmpRandom = 70"
| "pattern_u8 TmpOther = 71"

primrec as_str :: "PathPattern \<Rightarrow> string" where
  "as_str Regular = ''<regular>''"
| "as_str ProcPidCmdline = ''/proc/*/cmdline''"
| "as_str ProcPidComm = ''/proc/*/comm''"
| "as_str ProcPidCwd = ''/proc/*/cwd''"
| "as_str ProcPidEnviron = ''/proc/*/environ''"
| "as_str ProcPidExe = ''/proc/*/exe''"
| "as_str ProcPidFd = ''/proc/*/fd/*''"
| "as_str ProcPidMaps = ''/proc/*/maps''"
| "as_str ProcPidMem = ''/proc/*/mem''"
| "as_str ProcPidMountinfo = ''/proc/*/mountinfo''"
| "as_str ProcPidMounts = ''/proc/*/mounts''"
| "as_str ProcPidNet = ''/proc/*/net/*''"
| "as_str ProcPidNs = ''/proc/*/ns/*''"
| "as_str ProcPidRoot = ''/proc/*/root''"
| "as_str ProcPidStat = ''/proc/*/stat''"
| "as_str ProcPidStatus = ''/proc/*/status''"
| "as_str ProcPidTask = ''/proc/*/task/*''"
| "as_str ProcPidCgroup = ''/proc/*/cgroup''"
| "as_str ProcPidOther = ''/proc/*/<other>''"
| "as_str ProcSelf = ''/proc/self/*''"
| "as_str ProcGlobal = ''/proc/<global>''"
| "as_str ProcGlobalSys = ''/proc/sys/**''"
| "as_str ProcGlobalNet = ''/proc/net/*''"
| "as_str SysCgroupDocker = ''/sys/fs/cgroup/**/docker/**''"
| "as_str SysCgroupOther = ''/sys/fs/cgroup/**''"
| "as_str SysClassNet = ''/sys/class/net/*''"
| "as_str SysOther = ''/sys/**''"
| "as_str RunDocker = ''/run/docker/**''"
| "as_str RunUser = ''/run/user/*/**''"
| "as_str RunOther = ''/run/**''"
| "as_str DevPts = ''/dev/pts/*''"
| "as_str DevShm = ''/dev/shm/*''"
| "as_str DevOther = ''/dev/*''"
| "as_str TmpRandom = ''/tmp/tmp*/**''"
| "as_str TmpOther = ''/tmp/**''"

text \<open>The variant names, which \<open>derive(Serialize, Deserialize)\<close> and \<open>derive(Debug)\<close> use.\<close>

primrec variant_name :: "PathPattern \<Rightarrow> string" where
  "variant_name Regular = ''Regular''"
| "variant_name ProcPidCmdline = ''ProcPidCmdline''"
| "variant_name ProcPidComm = ''ProcPidComm''"
| "variant_name ProcPidCwd = ''ProcPidCwd''"
| "variant_name ProcPidEnviron = ''ProcPidEnviron''"
| "variant_name ProcPidExe = ''ProcPidExe''"
| "variant_name ProcPidFd = ''ProcPidFd''"
| "variant_name ProcPidMaps = ''ProcPidMaps''"
| "variant_name ProcPidMem = ''ProcPidMem''"
| "variant_name ProcPidMountinfo = ''ProcPidMountinfo''"
| "variant_name ProcPidMounts = ''ProcPidMounts''"
| "variant_name ProcPidNet = ''ProcPidNet''"
| "variant_name ProcPidNs = ''ProcPidNs''"
| "variant_name ProcPidRoot = ''ProcPidRoot''"
| "variant_name ProcPidStat = ''ProcPidStat''"
| "variant_name ProcPidStatus = ''ProcPidStatus''"
| "variant_name ProcPidTask = ''ProcPidTask''"
| "variant_name ProcPidCgroup = ''ProcPidCgroup''"
| "variant_name ProcPidOther = ''ProcPidOther''"
| "variant_name ProcSelf = ''ProcSelf''"
| "variant_name ProcGlobal = ''ProcGlobal''"
| "variant_name ProcGlobalSys = ''ProcGlobalSys''"
| "variant_name ProcGlobalNet = ''ProcGlobalNet''"
| "variant_name SysCgroupDocker = ''SysCgroupDocker''"
| "variant_name SysCgroupOther = ''SysCgroupOther''"
| "variant_name SysClassNet = ''SysClassNet''"
| "variant_name SysOther = ''SysOther''"
| "variant_name RunDocker = ''RunDocker''"
| "variant_name RunUser = ''RunUser''"
| "variant_name RunOther = ''RunOther''"
| "variant_name DevPts = ''DevPts''"
| "variant_name DevShm = ''DevShm''"
| "variant_name DevOther = ''DevOther''"
| "variant_name TmpRandom = ''TmpRandom''"
| "variant_name TmpOther = ''TmpOther''"

text \<open>The classes in the order of their declaration.\<close>

definition all_patterns :: "PathPattern list" where
  "all_patterns =
    [Regular, ProcPidCmdline, ProcPidComm, ProcPidCwd, ProcPidEnviron,
     ProcPidExe, ProcPidFd, ProcPidMaps, ProcPidMem, ProcPidMountinfo,
     ProcPidMounts, ProcPidNet, ProcPidNs, ProcPidRoot, ProcPidStat,
     ProcPidStatus, ProcPidTask, ProcPidCgroup, ProcPidOther, ProcSelf,
     ProcGlobal, ProcGlobalSys, ProcGlobalNet, SysCgroupDocker, SysCgroupOther,
     SysClassNet, SysOther, RunDocker, RunUser, RunOther,
     DevPts, DevShm, DevOther, TmpRandom, TmpOther]"

definition pattern_of_name :: "string \<Rightarrow> PathPattern option" where
  "pattern_of_name s = find (\<lambda>p. variant_name p = s) all_patterns"

definition pattern_of_u8 :: "u8 \<Rightarrow> PathPattern option" where
  "pattern_of_u8 w = find (\<lambda>p. pattern_u8 p = w) all_patterns"

lemma all_patterns_complete [simp]: "p \<in> set all_patterns"
  by (cases p) (simp_all add: all_patterns_def)

lemma find_injective:
  assumes "distinct (map f xs)" and "x \<in> set xs"
  shows "find (\<lambda>y. f y = f x) xs = Some x"
  using assms by (induction xs) (auto simp: rev_image_eqI)

lemma distinct_discriminants: "distinct (map pattern_u8 all_patterns)"
  by (simp add: all_patterns_def)

lemma distinct_variant_names: "distinct (map variant_name all_patterns)"
  by (simp add: all_patterns_def)

lemma distinct_wildcards: "distinct (map as_str all_patterns)"
  by (simp add: all_patterns_def)

lemma pattern_of_u8_inverse [simp]: "pattern_of_u8 (pattern_u8 p) = Some p"
  by (simp add: pattern_of_u8_def find_injective distinct_discriminants)

lemma pattern_of_name_inverse [simp]: "pattern_of_name (variant_name p) = Some p"
  by (simp add: pattern_of_name_def find_injective distinct_variant_names)

lemma pattern_u8_inject [simp]: "pattern_u8 p = pattern_u8 q \<longleftrightarrow> p = q"
  by (metis option.inject pattern_of_u8_inverse)

lemma variant_name_inject [simp]: "variant_name p = variant_name q \<longleftrightarrow> p = q"
  by (metis option.inject pattern_of_name_inverse)

lemma as_str_inject [simp]: "as_str p = as_str q \<longleftrightarrow> p = q"
proof
  assume eq: "as_str p = as_str q"
  have "inj_on as_str (set all_patterns)"
    using distinct_wildcards by (simp add: distinct_map)
  then show "p = q" using eq all_patterns_complete by (meson inj_onD)
qed simp

lemma file_op_u8_inject [simp]: "file_op_u8 a = file_op_u8 b \<longleftrightarrow> a = b"
  by (cases a; cases b) simp_all

text \<open>The classes are ordered by their discriminants.\<close>

instantiation PathPattern :: linorder
begin

definition less_eq_PathPattern :: "PathPattern \<Rightarrow> PathPattern \<Rightarrow> bool" where
  "p \<le> q \<longleftrightarrow> pattern_u8 p \<le> pattern_u8 q"

definition less_PathPattern :: "PathPattern \<Rightarrow> PathPattern \<Rightarrow> bool" where
  "p < q \<longleftrightarrow> pattern_u8 p < pattern_u8 q"

instance
  by standard (auto simp: less_eq_PathPattern_def less_PathPattern_def less_le)

end

end
