(* ===== verification/PolicyTypes.thy ===== *)
theory PolicyTypes
  imports PathPattern
begin

text \<open>
  \<open>ebpf-mon-common/src/policy/types.rs\<close>: the keys and values that the loader and the kernel hooks
  exchange through the BPF maps, the FNV-1a hash that both sides compute over a path, and the
  verdict byte.

  The hash stops at the first NUL byte. Only the bytes before it matter, which is what lets the
  kernel side hash a slice of a larger buffer (\<open>fnv1a_take\<close>).
\<close>

definition ACCESS_READ :: u8 where "ACCESS_READ = push_bit 0 1"
definition ACCESS_WRITE :: u8 where "ACCESS_WRITE = push_bit 1 1"
definition O_ACCMODE :: u32 where "O_ACCMODE = 3"

definition FNV_OFFSET_BASIS :: u64 where "FNV_OFFSET_BASIS = 0xcbf29ce484222325"
definition FNV_PRIME :: u64 where "FNV_PRIME = 0x100000001b3"

definition byte_of :: "char \<Rightarrow> u8" where
  "byte_of c = of_nat (of_char c)"

text \<open>One iteration of the loop, and the loop over the bytes that are left.\<close>

definition fnv1a_step :: "u64 \<Rightarrow> char \<Rightarrow> u64" where
  "fnv1a_step hash c = (hash XOR ucast (byte_of c)) * FNV_PRIME"

fun fnv1a_loop :: "u64 \<Rightarrow> string \<Rightarrow> u64" where
  "fnv1a_loop hash [] = hash"
| "fnv1a_loop hash (c # cs) = (if c = nul then hash else fnv1a_loop (fnv1a_step hash c) cs)"

definition fnv1a_hash_bytes :: "string \<Rightarrow> u64" where
  "fnv1a_hash_bytes data = fnv1a_loop FNV_OFFSET_BASIS data"

lemma fnv1a_loop_foldl: "fnv1a_loop h s = foldl fnv1a_step h (takeWhile (\<lambda>c. c \<noteq> nul) s)"
  by (induction h s rule: fnv1a_loop.induct) auto

lemma fnv1a_takeWhile: "fnv1a_hash_bytes (takeWhile (\<lambda>c. c \<noteq> nul) s) = fnv1a_hash_bytes s"
  by (simp add: fnv1a_hash_bytes_def fnv1a_loop_foldl takeWhile_idem)

lemma fnv1a_padding: "nul \<notin> set s \<Longrightarrow> fnv1a_hash_bytes (s @ nul # t) = fnv1a_hash_bytes s"
  by (simp add: fnv1a_hash_bytes_def fnv1a_loop_foldl takeWhile_tail)

section \<open>Keys and values of the maps\<close>

record InodeKey =
  ik_cgroup_id :: u64
  ik_inode :: u64

record PathPolicyKey =
  pk_cgroup_id :: u64
  pk_path_hash :: u64

record PatternKey =
  tk_cgroup_id :: u64
  tk_pattern :: u8
  tk_action :: u8

record PolicyConfig =
  pc_default_action :: u8
  pc_audit_only :: u8

record NetPolicyKey =
  nk_cgroup_id :: u64
  nk_dst_ip :: u32
  nk_dst_port :: u32
  nk_protocol :: u8

definition PREFIX_MAX_LEN :: nat where "PREFIX_MAX_LEN = 128"

record PrefixEntry =
  pe_prefix :: string
  pe_prefix_len :: u32
  pe_verdict :: u8

section \<open>Verdict bytes and actions\<close>

datatype VerdictValue = VV_Deny | VV_Allow | VV_Audit

primrec verdict_u8 :: "VerdictValue \<Rightarrow> u8" where
  "verdict_u8 VV_Deny = 0"
| "verdict_u8 VV_Allow = 1"
| "verdict_u8 VV_Audit = 2"

primrec to_return_code :: "VerdictValue \<Rightarrow> int" where
  "to_return_code VV_Deny = -1"
| "to_return_code VV_Allow = 0"
| "to_return_code VV_Audit = 0"

definition verdict_from_u8 :: "u8 \<Rightarrow> VerdictValue" where
  "verdict_from_u8 v = (if v = 0 then VV_Deny else if v = 1 then VV_Allow else VV_Audit)"

datatype PolicyAction =
  PA_FileOpen | PA_FileRead | PA_FileWrite | PA_NetConnect | PA_NetBind | PA_ProcExec | PA_ProcFork

primrec action_u8 :: "PolicyAction \<Rightarrow> u8" where
  "action_u8 PA_FileOpen = 0"
| "action_u8 PA_FileRead = 1"
| "action_u8 PA_FileWrite = 2"
| "action_u8 PA_NetConnect = 3"
| "action_u8 PA_NetBind = 4"
| "action_u8 PA_ProcExec = 5"
| "action_u8 PA_ProcFork = 6"

lemma verdict_from_u8_inverse [simp]: "verdict_from_u8 (verdict_u8 v) = v"
  by (cases v) (simp_all add: verdict_from_u8_def)

lemma return_code_from_u8: "to_return_code (verdict_from_u8 w) = (if w = 0 then -1 else 0)"
  by (simp add: verdict_from_u8_def)

lemma action_u8_inject [simp]: "action_u8 a = action_u8 b \<longleftrightarrow> a = b"
  by (cases a; cases b) simp_all

end
