(* ===== verification/PolicyIR.thy ===== *)
theory PolicyIR
  imports PolicyTypes
begin

text \<open>
  \<open>ebpf-mon-common/src/policy/ir.rs\<close>: the intermediate representation of a policy (behaviour rules
  over subjects, objects and actions) and \<open>FilePattern::relation_to\<close>, the containment primitive
  of the optimization passes.

  The contract of \<open>relation_to\<close> is stated in the locale \<open>glob_semantics\<close>: whatever a
  classified glob matches, as long as every match of it begins with the literal root of its
  wildcard string, \<open>Superset\<close>, \<open>Subset\<close> and \<open>Equal\<close> are only answered when the match sets are so
  related, and \<open>Disjoint\<close> only when no path matches both patterns. The theories \<open>GlobMatch\<close> and
  \<open>Classify\<close> interpret it.
\<close>

section \<open>Rules\<close>

type_synonym RuleId = u64

datatype ContainerRef = Name string | CgroupPath string | CgroupId u64

datatype BinaryRef = Path string | Comm "u8 list"

record Subject =
  sub_container :: "ContainerRef option"
  sub_binary :: "BinaryRef option"
  sub_uid :: "u32 option"

datatype FilePattern = Classified PathPattern | ExactPath string | Prefix string

record FileObject =
  fo_pattern :: FilePattern
  fo_is_sensitive :: bool

record NetworkObject =
  no_dst_ip :: "u32 option"
  no_dst_port :: "u32 option"
  no_protocol :: "u8 option"
  no_direction :: "u8 option"

record ProcessObject =
  po_binary :: BinaryRef

datatype Object = File FileObject | Network NetworkObject | Process ProcessObject

datatype Action = FileOpen | FileRead | FileWrite | NetConnect | NetBind | ProcExec | ProcFork

primrec to_policy_action :: "Action \<Rightarrow> PolicyAction" where
  "to_policy_action FileOpen = PA_FileOpen"
| "to_policy_action FileRead = PA_FileRead"
| "to_policy_action FileWrite = PA_FileWrite"
| "to_policy_action NetConnect = PA_NetConnect"
| "to_policy_action NetBind = PA_NetBind"
| "to_policy_action ProcExec = PA_ProcExec"
| "to_policy_action ProcFork = PA_ProcFork"

datatype Verdict = Allow | Deny | Audit

datatype SourceModule = Fs | Net | Proc

text \<open>\<open>f32\<close> values are kept as their 32-bit patterns.\<close>

type_synonym f32 = u32

record RuleMetadata =
  source_module :: SourceModule
  observation_count :: u64
  confidence :: f32
  first_seen :: u64
  last_seen :: u64

record BehaviorRule =
  r_id :: RuleId
  r_subject :: Subject
  r_object :: Object
  r_action :: Action
  r_verdict :: Verdict
  r_metadata :: RuleMetadata

definition signature :: "BehaviorRule \<Rightarrow> Subject \<times> Object \<times> Action" where
  "signature r = (r_subject r, r_object r, r_action r)"

definition conflicts_with :: "BehaviorRule \<Rightarrow> BehaviorRule \<Rightarrow> bool" where
  "conflicts_with r other =
     (r_subject r = r_subject other \<and> r_object r = r_object other
      \<and> r_action r = r_action other \<and> r_verdict r \<noteq> r_verdict other)"

lemma conflicts_with_signature:
  "conflicts_with r other \<longleftrightarrow> signature r = signature other \<and> r_verdict r \<noteq> r_verdict other"
  by (auto simp: conflicts_with_def signature_def)

section \<open>The relation of two file patterns\<close>

datatype PathRelation = Equal | Superset | Subset | Overlap | Disjoint

fun swap :: "PathRelation \<Rightarrow> PathRelation" where
  "swap Superset = Subset"
| "swap Subset = Superset"
| "swap other = other"

lemma swap_swap [simp]: "swap (swap r) = r"
  by (cases r) simp_all

lemma swap_iff [simp]:
  "swap r = Equal \<longleftrightarrow> r = Equal" "swap r = Superset \<longleftrightarrow> r = Subset"
  "swap r = Subset \<longleftrightarrow> r = Superset" "swap r = Overlap \<longleftrightarrow> r = Overlap"
  "swap r = Disjoint \<longleftrightarrow> r = Disjoint"
  by (cases r; simp)+

definition glob_literal_root :: "string \<Rightarrow> string" where
  "glob_literal_root glob =
     (let end = (case find_idx (\<lambda>c. c = CHR ''*'' \<or> c = CHR ''?'' \<or> c = CHR ''<'') glob of
                   Some i \<Rightarrow> i | None \<Rightarrow> length glob)
      in take end glob)"

definition prefix_vs_glob :: "string \<Rightarrow> string \<Rightarrow> PathRelation" where
  "prefix_vs_glob pre glob =
     (let root = glob_literal_root glob in
      if prefix pre root then Superset
      else if prefix root pre then Overlap
      else Disjoint)"

definition exact_vs_glob :: "string \<Rightarrow> string \<Rightarrow> PathRelation" where
  "exact_vs_glob path glob =
     (let root = glob_literal_root glob in if prefix root path then Overlap else Disjoint)"

definition classified_vs_classified :: "PathPattern \<Rightarrow> PathPattern \<Rightarrow> PathRelation" where
  "classified_vs_classified a b =
     (let ra = glob_literal_root (as_str a); rb = glob_literal_root (as_str b) in
      if prefix rb ra \<or> prefix ra rb then Overlap else Disjoint)"

function relation_to :: "FilePattern \<Rightarrow> FilePattern \<Rightarrow> PathRelation" where
  "relation_to (ExactPath a) (ExactPath b) = (if a = b then Equal else Disjoint)"
| "relation_to (Prefix a) (Prefix b) =
     (if a = b then Equal
      else if prefix a b then Superset
      else if prefix b a then Subset
      else Disjoint)"
| "relation_to (Prefix pre) (ExactPath p) = (if prefix pre p then Superset else Disjoint)"
| "relation_to (Classified a) (Classified b) =
     (if a = b then Equal else classified_vs_classified a b)"
| "relation_to (Prefix pre) (Classified c) = prefix_vs_glob pre (as_str c)"
| "relation_to (ExactPath p) (Classified c) = exact_vs_glob p (as_str c)"
| "relation_to (ExactPath a) (Prefix b) = swap (relation_to (Prefix b) (ExactPath a))"
| "relation_to (Classified a) (Prefix b) = swap (relation_to (Prefix b) (Classified a))"
| "relation_to (Classified a) (ExactPath b) = swap (relation_to (ExactPath b) (Classified a))"
  by pat_completeness auto

text \<open>The delegating cases hand over to a case that does not delegate.\<close>

primrec pattern_rank :: "FilePattern \<Rightarrow> nat" where
  "pattern_rank (Prefix p) = 0"
| "pattern_rank (ExactPath p) = 1"
| "pattern_rank (Classified c) = 2"

termination relation_to
  by (relation "measure (\<lambda>(a, b). if pattern_rank b < pattern_rank a then 1 else 0)") simp_all

definition subsumes :: "FilePattern \<Rightarrow> FilePattern \<Rightarrow> bool" where
  "subsumes a b = (relation_to a b = Superset \<or> relation_to a b = Equal)"

lemma relation_to_refl [simp]: "relation_to a a = Equal"
  by (cases a) simp_all

lemma relation_to_Equal: "relation_to a b = Equal \<longleftrightarrow> a = b"
  by (cases a; cases b)
    (auto simp: prefix_vs_glob_def exact_vs_glob_def classified_vs_classified_def Let_def)

lemma relation_to_swap: "relation_to b a = swap (relation_to a b)"
  by (cases a; cases b)
    (auto simp: classified_vs_classified_def Let_def prefix_order.eq_iff)

lemma relation_to_Superset:
  "relation_to a b = Superset \<longleftrightarrow>
     a \<noteq> b \<and> (\<exists>pre. a = Prefix pre \<and>
       (case b of Prefix q \<Rightarrow> prefix pre q | ExactPath p \<Rightarrow> prefix pre p
        | Classified c \<Rightarrow> prefix pre (glob_literal_root (as_str c))))"
  by (cases a; cases b)
    (auto simp: prefix_vs_glob_def exact_vs_glob_def classified_vs_classified_def Let_def)

section \<open>What the relation promises\<close>

text \<open>
  The match set of a pattern, for a meaning \<open>gm\<close> of the classified globs. \<open>good\<close> names the globs
  for which the contract is claimed.
\<close>

primrec pattern_matches :: "(PathPattern \<Rightarrow> string \<Rightarrow> bool) \<Rightarrow> FilePattern \<Rightarrow> string \<Rightarrow> bool" where
  "pattern_matches gm (Classified c) s = gm c s"
| "pattern_matches gm (ExactPath p) s = (s = p)"
| "pattern_matches gm (Prefix p) s = prefix p s"

definition match_set :: "(PathPattern \<Rightarrow> string \<Rightarrow> bool) \<Rightarrow> FilePattern \<Rightarrow> string set" where
  "match_set gm p = {s. pattern_matches gm p s}"

primrec good_pattern :: "(PathPattern \<Rightarrow> bool) \<Rightarrow> FilePattern \<Rightarrow> bool" where
  "good_pattern good (Classified c) = good c"
| "good_pattern good (ExactPath p) = True"
| "good_pattern good (Prefix p) = True"

locale glob_semantics =
  fixes gm :: "PathPattern \<Rightarrow> string \<Rightarrow> bool"
    and good :: "PathPattern \<Rightarrow> bool"
  assumes root_sound: "good c \<Longrightarrow> gm c s \<Longrightarrow> prefix (glob_literal_root (as_str c)) s"
begin

lemma superset_sound:
  assumes "relation_to a b = Superset" and "good_pattern good b" and "pattern_matches gm b s"
  shows "pattern_matches gm a s"
proof -
  obtain pre where a: "a = Prefix pre"
    and b: "case b of Prefix q \<Rightarrow> prefix pre q | ExactPath p \<Rightarrow> prefix pre p
       | Classified c \<Rightarrow> prefix pre (glob_literal_root (as_str c))"
    using assms(1) by (auto simp: relation_to_Superset)
  show ?thesis
    using a b assms(2,3) root_sound
    by (cases b) (auto intro: prefix_order.trans)
qed

lemma subset_sound:
  assumes "relation_to a b = Subset" and "good_pattern good a" and "pattern_matches gm a s"
  shows "pattern_matches gm b s"
  using assms superset_sound [of b a s] by (simp add: relation_to_swap [of a b])

lemma subsumes_sound:
  assumes "subsumes a b" and "good_pattern good b" and "pattern_matches gm b s"
  shows "pattern_matches gm a s"
  using assms superset_sound by (auto simp: subsumes_def relation_to_Equal)

lemma disjoint_cases:
  assumes "relation_to a b = Disjoint" and "pattern_rank a \<le> pattern_rank b"
    and "good_pattern good a" and "good_pattern good b"
  shows "\<not> (pattern_matches gm a s \<and> pattern_matches gm b s)"
proof
  assume m: "pattern_matches gm a s \<and> pattern_matches gm b s"
  have root: "prefix (glob_literal_root (as_str c)) s" if "gm c s" "good c" for c
    using that root_sound by blast
  show False
  proof (cases b)
    case (Classified c)
    then have "prefix (glob_literal_root (as_str c)) s" using m assms(4) root by simp
    with m assms(1,3) root Classified show False
      using prefix_total [of _ s "glob_literal_root (as_str c)"]
      by (cases a)
        (auto simp: prefix_vs_glob_def exact_vs_glob_def classified_vs_classified_def Let_def
          split: if_splits)
  next
    case (ExactPath p)
    with m assms(1,2) show False by (cases a) (auto split: if_splits)
  next
    case (Prefix p)
    with m assms(1,2) show False
      using prefix_total [of _ s p] by (cases a) (auto split: if_splits)
  qed
qed

lemma disjoint_sound:
  assumes "relation_to a b = Disjoint" and "good_pattern good a" and "good_pattern good b"
  shows "\<not> (pattern_matches gm a s \<and> pattern_matches gm b s)"
proof (cases "pattern_rank a \<le> pattern_rank b")
  case True
  then show ?thesis using assms disjoint_cases by blast
next
  case False
  moreover have "relation_to b a = Disjoint" using assms(1) by (simp add: relation_to_swap [of b a])
  ultimately show ?thesis using assms(2,3) disjoint_cases [of b a s] by auto
qed

end

text \<open>Between literal patterns the relation is exact, and never \<open>Overlap\<close>.\<close>

primrec literal :: "FilePattern \<Rightarrow> bool" where
  "literal (Classified c) = False"
| "literal (ExactPath p) = True"
| "literal (Prefix p) = True"

lemma relation_to_literal: "literal a \<Longrightarrow> literal b \<Longrightarrow> relation_to a b \<noteq> Overlap"
  by (cases a; cases b) auto

end
