(* ===== verification/Canonicalize.thy ===== *)
theory Canonicalize
  imports PolicyIR
begin

text \<open>
  The lexical path normalization of \<open>ebpf-mon-common/src/policy/passes.rs\<close> and its pass.

  \<open>comps_ok\<close> is the shape of the component stack that \<open>canonicalize_path\<close> builds: no empty and
  no dot component, no component with a slash, and dot-dot components only at the front of a
  relative path. A stack of this shape is rebuilt unchanged, which makes the function
  idempotent.
\<close>

definition canon_step :: "bool \<Rightarrow> string list \<Rightarrow> string \<Rightarrow> string list" where
  "canon_step absolute out c =
     (if c = '''' \<or> c = ''.'' then out
      else if c = ''..'' then
        (if out \<noteq> [] \<and> last out \<noteq> ''..'' then butlast out
         else if \<not> absolute then out @ [''..'']
         else out)
      else out @ [c])"

definition canonicalize_path :: "string \<Rightarrow> string" where
  "canonicalize_path path =
     (if path = [] then path
      else
        let absolute = prefix ''/'' path;
            out = foldl (canon_step absolute) [] (split_on CHR ''/'' path);
            joined = join ''/'' out
        in if absolute then ''/'' @ joined
           else if joined = [] then ''.''
           else joined)"

definition canonicalize_prefix :: "string \<Rightarrow> string" where
  "canonicalize_prefix p =
     (let c = canonicalize_path p in if suffix ''/'' c then c else c @ ''/'')"

primrec canonicalize_pattern :: "FilePattern \<Rightarrow> FilePattern" where
  "canonicalize_pattern (ExactPath p) = ExactPath (canonicalize_path p)"
| "canonicalize_pattern (Prefix p) = Prefix (canonicalize_prefix p)"
| "canonicalize_pattern (Classified c) = Classified c"

definition canonicalize_rule :: "BehaviorRule \<Rightarrow> BehaviorRule" where
  "canonicalize_rule rule =
     (case r_object rule of
        File file_obj \<Rightarrow>
          rule\<lparr>r_object :=
            File (file_obj\<lparr>fo_pattern := canonicalize_pattern (fo_pattern file_obj)\<rparr>)\<rparr>
      | _ \<Rightarrow> rule)"

definition canonicalization_run :: "BehaviorRule list \<Rightarrow> BehaviorRule list" where
  "canonicalization_run rules = map canonicalize_rule rules"

section \<open>The component stack\<close>

definition plain_comp :: "string \<Rightarrow> bool" where
  "plain_comp c = (c \<noteq> '''' \<and> c \<noteq> ''.'' \<and> CHR ''/'' \<notin> set c)"

definition comps_ok :: "bool \<Rightarrow> string list \<Rightarrow> bool" where
  "comps_ok absolute out =
     ((\<forall>c \<in> set out. plain_comp c)
      \<and> (\<exists>n rest. out = replicate n ''..'' @ rest \<and> ''..'' \<notin> set rest \<and> (absolute \<longrightarrow> n = 0)))"

lemma comps_okI:
  assumes "\<forall>c \<in> set rest. plain_comp c \<and> c \<noteq> ''..''" and "absolute \<longrightarrow> n = 0"
  shows "comps_ok absolute (replicate n ''..'' @ rest)"
proof -
  have "plain_comp ''..''" by (simp add: plain_comp_def)
  then have "\<forall>c \<in> set (replicate n ''..'' @ rest). plain_comp c"
    using assms(1) by (auto dest: in_set_replicate [THEN iffD1])
  moreover have "''..'' \<notin> set rest" using assms(1) by blast
  ultimately show ?thesis using assms(2) unfolding comps_ok_def by blast
qed

lemma comps_okE:
  assumes "comps_ok absolute out"
  obtains n rest where "out = replicate n ''..'' @ rest"
    "\<forall>c \<in> set rest. plain_comp c \<and> c \<noteq> ''..''" "absolute \<longrightarrow> n = 0"
  using assms by (auto simp: comps_ok_def)

lemma canon_step_ok:
  assumes "comps_ok absolute out" and "CHR ''/'' \<notin> set c"
  shows "comps_ok absolute (canon_step absolute out c)"
proof -
  obtain n rest where out: "out = replicate n ''..'' @ rest"
    and rest: "\<forall>c \<in> set rest. plain_comp c \<and> c \<noteq> ''..''" and abs: "absolute \<longrightarrow> n = 0"
    using assms(1) by (rule comps_okE)
  show ?thesis
  proof (cases "c = '''' \<or> c = ''.''")
    case True
    then show ?thesis using assms(1) by (auto simp: canon_step_def)
  next
    case plain: False
    show ?thesis
    proof (cases "c = ''..''")
      case False
      with plain assms(2) have "\<forall>c \<in> set (rest @ [c]). plain_comp c \<and> c \<noteq> ''..''"
        using rest by (auto simp: plain_comp_def)
      then have "comps_ok absolute (replicate n ''..'' @ (rest @ [c]))"
        using abs by (rule comps_okI)
      then show ?thesis using False plain by (simp add: canon_step_def out)
    next
      case dots: True
      show ?thesis
      proof (cases "rest = []")
        case False
        then have "last rest \<noteq> ''..''" using rest by simp
        moreover have "\<forall>c \<in> set (butlast rest). plain_comp c \<and> c \<noteq> ''..''"
          using rest by (auto dest: in_set_butlastD)
        then have "comps_ok absolute (replicate n ''..'' @ butlast rest)"
          using abs by (rule comps_okI)
        ultimately show ?thesis
          using False dots by (simp add: canon_step_def out butlast_append)
      next
        case True
        have "comps_ok absolute (replicate (Suc n) ''..'' @ [])" if "\<not> absolute"
          using that by (intro comps_okI) auto
        then show ?thesis
          using True dots assms(1)
          by (auto simp: canon_step_def out replicate_append_same last_replicate)
      qed
    qed
  qed
qed

lemma canon_fold_ok:
  "comps_ok absolute out \<Longrightarrow> \<forall>c \<in> set comps. CHR ''/'' \<notin> set c \<Longrightarrow>
   comps_ok absolute (foldl (canon_step absolute) out comps)"
  by (induction comps arbitrary: out) (simp_all add: canon_step_ok)

lemma comps_ok_Nil [simp]: "comps_ok absolute []"
  using comps_okI [of "[]" absolute 0] by simp

lemma split_no_slash: "\<forall>c \<in> set (split_on CHR ''/'' p). CHR ''/'' \<notin> set c"
  using split_by_parts [of _ "(=) CHR ''/''" p] by blast

text \<open>A stack of that shape is rebuilt from its own components.\<close>

lemma canon_step_dots: "canon_step False (replicate m ''..'') ''..'' = replicate (Suc m) ''..''"
  by (cases m) (simp_all add: canon_step_def replicate_append_same last_replicate)

lemma canon_fold_dots:
  "foldl (canon_step False) (replicate m ''..'') (replicate n ''..'') = replicate (m + n) ''..''"
proof (induction n arbitrary: m)
  case (Suc n)
  show ?case
    unfolding replicate_Suc [of n] foldl_Cons canon_step_dots Suc.IH [of "Suc m"] by simp
qed simp

lemma canon_fold_plain:
  "\<forall>c \<in> set rest. plain_comp c \<and> c \<noteq> ''..'' \<Longrightarrow>
   foldl (canon_step absolute) out rest = out @ rest"
  by (induction rest arbitrary: out) (auto simp: canon_step_def plain_comp_def)

lemma canon_fold_id:
  assumes "comps_ok absolute out"
  shows "foldl (canon_step absolute) [] out = out"
proof -
  obtain n rest where out: "out = replicate n ''..'' @ rest"
    and rest: "\<forall>c \<in> set rest. plain_comp c \<and> c \<noteq> ''..''" and abs: "absolute \<longrightarrow> n = 0"
    using assms by (rule comps_okE)
  show ?thesis
  proof (cases absolute)
    case True
    then show ?thesis using abs rest by (simp add: out canon_fold_plain)
  next
    case False
    then show ?thesis using canon_fold_dots [of 0 n] rest by (simp add: out canon_fold_plain)
  qed
qed

section \<open>Normal form and idempotence\<close>

definition canonical_path :: "string \<Rightarrow> bool" where
  "canonical_path p =
     (p = '''' \<or> p = ''.''
      \<or> (\<exists>out. comps_ok True out \<and> p = ''/'' @ join ''/'' out)
      \<or> (\<exists>out. comps_ok False out \<and> out \<noteq> [] \<and> p = join ''/'' out))"

lemma split_join_comps:
  "out \<noteq> [] \<Longrightarrow> comps_ok absolute out \<Longrightarrow> split_on CHR ''/'' (join ''/'' out) = out"
  by (intro split_join) (auto simp: comps_ok_def plain_comp_def)

lemma join_relative:
  assumes "out \<noteq> []" and "comps_ok absolute out"
  shows "join ''/'' out \<noteq> [] \<and> \<not> prefix ''/'' (join ''/'' out)"
proof -
  obtain c cs where out: "out = c # cs" using assms(1) by (cases out) auto
  have "plain_comp c" using assms(2) by (simp add: comps_ok_def out)
  then obtain x xs where c: "c = x # xs" "x \<noteq> CHR ''/''"
    by (cases c) (auto simp: plain_comp_def)
  then show ?thesis by (cases cs) (simp_all add: out)
qed

lemma join_eq_Nil: "comps_ok absolute out \<Longrightarrow> join ''/'' out = [] \<longleftrightarrow> out = []"
  using join_relative by fastforce

lemma canonicalize_is_canonical: "canonical_path (canonicalize_path p)"
proof -
  let ?out = "foldl (canon_step (prefix ''/'' p)) [] (split_on CHR ''/'' p)"
  have "comps_ok (prefix ''/'' p) ?out"
    by (intro canon_fold_ok comps_ok_Nil split_no_slash)
  then show ?thesis
    by (cases "prefix ''/'' p")
      (auto simp: canonicalize_path_def canonical_path_def Let_def join_eq_Nil)
qed

lemma canonicalize_canonical: "canonical_path p \<Longrightarrow> canonicalize_path p = p"
  unfolding canonical_path_def
proof (elim disjE exE conjE)
  fix out assume ok: "comps_ok True out" and p: "p = ''/'' @ join ''/'' out"
  have "split_on CHR ''/'' p = [] # split_on CHR ''/'' (join ''/'' out)" by (simp add: p)
  moreover have "foldl (canon_step True) [] ([] # split_on CHR ''/'' (join ''/'' out)) = out"
    using ok by (cases "out = []") (simp_all add: split_join_comps canon_fold_id canon_step_def)
  ultimately show ?thesis by (simp add: canonicalize_path_def p)
next
  fix out assume "comps_ok False out" "out \<noteq> []" "p = join ''/'' out"
  then show ?thesis
    using join_relative [of out False]
    by (simp add: canonicalize_path_def split_join_comps canon_fold_id Let_def)
qed (simp_all add: canonicalize_path_def canon_step_def)

lemma canonicalize_path_idem [simp, pass_simps]:
  "canonicalize_path (canonicalize_path p) = canonicalize_path p"
  by (simp add: canonicalize_canonical canonicalize_is_canonical)

lemma canonicalize_trailing:
  assumes "p \<noteq> []"
  shows "canonicalize_path (p @ ''/'') = canonicalize_path p"
proof -
  have "split_on CHR ''/'' (p @ ''/'') = split_on CHR ''/'' p @ [[]]"
    by (simp add: split_by_append_sep)
  moreover have "prefix ''/'' (p @ ''/'') = prefix ''/'' p" using assms by (cases p) simp_all
  ultimately show ?thesis using assms by (simp add: canonicalize_path_def canon_step_def)
qed

lemma canonicalize_prefix_slash: "suffix ''/'' (canonicalize_prefix p)"
  by (simp add: canonicalize_prefix_def Let_def suffix_def)

lemma canonicalize_prefix_idem [simp, pass_simps]:
  "canonicalize_prefix (canonicalize_prefix p) = canonicalize_prefix p"
proof (cases "canonicalize_path p = [] \<or> suffix ''/'' (canonicalize_path p)")
  case True
  then show ?thesis
    by (auto simp: canonicalize_prefix_def Let_def) (simp_all add: canonicalize_path_def canon_step_def)
next
  case False
  then show ?thesis by (simp add: canonicalize_prefix_def Let_def canonicalize_trailing)
qed

section \<open>Canonicalization keeps what a path denotes\<close>

text \<open>
  The lexical meaning of a path, in a tree without symbolic links: the list of directory entries
  from the root to the object, for a working directory \<open>cwd\<close>.
\<close>

definition walk :: "string list \<Rightarrow> string \<Rightarrow> string list" where
  "walk dir c =
     (if c = '''' \<or> c = ''.'' then dir else if c = ''..'' then butlast dir else dir @ [c])"

definition resolve :: "string list \<Rightarrow> string \<Rightarrow> string list" where
  "resolve cwd p = foldl walk (if prefix ''/'' p then [] else cwd) (split_on CHR ''/'' p)"

lemma walk_canon_step:
  assumes "comps_ok absolute out" and "absolute \<longrightarrow> cwd = []"
  shows "foldl walk cwd (canon_step absolute out c) = walk (foldl walk cwd out) c"
proof (cases "out \<noteq> [] \<and> last out \<noteq> ''..''")
  case True
  then obtain xs l where out: "out = xs @ [l]" and l: "l \<noteq> ''..''"
    by (metis append_butlast_last_id)
  have "plain_comp l" using assms(1) by (simp add: comps_ok_def out)
  then show ?thesis using l by (simp add: canon_step_def walk_def out plain_comp_def)
next
  case False
  have "out = []" if "absolute"
  proof -
    have "''..'' \<notin> set out" using assms(1) that by (auto simp: comps_ok_def)
    then show ?thesis using False last_in_set by fastforce
  qed
  then show ?thesis using assms(2) False by (auto simp: canon_step_def walk_def)
qed

lemma walk_canon_fold:
  "comps_ok absolute out \<Longrightarrow> absolute \<longrightarrow> cwd = [] \<Longrightarrow> \<forall>c \<in> set comps. CHR ''/'' \<notin> set c \<Longrightarrow>
   foldl walk cwd (foldl (canon_step absolute) out comps) = foldl walk (foldl walk cwd out) comps"
  by (induction comps arbitrary: out) (simp_all add: canon_step_ok walk_canon_step)

text \<open>
  C36: \<open>canonicalize_path\<close> returns a canonical path, leaves exactly the canonical paths as they
  are (so it is idempotent), and keeps what the path denotes from any working directory; the
  prefixes \<open>canonicalize_prefix\<close> returns end in a slash.
\<close>

theorem canonicalize_path_correct:
  "canonical_path (canonicalize_path p)
   \<and> (canonicalize_path p = p \<longleftrightarrow> canonical_path p)
   \<and> resolve cwd (canonicalize_path p) = resolve cwd p
   \<and> suffix ''/'' (canonicalize_prefix p)"
proof -
  let ?abs = "prefix ''/'' p"
  let ?cwd = "if ?abs then [] else cwd"
  let ?out = "foldl (canon_step ?abs) [] (split_on CHR ''/'' p)"
  have ok: "comps_ok ?abs ?out"
    by (intro canon_fold_ok comps_ok_Nil split_no_slash)
  have fold: "foldl walk ?cwd ?out = resolve cwd p"
    using walk_canon_fold [of ?abs "[]" ?cwd "split_on CHR ''/'' p"] split_no_slash [of p]
    by (simp add: resolve_def)
  have "resolve cwd (canonicalize_path p) = foldl walk ?cwd ?out" if "p \<noteq> []"
    using that ok join_relative [of ?out ?abs]
    by (cases "?out = []")
      (auto simp: canonicalize_path_def resolve_def walk_def Let_def split_join_comps)
  moreover have "canonicalize_path [] = []" by (simp add: canonicalize_path_def)
  ultimately have "resolve cwd (canonicalize_path p) = resolve cwd p"
    using fold by (cases "p = []") simp_all
  moreover have "canonicalize_path p = p \<longleftrightarrow> canonical_path p"
    using canonicalize_canonical [of p] canonicalize_is_canonical [of p] by metis
  ultimately show ?thesis
    using canonicalize_is_canonical canonicalize_prefix_slash by blast
qed

end
