(* ===== verification/GlobMatch.thy ===== *)
theory GlobMatch
  imports PolicyIR
begin

text \<open>
  How a file pattern becomes an AppArmor glob (\<open>file_glob\<close> of
  \<open>ebpf-mon-common/src/policy/backends/apparmor.rs\<close>), and what that glob matches: \<open>*\<close> stands for
  any characters but a slash, \<open>**\<close> for any characters, \<open>?\<close> for one character but a slash, and
  every other character for itself. (AppArmor also refuses an empty match of a star right after a
  slash; leaving that out makes the match sets larger, so containment in a prefix and
  disjointness carry over.)

  Every match of the glob of a class begins with the literal root of its wildcard string, so the
  contract of \<open>relation_to\<close> holds for all classified patterns under this meaning.
\<close>

section \<open>Globs of file patterns\<close>

datatype GlobMap = Exact string | Approx string | Unmappable

definition file_glob :: "FilePattern \<Rightarrow> GlobMap" where
  "file_glob pattern =
     (case pattern of
        ExactPath path \<Rightarrow> Exact path
      | Prefix pre \<Rightarrow> Exact (pre @ ''**'')
      | Classified pat \<Rightarrow>
          if pat = Regular then Unmappable
          else
            let s = as_str pat in
            if CHR ''<'' \<in> set s then
              Approx
                (if pat = ProcPidOther then ''/proc/*/**''
                 else if pat = ProcGlobal then ''/proc/*''
                 else replace_sub ''<global>'' ''*'' (replace_sub ''<other>'' ''*'' s))
            else Exact s)"

section \<open>What a glob matches\<close>

fun glob_match :: "string \<Rightarrow> string \<Rightarrow> bool" where
  "glob_match [] s = (s = [])"
| "glob_match (g # gs) s =
     (if g = CHR ''*'' then
        (case gs of
           h # hs \<Rightarrow>
             if h = CHR ''*'' then list_ex (glob_match hs) (suffixes s)
             else list_ex (\<lambda>n. \<not> CHR ''/'' \<in> set (take n s) \<and> glob_match gs (drop n s))
                    [0..<Suc (length s)]
         | [] \<Rightarrow> CHR ''/'' \<notin> set s)
      else
        (case s of
           [] \<Rightarrow> False
         | c # cs \<Rightarrow> (if g = CHR ''?'' then c \<noteq> CHR ''/'' else c = g) \<and> glob_match gs cs))"

declare glob_match.simps [simp del]

text \<open>The glob that a profile gets for a pattern, if it gets one, and its matches.\<close>

primrec glob_of :: "GlobMap \<Rightarrow> string option" where
  "glob_of (Exact g) = Some g"
| "glob_of (Approx g) = Some g"
| "glob_of Unmappable = None"

definition aare_match :: "PathPattern \<Rightarrow> string \<Rightarrow> bool" where
  "aare_match c s =
     (case glob_of (file_glob (Classified c)) of Some g \<Rightarrow> glob_match g s | None \<Rightarrow> False)"

lemma glob_match_literal:
  "g \<noteq> CHR ''*'' \<Longrightarrow> g \<noteq> CHR ''?'' \<Longrightarrow>
   glob_match (g # gs) s \<longleftrightarrow> (\<exists>cs. s = g # cs \<and> glob_match gs cs)"
  by (subst glob_match.simps) (auto split: list.splits)

lemma glob_match_literals:
  "\<forall>c \<in> set l. c \<noteq> CHR ''*'' \<and> c \<noteq> CHR ''?'' \<Longrightarrow>
   glob_match (l @ gs) s \<longleftrightarrow> (\<exists>cs. s = l @ cs \<and> glob_match gs cs)"
  by (induction l arbitrary: s) (auto simp: glob_match_literal)

lemma take_find_idx:
  "set (take (case find_idx P xs of Some i \<Rightarrow> i | None \<Rightarrow> length xs) xs) \<subseteq> {x. \<not> P x}"
proof (cases "find_idx P xs")
  case None
  then have "\<forall>x \<in> set xs. \<not> P x" by (simp only: find_idx_None)
  with None show ?thesis by auto
next
  case (Some i)
  then show ?thesis using find_idx_Some [OF Some] by (auto simp: in_set_conv_nth)
qed

lemma glob_literal_root_plain:
  "c \<in> set (glob_literal_root g) \<Longrightarrow> c \<noteq> CHR ''*'' \<and> c \<noteq> CHR ''?''"
  using take_find_idx [where P = "\<lambda>c. c = CHR ''*'' \<or> c = CHR ''?'' \<or> c = CHR ''<''" and xs = g]
  by (auto simp: glob_literal_root_def Let_def)

lemma glob_literal_root_prefix: "prefix (glob_literal_root g) g"
  by (simp add: glob_literal_root_def Let_def take_is_prefix)

lemma glob_match_root: "glob_match g s \<Longrightarrow> prefix (glob_literal_root g) s"
proof -
  assume m: "glob_match g s"
  obtain gs where g: "g = glob_literal_root g @ gs"
    using glob_literal_root_prefix [of g] by (auto simp: prefix_def)
  have plain: "\<forall>c \<in> set (glob_literal_root g). c \<noteq> CHR ''*'' \<and> c \<noteq> CHR ''?''"
    using glob_literal_root_plain by blast
  have "glob_match (glob_literal_root g @ gs) s" using m g by simp
  then show ?thesis using glob_match_literals [OF plain] by (auto simp: prefix_def)
qed

lemma good_pattern_all [simp]: "good_pattern (\<lambda>c. True) a"
  by (cases a) simp_all

lemma emitted_root:
  "glob_of (file_glob (Classified c)) = Some g \<Longrightarrow> glob_literal_root g = glob_literal_root (as_str c)"
  by (cases c) (auto simp: file_glob_def glob_literal_root_def)

interpretation aare: glob_semantics aare_match "\<lambda>c. True"
proof
  fix c s
  assume "aare_match c s"
  then obtain g where g: "glob_of (file_glob (Classified c)) = Some g" and "glob_match g s"
    by (auto simp: aare_match_def split: option.splits)
  then have "prefix (glob_literal_root g) s" by (intro glob_match_root)
  then show "prefix (glob_literal_root (as_str c)) s" by (simp add: emitted_root [OF g])
qed

text \<open>
  \<open>FilePattern::relation_to\<close> keeps its contract for the globs that the AppArmor backend emits: when it answers
  \<open>Superset\<close> or \<open>Equal\<close>, the first pattern matches whatever the second does, when it answers
  \<open>Subset\<close> the other way round, and when it answers \<open>Disjoint\<close> no path matches both.
\<close>

theorem relation_to_contract:
  "case relation_to a b of
     Equal \<Rightarrow> match_set aare_match a = match_set aare_match b
   | Superset \<Rightarrow> match_set aare_match b \<subseteq> match_set aare_match a
   | Subset \<Rightarrow> match_set aare_match a \<subseteq> match_set aare_match b
   | Overlap \<Rightarrow> True
   | Disjoint \<Rightarrow> match_set aare_match a \<inter> match_set aare_match b = {}"
  by (cases "relation_to a b")
    (auto simp: match_set_def relation_to_Equal dest: aare.superset_sound aare.subset_sound
      aare.disjoint_sound)

end
