(* ===== verification/Passes.thy ===== *)
theory Passes
  imports Canonicalize GlobMatch
begin

text \<open>
  The optimization passes of \<open>ebpf-mon-common/src/policy/passes.rs\<close> other than prefix
  generalization: deduplication, generalization to classified patterns, subsumption, and the
  detection of conflicting verdicts.

  The interface \<open>optimization_pass\<close> is what the pipeline relies on in every pass: it returns no
  rule whose id was not there, and no id more often than it was there. Each pass interprets it.
\<close>

section \<open>The interface of a pass\<close>

abbreviation rule_ids :: "BehaviorRule list \<Rightarrow> RuleId multiset" where
  "rule_ids rules \<equiv> image_mset r_id (mset rules)"

locale optimization_pass =
  fixes run :: "BehaviorRule list \<Rightarrow> BehaviorRule list"
  assumes ids_kept: "rule_ids (run rules) \<subseteq># rule_ids rules"
begin

lemma not_longer: "length (run rules) \<le> length rules"
  using size_mset_mono [OF ids_kept [of rules]] by simp

lemma distinct_ids: "distinct (map r_id rules) \<Longrightarrow> distinct (map r_id (run rules))"
  using ids_kept by (rule distinct_map_subseteq_mset)

lemma ids_subset: "r_id ` set (run rules) \<subseteq> r_id ` set rules"
  using set_mset_mono [OF ids_kept [of rules]] by simp

end

lemma optimization_pass_map:
  "(\<And>r. r_id (f r) = r_id r) \<Longrightarrow> optimization_pass (map f)"
  by unfold_locales (simp add: image_mset.compositionality comp_def)

lemma canonicalize_rule_fields [simp, pass_simps]:
  "r_id (canonicalize_rule r) = r_id r" "r_subject (canonicalize_rule r) = r_subject r"
  "r_action (canonicalize_rule r) = r_action r" "r_verdict (canonicalize_rule r) = r_verdict r"
  "r_metadata (canonicalize_rule r) = r_metadata r"
  by (simp_all add: canonicalize_rule_def split: Object.splits)

lemma canonicalization_run_map: "canonicalization_run = map canonicalize_rule"
  by (simp add: canonicalization_run_def fun_eq_iff)

interpretation canonicalization: optimization_pass canonicalization_run
  unfolding canonicalization_run_map by (rule optimization_pass_map) simp

section \<open>Deduplication\<close>

text \<open>The effect of a rule on the entry that has its signature.\<close>

definition merge_metadata :: "RuleMetadata \<Rightarrow> RuleMetadata \<Rightarrow> RuleMetadata" where
  "merge_metadata existing m =
     existing\<lparr>observation_count := observation_count existing + observation_count m,
       first_seen := (if first_seen m < first_seen existing then first_seen m
                      else first_seen existing),
       last_seen := (if last_seen m > last_seen existing then last_seen m
                     else last_seen existing)\<rparr>"

definition merge_rule :: "BehaviorRule \<Rightarrow> BehaviorRule \<Rightarrow> BehaviorRule" where
  "merge_rule existing rule =
     existing\<lparr>r_metadata := merge_metadata (r_metadata existing) (r_metadata rule)\<rparr>"

text \<open>\<open>ks\<close> is the seed of the iteration order of the map \<open>seen\<close>.\<close>

definition dedup_seen :: "BehaviorRule list \<Rightarrow> ((Subject \<times> Object \<times> Action) \<times> BehaviorRule) list"
where
  "dedup_seen rules = collect_by signature (\<lambda>rule. rule) merge_rule rules"

definition dedup_run :: "nat list \<Rightarrow> BehaviorRule list \<Rightarrow> BehaviorRule list" where
  "dedup_run ks rules = map snd (hash_order ks (dedup_seen rules))"

lemma merge_rule_fields [simp, pass_simps]:
  "r_id (merge_rule a b) = r_id a" "r_subject (merge_rule a b) = r_subject a"
  "r_object (merge_rule a b) = r_object a" "r_action (merge_rule a b) = r_action a"
  "r_verdict (merge_rule a b) = r_verdict a" "signature (merge_rule a b) = signature a"
  by (simp_all add: merge_rule_def signature_def)

lemma foldl_merge_fields [simp, pass_simps]:
  "r_id (foldl merge_rule a rs) = r_id a" "r_verdict (foldl merge_rule a rs) = r_verdict a"
  "signature (foldl merge_rule a rs) = signature a"
  by (induction rs arbitrary: a) simp_all

text \<open>The rules of one signature, in their order; the first one absorbs the others.\<close>

definition same_signature :: "Subject \<times> Object \<times> Action \<Rightarrow> BehaviorRule list \<Rightarrow> BehaviorRule list"
where
  "same_signature s rules = filter (\<lambda>r. signature r = s) rules"

lemma in_dedup:
  "r \<in> set (dedup_run ks rules) \<longleftrightarrow>
     (\<exists>s first rest. same_signature s rules = first # rest \<and> r = foldl merge_rule first rest)"
proof -
  have "r \<in> set (dedup_run ks rules) \<longleftrightarrow> (\<exists>s. (s, r) \<in> set (dedup_seen rules))"
    unfolding dedup_run_def by (force simp: image_iff)
  then show ?thesis by (simp add: dedup_seen_def in_collect_by same_signature_def)
qed

lemma same_signature_Cons: "same_signature s rules = first # rest \<Longrightarrow> signature first = s"
  unfolding same_signature_def by (auto dest!: Cons_eq_filterD [OF sym])

lemma dedup_entry_signature: "(s, r) \<in> set (dedup_seen rules) \<Longrightarrow> signature r = s"
  by (auto simp: dedup_seen_def in_collect_by dest!: Cons_eq_filterD [OF sym])

lemma dedup_distinct_signatures: "distinct (map signature (dedup_run ks rules))"
proof -
  have eq: "map signature (map snd (hash_order ks (dedup_seen rules))) =
      map fst (hash_order ks (dedup_seen rules))"
    by (auto dest: dedup_entry_signature)
  show ?thesis unfolding dedup_run_def eq by (simp add: dedup_seen_def)
qed

lemma dedup_same_signatures: "signature ` set (dedup_run ks rules) = signature ` set rules"
proof -
  have "signature ` set (dedup_run ks rules) = fst ` set (dedup_seen rules)"
    by (force simp: dedup_run_def dest: dedup_entry_signature)
  then show ?thesis by (simp add: dedup_seen_def)
qed

text \<open>What the surviving rule of a signature holds.\<close>

definition merged_from :: "BehaviorRule \<Rightarrow> BehaviorRule list \<Rightarrow> bool" where
  "merged_from r rs =
     (rs \<noteq> [] \<and> r_id r = r_id (hd rs) \<and> r_verdict r = r_verdict (hd rs)
      \<and> source_module (r_metadata r) = source_module (r_metadata (hd rs))
      \<and> confidence (r_metadata r) = confidence (r_metadata (hd rs))
      \<and> observation_count (r_metadata r) = sum_list (map (observation_count \<circ> r_metadata) rs)
      \<and> first_seen (r_metadata r) = Min ((first_seen \<circ> r_metadata) ` set rs)
      \<and> last_seen (r_metadata r) = Max ((last_seen \<circ> r_metadata) ` set rs))"

lemma merge_metadata_fields [simp, pass_simps]:
  "source_module (merge_metadata a b) = source_module a"
  "confidence (merge_metadata a b) = confidence a"
  "observation_count (merge_metadata a b) = observation_count a + observation_count b"
  "first_seen (merge_metadata a b) = min (first_seen a) (first_seen b)"
  "last_seen (merge_metadata a b) = max (last_seen a) (last_seen b)"
  by (auto simp: merge_metadata_def min_def max_def not_less intro: antisym)

lemma merge_rule_metadata [simp, pass_simps]:
  "r_metadata (merge_rule a b) = merge_metadata (r_metadata a) (r_metadata b)"
  by (simp add: merge_rule_def)

lemma merged_from_snoc:
  "merged_from r rs \<Longrightarrow> merged_from (merge_rule r r') (rs @ [r'])"
  unfolding merged_from_def by (simp add: Min_image_snoc Max_image_snoc del: set_append)

lemma merged_from_foldl: "merged_from r rs \<Longrightarrow> merged_from (foldl merge_rule r rs') (rs @ rs')"
proof (induction rs' arbitrary: r rs)
  case (Cons r' rs')
  then show ?case using Cons.IH [OF merged_from_snoc [of r rs r']] by simp
qed simp

lemma merged_from_first: "merged_from (foldl merge_rule first rest) (first # rest)"
  using merged_from_foldl [of first "[first]" rest] by (simp add: merged_from_def)

text \<open>
  Deduplication leaves exactly one rule per (subject, object, action) signature of its
  input. That rule is the first one of the signature, with the observation counts of the whole
  group added up (modulo 2^64) and the earliest and latest time stamps of the group. The order of
  the result is whatever the hash map yields.
\<close>

theorem dedup_correct:
  "distinct (map signature (dedup_run ks rules))
   \<and> signature ` set (dedup_run ks rules) = signature ` set rules
   \<and> list_all (\<lambda>r. merged_from r (same_signature (signature r) rules)) (dedup_run ks rules)"
proof -
  have "merged_from r (same_signature (signature r) rules)" if "r \<in> set (dedup_run ks rules)" for r
  proof -
    from that obtain s first rest
      where s: "same_signature s rules = first # rest" and r: "r = foldl merge_rule first rest"
      by (auto simp: in_dedup)
    have "signature r = s" using same_signature_Cons [OF s] by (simp add: r)
    then show ?thesis using s r merged_from_first by simp
  qed
  then show ?thesis
    by (simp add: dedup_distinct_signatures dedup_same_signatures list_all_iff)
qed

lemma ids_merge_entry:
  "image_mset r_id (mset (map snd (merge_entry k (\<lambda>v. merge_rule v r) r es)))
   \<subseteq># add_mset (r_id r) (image_mset r_id (mset (map snd es)))"
  by (induction es) (auto intro: subset_mset.order_trans)

lemma ids_collect:
  "image_mset r_id (mset (map snd (collect_by signature (\<lambda>r. r) merge_rule rules)))
   \<subseteq># rule_ids rules"
proof (induction rules rule: rev_induct)
  case (snoc r rules)
  show ?case
    unfolding collect_by_snoc
    by (rule subset_mset.order_trans [OF ids_merge_entry]) (use snoc in simp)
qed simp

interpretation dedup: optimization_pass "dedup_run ks" for ks
proof
  fix rules
  have "mset (dedup_run ks rules) = mset (map snd (dedup_seen rules))"
    by (simp add: dedup_run_def)
  then show "rule_ids (dedup_run ks rules) \<subseteq># rule_ids rules"
    using ids_collect [of rules] by (simp add: dedup_seen_def)
qed

section \<open>Generalization to classified patterns\<close>

definition proc_entry_class :: "string \<Rightarrow> PathPattern" where
  "proc_entry_class after_pid =
     (if after_pid = ''cmdline'' then ProcPidCmdline
      else if after_pid = ''comm'' then ProcPidComm
      else if after_pid = ''cwd'' then ProcPidCwd
      else if after_pid = ''environ'' then ProcPidEnviron
      else if after_pid = ''exe'' then ProcPidExe
      else if after_pid = ''maps'' then ProcPidMaps
      else if after_pid = ''mem'' then ProcPidMem
      else if after_pid = ''mountinfo'' then ProcPidMountinfo
      else if after_pid = ''mounts'' then ProcPidMounts
      else if after_pid = ''root'' then ProcPidRoot
      else if after_pid = ''stat'' then ProcPidStat
      else if after_pid = ''status'' then ProcPidStatus
      else if after_pid = ''cgroup'' then ProcPidCgroup
      else if prefix ''fd/'' after_pid then ProcPidFd
      else if prefix ''net/'' after_pid then ProcPidNet
      else if prefix ''ns/'' after_pid then ProcPidNs
      else if prefix ''task/'' after_pid then ProcPidTask
      else ProcPidOther)"

definition try_classify :: "string \<Rightarrow> PathPattern option" where
  "try_classify path =
     (if prefix ''/proc/'' path then
        (let remainder = drop 6 path in
         case find_idx (\<lambda>c. c = CHR ''/'') remainder of
           Some slash_pos \<Rightarrow> Some (proc_entry_class (drop (slash_pos + 1) remainder))
         | None \<Rightarrow> None)
      else None)"

definition generalize_rule :: "BehaviorRule \<Rightarrow> BehaviorRule" where
  "generalize_rule rule =
     (case r_object rule of
        File file_obj \<Rightarrow>
          (case fo_pattern file_obj of
             ExactPath path \<Rightarrow>
               (case try_classify path of
                  Some classified \<Rightarrow>
                    rule\<lparr>r_object := File (file_obj\<lparr>fo_pattern := Classified classified\<rparr>)\<rparr>
                | None \<Rightarrow> rule)
           | _ \<Rightarrow> rule)
      | _ \<Rightarrow> rule)"

definition generalization_run :: "BehaviorRule list \<Rightarrow> BehaviorRule list" where
  "generalization_run rules = map generalize_rule rules"

lemma generalize_rule_fields [simp, pass_simps]:
  "r_id (generalize_rule r) = r_id r" "r_subject (generalize_rule r) = r_subject r"
  "r_action (generalize_rule r) = r_action r" "r_verdict (generalize_rule r) = r_verdict r"
  "r_metadata (generalize_rule r) = r_metadata r"
  by (simp_all add: generalize_rule_def split: Object.splits FilePattern.splits option.splits)

lemma generalization_run_map: "generalization_run = map generalize_rule"
  by (simp add: generalization_run_def fun_eq_iff)

interpretation generalization: optimization_pass generalization_run
  unfolding generalization_run_map by (rule optimization_pass_map) simp

lemma try_classify_proc: "CHR ''/'' \<notin> set pid \<Longrightarrow>
   try_classify (''/proc/'' @ pid @ ''/'' @ rest) = Some (proc_entry_class rest)"
proof -
  assume "CHR ''/'' \<notin> set pid"
  then have "find_idx (\<lambda>c. c = CHR ''/'') (pid @ CHR ''/'' # rest) = Some (length pid)"
    by (intro find_idx_append) auto
  then show ?thesis by (simp add: try_classify_def)
qed

lemma try_classify_Some:
  assumes "try_classify path = Some c"
  shows "\<exists>pid rest. path = ''/proc/'' @ pid @ ''/'' @ rest \<and> CHR ''/'' \<notin> set pid
           \<and> c = proc_entry_class rest"
proof -
  let ?slash = "\<lambda>c. c = CHR ''/''"
  from assms obtain rem i where path: "path = ''/proc/'' @ rem" and i: "find_idx ?slash rem = Some i"
    and c: "c = proc_entry_class (drop (i + 1) rem)"
    by (auto simp: try_classify_def prefix_def Let_def split: if_splits option.splits)
  from find_idx_Some [OF i] have il: "i < length rem" and si: "rem ! i = CHR ''/''"
    and before: "\<forall>j < i. rem ! j \<noteq> CHR ''/''" by auto
  have "rem = take i rem @ ''/'' @ drop (i + 1) rem"
    using id_take_nth_drop [OF il] si by simp
  moreover have "CHR ''/'' \<notin> set (take i rem)"
    using before by (auto simp: in_set_conv_nth)
  ultimately show ?thesis using path c by blast
qed

text \<open>How the AppArmor meaning of the \<open>/proc\<close> classes relates to the classification.\<close>

lemma glob_match_star:
  "CHR ''/'' \<notin> set a \<Longrightarrow> gs = h # hs \<Longrightarrow> h \<noteq> CHR ''*'' \<Longrightarrow> glob_match gs b \<Longrightarrow>
   glob_match (CHR ''*'' # gs) (a @ b)"
  by (subst glob_match.simps)
    (auto simp: list_ex_iff intro!: bexI [of _ "length a"] simp del: upt_Suc)

lemma glob_match_last_star: "glob_match ''*'' s \<longleftrightarrow> CHR ''/'' \<notin> set s"
  by (subst glob_match.simps) simp

lemma glob_match_Nil [simp]: "glob_match [] s \<longleftrightarrow> s = []"
  by (subst glob_match.simps) simp

lemma glob_match_plain:
  "\<forall>c \<in> set l. c \<noteq> CHR ''*'' \<and> c \<noteq> CHR ''?'' \<Longrightarrow> glob_match l s \<longleftrightarrow> s = l"
  using glob_match_literals [of l "[]" s] by auto

text \<open>The wildcard strings of the \<open>/proc\<close> classes: a fixed entry, or a directory of entries.\<close>

definition proc_glob :: "string \<Rightarrow> string" where
  "proc_glob tail_glob = ''/proc/*/'' @ tail_glob"

lemma proc_glob_match:
  assumes "CHR ''/'' \<notin> set pid" and "glob_match tail_glob rest"
  shows "glob_match (proc_glob tail_glob) (''/proc/'' @ pid @ ''/'' @ rest)"
proof -
  have "glob_match (''/'' @ tail_glob) (''/'' @ rest)"
    using assms(2) glob_match_literals [of "''/''" tail_glob "''/'' @ rest"] by simp
  then have "glob_match (CHR ''*'' # ''/'' @ tail_glob) (pid @ ''/'' @ rest)"
    using assms(1) by (intro glob_match_star) auto
  then show ?thesis
    using glob_match_literals [of "''/proc/''" "CHR ''*'' # ''/'' @ tail_glob"]
    by (simp add: proc_glob_def)
qed

lemma glob_match_dir:
  "\<forall>c \<in> set d. c \<noteq> CHR ''*'' \<and> c \<noteq> CHR ''?'' \<Longrightarrow> CHR ''/'' \<notin> set s \<Longrightarrow>
   glob_match (d @ ''*'') (d @ s)"
  using glob_match_literals [of d "''*''" "d @ s"] by (simp add: glob_match_last_star)

text \<open>
  What is below the entry of a directory class; the other classes name single entries.
\<close>

definition below_entry :: "string \<Rightarrow> string" where
  "below_entry rest = drop 1 (dropWhile (\<lambda>c. c \<noteq> CHR ''/'') rest)"

lemma below_entry_append: "CHR ''/'' \<notin> set d \<Longrightarrow> below_entry (d @ ''/'' @ t) = t"
  unfolding below_entry_def by (induction d) auto

definition proc_entries :: "string list" where
  "proc_entries =
     [''cmdline'', ''comm'', ''cwd'', ''environ'', ''exe'', ''maps'', ''mem'', ''mountinfo'',
      ''mounts'', ''root'', ''stat'', ''status'', ''cgroup'']"

lemma proc_entries_class:
  "list_all (\<lambda>e. glob_of (file_glob (Classified (proc_entry_class e))) = Some (proc_glob e)
     \<and> list_all (\<lambda>c. c \<noteq> CHR ''*'' \<and> c \<noteq> CHR ''?'') e) proc_entries"
  by code_simp

lemma proc_dirs_class:
  "glob_of (file_glob (Classified ProcPidFd)) = Some (proc_glob ((''fd'' @ ''/'') @ ''*''))"
  "glob_of (file_glob (Classified ProcPidNet)) = Some (proc_glob ((''net'' @ ''/'') @ ''*''))"
  "glob_of (file_glob (Classified ProcPidNs)) = Some (proc_glob ((''ns'' @ ''/'') @ ''*''))"
  "glob_of (file_glob (Classified ProcPidTask)) = Some (proc_glob ((''task'' @ ''/'') @ ''*''))"
  "glob_of (file_glob (Classified ProcPidOther)) = Some (proc_glob ''**'')"
  by (simp_all add: file_glob_def proc_glob_def)

lemma proc_entry_class_dirs:
  "rest \<notin> set proc_entries \<Longrightarrow> proc_entry_class rest =
     (if prefix ''fd/'' rest then ProcPidFd
      else if prefix ''net/'' rest then ProcPidNet
      else if prefix ''ns/'' rest then ProcPidNs
      else if prefix ''task/'' rest then ProcPidTask
      else ProcPidOther)"
  by (simp add: proc_entries_def proc_entry_class_def)

lemma glob_match_double_star: "glob_match ''**'' s"
  by (subst glob_match.simps) (auto simp: list_ex_iff)

text \<open>
  An exact path \<open>/proc/PID/...\<close> is classified by its entry, and the AppArmor glob of the
  class matches the path the rule was made from, provided that in the four classes that stand for
  a directory (\<open>fd\<close>, \<open>net\<close>, \<open>ns\<close>, \<open>task\<close>) the path goes only one component below it.
\<close>

theorem classification_match:
  assumes pid: "CHR ''/'' \<notin> set pid"
    and below: "proc_entry_class rest = ProcPidOther \<or> CHR ''/'' \<notin> set (below_entry rest)"
  shows "try_classify (''/proc/'' @ pid @ ''/'' @ rest) = Some (proc_entry_class rest)
    \<and> aare_match (proc_entry_class rest) (''/proc/'' @ pid @ ''/'' @ rest)"
proof
  let ?path = "''/proc/'' @ pid @ ''/'' @ rest"
  have match: "aare_match c ?path"
    if "glob_of (file_glob (Classified c)) = Some (proc_glob g)" "glob_match g rest" for c g
    unfolding aare_match_def that(1) using proc_glob_match [OF pid that(2)] by simp
  show "aare_match (proc_entry_class rest) ?path"
  proof (cases "rest \<in> set proc_entries")
    case True
    then have cls: "glob_of (file_glob (Classified (proc_entry_class rest))) = Some (proc_glob rest)"
      and plain: "\<forall>c \<in> set rest. c \<noteq> CHR ''*'' \<and> c \<noteq> CHR ''?''"
      using proc_entries_class unfolding list_all_iff by blast+
    have "glob_match rest rest" using glob_match_plain [OF plain] by blast
    then show ?thesis by (rule match [OF cls])
  next
    case False
    have dir: "glob_match ((d @ ''/'') @ ''*'') rest"
      if "prefix (d @ ''/'') rest" "\<forall>c \<in> set d. c \<noteq> CHR ''*'' \<and> c \<noteq> CHR ''?'' \<and> c \<noteq> CHR ''/''"
        "proc_entry_class rest \<noteq> ProcPidOther" for d
    proof -
      from that(1) obtain t where t: "rest = (d @ ''/'') @ t" by (auto simp: prefix_def)
      have "below_entry rest = t"
        unfolding t append.assoc by (rule below_entry_append) (use that(2) in blast)
      with below that(3) have "CHR ''/'' \<notin> set t" by metis
      then show ?thesis unfolding t using that(2) by (intro glob_match_dir) auto
    qed
    show ?thesis
      using dir [of "''fd''"] dir [of "''net''"] dir [of "''ns''"] dir [of "''task''"]
        match [OF proc_dirs_class(1)] match [OF proc_dirs_class(2)] match [OF proc_dirs_class(3)]
        match [OF proc_dirs_class(4)] match [OF proc_dirs_class(5) glob_match_double_star]
      unfolding proc_entry_class_dirs [OF False]
      by (simp split: if_splits)
  qed
qed (rule try_classify_proc [OF pid])

lemma classification_match_witness:
  "aare_match ProcPidStatus (''/proc/'' @ ''101'' @ ''/'' @ ''status'')
   \<and> aare_match ProcPidOther (''/proc/'' @ ''101'' @ ''/'' @ ''attr/current'')"
proof -
  have below: "CHR ''/'' \<notin> set (below_entry ''status'')" by code_simp
  have cls: "proc_entry_class ''status'' = ProcPidStatus"
    "proc_entry_class ''attr/current'' = ProcPidOther" by code_simp+
  show ?thesis
    using classification_match [of "''101''" "''status''"] below cls
      classification_match [of "''101''" "''attr/current''"] by simp
qed

text \<open>
  Two components below the entry are lost: the rule for the file that was observed no longer
  matches it.
\<close>

lemma classification_loses_nested:
  "try_classify ''/proc/1/task/2/stat'' = Some ProcPidTask
   \<and> \<not> aare_match ProcPidTask ''/proc/1/task/2/stat''"
  by code_simp

section \<open>Subsumption\<close>

definition object_subsumed :: "Object \<Rightarrow> Object \<Rightarrow> bool" where
  "object_subsumed narrow broad =
     (case (narrow, broad) of
        (File n, File b) \<Rightarrow> relation_to (fo_pattern b) (fo_pattern n) = Superset
      | _ \<Rightarrow> False)"

text \<open>The rule at index \<open>i\<close> is covered by the rule at another index.\<close>

definition is_subsumed :: "BehaviorRule list \<Rightarrow> nat \<Rightarrow> bool" where
  "is_subsumed rules i =
     list_ex (\<lambda>j. \<not> i = j
       \<and> r_subject (rules ! i) = r_subject (rules ! j)
       \<and> r_action (rules ! i) = r_action (rules ! j)
       \<and> r_verdict (rules ! i) = r_verdict (rules ! j)
       \<and> object_subsumed (r_object (rules ! i)) (r_object (rules ! j))) [0..<length rules]"

definition subsumption_run :: "BehaviorRule list \<Rightarrow> BehaviorRule list" where
  "subsumption_run rules =
     map (\<lambda>i. rules ! i) (filter (\<lambda>i. \<not> is_subsumed rules i) [0..<length rules])"

text \<open>The cover relation between rules. It is a strict order, so the index does not matter.\<close>

definition rule_covered :: "BehaviorRule \<Rightarrow> BehaviorRule \<Rightarrow> bool" where
  "rule_covered r s =
     (r_subject r = r_subject s \<and> r_action r = r_action s \<and> r_verdict r = r_verdict s
      \<and> object_subsumed (r_object r) (r_object s))"

lemma object_subsumed_irrefl [simp]: "\<not> object_subsumed ob ob"
  by (cases ob) (simp_all add: object_subsumed_def)

lemma is_subsumed_iff:
  "i < length rules \<Longrightarrow> is_subsumed rules i \<longleftrightarrow> (\<exists>s \<in> set rules. rule_covered (rules ! i) s)"
proof -
  assume "i < length rules"
  have "is_subsumed rules i \<longleftrightarrow>
      (\<exists>j < length rules. i \<noteq> j \<and> rule_covered (rules ! i) (rules ! j))"
    by (auto simp: is_subsumed_def list_ex_iff rule_covered_def)
  also have "\<dots> \<longleftrightarrow> (\<exists>j < length rules. rule_covered (rules ! i) (rules ! j))"
    by (auto simp: rule_covered_def)
  finally show ?thesis by (metis in_set_conv_nth)
qed

lemma filter_nth: "map (\<lambda>i. xs ! i) (filter (\<lambda>i. P (xs ! i)) [0..<length xs]) = filter P xs"
proof -
  have "filter P (map (\<lambda>i. xs ! i) [0..<length xs]) =
      map (\<lambda>i. xs ! i) (filter (P \<circ> (\<lambda>i. xs ! i)) [0..<length xs])"
    by (rule filter_map)
  then show ?thesis by (simp add: map_nth comp_def)
qed

lemma subsumption_run_filter:
  "subsumption_run rules = filter (\<lambda>r. \<not> (\<exists>s \<in> set rules. rule_covered r s)) rules"
proof -
  have "filter (\<lambda>i. \<not> is_subsumed rules i) [0..<length rules] =
      filter (\<lambda>i. \<not> (\<exists>s \<in> set rules. rule_covered (rules ! i) s)) [0..<length rules]"
    by (rule filter_cong) (auto simp: is_subsumed_iff)
  then show ?thesis
    unfolding subsumption_run_def
    using filter_nth [where P = "\<lambda>r. \<not> (\<exists>s \<in> set rules. rule_covered r s)" and xs = rules] by simp
qed

interpretation subsumption: optimization_pass subsumption_run
  by unfold_locales (simp add: subsumption_run_filter image_mset_subseteq_mono)

text \<open>
  The broader side of a \<open>Superset\<close> is a prefix, and a broader prefix covers what a narrower one
  covers; so a covered rule is covered by a rule with a shortest prefix, and that rule survives.
\<close>

lemma object_subsumed_prefix:
  "object_subsumed n b \<Longrightarrow>
     \<exists>fo pre. b = File fo \<and> fo_pattern fo = Prefix pre"
  by (auto simp: object_subsumed_def relation_to_Superset split: Object.splits)

lemma relation_to_trans:
  "relation_to b a = Superset \<Longrightarrow> relation_to c b = Superset \<Longrightarrow> relation_to c a = Superset"
  by (auto simp: relation_to_Superset split: FilePattern.splits
      intro: prefix_order.trans dest: prefix_order.antisym)

lemma rule_covered_trans: "rule_covered r s \<Longrightarrow> rule_covered s t \<Longrightarrow> rule_covered r t"
  by (auto simp: rule_covered_def object_subsumed_def split: Object.splits dest: relation_to_trans)

primrec prefix_size :: "FilePattern \<Rightarrow> nat" where
  "prefix_size (Prefix p) = length p"
| "prefix_size (ExactPath p) = 0"
| "prefix_size (Classified c) = 0"

definition rule_prefix_size :: "BehaviorRule \<Rightarrow> nat" where
  "rule_prefix_size r = (case r_object r of File fo \<Rightarrow> prefix_size (fo_pattern fo) | _ \<Rightarrow> 0)"

lemma rule_covered_shorter:
  "rule_covered r s \<Longrightarrow> rule_covered s t \<Longrightarrow> rule_prefix_size t < rule_prefix_size s"
  by (auto simp: rule_covered_def object_subsumed_def relation_to_Superset rule_prefix_size_def
      prefix_def split: Object.splits FilePattern.splits)

lemma covered_has_survivor:
  "rule_covered r s \<Longrightarrow> s \<in> set rules \<Longrightarrow> \<exists>t \<in> set (subsumption_run rules). rule_covered r t"
proof (induction "rule_prefix_size s" arbitrary: s rule: less_induct)
  case less
  show ?case
  proof (cases "\<exists>t \<in> set rules. rule_covered s t")
    case True
    then obtain t where t: "t \<in> set rules" "rule_covered s t" by blast
    show ?thesis
      using less(1) [OF rule_covered_shorter [OF less(2) t(2)]] rule_covered_trans [OF less(2) t(2)]
        t(1) by blast
  next
    case False
    then show ?thesis using less(2,3) by (auto simp: subsumption_run_filter)
  qed
qed

lemma subsumption_survivor:
  "r \<in> set rules \<Longrightarrow> \<exists>t \<in> set (subsumption_run rules). t = r \<or> rule_covered r t"
proof (cases "\<exists>s \<in> set rules. rule_covered r s")
  case True
  then show ?thesis using covered_has_survivor by blast
qed (auto simp: subsumption_run_filter)

text \<open>
  The file accesses that some rule gives a verdict to: by subject, action, verdict and path, for
  a meaning \<open>gm\<close> of the classified globs.
\<close>

definition rule_gives ::
    "(PathPattern \<Rightarrow> string \<Rightarrow> bool) \<Rightarrow> Subject \<Rightarrow> Action \<Rightarrow> Verdict \<Rightarrow> string \<Rightarrow> BehaviorRule \<Rightarrow> bool"
where
  "rule_gives gm s a v path r =
     (r_subject r = s \<and> r_action r = a \<and> r_verdict r = v
      \<and> (case r_object r of File fo \<Rightarrow> pattern_matches gm (fo_pattern fo) path | _ \<Rightarrow> False))"

definition policy_gives ::
    "(PathPattern \<Rightarrow> string \<Rightarrow> bool) \<Rightarrow> BehaviorRule list \<Rightarrow> Subject \<Rightarrow> Action \<Rightarrow> Verdict \<Rightarrow> string
      \<Rightarrow> bool" where
  "policy_gives gm rules s a v path = list_ex (rule_gives gm s a v path) rules"

lemma rule_gives_iff:
  "rule_gives gm s a v path r \<longleftrightarrow>
     r_subject r = s \<and> r_action r = a \<and> r_verdict r = v
     \<and> (\<exists>fo. r_object r = File fo \<and> pattern_matches gm (fo_pattern fo) path)"
  by (auto simp: rule_gives_def split: Object.splits)

lemma policy_gives_iff:
  "policy_gives gm rules s a v path \<longleftrightarrow> (\<exists>r \<in> set rules. rule_gives gm s a v path r)"
  by (simp add: policy_gives_def list_ex_iff)

lemma rule_covered_gives:
  assumes "rule_covered r t" and "rule_gives aare_match s a v path r"
  shows "rule_gives aare_match s a v path t"
  using assms
  by (auto simp: rule_covered_def rule_gives_def object_subsumed_def split: Object.splits
      dest!: aare.superset_sound)

lemma subsumption_keeps:
  "policy_gives aare_match (subsumption_run rules) s a v path
     = policy_gives aare_match rules s a v path"
proof
  assume "policy_gives aare_match rules s a v path"
  then obtain r where r: "r \<in> set rules" "rule_gives aare_match s a v path r"
    by (auto simp: policy_gives_iff)
  from subsumption_survivor [OF r(1)] obtain t
    where "t \<in> set (subsumption_run rules)" "t = r \<or> rule_covered r t" by blast
  then show "policy_gives aare_match (subsumption_run rules) s a v path"
    using rule_covered_gives [of r t s a v path] r(2) unfolding policy_gives_iff by metis
qed (auto simp: policy_gives_iff subsumption_run_filter)

text \<open>
  Subsumption only drops rules that add nothing. Under the meaning of AppArmor globs the
  optimized rules give the same verdicts to the same file accesses as the rules before, and no
  rule that is left is covered by another one that is left.
\<close>

theorem subsumption_preserves:
  "policy_gives aare_match (subsumption_run rules) s a v path
     = policy_gives aare_match rules s a v path
   \<and> list_all (\<lambda>r. \<not> list_ex (rule_covered r) (subsumption_run rules)) (subsumption_run rules)"
  unfolding subsumption_keeps by (auto simp: list_all_iff list_ex_iff subsumption_run_filter)

section \<open>Conflicts\<close>

record PolicyConflict =
  rule_a :: BehaviorRule
  rule_b :: BehaviorRule

fun detect :: "BehaviorRule list \<Rightarrow> PolicyConflict list" where
  "detect [] = []"
| "detect (a # rest) =
     map (\<lambda>b. \<lparr>rule_a = a, rule_b = b\<rparr>) (filter (conflicts_with a) rest) @ detect rest"

text \<open>
  conflict detection reports exactly the pairs of rules, in the order of the policy, that
  agree on subject, object and action and differ in the verdict.
\<close>

theorem detect_complete:
  "\<lparr>rule_a = a, rule_b = b\<rparr> \<in> set (detect rules) \<longleftrightarrow>
     (\<exists>xs ys zs. rules = xs @ a # ys @ b # zs) \<and> signature a = signature b
     \<and> r_verdict a \<noteq> r_verdict b"
proof (induction rules)
  case (Cons r rest)
  have "(\<exists>xs ys zs. r # rest = xs @ a # ys @ b # zs) \<longleftrightarrow>
      (r = a \<and> b \<in> set rest) \<or> (\<exists>xs ys zs. rest = xs @ a # ys @ b # zs)"
    by (auto simp: Cons_eq_append_conv in_set_conv_decomp) blast+
  then show ?case using Cons by (auto simp: conflicts_with_signature)
qed simp

lemma detect_distinct_signatures: "distinct (map signature rules) \<Longrightarrow> detect rules = []"
  by (induction rules) (auto simp: conflicts_with_signature filter_empty_conv image_iff)

text \<open>
  After deduplication there is never a conflict to report, whatever the rules before it said: the
  verdict is not part of the signature, so of two rules that disagree on it the first survives.
\<close>

lemma detect_dedup [simp]: "detect (dedup_run ks rules) = []"
  by (rule detect_distinct_signatures) (rule dedup_distinct_signatures)

end
