(* ===== verification/PassConfig.thy ===== *)
theory PassConfig
  imports PolicyTypes
begin

text \<open>
  \<open>ebpf-mon-common/src/policy/config.rs\<close>: the knobs of the prefix generalization pass, their
  defaults, and \<open>validate\<close>, which rejects the settings that would widen an allowlist silently.
  Reading the file and parsing its JSON are parameters of \<open>from_json_file\<close>.
\<close>

record PassConfig =
  prefix_min_cluster :: nat
  prefix_min_depth :: nat
  prefix_min_affix :: nat
  sensitive_roots :: "string list"

definition default_sensitive_roots :: "string list" where
  "default_sensitive_roots =
     [''/'', ''/etc/'', ''/root/'', ''/boot/'', ''/proc/'', ''/sys/'', ''/dev/'', ''/usr/'',
      ''/bin/'', ''/sbin/'', ''/lib/'', ''/lib64/'']"

definition default_config :: PassConfig where
  "default_config = \<lparr>prefix_min_cluster = 4, prefix_min_depth = 2, prefix_min_affix = 3,
     sensitive_roots = default_sensitive_roots\<rparr>"

definition validate :: "PassConfig \<Rightarrow> string + unit" where
  "validate cfg =
     (if prefix_min_cluster cfg < 2 then Inl ''prefix_min_cluster must be >= 2''
      else if prefix_min_depth cfg < 1 then
        Inl ''prefix_min_depth must be >= 1 (0 would allow generalizing at '/')''
      else if prefix_min_affix cfg < 1 then Inl ''prefix_min_affix must be >= 1''
      else if \<not> list_ex (\<lambda>r. r = ''/'') (sensitive_roots cfg) then
        Inl (''sensitive_roots must include '' @ [CHR 0x22] @ ''/'' @ [CHR 0x22])
      else case find (\<lambda>r. length r > PREFIX_MAX_LEN) (sensitive_roots cfg) of
        Some bad \<Rightarrow>
          Inl (''sensitive root '' @ [CHR 0x27] @ bad @ [CHR 0x27] @ '' exceeds PREFIX_MAX_LEN (''
               @ show_nat PREFIX_MAX_LEN @ '')'')
      | None \<Rightarrow> Inr ())"

text \<open>
  The model of \<open>from_json_file\<close> takes the file's text (or the error text of reading it) and the
  JSON decoder, which fills missing fields with the defaults and rejects unknown ones.
\<close>

definition from_json_file ::
    "(string \<Rightarrow> string + string) \<Rightarrow> (string \<Rightarrow> string + PassConfig) \<Rightarrow> string \<Rightarrow> string + PassConfig" where
  "from_json_file read_to_string from_str path =
     (case read_to_string path of
        Inl e \<Rightarrow> Inl (''failed to read pass config '' @ [CHR 0x27] @ path @ [CHR 0x27] @ '': '' @ e)
      | Inr text \<Rightarrow>
          (case from_str text of
             Inl e \<Rightarrow>
               Inl (''failed to parse pass config '' @ [CHR 0x27] @ path @ [CHR 0x27] @ '': '' @ e)
           | Inr cfg \<Rightarrow> (case validate cfg of Inl e \<Rightarrow> Inl e | Inr _ \<Rightarrow> Inr cfg)))"

text \<open>What a validated configuration guarantees.\<close>

definition safe_config :: "PassConfig \<Rightarrow> bool" where
  "safe_config cfg =
     (2 \<le> prefix_min_cluster cfg \<and> 1 \<le> prefix_min_depth cfg \<and> 1 \<le> prefix_min_affix cfg
      \<and> ''/'' \<in> set (sensitive_roots cfg)
      \<and> (\<forall>r \<in> set (sensitive_roots cfg). length r \<le> PREFIX_MAX_LEN))"

lemma find_SomeD: "find P xs = Some x \<Longrightarrow> \<exists>x \<in> set xs. P x"
  by (auto simp: find_Some_iff)

lemma validate_Inr: "validate cfg = Inr u \<longleftrightarrow> safe_config cfg"
proof (cases "find (\<lambda>r. length r > PREFIX_MAX_LEN) (sensitive_roots cfg)")
  case None
  then have "\<forall>r \<in> set (sensitive_roots cfg). length r \<le> PREFIX_MAX_LEN"
    by (auto simp: find_None_iff not_less)
  with None show ?thesis by (auto simp: validate_def safe_config_def list_ex_iff)
next
  case (Some bad)
  from find_SomeD [OF this] Some show ?thesis
    by (auto simp: validate_def safe_config_def not_le)
qed

text \<open>
  \<open>PassConfig::from_json_file\<close> returns a configuration exactly when the file was read and
  decoded to it and it is safe: the cluster, depth and affix thresholds are at least 2, 1 and 1,
  the denylist names the root directory, and its entries fit a kernel prefix entry. Every other
  outcome is an error.
\<close>

theorem from_json_file_safe:
  "from_json_file rd dec path = Inr cfg \<longleftrightarrow>
     (\<exists>text. rd path = Inr text \<and> dec text = Inr cfg) \<and> safe_config cfg"
proof (cases "rd path")
  case (Inr body)
  show ?thesis
    using Inr
    by (cases "dec text"; cases "validate cfg")
      (auto simp: from_json_file_def validate_Inr [of _ "()", symmetric] split: sum.splits)
qed (simp add: from_json_file_def)

lemma validate_default: "validate default_config = Inr ()"
  by (simp add: validate_Inr safe_config_def default_config_def default_sensitive_roots_def
      PREFIX_MAX_LEN_def)

end
