(* ===== verification/PrefixGen.thy ===== *)
theory PrefixGen
  imports Passes PassConfig
begin

text \<open>
  \<open>PrefixGeneralizationPass\<close> of \<open>ebpf-mon-common/src/policy/passes.rs\<close>: clusters of sibling
  exact-path rules collapse into one directory prefix, behind seven guards. The pass is the one
  step of the pipeline that widens a policy on purpose; the lemmas say by how much, and that no
  guarded directory holds a path to which a rule of the same subject gives another verdict.
\<close>

section \<open>Saturating sums and the minimum of f32 values\<close>

definition u64_MAX :: u64 where "u64_MAX = - 1"

definition saturating_add :: "u64 \<Rightarrow> u64 \<Rightarrow> u64" where
  "saturating_add a b = (if unat a + unat b < 2 ^ 64 then a + b else u64_MAX)"

definition f32_INFINITY :: f32 where "f32_INFINITY = 0x7f800000"

definition is_nan :: "f32 \<Rightarrow> bool" where
  "is_nan x = (x AND 0x7fffffff > 0x7f800000)"

definition is_finite :: "f32 \<Rightarrow> bool" where
  "is_finite x = (x AND 0x7f800000 \<noteq> 0x7f800000)"

text \<open>Sign and magnitude as an integer, which orders the values that are not NaN.\<close>

definition f32_key :: "f32 \<Rightarrow> int" where
  "f32_key x = (if bit x 31 then - uint (x AND 0x7fffffff) else uint (x AND 0x7fffffff))"

definition f32_min :: "f32 \<Rightarrow> f32 \<Rightarrow> f32" where
  "f32_min a b =
     (if is_nan a then b else if is_nan b then a else if f32_key b < f32_key a then b else a)"

section \<open>The pass\<close>

record PrefixGeneralizationPass =
  min_cluster :: nat
  min_depth :: nat
  min_affix :: nat
  pass_sensitive_roots :: "string list"

definition default_pass :: PrefixGeneralizationPass where
  "default_pass = \<lparr>min_cluster = 4, min_depth = 2, min_affix = 3,
     pass_sensitive_roots = default_sensitive_roots\<rparr>"

definition from_config :: "PassConfig \<Rightarrow> PrefixGeneralizationPass" where
  "from_config cfg = \<lparr>min_cluster = prefix_min_cluster cfg, min_depth = prefix_min_depth cfg,
     min_affix = prefix_min_affix cfg, pass_sensitive_roots = sensitive_roots cfg\<rparr>"

definition parent_dir :: "string \<Rightarrow> string option" where
  "parent_dir path =
     (let trimmed = (case strip_suffix ''/'' path of Some t \<Rightarrow> t | None \<Rightarrow> path) in
      case rfind_idx (\<lambda>c. c = CHR ''/'') trimmed of
        None \<Rightarrow> None
      | Some idx \<Rightarrow> if idx = 0 then None else Some (take (idx + 1) trimmed))"

definition dir_generalizable :: "PrefixGeneralizationPass \<Rightarrow> string \<Rightarrow> bool" where
  "dir_generalizable pass dir =
     (if list_ex (\<lambda>r. r = dir) (pass_sensitive_roots pass) then False
      else length (filter (\<lambda>s. s \<noteq> '''') (split_on CHR ''/'' dir)) \<ge> min_depth pass)"

text \<open>The number of steps of the inner comparison loop, from the front of both lists.\<close>

fun common_len :: "string \<Rightarrow> string \<Rightarrow> nat" where
  "common_len (a # as) (b # bs) = (if b = a then Suc (common_len as bs) else 0)"
| "common_len _ _ = 0"

fun affix_loop :: "string \<Rightarrow> nat \<Rightarrow> string list \<Rightarrow> nat" where
  "affix_loop first len [] = len"
| "affix_loop first len (s # rest) =
     (let len' = common_len (take len first) s
      in if len' = 0 then 0 else affix_loop first len' rest)"

definition common_prefix_len :: "string list \<Rightarrow> nat" where
  "common_prefix_len leaves = affix_loop (hd leaves) (length (hd leaves)) (tl leaves)"

definition common_suffix_len :: "string list \<Rightarrow> nat" where
  "common_suffix_len leaves =
     affix_loop (rev (hd leaves)) (length (hd leaves)) (map rev (tl leaves))"

definition common_affix_len :: "string list \<Rightarrow> nat" where
  "common_affix_len leaves = max (common_prefix_len leaves) (common_suffix_len leaves)"

definition is_ascii_hexdigit :: "char \<Rightarrow> bool" where
  "is_ascii_hexdigit c =
     (is_digit c \<or> (CHR ''a'' \<le> c \<and> c \<le> CHR ''f'') \<or> (CHR ''A'' \<le> c \<and> c \<le> CHR ''F''))"

definition leaves_look_generated :: "string list \<Rightarrow> nat \<Rightarrow> bool" where
  "leaves_look_generated leaves min_aff =
     (if length leaves < 2 then False
      else if common_affix_len leaves \<ge> min_aff then True
      else list_all (\<lambda>s. s \<noteq> [] \<and> list_all is_ascii_hexdigit s \<and> list_ex is_digit s) leaves)"

definition opposing_verdict_under ::
    "BehaviorRule list \<Rightarrow> Subject \<Rightarrow> Verdict \<Rightarrow> string \<Rightarrow> bool" where
  "opposing_verdict_under rules subject verdict dir =
     list_ex (\<lambda>r. r_subject r = subject \<and> r_verdict r \<noteq> verdict
       \<and> (case r_object r of
            File fo \<Rightarrow> relation_to (Prefix dir) (fo_pattern fo) \<noteq> Disjoint
          | _ \<Rightarrow> False)) rules"

type_synonym GroupKey = "Subject \<times> Action \<times> Verdict \<times> string"

definition candidate_key :: "BehaviorRule \<Rightarrow> GroupKey option" where
  "candidate_key rule =
     (case r_object rule of
        File fo \<Rightarrow>
          if fo_is_sensitive fo then None
          else (case fo_pattern fo of
                  ExactPath p \<Rightarrow>
                    (case parent_dir p of
                       Some dir \<Rightarrow> Some (r_subject rule, r_action rule, r_verdict rule, dir)
                     | None \<Rightarrow> None)
                | _ \<Rightarrow> None)
      | _ \<Rightarrow> None)"

definition candidates :: "BehaviorRule list \<Rightarrow> (GroupKey \<times> nat) list" where
  "candidates rules =
     List.map_filter (\<lambda>i. map_option (\<lambda>k. (k, i)) (candidate_key (rules ! i))) [0..<length rules]"

definition groups :: "BehaviorRule list \<Rightarrow> (GroupKey \<times> nat list) list" where
  "groups rules = collect_by fst (\<lambda>x. [snd x]) (\<lambda>v x. v @ [snd x]) (candidates rules)"

definition leaf :: "string \<Rightarrow> BehaviorRule \<Rightarrow> string option" where
  "leaf dir rule =
     (case r_object rule of
        File fo \<Rightarrow>
          (case fo_pattern fo of
             ExactPath p \<Rightarrow> if length dir \<le> length p then Some (drop (length dir) p) else None
           | _ \<Rightarrow> None)
      | _ \<Rightarrow> None)"

text \<open>The guards, in the order of the \<open>continue\<close> statements.\<close>

definition group_collapses ::
    "PrefixGeneralizationPass \<Rightarrow> BehaviorRule list \<Rightarrow> GroupKey \<times> nat list \<Rightarrow> bool" where
  "group_collapses pass rules g =
     (case g of ((subject, action, verdict, dir), idxs) \<Rightarrow>
        if length idxs < min_cluster pass then False
        else if \<not> dir_generalizable pass dir then False
        else if length dir > PREFIX_MAX_LEN then False
        else if \<not> leaves_look_generated (List.map_filter (\<lambda>i. leaf dir (rules ! i)) idxs)
                    (min_affix pass) then False
        else \<not> opposing_verdict_under rules subject verdict dir)"

definition synthesize :: "BehaviorRule list \<Rightarrow> GroupKey \<times> nat list \<Rightarrow> BehaviorRule" where
  "synthesize rules g =
     (case g of ((subject, action, verdict, dir), idxs) \<Rightarrow>
        let ms = map (\<lambda>i. r_metadata (rules ! i)) idxs;
            obs = foldl (\<lambda>acc m. saturating_add acc (observation_count m)) 0 ms;
            first = foldl (\<lambda>f m. min f (first_seen m)) u64_MAX ms;
            latest = foldl (\<lambda>l m. max l (last_seen m)) 0 ms;
            min_conf = foldl (\<lambda>c m. f32_min c (confidence m)) f32_INFINITY ms;
            src = (case ms of m # _ \<Rightarrow> source_module m | [] \<Rightarrow> Fs)
        in \<lparr>r_id = r_id (rules ! (idxs ! 0)), r_subject = subject,
            r_object = File \<lparr>fo_pattern = Prefix dir, fo_is_sensitive = False\<rparr>,
            r_action = action, r_verdict = verdict,
            r_metadata = \<lparr>source_module = src, observation_count = obs,
              confidence = (if is_finite min_conf then min_conf else 0),
              first_seen = (if first = u64_MAX then 0 else first), last_seen = latest\<rparr>\<rparr>)"

text \<open>\<open>ks\<close> is the seed of the iteration order of the map of groups.\<close>

definition collapsing ::
    "nat list \<Rightarrow> PrefixGeneralizationPass \<Rightarrow> BehaviorRule list \<Rightarrow> (GroupKey \<times> nat list) list" where
  "collapsing ks pass rules = filter (group_collapses pass rules) (hash_order ks (groups rules))"

definition prefix_generalization_run ::
    "nat list \<Rightarrow> PrefixGeneralizationPass \<Rightarrow> BehaviorRule list \<Rightarrow> BehaviorRule list" where
  "prefix_generalization_run ks pass rules =
     (let gs = collapsing ks pass rules;
          collapsed = concat (map snd gs);
          synthesized = map (synthesize rules) gs
      in if collapsed = [] then rules
         else map (\<lambda>i. rules ! i) (filter (\<lambda>i. i \<notin> set collapsed) [0..<length rules])
              @ synthesized)"

section \<open>Groups\<close>

lemma map_filter_snd:
  "map snd (List.map_filter (\<lambda>i. map_option (\<lambda>k. (k, i)) (f i)) xs) = filter (\<lambda>i. f i \<noteq> None) xs"
  by (induction xs) (auto simp: List.map_filter_simps)

lemma in_map_filter:
  "(k, i) \<in> set (List.map_filter (\<lambda>i. map_option (\<lambda>k. (k, i)) (f i)) xs)
   \<longleftrightarrow> i \<in> set xs \<and> f i = Some k"
  by (induction xs) (auto simp: List.map_filter_simps split: option.splits)

lemma candidates_indices:
  "map snd (candidates rules) =
     filter (\<lambda>i. candidate_key (rules ! i) \<noteq> None) [0..<length rules]"
  unfolding candidates_def by (rule map_filter_snd)

lemma in_candidates:
  "(k, i) \<in> set (candidates rules) \<longleftrightarrow> i < length rules \<and> candidate_key (rules ! i) = Some k"
  unfolding candidates_def in_map_filter by simp

lemma group_members:
  assumes "(k, idxs) \<in> set (groups rules)"
  shows "idxs = map snd (filter (\<lambda>x. fst x = k) (candidates rules))"
proof -
  from assms obtain y ys where f: "filter (\<lambda>x. fst x = k) (candidates rules) = y # ys"
    and v: "idxs = foldl (\<lambda>v x. v @ [snd x]) [snd y] ys"
    by (auto simp: groups_def in_collect_by)
  show ?thesis by (simp add: f v foldl_snoc_append)
qed

lemma in_group:
  assumes "(k, idxs) \<in> set (groups rules)"
  shows "i \<in> set idxs \<longleftrightarrow> i < length rules \<and> candidate_key (rules ! i) = Some k"
proof -
  have "i \<in> set idxs \<longleftrightarrow> (k, i) \<in> set (candidates rules)"
    unfolding group_members [OF assms] by force
  then show ?thesis by (simp add: in_candidates)
qed

lemma group_not_Nil: "(k, idxs) \<in> set (groups rules) \<Longrightarrow> idxs \<noteq> []"
  by (auto simp: groups_def in_collect_by foldl_snoc_append)

text \<open>No index is in two groups, or twice in one.\<close>

lemma distinct_group_indices: "distinct (concat (map snd (groups rules)))"
proof -
  have "mset (concat (map snd (groups rules))) = mset (map snd (candidates rules))"
    unfolding groups_def by (rule mset_collect_by_lists)
  then show ?thesis
    using mset_eq_imp_distinct_iff by (fastforce simp: candidates_indices)
qed

lemma mset_concat_map: "mset (concat (map f xs)) = sum_mset (image_mset (\<lambda>x. mset (f x)) (mset xs))"
  by (induction xs) auto

lemma mset_concat_filter_subset: "mset (concat (map f (filter P xs))) \<subseteq># mset (concat (map f xs))"
  by (induction xs) (auto intro: subset_mset.add_increasing)

lemma distinct_concat_mset:
  "mset xs = mset ys \<Longrightarrow> distinct (concat (map f xs)) \<longleftrightarrow> distinct (concat (map f ys))"
  by (rule mset_eq_imp_distinct_iff) (simp add: mset_concat_map)

lemma distinct_collapsed: "distinct (concat (map snd (collapsing ks pass rules)))"
proof -
  have "distinct (map id (concat (map snd (hash_order ks (groups rules)))))"
    using distinct_group_indices distinct_concat_mset [OF mset_hash_order] by (metis list.map_id)
  then have "distinct (map id (concat (map snd (collapsing ks pass rules))))"
    unfolding collapsing_def
    by (rule distinct_map_subseteq_mset [rotated]) (simp only: mset_concat_filter_subset image_mset.id id_apply)
  then show ?thesis by simp
qed

lemma collapsing_groups:
  "g \<in> set (collapsing ks pass rules) \<longleftrightarrow> g \<in> set (groups rules) \<and> group_collapses pass rules g"
  by (simp add: collapsing_def)

text \<open>The heads of disjoint non-empty lists.\<close>

lemma heads_subseteq:
  "\<forall>g \<in> set gs. snd g \<noteq> [] \<Longrightarrow> mset (map (\<lambda>g. snd g ! 0) gs) \<subseteq># mset (concat (map snd gs))"
proof (induction gs)
  case (Cons g gs)
  then obtain i idxs where "snd g = i # idxs" by (cases "snd g") auto
  with Cons show ?case by (auto intro: subset_mset.add_increasing)
qed simp

lemma synthesize_id [simp]: "r_id (synthesize rules g) = r_id (rules ! (snd g ! 0))"
  by (simp add: synthesize_def Let_def split: prod.splits)

lemma mset_partition_indices:
  assumes "distinct idxs" and "set idxs \<subseteq> {0..<n}"
  shows "mset idxs + mset (filter (\<lambda>i. i \<notin> set idxs) [0..<n]) = mset [0..<n]"
proof -
  have "mset idxs = mset (filter (\<lambda>i. i \<in> set idxs) [0..<n])"
    using assms by (intro set_eq_iff_mset_eq_distinct [THEN iffD1]) auto
  then show ?thesis
    by (metis mset_filter multiset_partition)
qed

interpretation prefix_generalization:
  optimization_pass "prefix_generalization_run ks pass" for ks pass
proof
  fix rules
  let ?gs = "collapsing ks pass rules"
  let ?collapsed = "concat (map snd ?gs)"
  let ?rest = "filter (\<lambda>i. i \<notin> set ?collapsed) [0..<length rules]"
  let ?id = "\<lambda>i. r_id (rules ! i)"
  have "\<forall>g \<in> set ?gs. snd g \<noteq> []"
    using group_not_Nil by (fastforce simp: collapsing_groups)
  then have heads: "mset (map (\<lambda>g. snd g ! 0) ?gs) \<subseteq># mset ?collapsed" by (rule heads_subseteq)
  have "set ?collapsed \<subseteq> {0..<length rules}"
    by (auto simp: collapsing_groups in_group)
  then have part: "mset ?collapsed + mset ?rest = mset [0..<length rules]"
    using distinct_collapsed by (intro mset_partition_indices)
  have all: "mset [0..<length rules] = mset ?rest + mset ?collapsed"
    using part by (simp only: add.commute)
  have "mset ?rest + mset (map (\<lambda>g. snd g ! 0) ?gs) \<subseteq># mset [0..<length rules]"
    unfolding all using heads by (rule subset_mset.add_left_mono)
  then have "image_mset ?id (mset ?rest + mset (map (\<lambda>g. snd g ! 0) ?gs))
      \<subseteq># image_mset ?id (mset [0..<length rules])"
    by (rule image_mset_subseteq_mono)
  moreover have "image_mset ?id (mset [0..<length rules]) = rule_ids rules"
  proof -
    have "map ?id [0..<length rules] = map r_id rules" by (rule nth_equalityI) auto
    then show ?thesis by (metis mset_map)
  qed
  ultimately have sub: "image_mset ?id (mset ?rest + mset (map (\<lambda>g. snd g ! 0) ?gs))
      \<subseteq># rule_ids rules" by simp
  show "rule_ids (prefix_generalization_run ks pass rules) \<subseteq># rule_ids rules"
  proof (cases "?collapsed = []")
    case True
    show ?thesis unfolding prefix_generalization_run_def Let_def if_P [OF True] ..
  next
    case False
    show ?thesis
      using sub unfolding prefix_generalization_run_def Let_def if_not_P [OF False] mset_append
        image_mset_union mset_map image_mset.compositionality comp_def synthesize_id .
  qed
qed

section \<open>What the pass does to a policy\<close>

lemma strip_slash:
  "case strip_suffix ''/'' path of Some t \<Rightarrow> path = t @ ''/'' | None \<Rightarrow> True"
  by (simp add: strip_suffix_Some split: option.splits)

text \<open>The parent directory is a prefix of the path, ends in a slash, and is not the root.\<close>

lemma parent_dir_Some:
  assumes "parent_dir path = Some dir"
  shows "\<exists>a b. dir = a @ ''/'' \<and> a \<noteq> [] \<and> path = dir @ b"
proof -
  obtain trimmed idx
    where t: "trimmed = (case strip_suffix ''/'' path of Some t \<Rightarrow> t | None \<Rightarrow> path)"
      and i: "rfind_idx (\<lambda>c. c = CHR ''/'') trimmed = Some idx" and "idx \<noteq> 0"
      and dir: "dir = take (idx + 1) trimmed"
    using assms by (auto simp: parent_dir_def Let_def split: option.splits if_splits)
  from rfind_idx_Some [OF i] obtain a b
    where ab: "trimmed = a @ CHR ''/'' # b" "length a = idx" by auto
  have "dir = a @ ''/''" using ab by (simp add: dir)
  moreover have "a \<noteq> []" using ab \<open>idx \<noteq> 0\<close> by auto
  moreover have "\<exists>b'. path = dir @ b'"
    using ab strip_slash [of path] t \<open>dir = a @ ''/''\<close> by (auto split: option.splits)
  ultimately show ?thesis by blast
qed

lemma candidate_key_Some:
  "candidate_key r = Some (s, a, v, dir) \<longleftrightarrow>
     r_subject r = s \<and> r_action r = a \<and> r_verdict r = v
     \<and> (\<exists>p. r_object r = File \<lparr>fo_pattern = ExactPath p, fo_is_sensitive = False\<rparr>
            \<and> parent_dir p = Some dir)"
  by (auto simp: candidate_key_def split: Object.splits FilePattern.splits option.splits if_splits)
    (metis FileObject.surjective unit.exhaust)+

text \<open>The directories that the pass opens, with the rest of the decision they are opened for.\<close>

definition opens :: "PrefixGeneralizationPass \<Rightarrow> BehaviorRule list \<Rightarrow> GroupKey \<Rightarrow> bool" where
  "opens pass rules k = list_ex (\<lambda>g. fst g = k \<and> group_collapses pass rules g) (groups rules)"

lemma synthesize_gives:
  "rule_gives gm s a v path (synthesize rules ((s', a', v', dir), idxs)) \<longleftrightarrow>
     s' = s \<and> a' = a \<and> v' = v \<and> prefix dir path"
  by (simp add: rule_gives_def synthesize_def Let_def)

lemma prefix_run_set:
  "r \<in> set (prefix_generalization_run ks pass rules) \<longleftrightarrow>
     (\<exists>i < length rules. r = rules ! i \<and> i \<notin> set (concat (map snd (collapsing ks pass rules))))
     \<or> r \<in> synthesize rules ` set (collapsing ks pass rules)"
proof (cases "concat (map snd (collapsing ks pass rules)) = []")
  case True
  then have none: "collapsing ks pass rules = []"
    using group_not_Nil by (cases "collapsing ks pass rules")
      (auto, metis collapsing_groups list.set_intros(1) prod.collapse)
  show ?thesis
    by (simp add: prefix_generalization_run_def none) (metis in_set_conv_nth)
next
  case False
  show ?thesis
    unfolding prefix_generalization_run_def Let_def if_not_P [OF False]
    by (auto simp: image_iff)
qed

lemma collapsed_rule_given:
  assumes g: "((s, a, v, dir), idxs) \<in> set (groups rules)" and i: "i \<in> set idxs"
    and gives: "rule_gives gm s' a' v' path (rules ! i)"
  shows "s' = s \<and> a' = a \<and> v' = v \<and> prefix dir path"
proof -
  have "candidate_key (rules ! i) = Some (s, a, v, dir)" using in_group [OF g] i by blast
  then obtain p where p: "r_object (rules ! i) = File \<lparr>fo_pattern = ExactPath p, fo_is_sensitive = False\<rparr>"
      "parent_dir p = Some dir" and k: "r_subject (rules ! i) = s" "r_action (rules ! i) = a"
      "r_verdict (rules ! i) = v"
    by (auto simp: candidate_key_Some)
  have "path = p" using gives p(1) by (simp add: rule_gives_def)
  moreover have "prefix dir p" using parent_dir_Some [OF p(2)] by auto
  ultimately show ?thesis using gives k by (simp add: rule_gives_def)
qed

lemma prefix_widens:
  "policy_gives gm (prefix_generalization_run ks pass rules) s a v path \<longleftrightarrow>
     policy_gives gm rules s a v path
     \<or> (\<exists>dir. prefix dir path \<and> opens pass rules (s, a, v, dir))" (is "?new \<longleftrightarrow> ?old \<or> ?dirs")
proof
  assume ?new
  then obtain r where r: "r \<in> set (prefix_generalization_run ks pass rules)"
    and gives: "rule_gives gm s a v path r"
    by (auto simp: policy_gives_def list_ex_iff)
  from r consider i where "i < length rules" "r = rules ! i"
    | g where "g \<in> set (collapsing ks pass rules)" "r = synthesize rules g"
    by (auto simp: prefix_run_set)
  then show "?old \<or> ?dirs"
  proof cases
    case 1
    then show ?thesis using gives nth_mem by (auto simp: policy_gives_def list_ex_iff)
  next
    case 2
    obtain s' a' v' dir idxs where g: "g = ((s', a', v', dir), idxs)" by (metis prod.exhaust)
    from 2 gives have "s' = s \<and> a' = a \<and> v' = v \<and> prefix dir path"
      by (simp add: g synthesize_gives)
    then show ?thesis
      using 2(1) by (auto simp: g collapsing_groups opens_def list_ex_iff)
  qed
next
  have opened: ?new if "((s, a, v, dir), idxs) \<in> set (collapsing ks pass rules)" "prefix dir path"
    for dir idxs
    using that by (force simp: policy_gives_def list_ex_iff prefix_run_set synthesize_gives)
  assume "?old \<or> ?dirs"
  then show ?new
  proof
    assume ?old
    then obtain i where i: "i < length rules" and gives: "rule_gives gm s a v path (rules ! i)"
      by (auto simp: policy_gives_def list_ex_iff in_set_conv_nth)
    show ?new
    proof (cases "i \<in> set (concat (map snd (collapsing ks pass rules)))")
      case True
      then obtain s' a' v' dir idxs
        where g: "((s', a', v', dir), idxs) \<in> set (collapsing ks pass rules)" "i \<in> set idxs"
        by auto
      then have "s = s' \<and> a = a' \<and> v = v' \<and> prefix dir path"
        using gives by (intro collapsed_rule_given) (auto simp: collapsing_groups)
      then show ?new using g opened by blast
    next
      case False
      then have "rules ! i \<in> set (prefix_generalization_run ks pass rules)"
        using i unfolding prefix_run_set by blast
      then show ?new using gives by (auto simp: policy_gives_iff)
    qed
  next
    assume ?dirs
    then show ?new using opened by (auto simp: opens_def list_ex_iff collapsing_groups)
  qed
qed

text \<open>
  Prefix generalization changes a policy by exactly the directories it opens: afterwards a
  file access has a verdict when it had it before, or when the path is below a directory that
  passed every guard for that subject, action and verdict. Nothing is taken away.
\<close>

theorem prefix_generalization_effect:
  "policy_gives gm (prefix_generalization_run ks pass rules) s a v path
     = (policy_gives gm rules s a v path
        \<or> list_ex (\<lambda>g. case g of ((s', a', v', dir), idxs) \<Rightarrow>
            s' = s \<and> a' = a \<and> v' = v \<and> prefix dir path \<and> group_collapses pass rules g) (groups rules))
   \<and> length (prefix_generalization_run ks pass rules) \<le> length rules"
  by (auto simp: prefix_widens opens_def list_ex_iff prefix_generalization.not_longer
      intro: rev_bexI)

section \<open>What the guards guarantee\<close>

lemma opensE:
  assumes "opens pass rules (s, a, v, dir)"
  obtains idxs where "((s, a, v, dir), idxs) \<in> set (groups rules)"
    "min_cluster pass \<le> length idxs" "dir_generalizable pass dir" "length dir \<le> PREFIX_MAX_LEN"
    "leaves_look_generated (List.map_filter (\<lambda>i. leaf dir (rules ! i)) idxs) (min_affix pass)"
    "\<not> opposing_verdict_under rules s v dir"
  using assms
  by (auto simp: opens_def list_ex_iff group_collapses_def not_less split: if_splits prod.splits)

text \<open>Guard 7 leaves no path under the directory with another verdict for the subject.\<close>

lemma no_opposing:
  assumes "\<not> opposing_verdict_under rules s v dir" and "prefix dir path" and "v' \<noteq> v"
  shows "\<not> policy_gives aare_match rules s a' v' path"
proof
  assume "policy_gives aare_match rules s a' v' path"
  then obtain r fo where r: "r \<in> set rules" "r_subject r = s" "r_verdict r = v'"
    "r_object r = File fo" "pattern_matches aare_match (fo_pattern fo) path"
    by (auto simp: policy_gives_iff rule_gives_iff)
  then have "relation_to (Prefix dir) (fo_pattern fo) = Disjoint"
    using assms(1,3) by (force simp: opposing_verdict_under_def list_ex_iff)
  then have "\<not> (pattern_matches aare_match (Prefix dir) path
      \<and> pattern_matches aare_match (fo_pattern fo) path)"
    by (rule aare.disjoint_sound) simp_all
  then show False using r(5) assms(2) by simp
qed

text \<open>The observed paths of a group, which the opened directory replaces.\<close>

definition observed :: "BehaviorRule list \<Rightarrow> GroupKey \<Rightarrow> string list" where
  "observed rules k =
     List.map_filter (\<lambda>r. if candidate_key r = Some k
       then (case r_object r of File fo \<Rightarrow>
               (case fo_pattern fo of ExactPath p \<Rightarrow> Some p | _ \<Rightarrow> None) | _ \<Rightarrow> None)
       else None) rules"

lemma length_map_filter_Some:
  "\<forall>x \<in> set xs. P x \<longrightarrow> f x \<noteq> None \<Longrightarrow>
   length (List.map_filter (\<lambda>x. if P x then f x else None) xs) = length (filter P xs)"
  by (induction xs) (auto simp: List.map_filter_simps)

lemma length_observed: "length (observed rules k) = length (filter (\<lambda>r. candidate_key r = Some k) rules)"
  unfolding observed_def
  by (rule length_map_filter_Some) (cases k, auto simp: candidate_key_Some)

lemma length_group:
  assumes "(k, idxs) \<in> set (groups rules)"
  shows "length idxs = length (filter (\<lambda>r. candidate_key r = Some k) rules)"
proof -
  have "distinct idxs"
    using distinct_group_indices [of rules] assms
    by (auto simp: distinct_concat_iff dest: in_set_conv_decomp [THEN iffD1])
  then have "length idxs = card (set idxs)" by (simp add: distinct_card)
  also have "set idxs = {i. i < length rules \<and> candidate_key (rules ! i) = Some k}"
    using in_group [OF assms] by auto
  finally show ?thesis by (simp add: length_filter_conv_card)
qed


text \<open>Four rotated logs below \<open>/srv/app/\<close>, with the default configuration.\<close>

definition any_subject :: Subject where
  "any_subject = \<lparr>sub_container = None, sub_binary = None, sub_uid = None\<rparr>"

definition sample_rule :: "RuleId \<Rightarrow> string \<Rightarrow> BehaviorRule" where
  "sample_rule n path =
     \<lparr>r_id = n, r_subject = any_subject,
      r_object = File \<lparr>fo_pattern = ExactPath path, fo_is_sensitive = False\<rparr>,
      r_action = FileRead, r_verdict = Allow,
      r_metadata = \<lparr>source_module = Fs, observation_count = 1, confidence = 0x3e99999a,
        first_seen = 1, last_seen = 2\<rparr>\<rparr>"

definition sample_rules :: "BehaviorRule list" where
  "sample_rules =
     [sample_rule 1 ''/srv/app/log1'', sample_rule 2 ''/srv/app/log2'',
      sample_rule 3 ''/srv/app/log3'', sample_rule 4 ''/srv/app/log4'']"


end
