(* ===== verification/Pipeline.thy ===== *)
theory Pipeline
  imports PrefixGen
begin

text \<open>
  The optimization pipeline of \<open>ebpf-mon-common/src/policy/passes.rs\<close>: six passes in a fixed
  order, the rule counts around each of them, and the conflict report on the result.

  The seeds \<open>k1\<close>, \<open>kg\<close> and \<open>k2\<close> stand for the iteration orders of the three hash maps (the two
  deduplications and the groups of the prefix generalization).
\<close>

record PassStat =
  ps_name :: string
  ps_before :: nat
  ps_after :: nat

definition removed :: "PassStat \<Rightarrow> nat" where
  "removed s = ps_before s - ps_after s"

text \<open>The boxed passes, by name and \<open>run\<close> function.\<close>

definition passes ::
    "nat list \<Rightarrow> nat list \<Rightarrow> nat list \<Rightarrow> PassConfig
      \<Rightarrow> (string \<times> (BehaviorRule list \<Rightarrow> BehaviorRule list)) list" where
  "passes k1 kg k2 config =
     [(''canonicalize'', canonicalization_run),
      (''dedup'', dedup_run k1),
      (''generalize'', generalization_run),
      (''prefix-generalize'', prefix_generalization_run kg (from_config config)),
      (''subsumption'', subsumption_run),
      (''dedup'', dedup_run k2)]"

fun run_passes ::
    "(string \<times> (BehaviorRule list \<Rightarrow> BehaviorRule list)) list \<Rightarrow> BehaviorRule list \<Rightarrow> PassStat list
      \<Rightarrow> BehaviorRule list \<times> PassStat list" where
  "run_passes [] optimized stats = (optimized, stats)"
| "run_passes ((name, run) # rest) optimized stats =
     (let before = length optimized;
          optimized = run optimized
      in run_passes rest optimized
           (stats @ [\<lparr>ps_name = name, ps_before = before, ps_after = length optimized\<rparr>]))"

definition run_pipeline_reported_with ::
    "nat list \<Rightarrow> nat list \<Rightarrow> nat list \<Rightarrow> BehaviorRule list \<Rightarrow> PassConfig
      \<Rightarrow> BehaviorRule list \<times> PolicyConflict list \<times> PassStat list" where
  "run_pipeline_reported_with k1 kg k2 rules config =
     (let (optimized, stats) = run_passes (passes k1 kg k2 config) rules []
      in (optimized, detect optimized, stats))"

definition run_pipeline_reported ::
    "nat list \<Rightarrow> nat list \<Rightarrow> nat list \<Rightarrow> BehaviorRule list
      \<Rightarrow> BehaviorRule list \<times> PolicyConflict list \<times> PassStat list" where
  "run_pipeline_reported k1 kg k2 rules = run_pipeline_reported_with k1 kg k2 rules default_config"

definition run_pipeline ::
    "nat list \<Rightarrow> nat list \<Rightarrow> nat list \<Rightarrow> BehaviorRule list \<Rightarrow> BehaviorRule list \<times> PolicyConflict list"
where
  "run_pipeline k1 kg k2 rules =
     (let (optimized, conflicts, _) = run_pipeline_reported k1 kg k2 rules
      in (optimized, conflicts))"

section \<open>The pipeline as one pass\<close>

definition optimize ::
    "nat list \<Rightarrow> nat list \<Rightarrow> nat list \<Rightarrow> PassConfig \<Rightarrow> BehaviorRule list \<Rightarrow> BehaviorRule list" where
  "optimize k1 kg k2 config rules =
     dedup_run k2 (subsumption_run (prefix_generalization_run kg (from_config config)
       (generalization_run (dedup_run k1 (canonicalization_run rules)))))"

lemma run_pipeline_rules [simp]:
  "fst (run_pipeline_reported_with k1 kg k2 rules config) = optimize k1 kg k2 config rules"
  by (simp add: run_pipeline_reported_with_def passes_def optimize_def Let_def)

lemma run_pipeline_conflicts [simp]:
  "fst (snd (run_pipeline_reported_with k1 kg k2 rules config)) = []"
  by (simp add: run_pipeline_reported_with_def passes_def Let_def)

interpretation pipeline: optimization_pass "optimize k1 kg k2 config" for k1 kg k2 config
proof
  fix rules
  show "rule_ids (optimize k1 kg k2 config rules) \<subseteq># rule_ids rules"
    unfolding optimize_def
    by (rule subset_mset.order_trans [OF dedup.ids_kept],
        rule subset_mset.order_trans [OF subsumption.ids_kept],
        rule subset_mset.order_trans [OF prefix_generalization.ids_kept],
        rule subset_mset.order_trans [OF generalization.ids_kept],
        rule subset_mset.order_trans [OF dedup.ids_kept],
        rule canonicalization.ids_kept)
qed

text \<open>The statistics: each pass starts from the count the pass before it left.\<close>

fun linked_stats :: "nat \<Rightarrow> PassStat list \<Rightarrow> nat \<Rightarrow> bool" where
  "linked_stats n [] m = (n = m)"
| "linked_stats n (s # ss) m = (ps_before s = n \<and> ps_after s \<le> n \<and> linked_stats (ps_after s) ss m)"

text \<open>
  The pipeline never adds a rule, never reuses an id (distinct ids stay distinct, and every
  id of the result was there before), returns rules with pairwise different signatures, reports
  no conflict, and its statistics account for the passes one after the other, from the number of
  rules put in to the number returned.
\<close>

theorem pipeline_structure:
  "case run_pipeline_reported_with k1 kg k2 rules config of (out, conflicts, stats) \<Rightarrow>
     rule_ids out \<subseteq># rule_ids rules
     \<and> length out \<le> length rules
     \<and> distinct (map signature out)
     \<and> conflicts = []
     \<and> map ps_name stats =
         [''canonicalize'', ''dedup'', ''generalize'', ''prefix-generalize'', ''subsumption'', ''dedup'']
     \<and> linked_stats (length rules) stats (length out)"
proof -
  have "rule_ids (optimize k1 kg k2 config rules) \<subseteq># rule_ids rules" by (rule pipeline.ids_kept)
  moreover have "length (optimize k1 kg k2 config rules) \<le> length rules" by (rule pipeline.not_longer)
  ultimately show ?thesis
    by (simp add: run_pipeline_reported_with_def passes_def optimize_def Let_def
        dedup_distinct_signatures canonicalization.not_longer
        dedup.not_longer generalization.not_longer prefix_generalization.not_longer
        subsumption.not_longer)
qed

section \<open>What the pipeline does to a policy\<close>

text \<open>
  Deduplication keeps the verdicts of a policy whose rules agree on the verdict of every
  signature. The translator only makes \<open>Allow\<close> rules, so this covers profiled policies.
\<close>

definition verdicts_agree :: "BehaviorRule list \<Rightarrow> bool" where
  "verdicts_agree rules =
     list_all (\<lambda>r. list_all (\<lambda>r'. r_verdict r = r_verdict r' \<or> signature r \<noteq> signature r') rules) rules"

lemma rule_gives_signature:
  "signature r = signature r' \<Longrightarrow> r_verdict r = r_verdict r' \<Longrightarrow>
   rule_gives gm s a v path r = rule_gives gm s a v path r'"
  by (simp add: rule_gives_def signature_def)

lemma dedup_ex:
  assumes "verdicts_agree rules"
    and Q: "\<And>r r'. signature r = signature r' \<Longrightarrow> r_verdict r = r_verdict r' \<Longrightarrow> Q r = Q r'"
  shows "(\<exists>r \<in> set (dedup_run ks rules). Q r) \<longleftrightarrow> (\<exists>r \<in> set rules. Q r)"
proof -
  have merged: "\<exists>r' \<in> set rules. signature r = signature r' \<and> r_verdict r = r_verdict r'"
    if "r \<in> set (dedup_run ks rules)" for r
  proof -
    from that obtain sig first rest where f: "same_signature sig rules = first # rest"
      and r: "r = foldl merge_rule first rest" by (auto simp: in_dedup)
    have "first \<in> set (same_signature sig rules)" by (simp add: f)
    then show ?thesis by (auto simp: r same_signature_def)
  qed
  have agree: "r_verdict r = r_verdict r'"
    if "r \<in> set rules" "r' \<in> set rules" "signature r = signature r'" for r r'
    using assms that by (auto simp: verdicts_agree_def list_all_iff)
  have kept: "\<exists>r' \<in> set (dedup_run ks rules). signature r = signature r' \<and> r_verdict r = r_verdict r'"
    if "r \<in> set rules" for r
  proof -
    have "signature r \<in> signature ` set (dedup_run ks rules)"
      using that by (simp add: dedup_same_signatures)
    then obtain r' where r': "r' \<in> set (dedup_run ks rules)" "signature r = signature r'" by auto
    then show ?thesis using merged [OF r'(1)] agree that by metis
  qed
  show ?thesis using merged kept Q by metis
qed

lemma dedup_preserves:
  "verdicts_agree rules \<Longrightarrow>
   policy_gives gm (dedup_run ks rules) s a v path = policy_gives gm rules s a v path"
  unfolding policy_gives_iff by (erule dedup_ex) (rule rule_gives_signature)

lemma generalize_rule_gives:
  "signature r = signature r' \<Longrightarrow> r_verdict r = r_verdict r' \<Longrightarrow>
   rule_gives gm s a v path (generalize_rule r) = rule_gives gm s a v path (generalize_rule r')"
  by (rule rule_gives_signature)
    (auto simp: signature_def generalize_rule_def split: Object.splits FilePattern.splits option.splits)

lemma dedup_generalize_preserves:
  "verdicts_agree rules \<Longrightarrow>
   policy_gives gm (generalization_run (dedup_run ks rules)) s a v path
   = policy_gives gm (generalization_run rules) s a v path"
  unfolding policy_gives_iff generalization_run_map set_map bex_simps
  by (erule dedup_ex) (rule generalize_rule_gives)

definition allow_only :: "BehaviorRule list \<Rightarrow> bool" where
  "allow_only rules = list_all (\<lambda>r. r_verdict r = Allow) rules"

lemma allow_only_agree: "allow_only rules \<Longrightarrow> verdicts_agree rules"
  by (auto simp: allow_only_def verdicts_agree_def list_all_iff)

lemma allow_only_canonicalize [simp]: "allow_only (canonicalization_run rules) = allow_only rules"
  by (simp add: allow_only_def canonicalization_run_def list_all_iff)

lemma allow_only_generalize [simp]: "allow_only (generalization_run rules) = allow_only rules"
  by (simp add: allow_only_def generalization_run_def list_all_iff)

lemma allow_only_dedup: "allow_only rules \<Longrightarrow> allow_only (dedup_run ks rules)"
  by (auto simp: allow_only_def list_all_iff in_dedup same_signature_def
      dest!: Cons_eq_filterD [OF sym])

lemma allow_only_prefix:
  assumes "allow_only rules"
  shows "allow_only (prefix_generalization_run ks pass rules)"
proof -
  have "r_verdict (synthesize rules g) = Allow" if "g \<in> set (collapsing ks pass rules)" for g
  proof -
    obtain s a v dir idxs where g: "g = ((s, a, v, dir), idxs)" by (metis prod.exhaust)
    then have mem: "((s, a, v, dir), idxs) \<in> set (groups rules)" using that by (simp add: collapsing_groups)
    then obtain i where "i \<in> set idxs" using group_not_Nil [OF mem] by (cases idxs) auto
    then have "i < length rules" "r_verdict (rules ! i) = v"
      using in_group [OF mem] by (auto simp: candidate_key_Some)
    then show ?thesis
      using assms by (simp add: g synthesize_def Let_def allow_only_def list_all_iff)
  qed
  then show ?thesis
    using assms by (auto simp: allow_only_def list_all_iff prefix_run_set)
qed

lemma allow_only_subsumption: "allow_only rules \<Longrightarrow> allow_only (subsumption_run rules)"
  by (simp add: allow_only_def subsumption_run_filter list_all_iff)

text \<open>The rules that the widening step of the pipeline sees.\<close>

definition before_widening :: "nat list \<Rightarrow> BehaviorRule list \<Rightarrow> BehaviorRule list" where
  "before_widening k1 rules = generalization_run (dedup_run k1 (canonicalization_run rules))"



text \<open>
  A deny rule that comes after an allow rule with the same signature disappears, and nothing is
  reported.
\<close>

definition allow_then_deny :: "BehaviorRule list" where
  "allow_then_deny =
     [sample_rule 1 ''/srv/secret'', (sample_rule 2 ''/srv/secret'')\<lparr>r_verdict := Deny\<rparr>]"

lemma dedup_drops_deny:
  "map r_verdict allow_then_deny = [Allow, Deny]
   \<and> map r_verdict (fst (run_pipeline_reported_with [] [] [] allow_then_deny default_config)) = [Allow]
   \<and> fst (snd (run_pipeline_reported_with [] [] [] allow_then_deny default_config)) = []"
  by (intro conjI; code_simp)

end
