(* ===== verification/Linker.thy ===== *)
theory Linker
  imports Passes
begin

text \<open>
  \<open>ebpf-mon-common/src/policy/linker.rs\<close>: an exec rule implies that the file policy must let the
  binary be opened and read, so the linker adds the missing file rules. The two loops are folds
  over the pair of the rules synthesized so far and the next free id.
\<close>

definition f32_one :: f32 where "f32_one = 0x3f800000"

text \<open>The binary path of an exec rule; every other rule is skipped by a \<open>continue\<close>.\<close>

definition exec_binary_path :: "BehaviorRule \<Rightarrow> string option" where
  "exec_binary_path rule =
     (if r_action rule \<noteq> ProcExec then None
      else case r_object rule of
        Process proc_obj \<Rightarrow> (case po_binary proc_obj of Path p \<Rightarrow> Some p | Comm _ \<Rightarrow> None)
      | _ \<Rightarrow> None)"

definition linked_object :: "string \<Rightarrow> Object" where
  "linked_object path = File \<lparr>fo_pattern = ExactPath path, fo_is_sensitive = False\<rparr>"

definition implies_rule :: "Subject \<Rightarrow> Object \<Rightarrow> Action \<Rightarrow> BehaviorRule \<Rightarrow> bool" where
  "implies_rule subject file_obj action r =
     (r_subject r = subject \<and> r_object r = file_obj \<and> r_action r = action)"

definition link_action ::
    "BehaviorRule list \<Rightarrow> BehaviorRule \<Rightarrow> Object \<Rightarrow> BehaviorRule list \<times> RuleId \<Rightarrow> Action
      \<Rightarrow> BehaviorRule list \<times> RuleId" where
  "link_action rules rule file_obj st action =
     (let (synthetic, next_id) = st in
      if list_ex (implies_rule (r_subject rule) file_obj action) (rules @ synthetic)
      then (synthetic, next_id)
      else
        (synthetic @ [\<lparr>r_id = next_id, r_subject = r_subject rule, r_object = file_obj,
            r_action = action, r_verdict = r_verdict rule,
            r_metadata = \<lparr>source_module = Fs, observation_count = 0, confidence = f32_one,
              first_seen = first_seen (r_metadata rule),
              last_seen = last_seen (r_metadata rule)\<rparr>\<rparr>],
         next_id + 1))"

definition link_rule ::
    "BehaviorRule list \<Rightarrow> BehaviorRule list \<times> RuleId \<Rightarrow> BehaviorRule \<Rightarrow> BehaviorRule list \<times> RuleId"
where
  "link_rule rules st rule =
     (case exec_binary_path rule of
        None \<Rightarrow> st
      | Some path \<Rightarrow> foldl (link_action rules rule (linked_object path)) st [FileOpen, FileRead])"

definition max_id :: "BehaviorRule list \<Rightarrow> RuleId" where
  "max_id rules = foldl max 0 (map r_id rules)"

definition link_cross_category :: "BehaviorRule list \<Rightarrow> BehaviorRule list" where
  "link_cross_category rules =
     (let synthetic = fst (foldl (link_rule rules) ([], max_id rules + 1) rules)
      in if synthetic \<noteq> [] then rules @ synthetic else rules)"

section \<open>Closure, idempotence, fresh ids\<close>

text \<open>The file rules that a rule demands are there.\<close>

definition linked :: "BehaviorRule list \<Rightarrow> BehaviorRule \<Rightarrow> bool" where
  "linked rules rule =
     (case exec_binary_path rule of
        None \<Rightarrow> True
      | Some path \<Rightarrow>
          list_ex (implies_rule (r_subject rule) (linked_object path) FileOpen) rules
          \<and> list_ex (implies_rule (r_subject rule) (linked_object path) FileRead) rules)"

lemma link_cross_category_append:
  "link_cross_category rules = rules @ fst (foldl (link_rule rules) ([], max_id rules + 1) rules)"
  by (simp add: link_cross_category_def Let_def)

text \<open>What one step adds: at most one file rule, with the next id.\<close>

lemma link_action_cases:
  "link_action rules rule ob (syn, n) a =
     (if list_ex (implies_rule (r_subject rule) ob a) (rules @ syn) then (syn, n)
      else (syn @ [\<lparr>r_id = n, r_subject = r_subject rule, r_object = ob, r_action = a,
        r_verdict = r_verdict rule, r_metadata = \<lparr>source_module = Fs, observation_count = 0,
          confidence = f32_one, first_seen = first_seen (r_metadata rule),
          last_seen = last_seen (r_metadata rule)\<rparr>\<rparr>], n + 1))"
  by (simp add: link_action_def)

lemma link_action_holds:
  "list_ex (implies_rule (r_subject rule) ob a) (rules @ fst (link_action rules rule ob st a))"
  by (cases st) (simp add: link_action_cases implies_rule_def)

lemma link_action_grows: "prefix (fst st) (fst (link_action rules rule ob st a))"
  by (cases st) (simp add: link_action_cases)

lemma link_rule_grows: "prefix (fst st) (fst (link_rule rules st rule))"
  by (auto simp: link_rule_def split: option.splits intro: prefix_order.trans link_action_grows)

lemma link_fold_grows: "prefix (fst st) (fst (foldl (link_rule rules) st rs))"
proof (induction rs arbitrary: st)
  case (Cons r rs)
  show ?case using prefix_order.trans [OF link_rule_grows Cons.IH] by simp
qed simp

lemma list_ex_prefix_mono:
  "prefix xs ys \<Longrightarrow> list_ex P (rules @ xs) \<Longrightarrow> list_ex P (rules @ ys)"
  by (auto simp: prefix_def)

lemma link_rule_linked: "linked (rules @ fst (link_rule rules st rule)) rule"
proof (cases "exec_binary_path rule")
  case (Some path)
  let ?act = "link_action rules rule (linked_object path)"
  have "list_ex (implies_rule (r_subject rule) (linked_object path) FileOpen)
      (rules @ fst (?act (?act st FileOpen) FileRead))"
    by (rule list_ex_prefix_mono [OF link_action_grows link_action_holds])
  moreover have "list_ex (implies_rule (r_subject rule) (linked_object path) FileRead)
      (rules @ fst (?act (?act st FileOpen) FileRead))"
    by (rule link_action_holds)
  ultimately show ?thesis by (simp add: linked_def link_rule_def Some)
qed (simp add: linked_def)

lemma linked_mono: "prefix xs ys \<Longrightarrow> linked (rules @ xs) r \<Longrightarrow> linked (rules @ ys) r"
  by (auto simp: linked_def prefix_def split: option.splits)

lemma link_fold_linked:
  "r \<in> set rs \<Longrightarrow> linked (rules @ fst (foldl (link_rule rules) st rs)) r"
proof (induction rs arbitrary: st)
  case (Cons r' rs)
  then consider "r = r'" | "r \<in> set rs" by auto
  then show ?case
  proof cases
    case 1
    then show ?thesis using linked_mono [OF link_fold_grows link_rule_linked] by simp
  next
    case 2
    then show ?thesis using Cons.IH by simp
  qed
qed simp

text \<open>The rules that are added are file rules, so they demand nothing themselves.\<close>

definition synthetic_ok :: "BehaviorRule list \<times> RuleId \<Rightarrow> bool" where
  "synthetic_ok st = list_all (\<lambda>r. exec_binary_path r = None) (fst st)"

lemma link_action_ok: "a \<noteq> ProcExec \<Longrightarrow> synthetic_ok st \<Longrightarrow> synthetic_ok (link_action rules rule ob st a)"
  by (cases st) (simp add: link_action_cases synthetic_ok_def exec_binary_path_def)

lemma link_rule_ok: "synthetic_ok st \<Longrightarrow> synthetic_ok (link_rule rules st rule)"
  by (auto simp: link_rule_def link_action_ok split: option.splits)

lemma link_fold_ok: "synthetic_ok st \<Longrightarrow> synthetic_ok (foldl (link_rule rules) st rs)"
  by (induction rs arbitrary: st) (simp_all add: link_rule_ok)

lemma link_fold_noop:
  "list_all (linked rules) rs \<Longrightarrow> foldl (link_rule rules) ([], n) rs = ([], n)"
  by (induction rs) (auto simp: linked_def link_rule_def link_action_cases split: option.splits)

text \<open>The ids are handed out in sequence.\<close>

definition ids_in_sequence :: "RuleId \<Rightarrow> BehaviorRule list \<times> RuleId \<Rightarrow> bool" where
  "ids_in_sequence start st =
     (map r_id (fst st) = map (\<lambda>k. start + of_nat k) [0..<length (fst st)]
      \<and> snd st = start + of_nat (length (fst st)))"

lemma link_action_ids:
  "ids_in_sequence start st \<Longrightarrow> ids_in_sequence start (link_action rules rule ob st a)"
  by (cases st) (simp add: link_action_cases ids_in_sequence_def algebra_simps)

lemma link_rule_ids: "ids_in_sequence start st \<Longrightarrow> ids_in_sequence start (link_rule rules st rule)"
  by (auto simp: link_rule_def link_action_ids split: option.splits)

lemma link_fold_ids:
  "ids_in_sequence start st \<Longrightarrow> ids_in_sequence start (foldl (link_rule rules) st rs)"
  by (induction rs arbitrary: st) (simp_all add: link_rule_ids)

lemma foldl_max_upper:
  "a \<le> foldl max a ws \<and> (\<forall>w \<in> set ws. w \<le> foldl max a ws)" for a :: "'a :: linorder"
proof (induction ws arbitrary: a)
  case (Cons w ws)
  have "max a w \<le> foldl max (max a w) ws" using Cons.IH by blast
  then show ?case using Cons.IH [of "max a w"] by simp
qed simp

lemma max_id_upper: "r \<in> set rules \<Longrightarrow> r_id r \<le> max_id rules"
  using foldl_max_upper [of 0 "map r_id rules"] by (simp add: max_id_def)

lemma sequence_above:
  fixes m :: u64
  assumes "unat m + n < 2 ^ 64"
  shows "distinct (map (\<lambda>k. (m + 1) + of_nat k) [0..<n]) \<and> (\<forall>k < n. m < (m + 1) + of_nat k)"
proof -
  have val: "unat ((m + 1) + of_nat k) = unat m + 1 + k" if "k < n" for k
  proof -
    have "unat m + 1 + k < 2 ^ 64" using assms that by simp
    moreover have "(m + 1) + of_nat k = of_nat (unat m + 1 + k)" by simp
    ultimately show ?thesis by (simp only: unsigned_of_nat) (simp add: take_bit_nat_eq_self)
  qed
  have "inj_on (\<lambda>k. (m + 1) + of_nat k) {0..<n}"
    by (rule inj_onI) (metis add_left_cancel atLeastLessThan_iff val)
  moreover have "m < (m + 1) + of_nat k" if "k < n" for k
    using val [OF that] by (simp add: word_less_nat_alt)
  ultimately show ?thesis by (simp add: distinct_map)
qed

text \<open>
  Linking keeps the given rules in front, and afterwards every exec rule with a binary path
  has an open and a read rule for that path and its subject (whatever their verdicts). Linking
  again adds nothing.
\<close>

theorem link_closed:
  "prefix rules (link_cross_category rules)
   \<and> list_all (linked (link_cross_category rules)) (link_cross_category rules)
   \<and> link_cross_category (link_cross_category rules) = link_cross_category rules"
proof -
  let ?out = "link_cross_category rules"
  let ?st = "foldl (link_rule rules) ([], max_id rules + 1) rules"
  have out: "?out = rules @ fst ?st" by (rule link_cross_category_append)
  have "linked ?out r" if "r \<in> set rules" for r
    unfolding out by (rule link_fold_linked [OF that])
  moreover have "linked ?out r" if "r \<in> set (fst ?st)" for r
    using link_fold_ok [of "([], max_id rules + 1)" rules rules] that
    by (simp add: synthetic_ok_def list_all_iff linked_def)
  ultimately have all: "list_all (linked ?out) ?out"
    unfolding list_all_iff by (metis UnE out set_append)
  have "link_cross_category ?out = ?out"
    by (simp add: link_cross_category_append [of ?out] link_fold_noop [OF all])
  with all show ?thesis by (simp add: out)
qed

text \<open>
  The synthesized rules get fresh ids: as long as the ids do not run out, distinct ids stay
  distinct and every new id is above all old ones.
\<close>

theorem link_fresh_ids:
  assumes "distinct (map r_id rules)"
    and "unat (max_id rules) + (length (link_cross_category rules) - length rules) < 2 ^ 64"
  shows "distinct (map r_id (link_cross_category rules))
    \<and> (\<forall>r \<in> set (drop (length rules) (link_cross_category rules)). max_id rules < r_id r)"
proof -
  let ?st = "foldl (link_rule rules) ([], max_id rules + 1) rules"
  let ?n = "length (fst ?st)"
  have "ids_in_sequence (max_id rules + 1) ?st"
    by (rule link_fold_ids) (simp add: ids_in_sequence_def)
  then have ids: "map r_id (fst ?st) = map (\<lambda>k. (max_id rules + 1) + of_nat k) [0..<?n]"
    by (simp add: ids_in_sequence_def)
  have "unat (max_id rules) + ?n < 2 ^ 64"
    using assms(2) by (simp add: link_cross_category_append)
  note seq = sequence_above [OF this]
  have above: "max_id rules < r_id r" if "r \<in> set (fst ?st)" for r
  proof -
    have "r_id r \<in> set (map r_id (fst ?st))" using that by simp
    then show ?thesis unfolding ids using seq by auto
  qed
  have "r_id r \<noteq> r_id r'" if "r \<in> set rules" "r' \<in> set (fst ?st)" for r r'
    using above [OF that(2)] max_id_upper [OF that(1)] by auto
  moreover have "distinct (map r_id (fst ?st))" unfolding ids using seq by blast
  ultimately have "distinct (map r_id (rules @ fst ?st))"
    using assms(1) by auto
  then show ?thesis using above by (simp add: link_cross_category_append)
qed

text \<open>One exec rule for \<open>/bin/sh\<close>.\<close>

definition sample_exec :: "BehaviorRule list" where
  "sample_exec =
     [\<lparr>r_id = 7, r_subject = \<lparr>sub_container = None, sub_binary = None, sub_uid = None\<rparr>,
       r_object = Process \<lparr>po_binary = Path ''/bin/sh''\<rparr>, r_action = ProcExec, r_verdict = Allow,
       r_metadata = \<lparr>source_module = Proc, observation_count = 1, confidence = f32_one,
         first_seen = 3, last_seen = 4\<rparr>\<rparr>]"

lemma link_fresh_ids_witness:
  "map r_id (link_cross_category sample_exec) = [7, 8, 9]
   \<and> distinct (map r_id (link_cross_category sample_exec))"
proof -
  have ids: "map r_id (link_cross_category sample_exec) = [7, 8, 9]" by code_simp
  have "distinct (map r_id sample_exec)" by code_simp
  moreover have "unat (max_id sample_exec)
      + (length (link_cross_category sample_exec) - length sample_exec) < 2 ^ 64"
  proof -
    have "length (link_cross_category sample_exec) = 3" using ids by (metis length_map length_Cons
          list.size(3) numeral_3_eq_3)
    then show ?thesis by (simp add: max_id_def sample_exec_def)
  qed
  ultimately show ?thesis using link_fresh_ids [of sample_exec] ids by blast
qed

end
