(* ===== verification/Translator.thy ===== *)
theory Translator
  imports PolicyIR
begin

text \<open>
  \<open>ebpf-mon-common/src/policy/translator.rs\<close>: profiled events become \<open>Allow\<close> rules.

  A JSON document is a \<open>serde_json\<close> value. The parser of the text and the decoding of a path
  class from a value (which serde derives) are parameters of the model.
\<close>

section \<open>JSON values\<close>

datatype JsonNumber = PosInt u64 | NegInt int | Float u64

datatype Value =
  JNull | JBool bool | JNumber JsonNumber | JString string | JArray "Value list"
  | JObject "(string \<times> Value) list"

definition json_get :: "string \<Rightarrow> Value \<Rightarrow> Value option" where
  "json_get key v = (case v of JObject kvs \<Rightarrow> map_of kvs key | _ \<Rightarrow> None)"

definition as_json_str :: "Value \<Rightarrow> string option" where
  "as_json_str v = (case v of JString s \<Rightarrow> Some s | _ \<Rightarrow> None)"

definition as_u64 :: "Value \<Rightarrow> u64 option" where
  "as_u64 v = (case v of JNumber n \<Rightarrow> (case n of PosInt w \<Rightarrow> Some w | _ \<Rightarrow> None) | _ \<Rightarrow> None)"

definition as_array :: "Value \<Rightarrow> Value list option" where
  "as_array v = (case v of JArray vs \<Rightarrow> Some vs | _ \<Rightarrow> None)"

definition get_str :: "string \<Rightarrow> Value \<Rightarrow> string option" where
  "get_str key v = Option.bind (json_get key v) as_json_str"

definition get_u64 :: "string \<Rightarrow> Value \<Rightarrow> u64 option" where
  "get_u64 key v = Option.bind (json_get key v) as_u64"

definition unwrap_or :: "'a \<Rightarrow> 'a option \<Rightarrow> 'a" where
  "unwrap_or d x = (case x of Some a \<Rightarrow> a | None \<Rightarrow> d)"

section \<open>The translator\<close>

record ProfileTranslator =
  t_next_id :: RuleId
  t_default_verdict :: Verdict

definition new_translator :: ProfileTranslator where
  "new_translator = \<lparr>t_next_id = 1, t_default_verdict = Allow\<rparr>"

definition with_default_verdict :: "ProfileTranslator \<Rightarrow> Verdict \<Rightarrow> ProfileTranslator" where
  "with_default_verdict t v = t\<lparr>t_default_verdict := v\<rparr>"

definition alloc_id :: "ProfileTranslator \<Rightarrow> RuleId \<times> ProfileTranslator" where
  "alloc_id t = (t_next_id t, t\<lparr>t_next_id := t_next_id t + 1\<rparr>)"

text \<open>The f32 values 0.3, 0.6, 0.8 and 0.95.\<close>

definition freq_to_confidence :: "u64 \<Rightarrow> f32" where
  "freq_to_confidence freq =
     (if freq \<le> 1 then 0x3e99999a
      else if 2 \<le> freq \<and> freq \<le> 10 then 0x3f19999a
      else if 11 \<le> freq \<and> freq \<le> 100 then 0x3f4ccccd
      else 0x3f733333)"

definition event_container :: "u64 \<Rightarrow> ContainerRef option" where
  "event_container cgroup_id = (if cgroup_id \<noteq> 0 then Some (CgroupId cgroup_id) else None)"

definition event_binary :: "string \<Rightarrow> BinaryRef option" where
  "event_binary executable = (if executable \<noteq> [] then Some (Path executable) else None)"

definition event_metadata :: "SourceModule \<Rightarrow> u64 \<Rightarrow> RuleMetadata" where
  "event_metadata src freq = \<lparr>source_module = src, observation_count = freq,
     confidence = freq_to_confidence freq, first_seen = 0, last_seen = 0\<rparr>"

definition translate_fs_event ::
    "ProfileTranslator \<Rightarrow> string \<Rightarrow> PathPattern \<Rightarrow> u8 \<Rightarrow> bool \<Rightarrow> u64 \<Rightarrow> string \<Rightarrow> u32 \<Rightarrow> u64
      \<Rightarrow> BehaviorRule \<times> ProfileTranslator" where
  "translate_fs_event t path path_pattern r_w is_sensitive freq executable uid cgroup_id =
     (let file_pattern = (if path_pattern = Regular then ExactPath path else Classified path_pattern);
          action = (if r_w = 1 then FileWrite else FileRead);
          (id, t') = alloc_id t
      in (\<lparr>r_id = id,
           r_subject = \<lparr>sub_container = event_container cgroup_id,
             sub_binary = event_binary executable, sub_uid = Some uid\<rparr>,
           r_object = File \<lparr>fo_pattern = file_pattern, fo_is_sensitive = is_sensitive\<rparr>,
           r_action = action, r_verdict = t_default_verdict t,
           r_metadata = event_metadata Fs freq\<rparr>, t'))"

definition translate_network_event ::
    "ProfileTranslator \<Rightarrow> u32 \<Rightarrow> u32 \<Rightarrow> u8 \<Rightarrow> u8 \<Rightarrow> u64 \<Rightarrow> string \<Rightarrow> u32 \<Rightarrow> u64
      \<Rightarrow> BehaviorRule \<times> ProfileTranslator" where
  "translate_network_event t dst_ip dst_port protocol direction freq executable uid cgroup_id =
     (let action = (if direction = 1 then NetConnect else NetBind);
          (id, t') = alloc_id t
      in (\<lparr>r_id = id,
           r_subject = \<lparr>sub_container = event_container cgroup_id,
             sub_binary = event_binary executable, sub_uid = Some uid\<rparr>,
           r_object = Network \<lparr>no_dst_ip = Some dst_ip, no_dst_port = Some dst_port,
             no_protocol = Some protocol, no_direction = Some direction\<rparr>,
           r_action = action, r_verdict = t_default_verdict t,
           r_metadata = event_metadata Net freq\<rparr>, t'))"

definition translate_process_event ::
    "ProfileTranslator \<Rightarrow> string \<Rightarrow> u8 \<Rightarrow> u64 \<Rightarrow> u32 \<Rightarrow> u64 \<Rightarrow> BehaviorRule \<times> ProfileTranslator" where
  "translate_process_event t exec_path ps_type freq uid cgroup_id =
     (let action = (if ps_type = 0 then ProcExec else ProcFork);
          (id, t') = alloc_id t
      in (\<lparr>r_id = id,
           r_subject = \<lparr>sub_container = event_container cgroup_id, sub_binary = None,
             sub_uid = Some uid\<rparr>,
           r_object = Process \<lparr>po_binary = Path exec_path\<rparr>,
           r_action = action, r_verdict = t_default_verdict t,
           r_metadata = event_metadata Proc freq\<rparr>, t'))"

definition parse_ip_str :: "string \<Rightarrow> u32" where
  "parse_ip_str ip_str =
     (case List.map_filter parse_u8 (split_on CHR ''.'' ip_str) of
        [a, b, c, d] \<Rightarrow> from_le_bytes a b c d
      | _ \<Rightarrow> 0)"

section \<open>Translating a document\<close>

text \<open>The fields shared by the events, from \<open>process_ctx\<close>.\<close>

definition ctx_str :: "string \<Rightarrow> Value \<Rightarrow> string" where
  "ctx_str key ev = unwrap_or [] (Option.bind (json_get ''process_ctx'' ev) (get_str key))"

definition ctx_u64 :: "string \<Rightarrow> Value \<Rightarrow> u64 option" where
  "ctx_u64 key ev = Option.bind (json_get ''process_ctx'' ev) (get_u64 key)"

definition translate_fs_json ::
    "(Value \<Rightarrow> PathPattern option) \<Rightarrow> BehaviorRule list \<times> ProfileTranslator \<Rightarrow> Value
      \<Rightarrow> BehaviorRule list \<times> ProfileTranslator" where
  "translate_fs_json pattern_from_value st ev =
     (let (rules, t) = st;
          path = unwrap_or [] (get_str ''path'' ev);
          path_pattern = unwrap_or Regular (Option.bind (json_get ''path_pattern'' ev) pattern_from_value);
          r_w = (if get_str ''r_w'' ev = Some ''write'' then 1 else 0);
          is_sensitive = (unwrap_or 0 (get_u64 ''is_sensitive'' ev) \<noteq> 0);
          freq = unwrap_or 1 (get_u64 ''freq'' ev);
          executable = ctx_str ''executable'' ev;
          uid = ucast (unwrap_or 0 (ctx_u64 ''uid'' ev));
          cgroup_id = unwrap_or 0 (ctx_u64 ''cgroup_id'' ev);
          (rule, t') = translate_fs_event t path path_pattern r_w is_sensitive freq executable uid cgroup_id
      in (rules @ [rule], t'))"

definition translate_network_json ::
    "BehaviorRule list \<times> ProfileTranslator \<Rightarrow> Value \<Rightarrow> BehaviorRule list \<times> ProfileTranslator" where
  "translate_network_json st ev =
     (let (rules, t) = st;
          dst_ip = unwrap_or 0 (map_option parse_ip_str (get_str ''dst_ip'' ev));
          dst_port = ucast (unwrap_or 0 (get_u64 ''dst_port'' ev));
          protocol = (if get_str ''protocol'' ev = Some ''TCP'' then 6
                      else if get_str ''protocol'' ev = Some ''UDP'' then 17 else 0);
          direction = (if get_str ''direction'' ev = Some ''outgoing'' then 1 else 0);
          freq = unwrap_or 1 (get_u64 ''freq'' ev);
          executable = ctx_str ''executable'' ev;
          uid = ucast (unwrap_or 0 (ctx_u64 ''uid'' ev));
          cgroup_id = unwrap_or 0 (ctx_u64 ''cgroup_id'' ev);
          (rule, t') = translate_network_event t dst_ip dst_port protocol direction freq executable uid cgroup_id
      in (rules @ [rule], t'))"

definition translate_process_json ::
    "BehaviorRule list \<times> ProfileTranslator \<Rightarrow> Value \<Rightarrow> BehaviorRule list \<times> ProfileTranslator" where
  "translate_process_json st ev =
     (let (rules, t) = st;
          exec_path = unwrap_or [] (get_str ''exec_path'' ev);
          ps_type = (if get_str ''ps_type'' ev = Some ''execve'' then 0 else 1);
          freq = unwrap_or 1 (get_u64 ''freq'' ev);
          uid = ucast (unwrap_or 0
            (case ctx_u64 ''uid'' ev of Some w \<Rightarrow> Some w | None \<Rightarrow> get_u64 ''gid'' ev));
          cgroup_id = unwrap_or 0 (get_u64 ''cgroup_id'' ev);
          (rule, t') = translate_process_event t exec_path ps_type freq uid cgroup_id
      in (rules @ [rule], t'))"

definition events_of :: "string \<Rightarrow> Value \<Rightarrow> Value list" where
  "events_of key all_events = unwrap_or [] (Option.bind (json_get key all_events) as_array)"

definition translate_all_events_json ::
    "(string \<Rightarrow> string + Value) \<Rightarrow> (Value \<Rightarrow> PathPattern option) \<Rightarrow> string
      \<Rightarrow> string + BehaviorRule list" where
  "translate_all_events_json from_str pattern_from_value json_str =
     (case from_str json_str of
        Inl e \<Rightarrow> Inl (''Failed to parse JSON: '' @ e)
      | Inr all_events \<Rightarrow>
          (let st = ([], with_default_verdict new_translator Allow);
               st = foldl (translate_fs_json pattern_from_value) st (events_of ''fs'' all_events);
               st = foldl translate_network_json st (events_of ''network'' all_events);
               st = foldl translate_process_json st (events_of ''process'' all_events)
           in Inr (fst st)))"

section \<open>Ids and verdicts of a translated policy\<close>

text \<open>
  The state of the translation after some events: the rules are numbered from 1 and have the
  verdict \<open>Allow\<close>.
\<close>

definition numbered :: "BehaviorRule list \<times> ProfileTranslator \<Rightarrow> bool" where
  "numbered st =
     (map r_id (fst st) = map of_nat [1..<Suc (length (fst st))]
      \<and> list_all (\<lambda>r. r_verdict r = Allow) (fst st)
      \<and> snd st = \<lparr>t_next_id = of_nat (Suc (length (fst st))), t_default_verdict = Allow\<rparr>)"

lemma numbered_step:
  "numbered (rules, t) \<Longrightarrow> r_id rule = t_next_id t \<Longrightarrow> r_verdict rule = t_default_verdict t \<Longrightarrow>
   numbered (rules @ [rule], t\<lparr>t_next_id := t_next_id t + 1\<rparr>)"
  by (simp add: numbered_def)

lemma translate_fs_json_step:
  "\<exists>rule. translate_fs_json pfv st ev = (fst st @ [rule], (snd st)\<lparr>t_next_id := t_next_id (snd st) + 1\<rparr>)
     \<and> r_id rule = t_next_id (snd st) \<and> r_verdict rule = t_default_verdict (snd st)"
  by (cases st) (simp add: translate_fs_json_def translate_fs_event_def alloc_id_def Let_def)

lemma translate_network_json_step:
  "\<exists>rule. translate_network_json st ev = (fst st @ [rule], (snd st)\<lparr>t_next_id := t_next_id (snd st) + 1\<rparr>)
     \<and> r_id rule = t_next_id (snd st) \<and> r_verdict rule = t_default_verdict (snd st)"
  by (cases st) (simp add: translate_network_json_def translate_network_event_def alloc_id_def Let_def)

lemma translate_process_json_step:
  "\<exists>rule. translate_process_json st ev = (fst st @ [rule], (snd st)\<lparr>t_next_id := t_next_id (snd st) + 1\<rparr>)
     \<and> r_id rule = t_next_id (snd st) \<and> r_verdict rule = t_default_verdict (snd st)"
  by (cases st) (simp add: translate_process_json_def translate_process_event_def alloc_id_def Let_def)

text \<open>A step that appends one rule with the next id keeps the numbering.\<close>

lemma numbered_fold:
  assumes step: "\<And>st ev. \<exists>rule. f st ev = (fst st @ [rule], (snd st)\<lparr>t_next_id := t_next_id (snd st) + 1\<rparr>)
      \<and> r_id rule = t_next_id (snd st) \<and> r_verdict rule = t_default_verdict (snd st)"
    and "numbered st"
  shows "numbered (foldl f st evs) \<and> length (fst (foldl f st evs)) = length (fst st) + length evs"
  using assms(2)
proof (induction evs arbitrary: st)
  case (Cons ev evs)
  obtain rule where f: "f st ev = (fst st @ [rule], (snd st)\<lparr>t_next_id := t_next_id (snd st) + 1\<rparr>)"
    and r: "r_id rule = t_next_id (snd st)" "r_verdict rule = t_default_verdict (snd st)"
    using step by blast
  have "numbered (f st ev)" unfolding f using Cons.prems r by (intro numbered_step) simp_all
  then show ?case using Cons.IH [of "f st ev"] by (simp add: f)
qed simp

lemma numbered_start: "numbered ([], with_default_verdict new_translator Allow)"
  by (simp add: numbered_def with_default_verdict_def new_translator_def)

lemma translate_numbered:
  assumes "from_str json_str = Inr ev"
  shows "\<exists>st. translate_all_events_json from_str pfv json_str = Inr (fst st) \<and> numbered st
    \<and> length (fst st) = length (events_of ''fs'' ev) + length (events_of ''network'' ev)
        + length (events_of ''process'' ev)"
proof -
  let ?s0 = "([] :: BehaviorRule list, with_default_verdict new_translator Allow)"
  let ?s1 = "foldl (translate_fs_json pfv) ?s0 (events_of ''fs'' ev)"
  let ?s2 = "foldl translate_network_json ?s1 (events_of ''network'' ev)"
  let ?s3 = "foldl translate_process_json ?s2 (events_of ''process'' ev)"
  have n1: "numbered ?s1 \<and> length (fst ?s1) = length (fst ?s0) + length (events_of ''fs'' ev)"
    by (rule numbered_fold [where f = "translate_fs_json pfv"])
      (rule translate_fs_json_step numbered_start)+
  have n2: "numbered ?s2 \<and> length (fst ?s2) = length (fst ?s1) + length (events_of ''network'' ev)"
    by (rule numbered_fold [where f = translate_network_json])
      (rule translate_network_json_step conjunct1 [OF n1])+
  have n3: "numbered ?s3 \<and> length (fst ?s3) = length (fst ?s2) + length (events_of ''process'' ev)"
    by (rule numbered_fold [where f = translate_process_json])
      (rule translate_process_json_step conjunct1 [OF n2])+
  have "translate_all_events_json from_str pfv json_str = Inr (fst ?s3)"
    by (simp add: translate_all_events_json_def assms Let_def)
  then show ?thesis using n1 n2 n3 by (intro exI [of _ ?s3]) simp
qed

lemma translated_allow:
  "translate_all_events_json from_str pfv json_str = Inr rules \<Longrightarrow> list_all (\<lambda>r. r_verdict r = Allow) rules"
proof (cases "from_str json_str")
  case (Inr ev)
  assume "translate_all_events_json from_str pfv json_str = Inr rules"
  then show ?thesis using translate_numbered [where from_str = from_str and json_str = json_str and pfv = pfv, OF Inr] by (auto simp: numbered_def)
qed (simp add: translate_all_events_json_def)


end
