(* ===== verification/AppArmorBackend.thy ===== *)
theory AppArmorBackend
  imports GlobMatch "HOL-Library.List_Lexorder"
begin

text \<open>
  \<open>ebpf-mon-common/src/policy/backends/apparmor.rs\<close>: lowering rules to the text of an AppArmor
  profile, with a warning for every loss of precision.

  The \<open>Debug\<close> text of a string (with its Unicode escapes) is the parameter \<open>dbg\<close>; the derived
  \<open>Debug\<close> of the IR types is built on it. The mutable locals of the loop are the record
  \<open>Lowering\<close>.
\<close>

section \<open>Debug output\<close>

primrec action_name :: "Action \<Rightarrow> string" where
  "action_name FileOpen = ''FileOpen''"
| "action_name FileRead = ''FileRead''"
| "action_name FileWrite = ''FileWrite''"
| "action_name NetConnect = ''NetConnect''"
| "action_name NetBind = ''NetBind''"
| "action_name ProcExec = ''ProcExec''"
| "action_name ProcFork = ''ProcFork''"

primrec dbg_pattern :: "(string \<Rightarrow> string) \<Rightarrow> FilePattern \<Rightarrow> string" where
  "dbg_pattern dbg (Classified c) = ''Classified('' @ variant_name c @ '')''"
| "dbg_pattern dbg (ExactPath p) = ''ExactPath('' @ dbg p @ '')''"
| "dbg_pattern dbg (Prefix p) = ''Prefix('' @ dbg p @ '')''"

definition dbg_bool :: "bool \<Rightarrow> string" where
  "dbg_bool b = (if b then ''true'' else ''false'')"

definition dbg_option :: "('a \<Rightarrow> nat) \<Rightarrow> 'a option \<Rightarrow> string" where
  "dbg_option val x = (case x of None \<Rightarrow> ''None'' | Some a \<Rightarrow> ''Some('' @ show_nat (val a) @ '')'')"

primrec dbg_binary :: "(string \<Rightarrow> string) \<Rightarrow> BinaryRef \<Rightarrow> string" where
  "dbg_binary dbg (Path p) = ''Path('' @ dbg p @ '')''"
| "dbg_binary dbg (Comm bs) = ''Comm(['' @ join '', '' (map (\<lambda>b. show_nat (unat b)) bs) @ ''])''"

primrec dbg_object :: "(string \<Rightarrow> string) \<Rightarrow> Object \<Rightarrow> string" where
  "dbg_object dbg (File f) =
     ''File(FileObject { pattern: '' @ dbg_pattern dbg (fo_pattern f)
     @ '', is_sensitive: '' @ dbg_bool (fo_is_sensitive f) @ '' })''"
| "dbg_object dbg (Network n) =
     ''Network(NetworkObject { dst_ip: '' @ dbg_option unat (no_dst_ip n)
     @ '', dst_port: '' @ dbg_option unat (no_dst_port n)
     @ '', protocol: '' @ dbg_option unat (no_protocol n)
     @ '', direction: '' @ dbg_option unat (no_direction n) @ '' })''"
| "dbg_object dbg (Process p) =
     ''Process(ProcessObject { binary: '' @ dbg_binary dbg (po_binary p) @ '' })''"

section \<open>Lowering\<close>

datatype LossKind = Approximated | AbiGated | Dropped

record LoweringWarning =
  lw_rule_id :: RuleId
  lw_kind :: LossKind
  lw_message :: string

record Lowering =
  warnings :: "LoweringWarning list"
  exec_lines :: "string list"
  file_lines :: "string list"
  net_lines :: "string list"

definition quote_if_needed :: "string \<Rightarrow> string" where
  "quote_if_needed s =
     (if list_ex is_ws (rust_chars s) then [CHR 0x22] @ s @ [CHR 0x22] else s)"

definition ipv4_dotted :: "u32 \<Rightarrow> string" where
  "ipv4_dotted ip =
     (let (a, b, c, d) = to_le_bytes ip
      in show_nat (unat a) @ ''.'' @ show_nat (unat b) @ ''.'' @ show_nat (unat c) @ ''.''
         @ show_nat (unat d))"

definition net_conditional :: "NetworkObject \<Rightarrow> bool \<Rightarrow> string" where
  "net_conditional n is_peer =
     (let parts = (case no_dst_ip n of Some ip \<Rightarrow> [''ip='' @ ipv4_dotted ip] | None \<Rightarrow> [])
            @ (case no_dst_port n of Some port \<Rightarrow> [''port='' @ show_nat (unat port)] | None \<Rightarrow> [])
      in if parts = [] then ''''
         else let inner = join '' '' parts in if is_peer then ''peer=('' @ inner @ '')'' else inner)"

definition file_line :: "string \<Rightarrow> string \<Rightarrow> string \<Rightarrow> string" where
  "file_line deny glob perms = ''  '' @ deny @ quote_if_needed glob @ '' '' @ perms @ '',''"

definition warn :: "BehaviorRule \<Rightarrow> LossKind \<Rightarrow> string \<Rightarrow> Lowering \<Rightarrow> Lowering" where
  "warn rule kind message st =
     st\<lparr>warnings := warnings st @ [\<lparr>lw_rule_id = r_id rule, lw_kind = kind, lw_message = message\<rparr>]\<rparr>"

definition deny_text :: "BehaviorRule \<Rightarrow> string" where
  "deny_text rule = (if r_verdict rule = Deny then ''deny '' else '''')"

definition lower_file :: "(string \<Rightarrow> string) \<Rightarrow> Lowering \<Rightarrow> BehaviorRule \<Rightarrow> FileObject \<Rightarrow> Lowering" where
  "lower_file dbg st rule f =
     (let deny = deny_text rule;
          perms = (if r_action rule = FileWrite then ''w'' else ''r'')
      in case file_glob (fo_pattern f) of
           Exact glob \<Rightarrow> st\<lparr>file_lines := file_lines st @ [file_line deny glob perms]\<rparr>
         | Approx glob \<Rightarrow>
             (let st = warn rule Approximated
                    (''approximate AppArmor glob for '' @ dbg_pattern dbg (fo_pattern f)) st
              in st\<lparr>file_lines := file_lines st @ [file_line deny glob perms]\<rparr>)
         | Unmappable \<Rightarrow>
             warn rule Dropped
               (''file pattern '' @ dbg_pattern dbg (fo_pattern f)
                @ '' is not expressible as an AppArmor path glob; dropped'') st)"

definition lower_exec :: "Lowering \<Rightarrow> BehaviorRule \<Rightarrow> ProcessObject \<Rightarrow> Lowering" where
  "lower_exec st rule p =
     (case po_binary p of
        Path path \<Rightarrow> st\<lparr>exec_lines := exec_lines st @ [file_line (deny_text rule) path ''ix'']\<rparr>
      | Comm _ \<Rightarrow>
          warn rule Dropped ''exec rule has no path (comm-based); cannot emit AppArmor'' st)"

definition lower_network :: "Lowering \<Rightarrow> BehaviorRule \<Rightarrow> NetworkObject \<Rightarrow> Lowering" where
  "lower_network st rule n =
     (let deny = deny_text rule;
          stype = (if no_protocol n = Some 17 then ''dgram'' else ''stream'');
          cond = net_conditional n (r_action rule = NetConnect)
      in if cond = [] then
           st\<lparr>net_lines := net_lines st @ [''  '' @ deny @ ''network inet '' @ stype @ '','']\<rparr>
         else
           warn rule AbiGated
             (''emitted fine-grained '' @ [CHR 0x27] @ cond @ [CHR 0x27]
              @ ''; requires an AppArmor ABI with inet ip/port mediation, otherwise the parser downgrades it to ''
              @ [CHR 0x27] @ ''network inet '' @ stype @ [CHR 0x27])
             (st\<lparr>net_lines := net_lines st
                @ [''  '' @ deny @ ''network inet '' @ stype @ '' '' @ cond @ '','']\<rparr>))"

definition lower_rule :: "(string \<Rightarrow> string) \<Rightarrow> Lowering \<Rightarrow> BehaviorRule \<Rightarrow> Lowering" where
  "lower_rule dbg st rule =
     (case r_object rule of
        File f \<Rightarrow>
          if r_action rule \<in> {FileOpen, FileRead, FileWrite} then lower_file dbg st rule f
          else warn rule Dropped (''unsupported object/action for AppArmor: ''
                 @ dbg_object dbg (r_object rule) @ '' / '' @ action_name (r_action rule)) st
      | Process p \<Rightarrow>
          if r_action rule = ProcExec then lower_exec st rule p
          else warn rule Dropped (''unsupported object/action for AppArmor: ''
                 @ dbg_object dbg (r_object rule) @ '' / '' @ action_name (r_action rule)) st
      | Network n \<Rightarrow>
          if r_action rule \<in> {NetConnect, NetBind} then lower_network st rule n
          else warn rule Dropped (''unsupported object/action for AppArmor: ''
                 @ dbg_object dbg (r_object rule) @ '' / '' @ action_name (r_action rule)) st)"

definition dedup_sort :: "string list \<Rightarrow> string list" where
  "dedup_sort v = remdups_adj (sort v)"

lemma set_dedup_sort [simp]: "set (dedup_sort v) = set v"
  by (simp add: dedup_sort_def)

definition push_section :: "string \<Rightarrow> string \<Rightarrow> string list \<Rightarrow> string" where
  "push_section out header lines =
     (if lines = [] then out
      else foldl (\<lambda>out l. out @ l @ [newline]) (out @ ''  '' @ header @ [newline]) lines)"

definition lower_all :: "(string \<Rightarrow> string) \<Rightarrow> BehaviorRule list \<Rightarrow> Lowering" where
  "lower_all dbg rules =
     foldl (lower_rule dbg) \<lparr>warnings = [], exec_lines = [], file_lines = [], net_lines = []\<rparr> rules"

definition lower_to_apparmor ::
    "(string \<Rightarrow> string) \<Rightarrow> BehaviorRule list \<Rightarrow> string \<Rightarrow> string \<times> LoweringWarning list" where
  "lower_to_apparmor dbg rules profile_name =
     (let st = lower_all dbg rules;
          out = ''profile '' @ profile_name @ '' flags=(attach_disconnected,mediate_deleted) {'' @ [newline];
          out = push_section out ''# executables'' (dedup_sort (exec_lines st));
          out = push_section out ''# files'' (dedup_sort (file_lines st));
          out = push_section out ''# network'' (dedup_sort (net_lines st));
          out = out @ ''}'' @ [newline]
      in (out, warnings st))"

section \<open>The lines and warnings of each rule\<close>

datatype Section = Sec_exec | Sec_file | Sec_net

text \<open>The line a rule contributes, if it contributes one.\<close>

definition rule_line :: "BehaviorRule \<Rightarrow> (Section \<times> string) option" where
  "rule_line rule =
     (case r_object rule of
        File f \<Rightarrow>
          if r_action rule \<in> {FileOpen, FileRead, FileWrite} then
            map_option (\<lambda>g. (Sec_file, file_line (deny_text rule) g
              (if r_action rule = FileWrite then ''w'' else ''r''))) (glob_of (file_glob (fo_pattern f)))
          else None
      | Process p \<Rightarrow>
          if r_action rule = ProcExec then
            (case po_binary p of Path path \<Rightarrow> Some (Sec_exec, file_line (deny_text rule) path ''ix'')
             | Comm _ \<Rightarrow> None)
          else None
      | Network n \<Rightarrow>
          if r_action rule \<in> {NetConnect, NetBind} then
            (let stype = (if no_protocol n = Some 17 then ''dgram'' else ''stream'');
                 cond = net_conditional n (r_action rule = NetConnect)
             in Some (Sec_net, if cond = [] then ''  '' @ deny_text rule @ ''network inet '' @ stype @ '',''
                  else ''  '' @ deny_text rule @ ''network inet '' @ stype @ '' '' @ cond @ '',''))
          else None)"

primrec section_lines :: "Section \<Rightarrow> Lowering \<Rightarrow> string list" where
  "section_lines Sec_exec st = exec_lines st"
| "section_lines Sec_file st = file_lines st"
| "section_lines Sec_net st = net_lines st"

lemma section_lines_warn [simp]: "section_lines s (warn r k m st) = section_lines s st"
  by (cases s) (simp_all add: warn_def)

lemma lower_rule_line:
  "section_lines s (lower_rule dbg st rule) = section_lines s st
     @ (case rule_line rule of Some (s', l) \<Rightarrow> if s' = s then [l] else [] | None \<Rightarrow> [])"
  by (cases s; cases "r_object rule")
    (auto simp: lower_rule_def lower_file_def lower_exec_def lower_network_def rule_line_def Let_def
      warn_def split: GlobMap.splits BinaryRef.splits)

lemma lower_all_lines:
  "section_lines s (lower_all dbg rules) =
     List.map_filter (\<lambda>rule. case rule_line rule of
       Some (s', l) \<Rightarrow> if s' = s then Some l else None | None \<Rightarrow> None) rules"
proof -
  have "section_lines s (foldl (lower_rule dbg) st rules) = section_lines s st @
     List.map_filter (\<lambda>rule. case rule_line rule of
       Some (s', l) \<Rightarrow> if s' = s then Some l else None | None \<Rightarrow> None) rules" for st
    by (induction rules arbitrary: st)
      (auto simp: List.map_filter_simps lower_rule_line split: option.splits)
  then show ?thesis by (cases s) (simp_all add: lower_all_def)
qed

end
