(* ===== verification/AppArmorFrontend.thy ===== *)
theory AppArmorFrontend
  imports AppArmorBackend Translator
begin

text \<open>
  \<open>ebpf-mon-common/src/policy/frontends/apparmor.rs\<close>: parsing a subset of the AppArmor profile
  syntax into rules.

  A string slice that cuts a character panics; the result \<open>None\<close> of \<open>split_path_perms\<close>,
  \<open>parse_line\<close> and \<open>parse_apparmor\<close> is that panic. Otherwise the parser always succeeds.
\<close>

section \<open>Lines\<close>

definition known_patterns :: "PathPattern list" where
  "known_patterns =
     [ProcPidCmdline, ProcPidComm, ProcPidCwd, ProcPidEnviron, ProcPidExe, ProcPidFd,
      ProcPidMaps, ProcPidMem, ProcPidMountinfo, ProcPidMounts, ProcPidNet, ProcPidNs,
      ProcPidRoot, ProcPidStat, ProcPidStatus, ProcPidTask, ProcPidCgroup, ProcSelf,
      ProcGlobalSys, ProcGlobalNet, SysCgroupDocker, SysCgroupOther, SysClassNet, SysOther,
      RunDocker, RunUser, RunOther, DevPts, DevShm, DevOther, TmpRandom, TmpOther]"

definition trim_commas :: "string \<Rightarrow> string" where
  "trim_commas s = trim_end_matches (\<lambda>c. c = CHR '','') s"

lemma length_dropWhile: "length (dropWhile P xs) \<le> length xs"
  by (induction xs) auto

lemma length_concat_dropWhile: "length (concat (dropWhile P xs)) \<le> length (concat xs)"
  by (induction xs) auto

lemma length_trim_start: "length (trim_start s) \<le> length s"
  using length_concat_dropWhile [of is_ws "rust_chars s"] by (simp add: trim_start_def)

lemma rust_chars_not_Nil: "[] \<notin> set (rust_chars s)"
  by (induction s rule: rust_chars.induct) auto

lemma split_once_ws_shorter:
  assumes "split_once_ws s = Some (a, b)"
  shows "length b < length s"
proof -
  obtain w r where w: "dropWhile (\<lambda>ch. \<not> is_ws ch) (rust_chars s) = w # r" and b: "b = concat r"
    using assms by (auto simp: split_once_ws_def split: list.splits)
  have "w \<in> set (rust_chars s)" using w by (metis list.set_intros(1) set_dropWhileD)
  then have "w \<noteq> []" using rust_chars_not_Nil by metis
  moreover have "length (concat (w # r)) \<le> length (concat (rust_chars s))"
    unfolding w [symmetric] by (rule length_concat_dropWhile)
  ultimately show ?thesis by (simp add: b) (metis add_less_le_mono length_greater_0_conv
        less_add_same_cancel2 less_le_trans)
qed

function strip_qualifiers :: "string \<Rightarrow> string" where
  "strip_qualifiers line =
     (let trimmed = trim_start line in
      case strip_prefix ''owner '' trimmed of
        Some rest \<Rightarrow> strip_qualifiers rest
      | None \<Rightarrow>
          (case strip_prefix ''audit '' trimmed of
             Some rest \<Rightarrow> strip_qualifiers rest
           | None \<Rightarrow>
               if prefix ''priority='' trimmed then
                 strip_qualifiers (case split_once_ws trimmed of Some (_, r) \<Rightarrow> r | None \<Rightarrow> [])
               else trimmed))"
  by pat_completeness auto
termination
proof (relation "measure length")
  fix line trimmed rest assume t: "trimmed = trim_start line"
  have le: "length trimmed \<le> length line" by (simp add: t length_trim_start)
  show "(rest, line) \<in> measure length" if "strip_prefix ''owner '' trimmed = Some rest"
    using that le by (simp add: strip_prefix_Some)
  show "(rest, line) \<in> measure length" if "strip_prefix ''audit '' trimmed = Some rest"
    using that le by (simp add: strip_prefix_Some)
next
  fix line trimmed assume t: "trimmed = trim_start line" and p: "prefix ''priority='' trimmed"
  have le: "length trimmed \<le> length line" by (simp add: t length_trim_start)
  have "0 < length trimmed" using p by (auto simp: prefix_def)
  then show "((case split_once_ws trimmed of Some (_, r) \<Rightarrow> r | None \<Rightarrow> []), line) \<in> measure length"
    using le split_once_ws_shorter [of trimmed] by (fastforce split: option.splits)
qed simp

declare strip_qualifiers.simps [simp del]

definition is_perm_token :: "string \<Rightarrow> bool" where
  "is_perm_token s = (s \<noteq> [] \<and> list_all (\<lambda>c. c \<in> set ''rwalkmxipcuPCU'') s)"

definition split_path_perms :: "string \<Rightarrow> (string \<times> string) option option" where
  "split_path_perms line =
     (case strip_prefix [CHR 0x22] line of
        Some rest \<Rightarrow>
          (case find_idx (\<lambda>c. c = CHR 0x22) rest of
             None \<Rightarrow> Some None
           | Some end \<Rightarrow>
               let path = take end rest; perms = trim (drop (end + 1) rest)
               in Some (if perms = [] then None else Some (path, perms)))
      | None \<Rightarrow>
          (let leading = (case split_once_ws line of
                 Some (first, rest) \<Rightarrow>
                   if is_perm_token first \<and> prefix ''/'' (trim rest) then Some (trim rest, first) else None
               | None \<Rightarrow> None)
           in case leading of
                Some v \<Rightarrow> Some (Some v)
              | None \<Rightarrow>
                  (case rsplit_ws line of
                     None \<Rightarrow> Some None
                   | Some (before, ws, after) \<Rightarrow>
                       if length ws \<noteq> 1 then None
                       else
                         let path = trim before; perms = trim after
                         in Some (if path = [] \<or> \<not> is_perm_token perms then None
                                  else Some (path, perms)))))"

definition ensure_trailing_slash :: "string \<Rightarrow> string" where
  "ensure_trailing_slash s = (if suffix ''/'' s then s else s @ ''/'')"

definition glob_to_pattern :: "string \<Rightarrow> FilePattern" where
  "glob_to_pattern glob =
     (case find (\<lambda>p. as_str p = glob) known_patterns of
        Some p \<Rightarrow> Classified p
      | None \<Rightarrow>
          (case strip_suffix ''**'' glob of
             Some pre \<Rightarrow> Prefix (ensure_trailing_slash pre)
           | None \<Rightarrow>
               (case strip_suffix ''/*'' glob of
                  Some pre \<Rightarrow> Prefix (ensure_trailing_slash pre)
                | None \<Rightarrow> ExactPath glob)))"

section \<open>Rules\<close>

definition empty_subject :: Subject where
  "empty_subject = \<lparr>sub_container = None, sub_binary = None, sub_uid = None\<rparr>"

definition meta :: "SourceModule \<Rightarrow> RuleMetadata" where
  "meta src = \<lparr>source_module = src, observation_count = 0, confidence = 0x3f800000,
     first_seen = 0, last_seen = 0\<rparr>"

definition alloc :: "RuleId \<Rightarrow> RuleId \<times> RuleId" where
  "alloc next_id = (next_id, next_id + 1)"

definition file_rule :: "RuleId \<Rightarrow> Verdict \<Rightarrow> string \<Rightarrow> Action \<Rightarrow> BehaviorRule \<times> RuleId" where
  "file_rule next_id verdict path action =
     (let (id, next_id) = alloc next_id
      in (\<lparr>r_id = id, r_subject = empty_subject,
           r_object = File \<lparr>fo_pattern = glob_to_pattern path, fo_is_sensitive = False\<rparr>,
           r_action = action, r_verdict = verdict, r_metadata = meta Fs\<rparr>, next_id))"

definition exec_rule :: "RuleId \<Rightarrow> Verdict \<Rightarrow> string \<Rightarrow> BehaviorRule \<times> RuleId" where
  "exec_rule next_id verdict path =
     (let (id, next_id) = alloc next_id
      in (\<lparr>r_id = id, r_subject = empty_subject, r_object = Process \<lparr>po_binary = Path path\<rparr>,
           r_action = ProcExec, r_verdict = verdict, r_metadata = meta Proc\<rparr>, next_id))"

definition extract_peer :: "string \<Rightarrow> string option" where
  "extract_peer s =
     (case find_sub ''peer=('' s of
        None \<Rightarrow> None
      | Some i \<Rightarrow>
          let start = i + length ''peer=(''
          in case find_idx (\<lambda>c. c = CHR '')'') (drop start s) of
               None \<Rightarrow> None
             | Some e \<Rightarrow> let end = e + start in Some (take (end - start) (drop start s)))"

definition parse_ipv4 :: "string \<Rightarrow> u32 option" where
  "parse_ipv4 s =
     (case those (map parse_u8 (split_on CHR ''.'' s)) of
        Some [a, b, c, d] \<Rightarrow> Some (from_le_bytes a b c d)
      | _ \<Rightarrow> None)"

definition ip_port_token :: "u32 option \<times> u32 option \<Rightarrow> string \<Rightarrow> u32 option \<times> u32 option" where
  "ip_port_token st tok =
     (let (ip, port) = st; tok = trim_end_matches (\<lambda>c. c = CHR '','' \<or> c = CHR '')'') tok
      in case strip_prefix ''ip='' tok of
           Some v \<Rightarrow> (parse_ipv4 v, port)
         | None \<Rightarrow>
             (case strip_prefix ''port='' tok of
                Some v \<Rightarrow> (ip, parse_u32 (hd (split_on CHR ''-'' v)))
              | None \<Rightarrow> (ip, port)))"

definition parse_ip_port :: "string \<Rightarrow> u32 option \<times> u32 option" where
  "parse_ip_port s = foldl ip_port_token (None, None) (split_whitespace s)"

definition protocol_token :: "u8 option \<Rightarrow> string \<Rightarrow> u8 option" where
  "protocol_token protocol tok =
     (let t = trim_commas tok in
      if t = ''stream'' \<or> t = ''tcp'' then Some 6
      else if t = ''dgram'' \<or> t = ''udp'' then Some 17
      else protocol)"

definition parse_network :: "RuleId \<Rightarrow> Verdict \<Rightarrow> string \<Rightarrow> BehaviorRule \<times> RuleId" where
  "parse_network next_id verdict rest =
     (let protocol = foldl protocol_token None (split_whitespace rest);
          (dst_ip, dst_port) = (case extract_peer rest of
             Some peer \<Rightarrow> parse_ip_port peer | None \<Rightarrow> parse_ip_port rest);
          (id, next_id) = alloc next_id
      in (\<lparr>r_id = id, r_subject = empty_subject,
           r_object = Network \<lparr>no_dst_ip = dst_ip, no_dst_port = dst_port, no_protocol = protocol,
             no_direction = Some 1\<rparr>,
           r_action = NetConnect, r_verdict = verdict, r_metadata = meta Net\<rparr>, next_id))"

section \<open>The parser\<close>

text \<open>The rules of a file line, by its permission letters.\<close>

definition perm_rules ::
    "BehaviorRule list \<Rightarrow> RuleId \<Rightarrow> Verdict \<Rightarrow> string \<Rightarrow> string \<Rightarrow> BehaviorRule list \<times> RuleId" where
  "perm_rules rules next_id verdict path perms =
     (let (rules, next_id) = (if CHR ''x'' \<in> set perms then
             (let (r, n) = exec_rule next_id verdict path in (rules @ [r], n)) else (rules, next_id));
          (rules, next_id) = (if CHR ''w'' \<in> set perms \<or> CHR ''a'' \<in> set perms then
             (let (r, n) = file_rule next_id verdict path FileWrite in (rules @ [r], n))
             else (rules, next_id))
      in if CHR ''r'' \<in> set perms then
           (let (r, n) = file_rule next_id verdict path FileRead in (rules @ [r], n))
         else (rules, next_id))"

definition skipped_line :: "string \<Rightarrow> bool" where
  "skipped_line line =
     (line = [] \<or> prefix ''#'' line \<or> prefix ''profile'' line \<or> prefix ''abi '' line
      \<or> prefix ''include'' line \<or> prefix ''@'' line \<or> line = ''{'' \<or> line = ''}'' \<or> suffix ''{'' line)"

definition verdict_of :: "string \<Rightarrow> Verdict \<times> string" where
  "verdict_of line =
     (case strip_prefix ''deny '' line of
        Some rest \<Rightarrow> (Deny, trim rest)
      | None \<Rightarrow> (case strip_prefix ''allow '' line of
                   Some rest \<Rightarrow> (Allow, trim rest)
                 | None \<Rightarrow> (Allow, line)))"

definition parse_line ::
    "BehaviorRule list \<times> RuleId \<Rightarrow> string \<Rightarrow> (BehaviorRule list \<times> RuleId) option" where
  "parse_line st raw =
     (let (rules, next_id) = st; line = trim raw in
      if skipped_line line then Some st
      else
        let line = trim (trim_commas line) in
        if line = [] then Some st
        else
          let (verdict, line) = verdict_of line; line = strip_qualifiers line
          in case strip_prefix ''network'' line of
               Some rest \<Rightarrow>
                 (let (r, next_id) = parse_network next_id verdict rest in Some (rules @ [r], next_id))
             | None \<Rightarrow>
                 (case split_path_perms line of
                    None \<Rightarrow> None
                  | Some None \<Rightarrow> Some st
                  | Some (Some (path, perms)) \<Rightarrow> Some (perm_rules rules next_id verdict path perms)))"

fun parse_lines ::
    "BehaviorRule list \<times> RuleId \<Rightarrow> string list \<Rightarrow> (BehaviorRule list \<times> RuleId) option" where
  "parse_lines st [] = Some st"
| "parse_lines st (raw # rest) =
     (case parse_line st raw of None \<Rightarrow> None | Some st' \<Rightarrow> parse_lines st' rest)"

definition parse_apparmor :: "string \<Rightarrow> BehaviorRule list option" where
  "parse_apparmor txt = map_option fst (parse_lines ([], 1) (rust_lines txt))"

end
