(* ===== verification/ProfileRoundTrip.thy ===== *)
theory ProfileRoundTrip
  imports AppArmorFrontend
begin

text \<open>
  The AppArmor frontend reads back what the AppArmor backend prints. First the operations on
  ASCII text, then single lines, then whole profiles.
\<close>

section \<open>ASCII text\<close>

abbreviation aws :: "char \<Rightarrow> bool" where "aws c \<equiv> is_ws [c]"

definition ascii :: "string \<Rightarrow> bool" where
  "ascii s = (\<forall>c \<in> set s. is_ascii c)"

lemma ascii_append [simp]: "ascii (a @ b) \<longleftrightarrow> ascii a \<and> ascii b"
  by (auto simp: ascii_def)

lemma ascii_Cons [simp]: "ascii (c # s) \<longleftrightarrow> is_ascii c \<and> ascii s"
  by (auto simp: ascii_def)

lemma ascii_Nil [simp]: "ascii []"
  by (simp add: ascii_def)

lemma ascii_chars: "ascii s \<Longrightarrow> rust_chars s = map (\<lambda>c. [c]) s"
  by (simp add: ascii_def rust_chars_ascii)

lemma concat_singletons [simp]: "concat (map (\<lambda>c. [c]) s) = s"
  by (induction s) auto

lemma dropWhile_singletons: "dropWhile P (map (\<lambda>c. [c]) s) = map (\<lambda>c. [c]) (dropWhile (\<lambda>c. P [c]) s)"
  by (induction s) auto

lemma takeWhile_singletons: "takeWhile P (map (\<lambda>c. [c]) s) = map (\<lambda>c. [c]) (takeWhile (\<lambda>c. P [c]) s)"
  by (induction s) auto

lemma trim_start_ascii: "ascii s \<Longrightarrow> trim_start s = dropWhile aws s"
  by (simp add: trim_start_def ascii_chars dropWhile_singletons)

lemma trim_end_ascii: "ascii s \<Longrightarrow> trim_end s = rev (dropWhile aws (rev s))"
  by (simp add: trim_end_def trim_end_matches_def ascii_chars dropWhile_singletons
      rev_map)

lemma ascii_dropWhile: "ascii s \<Longrightarrow> ascii (dropWhile P s)"
  by (auto simp: ascii_def dest: set_dropWhileD)

text \<open>Text that starts and ends with a character that is not white space.\<close>

definition tight :: "string \<Rightarrow> bool" where
  "tight s = (ascii s \<and> s \<noteq> [] \<and> \<not> aws (hd s) \<and> \<not> aws (last s))"

lemma dropWhile_pad: "\<forall>c \<in> set pad. P c \<Longrightarrow> s \<noteq> [] \<Longrightarrow> \<not> P (hd s) \<Longrightarrow> dropWhile P (pad @ s) = s"
  by (induction pad) (cases s; simp)+

lemma trim_start_pad:
  "tight s \<Longrightarrow> ascii pad \<Longrightarrow> \<forall>c \<in> set pad. aws c \<Longrightarrow> trim_start (pad @ s) = s"
  using dropWhile_pad [of pad aws s] by (simp add: trim_start_ascii tight_def)

lemma trim_end_tight: "tight s \<Longrightarrow> trim_end s = s"
  by (cases s rule: rev_cases) (auto simp: trim_end_ascii tight_def)

lemma trim_pad: "tight s \<Longrightarrow> ascii pad \<Longrightarrow> \<forall>c \<in> set pad. aws c \<Longrightarrow> trim (pad @ s) = s"
  by (simp add: trim_def trim_start_pad trim_end_tight)

lemma trim_tight: "tight s \<Longrightarrow> trim s = s"
  using trim_pad [of s "[]"] by simp

lemma trim_start_tight: "tight s \<Longrightarrow> trim_start s = s"
  using trim_start_pad [of s "[]"] by simp

lemma tight_append: "tight a \<Longrightarrow> ascii b \<Longrightarrow> tight c \<Longrightarrow> tight (a @ b @ c)"
  by (simp add: tight_def)

text \<open>Words: non-empty, no white space inside.\<close>

definition word_text :: "string \<Rightarrow> bool" where
  "word_text s = (s \<noteq> [] \<and> (\<forall>c \<in> set s. plain_char c))"

lemma word_tight: "word_text s \<Longrightarrow> tight s"
  by (auto simp: word_text_def tight_def plain_char_def ascii_def)

lemma word_ascii: "word_text s \<Longrightarrow> ascii s"
  by (auto simp: word_text_def plain_char_def ascii_def)

lemma word_no_ws: "word_text s \<Longrightarrow> \<forall>c \<in> set s. \<not> aws c"
  by (auto simp: word_text_def plain_char_def)

lemma split_once_ws_ascii:
  assumes "ascii (a @ w # b)" and "\<forall>c \<in> set a. \<not> aws c" and "aws w"
  shows "split_once_ws (a @ w # b) = Some (a, b)"
proof -
  have "rust_chars (a @ w # b) = map (\<lambda>c. [c]) (a @ w # b)" using assms(1) by (rule ascii_chars)
  moreover have "dropWhile (\<lambda>c. \<not> aws c) (a @ w # b) = w # b"
    "takeWhile (\<lambda>c. \<not> aws c) (a @ w # b) = a"
    using assms(2,3) by (induction a) auto
  ultimately show ?thesis
    unfolding split_once_ws_def by (simp only: dropWhile_singletons takeWhile_singletons) simp
qed

lemma rsplit_ws_ascii:
  assumes "ascii (a @ w # b)" and "\<forall>c \<in> set b. \<not> aws c" and "aws w"
  shows "rsplit_ws (a @ w # b) = Some (a, [w], b)"
proof -
  have "rev (rust_chars (a @ w # b)) = map (\<lambda>c. [c]) (rev (a @ w # b))"
    unfolding ascii_chars [OF assms(1)] by (rule rev_map)
  moreover have "dropWhile (\<lambda>c. \<not> aws c) (rev (a @ w # b)) = w # rev a"
    "takeWhile (\<lambda>c. \<not> aws c) (rev (a @ w # b)) = rev b"
    using assms(2,3) by (simp_all add: dropWhile_append1 takeWhile_append1)
      (induction b rule: rev_induct; auto)+
  ultimately show ?thesis
    unfolding rsplit_ws_def by (simp only: dropWhile_singletons takeWhile_singletons) (simp flip: rev_map)
qed

lemma split_once_ws_word: "word_text s \<Longrightarrow> split_once_ws s = None"
proof -
  assume w: "word_text s"
  then have none: "dropWhile (\<lambda>c. \<not> aws c) s = []" using word_no_ws by simp
  show ?thesis
    unfolding split_once_ws_def ascii_chars [OF word_ascii [OF w]] dropWhile_singletons none by simp
qed

text \<open>Words joined by single spaces are split again into the words.\<close>

lemma split_by_singletons:
  "split_by P (map (\<lambda>c. [c]) s) = map (map (\<lambda>c. [c])) (split_by (\<lambda>c. P [c]) s)"
  by (induction s) (auto split: list.splits)

lemma aws_space [simp]: "aws CHR '' ''"
  by (simp add: is_ws_def utf8_white_space_def)

lemma split_by_join_words:
  "ws \<noteq> [] \<Longrightarrow> \<forall>w \<in> set ws. word_text w \<Longrightarrow> split_by aws (join '' '' ws) = ws"
proof (induction "'' ''" ws rule: join.induct)
  case (2 w)
  then show ?case using word_no_ws by (auto intro!: split_by_none)
next
  case (3 w w' ws)
  then have "split_by aws (w @ CHR '' '' # join '' '' (w' # ws)) = w # split_by aws (join '' '' (w' # ws))"
    by (intro split_by_append) (auto dest: word_no_ws)
  then show ?case using 3 by simp
qed simp

lemma ascii_join: "ascii sep \<Longrightarrow> \<forall>w \<in> set ws. ascii w \<Longrightarrow> ascii (join sep ws)"
  by (induction sep ws rule: join.induct) auto

lemma split_whitespace_ascii:
  "ascii s \<Longrightarrow> split_whitespace s = filter (\<lambda>t. t \<noteq> []) (split_by aws s)"
  by (simp add: split_whitespace_def ascii_chars split_by_singletons filter_map comp_def)

lemma filter_words: "\<forall>w \<in> set ws. word_text w \<Longrightarrow> filter (\<lambda>t. t \<noteq> []) ws = ws"
  by (auto simp: filter_id_conv word_text_def)

lemma split_whitespace_words:
  assumes "\<forall>w \<in> set ws. word_text w"
  shows "split_whitespace (join '' '' ws) = ws"
    and "ws \<noteq> [] \<Longrightarrow> split_whitespace (CHR '' '' # join '' '' ws) = ws"
proof -
  have a: "ascii (join '' '' ws)"
    using assms word_ascii by (intro ascii_join) (auto simp: is_ascii_def)
  have "is_ascii CHR '' ''" by (simp add: is_ascii_def)
  show "split_whitespace (join '' '' ws) = ws"
    using assms a by (cases "ws = []")
      (simp_all add: split_whitespace_ascii split_by_join_words filter_words)
  show "split_whitespace (CHR '' '' # join '' '' ws) = ws" if "ws \<noteq> []"
    using assms a that \<open>is_ascii CHR '' ''\<close>
    by (simp add: split_whitespace_ascii split_by_join_words filter_words)
qed

section \<open>Addresses\<close>

lemma digit_plain: "is_digit c \<Longrightarrow> plain_char c \<and> c \<notin> set ''.,)=-''"
proof -
  assume "is_digit c"
  then have "48 \<le> (of_char c :: nat) \<and> (of_char c :: nat) \<le> 57"
    by (simp add: is_digit_def less_eq_char_def)
  moreover have "(of_char c :: nat) < 128 \<and> c \<notin> set ''.,)=-'' \<and> \<not> aws c"
    if "(of_char c :: nat) = n" "n \<in> {48..57}" for n
    using that by (auto simp: is_ws_def utf8_white_space_def)
  ultimately show ?thesis by (auto simp: plain_char_def is_ascii_def)
qed

lemma show_nat_chars: "c \<in> set (show_nat n) \<Longrightarrow> plain_char c \<and> c \<notin> set ''.,)=-''"
  using show_nat_digits digit_plain by blast

lemma ipv4_join: "to_le_bytes ip = (a, b, c, d) \<Longrightarrow> ipv4_dotted ip =
   join ''.'' [show_nat (unat a), show_nat (unat b), show_nat (unat c), show_nat (unat d)]"
  by (simp add: ipv4_dotted_def)

lemma split_ipv4:
  assumes "to_le_bytes ip = (a, b, c, d)"
  shows "split_on CHR ''.'' (ipv4_dotted ip) =
     [show_nat (unat a), show_nat (unat b), show_nat (unat c), show_nat (unat d)]"
proof -
  have "CHR ''.'' \<notin> set (show_nat n)" for n using show_nat_chars by fastforce
  then show ?thesis unfolding ipv4_join [OF assms] by (intro split_join) auto
qed

text \<open>
  printing an address and reading it back is the identity, both for the parser of the
  AppArmor frontend and for the one of the profile translator, so every frontend and backend
  agrees on the byte order of an address.
\<close>

theorem ipv4_roundtrip: "parse_ipv4 (ipv4_dotted ip) = Some ip \<and> parse_ip_str (ipv4_dotted ip) = ip"
proof -
  obtain a b c d where abcd: "to_le_bytes ip = (a, b, c, d)" by (metis prod_cases4)
  show ?thesis
    using from_to_le_bytes [OF abcd]
    by (simp add: parse_ipv4_def parse_ip_str_def split_ipv4 [OF abcd] List.map_filter_simps)
qed

lemma parse_ipv4_dotted: "parse_ipv4 (ipv4_dotted ip) = Some ip"
proof -
  obtain a b c d where abcd: "to_le_bytes ip = (a, b, c, d)" by (metis prod_cases4)
  show ?thesis
    using from_to_le_bytes [OF abcd] by (simp add: parse_ipv4_def split_ipv4 [OF abcd])
qed

section \<open>File and exec lines\<close>

text \<open>Absolute ASCII paths without line breaks and double quotes.\<close>

definition path_text :: "string \<Rightarrow> bool" where
  "path_text g =
     (prefix ''/'' g \<and> list_all (\<lambda>c. is_ascii c \<and> c \<noteq> newline \<and> c \<noteq> CHR 0x22) g)"

lemma path_ascii: "path_text g \<Longrightarrow> ascii g"
  by (auto simp: path_text_def ascii_def list_all_iff)

lemma path_Cons: "path_text g \<Longrightarrow> \<exists>p. g = CHR ''/'' # p"
  by (auto simp: path_text_def prefix_def)

lemma ws_literals [simp]:
  "\<not> aws CHR ''/''" "\<not> aws CHR 0x22" "\<not> aws CHR ''r''" "\<not> aws CHR ''w''" "\<not> aws CHR ''x''"
  "\<not> aws CHR ''d''" "\<not> aws CHR '',''" "\<not> aws CHR ''i''" "\<not> aws CHR ''n''" "\<not> aws CHR '')''"
  "\<not> aws CHR ''m''"
  by (simp_all add: is_ws_def utf8_white_space_def)

lemma ascii_literals [simp]:
  "is_ascii CHR ''/''" "is_ascii CHR 0x22" "is_ascii CHR ''r''" "is_ascii CHR ''w''"
  "is_ascii CHR ''x''" "is_ascii CHR ''d''" "is_ascii CHR '',''" "is_ascii CHR ''i''"
  "is_ascii CHR '' ''" "is_ascii CHR ''e''" "is_ascii CHR ''n''" "is_ascii CHR ''y''"
  "is_ascii CHR ''a''" "is_ascii CHR ''o''" "is_ascii CHR ''t''" "is_ascii CHR ''k''"
  "is_ascii CHR ''s''" "is_ascii CHR ''m''" "is_ascii CHR ''g''" "is_ascii CHR ''=''"
  "is_ascii CHR ''(''" "is_ascii CHR '')''" "is_ascii CHR ''.''" "is_ascii CHR ''p''"
  by (simp_all add: is_ascii_def)

definition perms_text :: "string \<Rightarrow> bool" where
  "perms_text p = (p = ''r'' \<or> p = ''w'' \<or> p = ''ix'')"

lemma perms_facts:
  assumes "perms_text p"
  shows "tight p" "is_perm_token p" "\<forall>c \<in> set p. \<not> aws c" "last p \<noteq> CHR '',''" "last p \<noteq> CHR ''{''"
    "p \<noteq> []" "ascii p"
  using assms by (auto simp: perms_text_def tight_def is_perm_token_def)

text \<open>The quoted or bare path is a tight text whose head says which of the two it is.\<close>

lemma quoted_cases:
  assumes "path_text g"
  shows "quote_if_needed g = CHR 0x22 # g @ [CHR 0x22]
         \<or> (quote_if_needed g = g \<and> (\<forall>c \<in> set g. \<not> aws c))"
proof (cases "list_ex is_ws (rust_chars g)")
  case True
  then show ?thesis by (simp add: quote_if_needed_def)
next
  case False
  then have "\<forall>c \<in> set g. \<not> aws c"
    by (auto simp: ascii_chars [OF path_ascii [OF assms]] list_ex_iff)
  then show ?thesis using False by (simp add: quote_if_needed_def)
qed

lemma quoted_tight:
  assumes "path_text g"
  shows "tight (quote_if_needed g)"
proof -
  obtain p where g: "g = CHR ''/'' # p" using path_Cons [OF assms] by blast
  have "last g \<in> set g" by (simp add: g)
  then show ?thesis
    using quoted_cases [OF assms] path_ascii [OF assms] by (auto simp: tight_def g)
qed

lemma quoted_head: "path_text g \<Longrightarrow> hd (quote_if_needed g) \<in> {CHR ''/'', CHR 0x22}"
  using quoted_cases [of g] path_Cons [of g] by auto

lemma split_quoted:
  assumes g: "path_text g" and p: "perms_text p"
  shows "split_path_perms (quote_if_needed g @ '' '' @ p) = Some (Some (g, p))"
  using quoted_cases [OF g]
proof
  assume q: "quote_if_needed g = CHR 0x22 # g @ [CHR 0x22]"
  have "find_idx (\<lambda>c. c = CHR 0x22) (g @ CHR 0x22 # '' '' @ p) = Some (length g)"
    using g by (intro find_idx_append) (auto simp: path_text_def list_all_iff)
  moreover have "trim ('' '' @ p) = p"
    using perms_facts [OF p] by (intro trim_pad) simp_all
  ultimately show ?thesis
    using perms_facts(6) [OF p]
    by (simp add: q split_path_perms_def strip_prefix_def Let_def)
next
  assume q: "quote_if_needed g = g \<and> (\<forall>c \<in> set g. \<not> aws c)"
  obtain t where t: "g = CHR ''/'' # t" using path_Cons [OF g] by blast
  have asc: "ascii (g @ CHR '' '' # p)" using path_ascii [OF g] perms_facts(7) [OF p] by simp
  have once: "split_once_ws (g @ CHR '' '' # p) = Some (g, p)"
    using asc q by (intro split_once_ws_ascii) simp_all
  have r: "rsplit_ws (g @ CHR '' '' # p) = Some (g, '' '', p)"
    using asc perms_facts(3) [OF p] by (intro rsplit_ws_ascii) simp_all
  have "\<not> is_perm_token g" by (simp add: t is_perm_token_def)
  moreover have "tight g" using quoted_tight [OF g] q by simp
  ultimately show ?thesis
    using q once r perms_facts(1,2) [OF p] t
    by (simp add: split_path_perms_def strip_prefix_def trim_tight Let_def)
qed

lemma trim_commas_append: "core \<noteq> [] \<Longrightarrow> last core \<noteq> CHR '','' \<Longrightarrow> trim_commas (core @ '','') = core"
  by (cases core rule: rev_cases) (simp_all add: trim_commas_def trim_end_matches_def)

lemma strip_qualifiers_bare:
  assumes "tight s" and "hd s \<notin> {CHR ''o'', CHR ''a'', CHR ''p''}"
  shows "strip_qualifiers s = s"
proof -
  obtain c t where s: "s = c # t" "c \<notin> {CHR ''o'', CHR ''a'', CHR ''p''}"
    using assms by (cases s) (auto simp: tight_def)
  have "trim_start s = s" by (rule trim_start_tight [OF assms(1)])
  then show ?thesis
    using s by (subst strip_qualifiers.simps) (auto simp: strip_prefix_def Let_def)
qed

definition file_line_rules :: "RuleId \<Rightarrow> Verdict \<Rightarrow> string \<Rightarrow> string \<Rightarrow> BehaviorRule list \<times> RuleId" where
  "file_line_rules next_id verdict g p = perm_rules [] next_id verdict g p"

lemma parse_body:
  assumes body: "tight body" and last: "last body \<noteq> CHR '',''"
    and hd: "hd body \<notin> {CHR ''#'', CHR ''p'', CHR ''a'', CHR ''i'', CHR ''@'', CHR ''{'', CHR ''}'', CHR ''d''}"
    and d: "d = (if v = Deny then ''deny '' else '''')" and v: "v = Deny \<or> v = Allow"
  shows "parse_line (rules, n) (''  '' @ d @ body @ '','') =
     (let line = strip_qualifiers body in
      case strip_prefix ''network'' line of
        Some rest \<Rightarrow> (let (r, n) = parse_network n v rest in Some (rules @ [r], n))
      | None \<Rightarrow>
          (case split_path_perms line of
             None \<Rightarrow> None
           | Some None \<Rightarrow> Some (rules, n)
           | Some (Some (path, perms)) \<Rightarrow> Some (perm_rules rules n v path perms)))"
proof -
  obtain c t where b: "body = c # t" using body by (cases body) (auto simp: tight_def)
  have core: "tight (d @ body)"
    using body v by (auto simp: d tight_def b)
  have full: "tight (d @ body @ '','')"
    using tight_append [OF core ascii_Nil, of "'',''"] by (simp add: tight_def)
  have t1: "trim (''  '' @ d @ body @ '','') = d @ body @ '',''"
    using full by (rule trim_pad) simp_all
  have ns: "\<not> skipped_line (d @ body @ '','')"
    using hd v by (auto simp: skipped_line_def d b suffix_def)
  have t2: "trim_commas (d @ body @ '','') = d @ body"
    using trim_commas_append [of "d @ body"] last body by (simp add: tight_def)
  have t3: "trim (d @ body) = d @ body" by (rule trim_tight [OF core])
  have vd: "verdict_of (d @ body) = (v, body)"
    using v hd trim_tight [OF body] by (auto simp: verdict_of_def d b strip_prefix_def)
  have "d @ body \<noteq> []" by (simp add: b)
  then show ?thesis
    unfolding parse_line_def Let_def prod.case t1 if_not_P [OF ns] t2 t3 vd
    by (simp del: append_is_Nil_conv)
qed

lemma parse_file_line:
  assumes g: "path_text g" and p: "perms_text p"
    and d: "d = (if v = Deny then ''deny '' else '''')" and v: "v = Deny \<or> v = Allow"
  shows "parse_line (rules, n) (file_line d g p) = Some (perm_rules rules n v g p)"
proof -
  let ?body = "quote_if_needed g @ '' '' @ p"
  have body: "tight ?body"
    using tight_append [OF quoted_tight [OF g] _ perms_facts(1) [OF p], of "'' ''"] by simp
  have q: "quote_if_needed g \<noteq> []" using quoted_tight [OF g] by (simp add: tight_def)
  then have hd: "hd ?body \<in> {CHR ''/'', CHR 0x22}" using quoted_head [OF g] by simp
  have last: "last ?body \<noteq> CHR '',''" using perms_facts(4,6) [OF p] by simp
  have sq: "strip_qualifiers ?body = ?body"
    using hd by (intro strip_qualifiers_bare [OF body]) auto
  have nn: "strip_prefix ''network'' ?body = None"
    using hd by (cases ?body) (auto simp: strip_prefix_def)
  have h: "hd ?body \<notin> {CHR ''#'', CHR ''p'', CHR ''a'', CHR ''i'', CHR ''@'', CHR ''{'', CHR ''}'', CHR ''d''}"
    using hd by auto
  have "parse_line (rules, n) (''  '' @ d @ ?body @ '','') = Some (perm_rules rules n v g p)"
    unfolding parse_body [OF body last h d v] Let_def sq nn split_quoted [OF g p] by simp
  then show ?thesis by (simp add: file_line_def)
qed

section \<open>Network lines\<close>

definition stype_text :: "u8 \<Rightarrow> string" where
  "stype_text proto = (if proto = 17 then ''dgram'' else ''stream'')"

definition cond_parts :: "u32 option \<Rightarrow> u32 option \<Rightarrow> string list" where
  "cond_parts ip port =
     (case ip of Some a \<Rightarrow> [''ip='' @ ipv4_dotted a] | None \<Rightarrow> [])
     @ (case port of Some q \<Rightarrow> [''port='' @ show_nat (unat q)] | None \<Rightarrow> [])"

lemma plain_literals [simp]:
  "plain_char CHR ''i''" "plain_char CHR ''p''" "plain_char CHR ''=''" "plain_char CHR ''.''"
  "plain_char CHR ''o''" "plain_char CHR ''r''" "plain_char CHR ''t''" "plain_char CHR ''e''"
  "plain_char CHR ''('' " "plain_char CHR '')''" "plain_char CHR ''n''" "plain_char CHR ''s''"
  "plain_char CHR ''a''" "plain_char CHR ''m''" "plain_char CHR ''d''" "plain_char CHR ''g''"
  by (simp_all add: plain_char_def is_ascii_def is_ws_def utf8_white_space_def)

lemma ipv4_dotted_chars: "c \<in> set (ipv4_dotted ip) \<Longrightarrow> plain_char c \<and> c \<noteq> CHR '')'' \<and> c \<noteq> CHR '',''"
  by (auto simp: ipv4_dotted_def Let_def dest: show_nat_chars)

lemma cond_parts_chars:
  "w \<in> set (cond_parts ip port) \<Longrightarrow> c \<in> set w \<Longrightarrow> plain_char c \<and> c \<noteq> CHR '')'' \<and> c \<noteq> CHR '',''"
  by (auto simp: cond_parts_def split: option.splits dest!: ipv4_dotted_chars show_nat_chars)

lemma cond_parts_words: "w \<in> set (cond_parts ip port) \<Longrightarrow> word_text w"
  using cond_parts_chars [of w ip port]
  by (auto simp: word_text_def) (auto simp: cond_parts_def split: option.splits)

lemma net_conditional_peer:
  "net_conditional nob True =
     (let parts = cond_parts (no_dst_ip nob) (no_dst_port nob)
      in if parts = [] then '''' else ''peer=('' @ join '' '' parts @ '')'')"
  by (simp add: net_conditional_def cond_parts_def Let_def)

lemma trim_end_matches_none: "\<forall>c \<in> set s. \<not> P c \<Longrightarrow> trim_end_matches P s = s"
  by (cases s rule: rev_cases) (auto simp: trim_end_matches_def)

lemma parse_cond_parts: "parse_ip_port (join '' '' (cond_parts ip port)) = (ip, port)"
proof -
  have tok_ip: "ip_port_token st (''ip='' @ ipv4_dotted a) = (Some a, snd st)" for st a
    by (cases st) (simp add: ip_port_token_def Let_def parse_ipv4_dotted
        trim_end_matches_none [of "''ip='' @ ipv4_dotted a", simplified] ipv4_dotted_chars
        strip_prefix_def)
  have no_dash: "split_on CHR ''-'' (show_nat k) = [show_nat k]" for k
    by (rule split_by_none) (use show_nat_chars in fastforce)
  have tok_port: "ip_port_token st (''port='' @ show_nat (unat q)) = (fst st, Some q)" for st q
  proof -
    have "trim_end_matches (\<lambda>c. c = CHR '','' \<or> c = CHR '')'') (''port='' @ show_nat (unat q))
        = ''port='' @ show_nat (unat q)"
      by (rule trim_end_matches_none) (auto dest: show_nat_chars)
    then show ?thesis
      by (cases st) (simp add: ip_port_token_def Let_def strip_prefix_def no_dash)
  qed
  have "split_whitespace (join '' '' (cond_parts ip port)) = cond_parts ip port"
    by (rule split_whitespace_words(1)) (simp add: cond_parts_words)
  then show ?thesis
    unfolding parse_ip_port_def
    by (simp add: cond_parts_def tok_ip tok_port del: append.simps split: option.splits)
qed

lemma join_chars: "c \<in> set (join sep ws) \<Longrightarrow> c \<in> set sep \<or> (\<exists>w \<in> set ws. c \<in> set w)"
  by (induction sep ws rule: join.induct) auto

lemma cond_join_chars:
  "CHR '')'' \<notin> set (join '' '' (cond_parts ip port))" "CHR '','' \<notin> set (join '' '' (cond_parts ip port))"
  using join_chars [of _ "'' ''" "cond_parts ip port"] cond_parts_chars by fastforce+

lemma stype_protocol: "protocol_token None (stype_text proto) = Some (if proto = 17 then 17 else 6)"
  by (simp add: stype_text_def protocol_token_def trim_commas_def trim_end_matches_none)

lemma find_sub_skip: "\<not> prefix p (c # s) \<Longrightarrow> find_sub p (c # s) = map_option Suc (find_sub p s)"
  by simp

lemma extract_peer_stype:
  assumes "CHR '')'' \<notin> set inner"
  shows "extract_peer ('' inet '' @ stype_text proto @ '' peer=('' @ inner @ '')'') = Some inner"
proof -
  have "find_idx (\<lambda>c. c = CHR '')'') (inner @ CHR '')'' # []) = Some (length inner)"
    using assms by (intro find_idx_append) auto
  then show ?thesis
    by (simp add: extract_peer_def stype_text_def Let_def)
qed

lemma extract_peer_none: "extract_peer ('' inet '' @ stype_text proto) = None"
  by (simp add: extract_peer_def stype_text_def)

text \<open>Tokens of the conditional do not name a protocol.\<close>

lemma protocol_token_other:
  "t \<noteq> [] \<Longrightarrow> hd t \<in> {CHR ''i'', CHR ''p''} \<Longrightarrow> protocol_token proto t = proto"
proof -
  assume "t \<noteq> []" and h: "hd t \<in> {CHR ''i'', CHR ''p''}"
  then obtain c u where t: "t = c # u" "c = CHR ''i'' \<or> c = CHR ''p''" by (cases t) auto
  have "\<exists>k. trim_commas t = take k t"
    unfolding trim_commas_def trim_end_matches_def
    by (metis append_eq_conv_conj rev_append rev_rev_ident takeWhile_dropWhile_id)
  then obtain k where "trim_commas t = take k t" by blast
  then have "trim_commas t = [] \<or> hd (trim_commas t) = c" using t by (cases k) auto
  then show ?thesis using t(2) by (auto simp: protocol_token_def Let_def)
qed

lemma protocol_tokens_other:
  "\<forall>t \<in> set ts. t \<noteq> [] \<and> hd t \<in> {CHR ''i'', CHR ''p''} \<Longrightarrow> foldl protocol_token proto ts = proto"
  by (induction ts arbitrary: proto) (simp_all add: protocol_token_other)

definition net_tail :: "u8 \<Rightarrow> u32 option \<Rightarrow> u32 option \<Rightarrow> string" where
  "net_tail proto ip port =
     (let parts = cond_parts ip port in
      '' inet '' @ stype_text proto
      @ (if parts = [] then '''' else '' peer=('' @ join '' '' parts @ '')''))"

text \<open>The words of the tail, with the parenthesis on the first and last part.\<close>

definition net_words :: "u8 \<Rightarrow> u32 option \<Rightarrow> u32 option \<Rightarrow> string list" where
  "net_words proto ip port =
     (case cond_parts ip port of
        [] \<Rightarrow> [''inet'', stype_text proto]
      | [w] \<Rightarrow> [''inet'', stype_text proto, ''peer=('' @ w @ '')'']
      | w # w' # _ \<Rightarrow> [''inet'', stype_text proto, ''peer=('' @ w, w' @ '')''])"

lemma cond_parts_cases:
  "cond_parts ip port \<in> {[], [''ip='' @ ipv4_dotted (the ip)], [''port='' @ show_nat (unat (the port))],
     [''ip='' @ ipv4_dotted (the ip), ''port='' @ show_nat (unat (the port))]}"
  by (auto simp: cond_parts_def split: option.splits)

lemma net_tail_words: "net_tail proto ip port = '' '' @ join '' '' (net_words proto ip port)"
  using cond_parts_cases [of ip port]
  by (auto simp: net_tail_def net_words_def Let_def)

lemma stype_word: "word_text (stype_text proto)"
  by (simp add: word_text_def stype_text_def)

lemma word_text_append: "word_text a \<Longrightarrow> \<forall>c \<in> set b. plain_char c \<Longrightarrow> word_text (a @ b)"
  by (auto simp: word_text_def)

lemma word_text_prepend: "\<forall>c \<in> set a. plain_char c \<Longrightarrow> word_text b \<Longrightarrow> word_text (a @ b)"
  by (auto simp: word_text_def)

lemma net_words_ok: "w \<in> set (net_words proto ip port) \<Longrightarrow> word_text w"
proof -
  have inet: "word_text ''inet''" by (simp add: word_text_def)
  have wrap: "word_text (''peer=('' @ v @ '')'')" "word_text (''peer=('' @ v)" "word_text (v @ '')'')"
    if "v \<in> set (cond_parts ip port)" for v
    using cond_parts_words [OF that] by (auto simp: word_text_def)
  assume "w \<in> set (net_words proto ip port)"
  then show ?thesis
    using inet stype_word wrap by (auto simp: net_words_def split: list.splits)
qed

lemma parse_network_tail:
  "parse_network n v (net_tail proto ip port) =
     (\<lparr>r_id = n, r_subject = empty_subject,
       r_object = Network \<lparr>no_dst_ip = ip, no_dst_port = port,
         no_protocol = Some (if proto = 17 then 17 else 6), no_direction = Some 1\<rparr>,
       r_action = NetConnect, r_verdict = v, r_metadata = meta Net\<rparr>, n + 1)"
proof -
  have words: "split_whitespace (net_tail proto ip port) = net_words proto ip port"
  proof -
    have "split_whitespace (CHR '' '' # join '' '' (net_words proto ip port)) = net_words proto ip port"
      by (rule split_whitespace_words(2)) (auto simp: net_words_ok, simp add: net_words_def split: list.splits)
    then show ?thesis by (simp add: net_tail_words)
  qed
  have proto: "foldl protocol_token None (net_words proto ip port) = Some (if proto = 17 then 17 else 6)"
  proof -
    obtain ts where ts: "net_words proto ip port = ''inet'' # stype_text proto # ts"
      "\<forall>t \<in> set ts. t \<noteq> [] \<and> hd t \<in> {CHR ''i'', CHR ''p''}"
      using cond_parts_cases [of ip port] by (auto simp: net_words_def)
    have "protocol_token None ''inet'' = None" by (rule protocol_token_other) simp_all
    then show ?thesis using ts by (simp add: stype_protocol protocol_tokens_other)
  qed
  have "(case extract_peer (net_tail proto ip port) of
      Some peer \<Rightarrow> parse_ip_port peer | None \<Rightarrow> parse_ip_port (net_tail proto ip port)) = (ip, port)"
  proof (cases "cond_parts ip port = []")
    case True
    then have none: "ip = None" "port = None" by (auto simp: cond_parts_def split: option.splits)
    have "parse_ip_port ('' inet '' @ stype_text proto) = (None, None)"
      using words by (simp add: parse_ip_port_def net_tail_def net_words_def True stype_text_def
          ip_port_token_def trim_end_matches_none strip_prefix_def)
    then have "parse_ip_port ('' inet '' @ stype_text proto) = (ip, port)" unfolding none .
    moreover have tail: "net_tail proto ip port = '' inet '' @ stype_text proto"
      by (simp add: net_tail_def True)
    ultimately show ?thesis unfolding tail extract_peer_none option.case by blast
  next
    case False
    have "extract_peer (net_tail proto ip port) = Some (join '' '' (cond_parts ip port))"
      using extract_peer_stype [OF cond_join_chars(1)] False by (simp add: net_tail_def)
    then show ?thesis by (simp add: parse_cond_parts)
  qed
  then show ?thesis
    unfolding parse_network_def words proto by (simp add: alloc_def)
qed

lemma parse_net_line:
  assumes d: "d = (if v = Deny then ''deny '' else '''')" and v: "v = Deny \<or> v = Allow"
  shows "parse_line (rules, n) (''  '' @ d @ (''network'' @ net_tail proto ip port) @ '','') =
     Some (rules @ [fst (parse_network n v (net_tail proto ip port))], n + 1)"
proof -
  let ?ws = "''network'' # net_words proto ip port"
  let ?body = "''network'' @ net_tail proto ip port"
  obtain ws where ws: "net_words proto ip port = ''inet'' # ws"
    using cond_parts_cases [of ip port] by (auto simp: net_words_def)
  have "word_text ''network''" by (simp add: word_text_def plain_char_def is_ascii_def is_ws_def
        utf8_white_space_def)
  then have all: "\<forall>w \<in> set ?ws. word_text w" using net_words_ok by auto
  have b: "?body = join '' '' ?ws" by (simp add: net_tail_words ws)
  have tight_join: "tight (join '' '' vs)" if "vs \<noteq> []" "\<forall>w \<in> set vs. word_text w" for vs
    using that
  proof (induction "'' ''" vs rule: join.induct)
    case (3 x y ys)
    have "tight (x @ '' '' @ join '' '' (y # ys))"
      using 3 by (intro tight_append) (simp_all add: word_tight)
    then show ?case by simp
  qed (simp_all add: word_tight)
  have body: "tight ?body" unfolding b using all by (intro tight_join) auto
  have last: "last ?body \<noteq> CHR '',''"
  proof -
    have "CHR '','' \<notin> set ?body"
      using cond_join_chars(2) [of ip port] by (auto simp: net_tail_def Let_def stype_text_def)
    then show ?thesis using last_in_set [of ?body] body unfolding tight_def by metis
  qed
  have h: "hd ?body \<notin> {CHR ''#'', CHR ''p'', CHR ''a'', CHR ''i'', CHR ''@'', CHR ''{'', CHR ''}'', CHR ''d''}"
    by simp
  have sq: "strip_qualifiers ?body = ?body" by (rule strip_qualifiers_bare [OF body]) simp
  have "parse_line (rules, n) (''  '' @ d @ ?body @ '','') =
     (let (r, n) = parse_network n v (net_tail proto ip port) in Some (rules @ [r], n))"
    unfolding parse_body [OF body last h d v] Let_def sq strip_prefix_append option.case ..
  then show ?thesis unfolding parse_network_tail by simp
qed

section \<open>Profiles\<close>

type_synonym Content = "Object \<times> Action \<times> Verdict"

definition content :: "BehaviorRule \<Rightarrow> Content" where
  "content r = (r_object r, r_action r, r_verdict r)"

text \<open>The rules that the profile language and the frontend's subset of it can carry.\<close>

definition reparsable :: "BehaviorRule \<Rightarrow> bool" where
  "reparsable r =
     ((r_verdict r = Allow \<or> r_verdict r = Deny)
      \<and> (case r_object r of
           File f \<Rightarrow>
             \<not> fo_is_sensitive f \<and> (r_action r = FileRead \<or> r_action r = FileWrite)
             \<and> (case glob_of (file_glob (fo_pattern f)) of
                  Some g \<Rightarrow> path_text g \<and> glob_to_pattern g = fo_pattern f
                | None \<Rightarrow> False)
         | Process p \<Rightarrow>
             r_action r = ProcExec
             \<and> (case po_binary p of Path path \<Rightarrow> path_text path | Comm _ \<Rightarrow> False)
         | Network nob \<Rightarrow>
             r_action r = NetConnect \<and> no_direction nob = Some 1
             \<and> (no_protocol nob = Some 6 \<or> no_protocol nob = Some 17)))"

text \<open>A line that parses to one rule, with this content and the next id.\<close>

definition line_content :: "string \<Rightarrow> Content \<Rightarrow> bool" where
  "line_content l c =
     (\<forall>rules n. \<exists>r. parse_line (rules, n) l = Some (rules @ [r], n + 1) \<and> content r = c \<and> r_id r = n)"

lemma rule_line_content:
  assumes "reparsable r"
  shows "\<exists>s l. rule_line r = Some (s, l) \<and> line_content l (content r)"
proof (cases "r_object r")
  case (File f)
  obtain g where g: "glob_of (file_glob (fo_pattern f)) = Some g" "path_text g"
    "glob_to_pattern g = fo_pattern f" and v: "r_verdict r = Deny \<or> r_verdict r = Allow"
    and a: "r_action r = FileRead \<or> r_action r = FileWrite" and s: "\<not> fo_is_sensitive f"
    using assms by (auto simp: reparsable_def File split: option.splits)
  let ?p = "if r_action r = FileWrite then ''w'' else ''r''"
  have line: "rule_line r = Some (Sec_file, file_line (deny_text r) g ?p)"
    using a by (auto simp: rule_line_def File g)
  have p: "perms_text ?p" by (simp add: perms_text_def)
  have fo: "\<lparr>fo_pattern = fo_pattern f, fo_is_sensitive = False\<rparr> = f" using s by (cases f) simp
  have "line_content (file_line (deny_text r) g ?p) (content r)"
    unfolding line_content_def parse_file_line [OF g(2) p deny_text_def v]
    using a by (auto simp: perm_rules_def file_rule_def alloc_def content_def File g(3) fo)
  then show ?thesis using line by blast
next
  case (Process p)
  obtain path where b: "po_binary p = Path path" "path_text path"
    and v: "r_verdict r = Deny \<or> r_verdict r = Allow" and a: "r_action r = ProcExec"
    using assms by (auto simp: reparsable_def Process split: BinaryRef.splits)
  have line: "rule_line r = Some (Sec_exec, file_line (deny_text r) path ''ix'')"
    by (simp add: rule_line_def Process a b)
  have p: "perms_text ''ix''" by (simp add: perms_text_def)
  have po: "\<lparr>po_binary = Path path\<rparr> = p" using b by (cases p) simp
  have "line_content (file_line (deny_text r) path ''ix'') (content r)"
    unfolding line_content_def parse_file_line [OF b(2) p deny_text_def v]
    by (auto simp: perm_rules_def exec_rule_def alloc_def content_def Process a po)
  then show ?thesis using line by blast
next
  case (Network nob)
  obtain proto where pr: "no_protocol nob = Some proto" "proto = 6 \<or> proto = 17"
    and dir: "no_direction nob = Some 1" and a: "r_action r = NetConnect"
    and v: "r_verdict r = Deny \<or> r_verdict r = Allow"
    using assms by (auto simp: reparsable_def Network)
  let ?tail = "net_tail proto (no_dst_ip nob) (no_dst_port nob)"
  have line: "rule_line r = Some (Sec_net, ''  '' @ deny_text r @ (''network'' @ ?tail) @ '','')"
    using pr by (auto simp: rule_line_def Network a net_conditional_peer net_tail_def Let_def
        stype_text_def)
  have nob: "\<lparr>no_dst_ip = no_dst_ip nob, no_dst_port = no_dst_port nob,
      no_protocol = Some (if proto = 17 then 17 else 6), no_direction = Some 1\<rparr> = nob"
    using pr dir by (cases nob) auto
  have "line_content (''  '' @ deny_text r @ (''network'' @ ?tail) @ '','') (content r)"
    unfolding line_content_def parse_net_line [OF deny_text_def v] parse_network_tail
    by (simp add: content_def Network a nob)
  then show ?thesis using line by blast
qed

text \<open>Lines with a line break after each are cut into the lines again.\<close>

definition one_line :: "string \<Rightarrow> bool" where
  "one_line l = (newline \<notin> set l \<and> \<not> suffix [carriage_return] l)"

lemma split_lines:
  "\<forall>l \<in> set ls. newline \<notin> set l \<Longrightarrow> split_on newline (concat (map (\<lambda>l. l @ [newline]) ls)) = ls @ [[]]"
proof (induction ls)
  case (Cons l ls)
  then have "split_on newline (l @ newline # concat (map (\<lambda>l. l @ [newline]) ls)) = l # (ls @ [[]])"
    by (subst split_by_append) auto
  then show ?case by simp
qed simp

lemma rust_lines_concat:
  "\<forall>l \<in> set ls. one_line l \<Longrightarrow> rust_lines (concat (map (\<lambda>l. l @ [newline]) ls)) = ls"
  by (auto simp: rust_lines_def split_lines one_line_def strip_suffix_def Let_def intro!: map_idI)

definition section_text :: "string \<Rightarrow> string list \<Rightarrow> string list" where
  "section_text header ls = (if ls = [] then [] else (''  '' @ header) # ls)"

lemma push_section_lines:
  "push_section (concat (map (\<lambda>l. l @ [newline]) out)) header ls =
     concat (map (\<lambda>l. l @ [newline]) (out @ section_text header ls))"
proof -
  have "foldl (\<lambda>out l. out @ l @ [newline]) s ls = s @ concat (map (\<lambda>l. l @ [newline]) ls)" for s
    by (induction ls arbitrary: s) auto
  then show ?thesis by (simp add: push_section_def section_text_def)
qed

definition profile_lines :: "(string \<Rightarrow> string) \<Rightarrow> BehaviorRule list \<Rightarrow> string \<Rightarrow> string list" where
  "profile_lines dbg rules profile_name =
     (let st = lower_all dbg rules in
      [''profile '' @ profile_name @ '' flags=(attach_disconnected,mediate_deleted) {'']
      @ section_text ''# executables'' (dedup_sort (exec_lines st))
      @ section_text ''# files'' (dedup_sort (file_lines st))
      @ section_text ''# network'' (dedup_sort (net_lines st))
      @ [''}''])"

lemma lower_to_apparmor_lines:
  "fst (lower_to_apparmor dbg rules name) =
     concat (map (\<lambda>l. l @ [newline]) (profile_lines dbg rules name))"
proof -
  have "''profile '' @ name @ '' flags=(attach_disconnected,mediate_deleted) {'' @ [newline] =
      concat (map (\<lambda>l. l @ [newline])
        [''profile '' @ name @ '' flags=(attach_disconnected,mediate_deleted) {''])" by simp
  then show ?thesis
    unfolding lower_to_apparmor_def profile_lines_def Let_def fst_conv push_section_lines
    by (simp only: push_section_lines) simp
qed

text \<open>The rule lines of a profile.\<close>

definition all_rule_lines :: "BehaviorRule list \<Rightarrow> string set" where
  "all_rule_lines rules = {l. \<exists>r \<in> set rules. \<exists>s. rule_line r = Some (s, l)}"

lemma set_map_filter: "y \<in> set (List.map_filter f xs) \<longleftrightarrow> (\<exists>x \<in> set xs. f x = Some y)"
  by (induction xs) (auto simp: List.map_filter_simps split: option.splits)

lemma set_section_lines:
  "l \<in> set (section_lines s (lower_all dbg rules)) \<longleftrightarrow> (\<exists>r \<in> set rules. rule_line r = Some (s, l))"
proof -
  have "(case x of Some (s', l') \<Rightarrow> if s' = s then Some l' else None | None \<Rightarrow> None) = Some l
      \<longleftrightarrow> x = Some (s, l)" for x :: "(Section \<times> string) option"
    by (auto split: option.splits)
  then show ?thesis unfolding lower_all_lines set_map_filter by simp
qed

lemma sections_rule_lines:
  "set (exec_lines (lower_all dbg rules)) \<union> set (file_lines (lower_all dbg rules))
     \<union> set (net_lines (lower_all dbg rules)) = all_rule_lines rules"
proof (rule set_eqI)
  fix l
  have "l \<in> all_rule_lines rules \<longleftrightarrow> (\<exists>s. l \<in> set (section_lines s (lower_all dbg rules)))"
    unfolding set_section_lines all_rule_lines_def by blast
  also have "\<dots> \<longleftrightarrow> l \<in> set (section_lines Sec_exec (lower_all dbg rules))
      \<or> l \<in> set (section_lines Sec_file (lower_all dbg rules))
      \<or> l \<in> set (section_lines Sec_net (lower_all dbg rules))"
    by (metis Section.exhaust)
  finally show "l \<in> set (exec_lines (lower_all dbg rules)) \<union> set (file_lines (lower_all dbg rules))
     \<union> set (net_lines (lower_all dbg rules)) \<longleftrightarrow> l \<in> all_rule_lines rules" by simp
qed

text \<open>The parser over lines that it skips and lines that give one rule.\<close>

lemma parse_lines_append:
  "parse_lines st (as @ bs) = (case parse_lines st as of None \<Rightarrow> None | Some st' \<Rightarrow> parse_lines st' bs)"
  by (induction as arbitrary: st) (auto split: option.splits)

definition ignored :: "string \<Rightarrow> bool" where
  "ignored l = (\<forall>st. parse_line st l = Some st)"

lemma ignoredI: "skipped_line (trim l) \<Longrightarrow> ignored l"
  by (simp add: ignored_def parse_line_def split: prod.splits)

definition line_value :: "string \<Rightarrow> Content" where
  "line_value l = content (hd (fst (the (parse_line ([], 1) l))))"

lemma line_content_value: "line_content l c \<Longrightarrow> line_value l = c"
proof -
  assume "line_content l c"
  then obtain r where "parse_line ([], 1) l = Some ([] @ [r], 1 + 1)" "content r = c"
    unfolding line_content_def by blast
  then show ?thesis by (simp add: line_value_def)
qed

lemma parse_rule_lines:
  "\<forall>l \<in> set ls. ignored l \<or> line_content l (line_value l) \<Longrightarrow>
   \<exists>rs. parse_lines (rules, n) ls = Some (rules @ rs, n + of_nat (length rs))
     \<and> map content rs = map line_value (filter (\<lambda>l. \<not> ignored l) ls)
     \<and> map r_id rs = map (\<lambda>k. n + of_nat k) [0..<length rs]"
proof (induction ls arbitrary: rules n)
  case (Cons l ls)
  show ?case
  proof (cases "ignored l")
    case True
    then show ?thesis using Cons by (simp add: ignored_def)
  next
    case False
    then obtain r where r: "parse_line (rules, n) l = Some (rules @ [r], n + 1)"
      "content r = line_value l" "r_id r = n"
      using Cons.prems unfolding line_content_def by fastforce
    obtain rs where rs: "parse_lines (rules @ [r], n + 1) ls = Some ((rules @ [r]) @ rs, n + 1 + of_nat (length rs))"
      "map content rs = map line_value (filter (\<lambda>l. \<not> ignored l) ls)"
      "map r_id rs = map (\<lambda>k. n + 1 + of_nat k) [0..<length rs]"
      using Cons.IH Cons.prems by (meson list.set_intros(2))
    have "map r_id (r # rs) = map (\<lambda>k. n + of_nat k) [0..<length (r # rs)]"
      using r(3) rs(3) by (simp add: upt_conv_Cons map_Suc_upt [symmetric] comp_def algebra_simps
          del: upt_Suc)
    then show ?thesis
      using r rs False by (intro exI [of _ "r # rs"]) (simp add: algebra_simps)
  qed
qed simp

lemma rule_line_one_line:
  assumes "reparsable r" and "rule_line r = Some (s, l)"
  shows "one_line l"
proof -
  have nl: "newline \<notin> set (deny_text r)" by (simp add: deny_text_def newline_def)
  have quoted: "newline \<notin> set (quote_if_needed g)" if "path_text g" for g
  proof -
    have g: "newline \<notin> set g" using that by (auto simp: path_text_def list_all_iff)
    from quoted_cases [OF that] show ?thesis
      by (elim disjE conjE) (simp_all add: g, simp add: newline_def)
  qed
  have flines: "one_line (file_line (deny_text r) g p)" if "path_text g" "perms_text p" for g p
    using quoted [OF that(1)] nl that(2)
    by (auto simp: one_line_def file_line_def perms_text_def newline_def carriage_return_def suffix_def)
  have plain: "newline \<notin> set (join '' '' (cond_parts ip port))" for ip port
    using join_chars [of newline "'' ''" "cond_parts ip port"] cond_parts_chars [of _ ip port newline]
    by (auto simp: newline_def plain_char_def is_ws_def utf8_white_space_def)
  show ?thesis
  proof (cases "r_object r")
    case (File f)
    then show ?thesis using assms flines
      by (auto simp: reparsable_def rule_line_def perms_text_def split: option.splits)
  next
    case (Process p)
    then show ?thesis using assms flines
      by (auto simp: reparsable_def rule_line_def perms_text_def split: BinaryRef.splits)
  next
    case (Network nob)
    have "r_action r = NetConnect" using assms(1) by (auto simp: reparsable_def Network)
    then show ?thesis
      using assms(2) nl plain [of "no_dst_ip nob" "no_dst_port nob"]
      by (auto simp: rule_line_def Network net_conditional_peer Let_def one_line_def newline_def
          carriage_return_def suffix_def split: if_splits)
  qed
qed

lemma not_ignored: "line_content l c \<Longrightarrow> \<not> ignored l"
proof
  assume "line_content l c" and "ignored l"
  then obtain r where "parse_line ([], 1) l = Some ([r], 1 + 1)" "parse_line ([], 1) l = Some ([], 1)"
    unfolding line_content_def ignored_def by fastforce
  then show False by simp
qed

lemma header_ignored:
  assumes "ascii name"
  shows "ignored (''profile '' @ name @ '' flags=(attach_disconnected,mediate_deleted) {'')"
proof (rule ignoredI)
  have "ascii '' flags=(attach_disconnected,mediate_deleted) {''"
    by (simp add: is_ascii_def)
  then have "tight (''profile '' @ name @ '' flags=(attach_disconnected,mediate_deleted) {'')"
    using assms by (simp add: tight_def is_ascii_def is_ws_def utf8_white_space_def)
  then show "skipped_line (trim (''profile '' @ name @ '' flags=(attach_disconnected,mediate_deleted) {''))"
    by (simp add: trim_tight skipped_line_def)
qed

lemma comment_ignored:
  "ignored (''  '' @ ''# executables'')" "ignored (''  '' @ ''# files'')"
  "ignored (''  '' @ ''# network'')" "ignored ''}''"
  by (rule ignoredI; code_simp)+

text \<open>The lines of a profile are rule lines, or lines that the parser skips.\<close>

lemma profile_lines_cases:
  assumes "l \<in> set (profile_lines dbg rules name)"
  obtains "l \<in> all_rule_lines rules"
  | "l \<in> {''profile '' @ name @ '' flags=(attach_disconnected,mediate_deleted) {'',
        ''  '' @ ''# executables'', ''  '' @ ''# files'', ''  '' @ ''# network'', ''}''}"
  using assms sections_rule_lines [of dbg rules]
  by (auto simp: profile_lines_def section_text_def Let_def split: if_splits)

lemma all_rule_lines_in_profile: "all_rule_lines rules \<subseteq> set (profile_lines dbg rules name)"
  unfolding sections_rule_lines [of dbg rules, symmetric]
  by (auto simp: profile_lines_def section_text_def Let_def)
    (metis empty_iff list.set(1) set_dedup_sort)+

lemma profile_reparsed:
  assumes "list_all reparsable rules" and "ascii name" and "newline \<notin> set name"
  shows "\<exists>out. parse_apparmor (fst (lower_to_apparmor dbg rules name)) = Some out
    \<and> set (map content out) = set (map content rules)
    \<and> map r_id out = map (\<lambda>k. 1 + of_nat k) [0..<length out]"
proof -
  let ?lines = "profile_lines dbg rules name"
  have val: "\<exists>r \<in> set rules. line_content l (content r) \<and> line_value l = content r \<and> one_line l"
    if "l \<in> all_rule_lines rules" for l
  proof -
    from that obtain r s where r: "r \<in> set rules" "rule_line r = Some (s, l)"
      by (auto simp: all_rule_lines_def)
    have "reparsable r" using assms(1) r(1) by (simp add: list_all_iff)
    then have "line_content l (content r)" using rule_line_content [of r] r(2) by auto
    then show ?thesis
      using rule_line_one_line [OF \<open>reparsable r\<close> r(2)] line_content_value r(1) by blast
  qed
  have skip: "ignored l \<and> one_line l"
    if "l \<in> {''profile '' @ name @ '' flags=(attach_disconnected,mediate_deleted) {'',
        ''  '' @ ''# executables'', ''  '' @ ''# files'', ''  '' @ ''# network'', ''}''}" for l
    using that header_ignored [OF assms(2)] comment_ignored assms(3)
    by (auto simp: one_line_def newline_def carriage_return_def suffix_def)
  have all: "(ignored l \<or> line_content l (line_value l)) \<and> one_line l" if "l \<in> set ?lines" for l
    using that
  proof (cases rule: profile_lines_cases)
    case 1
    then show ?thesis using val [of l] by auto
  next
    case 2
    then show ?thesis using skip [of l] by blast
  qed
  have lines: "rust_lines (fst (lower_to_apparmor dbg rules name)) = ?lines"
    unfolding lower_to_apparmor_lines using all by (intro rust_lines_concat) blast
  obtain rs where rs: "parse_lines ([], 1) ?lines = Some ([] @ rs, 1 + of_nat (length rs))"
    "map content rs = map line_value (filter (\<lambda>l. \<not> ignored l) ?lines)"
    "map r_id rs = map (\<lambda>k. 1 + of_nat k) [0..<length rs]"
    using parse_rule_lines [of ?lines "[]" 1] all by blast
  have "l \<in> all_rule_lines rules \<longleftrightarrow> l \<in> set ?lines \<and> \<not> ignored l" for l
  proof
    assume "l \<in> all_rule_lines rules"
    then show "l \<in> set ?lines \<and> \<not> ignored l"
      using val [of l] not_ignored all_rule_lines_in_profile [of rules dbg name] by blast
  next
    assume l: "l \<in> set ?lines \<and> \<not> ignored l"
    then show "l \<in> all_rule_lines rules"
      using skip [of l] by (elim conjE profile_lines_cases) blast+
  qed
  then have "set (map content rs) = line_value ` all_rule_lines rules"
    unfolding rs(2) by auto
  also have "\<dots> = set (map content rules)"
  proof
    show "line_value ` all_rule_lines rules \<subseteq> set (map content rules)" using val by fastforce
    show "set (map content rules) \<subseteq> line_value ` all_rule_lines rules"
    proof
      fix c assume "c \<in> set (map content rules)"
      then obtain r where r: "r \<in> set rules" "c = content r" by auto
      then have "reparsable r" using assms(1) by (simp add: list_all_iff)
      then obtain s l where l: "rule_line r = Some (s, l)" "line_content l (content r)"
        using rule_line_content by blast
      then have "line_value l = c" using line_content_value r(2) by blast
      moreover have "l \<in> all_rule_lines rules" using l(1) r(1) by (auto simp: all_rule_lines_def)
      ultimately show "c \<in> line_value ` all_rule_lines rules" by blast
    qed
  qed
  finally show ?thesis using rs(1,3) by (simp add: parse_apparmor_def lines)
qed

text \<open>
  C27: the AppArmor frontend reads back what the AppArmor backend prints. For rules that the
  profile language can carry (allow or deny verdicts; read or write rules on ASCII paths whose
  glob names the pattern; exec rules with a path; connect rules for TCP or UDP), parsing the
  printed profile gives rules with exactly the same objects, actions and verdicts, numbered from 1.
\<close>

theorem profile_roundtrip:
  assumes "list_all reparsable rules" and "ascii name" and "newline \<notin> set name"
  shows "\<exists>out. parse_apparmor (fst (lower_to_apparmor dbg rules name)) = Some out
    \<and> set (map content out) = set (map content rules)
    \<and> map r_id out = map (\<lambda>k. 1 + of_nat k) [0..<length out]"
  by (rule profile_reparsed) (rule assms)+

text \<open>A profile with an exec rule, a path that needs quotes, a denied prefix and a connection.\<close>

definition sample_profile :: "BehaviorRule list" where
  "sample_profile =
     [\<lparr>r_id = 4, r_subject = empty_subject, r_object = Process \<lparr>po_binary = Path ''/bin/sh''\<rparr>,
       r_action = ProcExec, r_verdict = Allow, r_metadata = meta Proc\<rparr>,
      \<lparr>r_id = 5, r_subject = empty_subject,
       r_object = File \<lparr>fo_pattern = ExactPath ''/srv/a b'', fo_is_sensitive = False\<rparr>,
       r_action = FileWrite, r_verdict = Allow, r_metadata = meta Fs\<rparr>,
      \<lparr>r_id = 6, r_subject = empty_subject,
       r_object = File \<lparr>fo_pattern = Prefix ''/srv/keys/'', fo_is_sensitive = False\<rparr>,
       r_action = FileRead, r_verdict = Deny, r_metadata = meta Fs\<rparr>,
      \<lparr>r_id = 7, r_subject = empty_subject,
       r_object = Network \<lparr>no_dst_ip = Some 0x0100007f, no_dst_port = Some 80,
         no_protocol = Some 6, no_direction = Some 1\<rparr>,
       r_action = NetConnect, r_verdict = Allow, r_metadata = meta Net\<rparr>]"

lemma profile_roundtrip_witness:
  "list_all reparsable sample_profile
   \<and> (\<exists>out. parse_apparmor (fst (lower_to_apparmor (\<lambda>s. s) sample_profile ''demo'')) = Some out
        \<and> set (map content out) = set (map content sample_profile))"
proof -
  have ok: "list_all reparsable sample_profile" by code_simp
  have "ascii ''demo''" "newline \<notin> set ''demo''" by (simp_all add: is_ascii_def newline_def)
  from profile_roundtrip [OF ok this, of "\<lambda>s. s"] ok show ?thesis by blast
qed

end
