(* ===== verification/KernelMaps.thy ===== *)
theory KernelMaps
  imports PolicyTypes
begin

text \<open>
  The BPF maps through which \<open>ebpf-mon/src/enforcement.rs\<close> hands a policy to the hooks of
  \<open>ebpf-mon-ebpf/src/enforcement.rs\<close>.

  The maps live in the kernel and are reached through the aya library, so their operations are a
  parameter of the model: the record \<open>EnforcementMaps\<close> holds one \<open>MapOps\<close> for each map that the
  hooks declare, over an abstract kernel state. \<open>tables\<close> reads off what lookups answer. The
  documented behaviour of the operations is the predicate \<open>kernel_laws\<close> (an update that succeeds
  changes the one entry and nothing else, an update that fails changes nothing) and
  \<open>kernel_room\<close> (an update fails only when the map is full). The locales \<open>bpf_kernel\<close> and
  \<open>bpf_kernel_room\<close> name them for the loader, and \<open>hash_kernel\<close>, hash maps with the capacities of the
  source, interprets both.
\<close>

section \<open>The interface\<close>

datatype MapError = KeyNotFound | SyscallError

record ('s, 'k, 'v) MapOps =
  mo_get :: "'s \<Rightarrow> 'k \<Rightarrow> 'v option"
  mo_insert :: "'s \<Rightarrow> 'k \<Rightarrow> 'v \<Rightarrow> 's \<times> (MapError + unit)"
  mo_remove :: "'s \<Rightarrow> 'k \<Rightarrow> 's \<times> (MapError + unit)"

record 's EnforcementMaps =
  POLICY_CGROUPS :: "('s, u64, PolicyConfig) MapOps"
  SKB_ENFORCE_CGID :: "('s, u32, u64) MapOps"
  FILE_PATH_POLICY :: "('s, PathPolicyKey, u8) MapOps"
  FILE_PATTERN_POLICY :: "('s, PatternKey, u8) MapOps"
  FILE_PREFIX_POLICY :: "('s, u64, PrefixEntry) MapOps"
  EXEC_PATH_POLICY :: "('s, PathPolicyKey, u8) MapOps"
  EXEC_PATTERN_POLICY :: "('s, PatternKey, u8) MapOps"
  NET_CONNECT_POLICY :: "('s, NetPolicyKey, u8) MapOps"

text \<open>The capacities of the declarations.\<close>

definition POLICY_CGROUPS_MAX :: nat where "POLICY_CGROUPS_MAX = 64"
definition SKB_ENFORCE_CGID_MAX :: nat where "SKB_ENFORCE_CGID_MAX = 1"
definition FILE_PATH_POLICY_MAX :: nat where "FILE_PATH_POLICY_MAX = 65536"
definition FILE_PATTERN_POLICY_MAX :: nat where "FILE_PATTERN_POLICY_MAX = 4096"
definition FILE_PREFIX_POLICY_MAX :: nat where "FILE_PREFIX_POLICY_MAX = 256"
definition EXEC_PATH_POLICY_MAX :: nat where "EXEC_PATH_POLICY_MAX = 4096"
definition EXEC_PATTERN_POLICY_MAX :: nat where "EXEC_PATTERN_POLICY_MAX = 1024"
definition NET_CONNECT_POLICY_MAX :: nat where "NET_CONNECT_POLICY_MAX = 4096"

section \<open>What lookups answer\<close>

record Tables =
  t_cgroups :: "u64 \<Rightarrow> PolicyConfig option"
  t_skb :: "u32 \<Rightarrow> u64 option"
  t_paths :: "PathPolicyKey \<Rightarrow> u8 option"
  t_patterns :: "PatternKey \<Rightarrow> u8 option"
  t_prefixes :: "u64 \<Rightarrow> PrefixEntry option"
  t_exec :: "PathPolicyKey \<Rightarrow> u8 option"
  t_exec_patterns :: "PatternKey \<Rightarrow> u8 option"
  t_net :: "NetPolicyKey \<Rightarrow> u8 option"

definition tables :: "'s EnforcementMaps \<Rightarrow> 's \<Rightarrow> Tables" where
  "tables K s =
     \<lparr>t_cgroups = mo_get (POLICY_CGROUPS K) s, t_skb = mo_get (SKB_ENFORCE_CGID K) s,
      t_paths = mo_get (FILE_PATH_POLICY K) s, t_patterns = mo_get (FILE_PATTERN_POLICY K) s,
      t_prefixes = mo_get (FILE_PREFIX_POLICY K) s, t_exec = mo_get (EXEC_PATH_POLICY K) s,
      t_exec_patterns = mo_get (EXEC_PATTERN_POLICY K) s, t_net = mo_get (NET_CONNECT_POLICY K) s\<rparr>"

lemma tables_get [map_simps]:
  "mo_get (POLICY_CGROUPS K) s k1 = t_cgroups (tables K s) k1"
  "mo_get (SKB_ENFORCE_CGID K) s k2 = t_skb (tables K s) k2"
  "mo_get (FILE_PATH_POLICY K) s k3 = t_paths (tables K s) k3"
  "mo_get (FILE_PATTERN_POLICY K) s k4 = t_patterns (tables K s) k4"
  "mo_get (FILE_PREFIX_POLICY K) s k5 = t_prefixes (tables K s) k5"
  "mo_get (EXEC_PATH_POLICY K) s k6 = t_exec (tables K s) k6"
  "mo_get (EXEC_PATTERN_POLICY K) s k7 = t_exec_patterns (tables K s) k7"
  "mo_get (NET_CONNECT_POLICY K) s k8 = t_net (tables K s) k8"
  by (simp_all add: tables_def)

section \<open>The laws\<close>

text \<open>\<open>sel\<close> and \<open>upd\<close> read and change the table of the one map that \<open>ops\<close> works on.\<close>

definition map_law ::
    "('s \<Rightarrow> 't) \<Rightarrow> ((('k \<Rightarrow> 'v option) \<Rightarrow> ('k \<Rightarrow> 'v option)) \<Rightarrow> 't \<Rightarrow> 't)
      \<Rightarrow> ('s, 'k, 'v) MapOps \<Rightarrow> bool" where
  "map_law view upd ops =
     ((\<forall>s k v s' r. mo_insert ops s k v = (s', r) \<longrightarrow>
         view s' = (case r of Inr u \<Rightarrow> upd (\<lambda>m. m(k \<mapsto> v)) (view s) | Inl e \<Rightarrow> view s)) \<and>
      (\<forall>s k s' r. mo_remove ops s k = (s', r) \<longrightarrow>
         view s' = (case r of Inr u \<Rightarrow> upd (\<lambda>m. m(k := None)) (view s) | Inl e \<Rightarrow> view s)))"

definition kernel_laws :: "'s EnforcementMaps \<Rightarrow> bool" where
  "kernel_laws K =
     (map_law (tables K) t_cgroups_update (POLICY_CGROUPS K)
      \<and> map_law (tables K) t_skb_update (SKB_ENFORCE_CGID K)
      \<and> map_law (tables K) t_paths_update (FILE_PATH_POLICY K)
      \<and> map_law (tables K) t_patterns_update (FILE_PATTERN_POLICY K)
      \<and> map_law (tables K) t_prefixes_update (FILE_PREFIX_POLICY K)
      \<and> map_law (tables K) t_exec_update (EXEC_PATH_POLICY K)
      \<and> map_law (tables K) t_exec_patterns_update (EXEC_PATTERN_POLICY K)
      \<and> map_law (tables K) t_net_update (NET_CONNECT_POLICY K))"

definition room_law ::
    "('s \<Rightarrow> 'k \<Rightarrow> 'v option) \<Rightarrow> nat \<Rightarrow> ('s, 'k, 'v) MapOps \<Rightarrow> bool" where
  "room_law view cap ops =
     (\<forall>s k v. finite (dom (view s)) \<and>
        (k \<in> dom (view s) \<or> card (dom (view s)) < cap \<longrightarrow> snd (mo_insert ops s k v) = Inr ()) \<and>
        (k \<in> dom (view s) \<longrightarrow> snd (mo_remove ops s k) = Inr ()))"

definition kernel_room :: "'s EnforcementMaps \<Rightarrow> bool" where
  "kernel_room K =
     (room_law (\<lambda>s. t_cgroups (tables K s)) POLICY_CGROUPS_MAX (POLICY_CGROUPS K)
      \<and> (\<forall>s v. snd (mo_insert (SKB_ENFORCE_CGID K) s 0 v) = Inr ())
      \<and> room_law (\<lambda>s. t_paths (tables K s)) FILE_PATH_POLICY_MAX (FILE_PATH_POLICY K)
      \<and> room_law (\<lambda>s. t_patterns (tables K s)) FILE_PATTERN_POLICY_MAX (FILE_PATTERN_POLICY K)
      \<and> room_law (\<lambda>s. t_prefixes (tables K s)) FILE_PREFIX_POLICY_MAX (FILE_PREFIX_POLICY K)
      \<and> room_law (\<lambda>s. t_exec (tables K s)) EXEC_PATH_POLICY_MAX (EXEC_PATH_POLICY K)
      \<and> room_law (\<lambda>s. t_net (tables K s)) NET_CONNECT_POLICY_MAX (NET_CONNECT_POLICY K))"

locale bpf_kernel =
  fixes K :: "'s EnforcementMaps"
  assumes laws: "kernel_laws K"
begin

lemma insert_tables:
  "mo_insert (POLICY_CGROUPS K) s k1 v1 = (s', Inr u) \<Longrightarrow>
     tables K s' = (tables K s)\<lparr>t_cgroups := (t_cgroups (tables K s))(k1 \<mapsto> v1)\<rparr>"
  "mo_insert (SKB_ENFORCE_CGID K) s k2 v2 = (s', Inr u) \<Longrightarrow>
     tables K s' = (tables K s)\<lparr>t_skb := (t_skb (tables K s))(k2 \<mapsto> v2)\<rparr>"
  "mo_insert (FILE_PATH_POLICY K) s k3 v3 = (s', Inr u) \<Longrightarrow>
     tables K s' = (tables K s)\<lparr>t_paths := (t_paths (tables K s))(k3 \<mapsto> v3)\<rparr>"
  "mo_insert (FILE_PATTERN_POLICY K) s k4 v4 = (s', Inr u) \<Longrightarrow>
     tables K s' = (tables K s)\<lparr>t_patterns := (t_patterns (tables K s))(k4 \<mapsto> v4)\<rparr>"
  "mo_insert (FILE_PREFIX_POLICY K) s k5 v5 = (s', Inr u) \<Longrightarrow>
     tables K s' = (tables K s)\<lparr>t_prefixes := (t_prefixes (tables K s))(k5 \<mapsto> v5)\<rparr>"
  "mo_insert (EXEC_PATH_POLICY K) s k6 v6 = (s', Inr u) \<Longrightarrow>
     tables K s' = (tables K s)\<lparr>t_exec := (t_exec (tables K s))(k6 \<mapsto> v6)\<rparr>"
  "mo_insert (NET_CONNECT_POLICY K) s k8 v8 = (s', Inr u) \<Longrightarrow>
     tables K s' = (tables K s)\<lparr>t_net := (t_net (tables K s))(k8 \<mapsto> v8)\<rparr>"
  using laws by (fastforce simp: kernel_laws_def map_law_def)+

lemma failed_insert_tables:
  "mo_insert (POLICY_CGROUPS K) s k1 v1 = (s', Inl e) \<Longrightarrow> tables K s' = tables K s"
  "mo_insert (SKB_ENFORCE_CGID K) s k2 v2 = (s', Inl e) \<Longrightarrow> tables K s' = tables K s"
  "mo_insert (FILE_PATH_POLICY K) s k3 v3 = (s', Inl e) \<Longrightarrow> tables K s' = tables K s"
  "mo_insert (FILE_PATTERN_POLICY K) s k4 v4 = (s', Inl e) \<Longrightarrow> tables K s' = tables K s"
  "mo_insert (FILE_PREFIX_POLICY K) s k5 v5 = (s', Inl e) \<Longrightarrow> tables K s' = tables K s"
  "mo_insert (EXEC_PATH_POLICY K) s k6 v6 = (s', Inl e) \<Longrightarrow> tables K s' = tables K s"
  "mo_insert (NET_CONNECT_POLICY K) s k8 v8 = (s', Inl e) \<Longrightarrow> tables K s' = tables K s"
  using laws by (fastforce simp: kernel_laws_def map_law_def)+

end

locale bpf_kernel_room = bpf_kernel +
  assumes room: "kernel_room K"
begin

lemma insert_succeeds:
  "card (dom (t_cgroups (tables K s))) < POLICY_CGROUPS_MAX \<Longrightarrow>
     snd (mo_insert (POLICY_CGROUPS K) s k1 v1) = Inr ()"
  "snd (mo_insert (SKB_ENFORCE_CGID K) s 0 v2) = Inr ()"
  "card (dom (t_paths (tables K s))) < FILE_PATH_POLICY_MAX \<Longrightarrow>
     snd (mo_insert (FILE_PATH_POLICY K) s k3 v3) = Inr ()"
  "card (dom (t_patterns (tables K s))) < FILE_PATTERN_POLICY_MAX \<Longrightarrow>
     snd (mo_insert (FILE_PATTERN_POLICY K) s k4 v4) = Inr ()"
  "card (dom (t_prefixes (tables K s))) < FILE_PREFIX_POLICY_MAX \<Longrightarrow>
     snd (mo_insert (FILE_PREFIX_POLICY K) s k5 v5) = Inr ()"
  "card (dom (t_exec (tables K s))) < EXEC_PATH_POLICY_MAX \<Longrightarrow>
     snd (mo_insert (EXEC_PATH_POLICY K) s k6 v6) = Inr ()"
  "card (dom (t_net (tables K s))) < NET_CONNECT_POLICY_MAX \<Longrightarrow>
     snd (mo_insert (NET_CONNECT_POLICY K) s k8 v8) = Inr ()"
  using room by (auto simp: kernel_room_def room_law_def)

lemma remove_cgroup_tables:
  assumes "mo_remove (POLICY_CGROUPS K) s k = (s', r)"
  shows "tables K s' = (tables K s)\<lparr>t_cgroups := (t_cgroups (tables K s))(k := None)\<rparr>"
proof (cases "k \<in> dom (t_cgroups (tables K s))")
  case True
  then have "snd (mo_remove (POLICY_CGROUPS K) s k) = Inr ()"
    using room by (simp add: kernel_room_def room_law_def)
  then show ?thesis using laws assms by (fastforce simp: kernel_laws_def map_law_def)
next
  case False
  then have "(t_cgroups (tables K s))(k := None) = t_cgroups (tables K s)" by (auto simp: fun_eq_iff)
  then show ?thesis
    using laws assms by (cases r) (fastforce simp: kernel_laws_def map_law_def)+
qed

end

section \<open>Hash maps with a capacity\<close>

record HashMaps =
  h_cgroups :: "(u64 \<times> PolicyConfig) list"
  h_skb :: "(u32 \<times> u64) list"
  h_paths :: "(PathPolicyKey \<times> u8) list"
  h_patterns :: "(PatternKey \<times> u8) list"
  h_prefixes :: "(u64 \<times> PrefixEntry) list"
  h_exec :: "(PathPolicyKey \<times> u8) list"
  h_exec_patterns :: "(PatternKey \<times> u8) list"
  h_net :: "(NetPolicyKey \<times> u8) list"

definition bounded_insert ::
    "nat \<Rightarrow> ('k \<times> 'v) list \<Rightarrow> 'k \<Rightarrow> 'v \<Rightarrow> ('k \<times> 'v) list \<times> (MapError + unit)" where
  "bounded_insert cap m k v =
     (if k \<in> set (map fst m) \<or> length (remdups (map fst m)) < cap then (AList.update k v m, Inr ())
      else (m, Inl SyscallError))"

definition bounded_remove :: "('k \<times> 'v) list \<Rightarrow> 'k \<Rightarrow> ('k \<times> 'v) list \<times> (MapError + unit)" where
  "bounded_remove m k =
     (if k \<in> set (map fst m) then (AList.delete k m, Inr ()) else (m, Inl KeyNotFound))"

definition hash_ops ::
    "('s \<Rightarrow> ('k \<times> 'v) list) \<Rightarrow> ((('k \<times> 'v) list \<Rightarrow> ('k \<times> 'v) list) \<Rightarrow> 's \<Rightarrow> 's) \<Rightarrow> nat
      \<Rightarrow> ('s, 'k, 'v) MapOps" where
  "hash_ops sel upd cap =
     \<lparr>mo_get = (\<lambda>s k. map_of (sel s) k),
      mo_insert = (\<lambda>s k v. case bounded_insert cap (sel s) k v of (m, r) \<Rightarrow> (upd (\<lambda>_. m) s, r)),
      mo_remove = (\<lambda>s k. case bounded_remove (sel s) k of (m, r) \<Rightarrow> (upd (\<lambda>_. m) s, r))\<rparr>"

text \<open>An array of one element: it has an entry from the start, and no other index.\<close>

definition array_get :: "(u32 \<times> u64) list \<Rightarrow> u32 \<Rightarrow> u64 option" where
  "array_get m k =
     (if k = 0 then Some (case map_of m k of Some v \<Rightarrow> v | None \<Rightarrow> 0) else None)"

definition array_ops :: "(HashMaps, u32, u64) MapOps" where
  "array_ops =
     \<lparr>mo_get = (\<lambda>s k. array_get (h_skb s) k),
      mo_insert = (\<lambda>s k v. if k = 0 then (s\<lparr>h_skb := AList.update k v (h_skb s)\<rparr>, Inr ())
                           else (s, Inl SyscallError)),
      mo_remove = (\<lambda>s k. (s, Inl SyscallError))\<rparr>"

definition hash_kernel :: "HashMaps EnforcementMaps" where
  "hash_kernel =
     \<lparr>POLICY_CGROUPS = hash_ops h_cgroups h_cgroups_update POLICY_CGROUPS_MAX,
      SKB_ENFORCE_CGID = array_ops,
      FILE_PATH_POLICY = hash_ops h_paths h_paths_update FILE_PATH_POLICY_MAX,
      FILE_PATTERN_POLICY = hash_ops h_patterns h_patterns_update FILE_PATTERN_POLICY_MAX,
      FILE_PREFIX_POLICY = hash_ops h_prefixes h_prefixes_update FILE_PREFIX_POLICY_MAX,
      EXEC_PATH_POLICY = hash_ops h_exec h_exec_update EXEC_PATH_POLICY_MAX,
      EXEC_PATTERN_POLICY = hash_ops h_exec_patterns h_exec_patterns_update EXEC_PATTERN_POLICY_MAX,
      NET_CONNECT_POLICY = hash_ops h_net h_net_update NET_CONNECT_POLICY_MAX\<rparr>"

definition empty_maps :: HashMaps where
  "empty_maps = \<lparr>h_cgroups = [], h_skb = [], h_paths = [], h_patterns = [], h_prefixes = [],
     h_exec = [], h_exec_patterns = [], h_net = []\<rparr>"

lemma bounded_insert_map_of:
  "bounded_insert cap m k v = (m', r) \<Longrightarrow>
     map_of m' = (case r of Inr u \<Rightarrow> (map_of m)(k \<mapsto> v) | Inl e \<Rightarrow> map_of m)"
  by (auto simp: bounded_insert_def update_conv' split: if_splits)

lemma bounded_remove_map_of:
  "bounded_remove m k = (m', r) \<Longrightarrow>
     map_of m' = (case r of Inr u \<Rightarrow> (map_of m)(k := None) | Inl e \<Rightarrow> map_of m)"
  by (auto simp: bounded_remove_def delete_conv' split: if_splits)

lemma hash_map_law:
  assumes "\<And>m s. view (upd (\<lambda>_. m) s) = tupd (\<lambda>_. map_of m) (view s)"
    and "\<And>f s. tupd (\<lambda>_. f (map_of (sel s))) (view s) = tupd f (view s)"
    and "\<And>s. tupd (\<lambda>_. map_of (sel s)) (view s) = view s"
  shows "map_law view tupd (hash_ops sel upd cap)"
  unfolding map_law_def
proof (intro conjI allI impI)
  fix s k v s' r assume "mo_insert (hash_ops sel upd cap) s k v = (s', r)"
  then obtain m' where m': "bounded_insert cap (sel s) k v = (m', r)" "s' = upd (\<lambda>_. m') s"
    by (auto simp: hash_ops_def split: prod.splits)
  then show "view s' = (case r of Inr u \<Rightarrow> tupd (\<lambda>m. m(k \<mapsto> v)) (view s) | Inl e \<Rightarrow> view s)"
    using bounded_insert_map_of [OF m'(1)] assms by (auto split: sum.splits)
next
  fix s k s' r assume "mo_remove (hash_ops sel upd cap) s k = (s', r)"
  then obtain m' where m': "bounded_remove (sel s) k = (m', r)" "s' = upd (\<lambda>_. m') s"
    by (auto simp: hash_ops_def split: prod.splits)
  then show "view s' = (case r of Inr u \<Rightarrow> tupd (\<lambda>m. m(k := None)) (view s) | Inl e \<Rightarrow> view s)"
    using bounded_remove_map_of [OF m'(1)] assms(1) assms(2) [of "\<lambda>m. m(k := None)"] assms(3)
    by (auto split: sum.splits)
qed

lemma hash_tables [map_simps]:
  "tables hash_kernel s =
     \<lparr>t_cgroups = map_of (h_cgroups s),
      t_skb = array_get (h_skb s),
      t_paths = map_of (h_paths s), t_patterns = map_of (h_patterns s),
      t_prefixes = map_of (h_prefixes s), t_exec = map_of (h_exec s),
      t_exec_patterns = map_of (h_exec_patterns s), t_net = map_of (h_net s)\<rparr>"
  by (simp add: tables_def hash_kernel_def hash_ops_def array_ops_def)

lemma hash_kernel_fields:
  "POLICY_CGROUPS hash_kernel = hash_ops h_cgroups h_cgroups_update POLICY_CGROUPS_MAX"
  "SKB_ENFORCE_CGID hash_kernel = array_ops"
  "FILE_PATH_POLICY hash_kernel = hash_ops h_paths h_paths_update FILE_PATH_POLICY_MAX"
  "FILE_PATTERN_POLICY hash_kernel = hash_ops h_patterns h_patterns_update FILE_PATTERN_POLICY_MAX"
  "FILE_PREFIX_POLICY hash_kernel = hash_ops h_prefixes h_prefixes_update FILE_PREFIX_POLICY_MAX"
  "EXEC_PATH_POLICY hash_kernel = hash_ops h_exec h_exec_update EXEC_PATH_POLICY_MAX"
  "EXEC_PATTERN_POLICY hash_kernel = hash_ops h_exec_patterns h_exec_patterns_update EXEC_PATTERN_POLICY_MAX"
  "NET_CONNECT_POLICY hash_kernel = hash_ops h_net h_net_update NET_CONNECT_POLICY_MAX"
  by (simp_all add: hash_kernel_def)

lemma array_law: "map_law (tables hash_kernel) t_skb_update array_ops"
  by (auto simp: map_law_def array_ops_def array_get_def hash_tables update_conv' fun_eq_iff
      split: if_splits sum.splits)

lemma hash_kernel_laws: "kernel_laws hash_kernel"
  unfolding kernel_laws_def hash_kernel_fields
  by (intro conjI array_law hash_map_law) (simp_all add: hash_tables)

lemma hash_room:
  assumes "\<And>s. view s = map_of (sel s)"
  shows "room_law view cap (hash_ops sel upd cap)"
  unfolding room_law_def assms
  by (auto simp: hash_ops_def bounded_insert_def bounded_remove_def length_remdups_card_conv
      finite_dom_map_of dom_map_of_conv_image_fst split: prod.splits)

lemma hash_kernel_room: "kernel_room hash_kernel"
  unfolding kernel_room_def hash_kernel_fields
  by (intro conjI hash_room) (simp_all add: hash_tables array_ops_def)

interpretation hash: bpf_kernel_room hash_kernel
  by unfold_locales (rule hash_kernel_laws hash_kernel_room)+

section \<open>LRU maps\<close>

text \<open>
  The monitoring programs keep what they have seen in LRU maps. \<open>lru_insert_new\<close> is an update with
  \<open>BPF_NOEXIST\<close>, \<open>lru_insert\<close> one without conditions. An insertion may evict other entries.
\<close>

record ('s, 'k, 'v) LruOps =
  lru_get :: "'s \<Rightarrow> 'k \<Rightarrow> 'v option"
  lru_insert :: "'s \<Rightarrow> 'k \<Rightarrow> 'v \<Rightarrow> 's"
  lru_insert_new :: "'s \<Rightarrow> 'k \<Rightarrow> 'v \<Rightarrow> 's \<times> bool"
  lru_remove :: "'s \<Rightarrow> 'k \<Rightarrow> 's"

text \<open>\<open>others\<close> is what must not change: the lookups of the other maps.\<close>

definition lru_law :: "('s \<Rightarrow> 'o) \<Rightarrow> ('s, 'k, 'v) LruOps \<Rightarrow> bool" where
  "lru_law others ops =
     (\<forall>s k v.
        (case lru_insert_new ops s k v of (s', ok) \<Rightarrow>
           ok = (lru_get ops s k = None) \<and> others s' = others s
           \<and> (if ok then lru_get ops s' k = Some v
                   \<and> (\<forall>k'. k' \<noteq> k \<longrightarrow> lru_get ops s' k' = lru_get ops s k' \<or> lru_get ops s' k' = None)
              else lru_get ops s' = lru_get ops s))
        \<and> others (lru_insert ops s k v) = others s \<and> lru_get ops (lru_insert ops s k v) k = Some v
        \<and> others (lru_remove ops s k) = others s
        \<and> lru_get ops (lru_remove ops s k) = (lru_get ops s)(k := None))"

lemma lru_insert_new_ok:
  assumes "lru_law others ops"
  shows "snd (lru_insert_new ops s k v) \<longleftrightarrow> lru_get ops s k = None"
    "others (fst (lru_insert_new ops s k v)) = others s"
    "lru_get ops s k \<noteq> None \<Longrightarrow> lru_get ops (fst (lru_insert_new ops s k v)) = lru_get ops s"
    "lru_get ops s k = None \<Longrightarrow> lru_get ops (fst (lru_insert_new ops s k v)) k = Some v"
  using assms [unfolded lru_law_def, rule_format, of s k v] by (auto split: prod.splits if_splits)

text \<open>Tables with a capacity that forget their oldest entries.\<close>

definition lru_put_entry :: "nat \<Rightarrow> ('k \<times> 'v) list \<Rightarrow> 'k \<Rightarrow> 'v \<Rightarrow> ('k \<times> 'v) list" where
  "lru_put_entry cap m k v = take cap ((k, v) # AList.delete k m)"

definition lru_ops ::
    "('s \<Rightarrow> ('k \<times> 'v) list) \<Rightarrow> ((('k \<times> 'v) list \<Rightarrow> ('k \<times> 'v) list) \<Rightarrow> 's \<Rightarrow> 's) \<Rightarrow> nat
      \<Rightarrow> ('s, 'k, 'v) LruOps" where
  "lru_ops sel upd cap =
     \<lparr>lru_get = (\<lambda>s k. map_of (sel s) k),
      lru_insert = (\<lambda>s k v. upd (\<lambda>m. lru_put_entry cap m k v) s),
      lru_insert_new = (\<lambda>s k v. if map_of (sel s) k = None then (upd (\<lambda>m. lru_put_entry cap m k v) s, True)
                               else (s, False)),
      lru_remove = (\<lambda>s k. upd (AList.delete k) s)\<rparr>"

lemma map_of_take: "map_of (take n m) k = map_of m k \<or> map_of (take n m) k = None"
  by (induction m arbitrary: n) (auto simp: take_Cons' split: if_splits)

lemma lru_put_entry_get:
  "0 < cap \<Longrightarrow> map_of (lru_put_entry cap m k v) k = Some v"
  "k' \<noteq> k \<Longrightarrow> map_of (lru_put_entry cap m k v) k' = map_of m k' \<or> map_of (lru_put_entry cap m k v) k' = None"
  using map_of_take [of "cap - 1" "AList.delete k m" k'] 
  by (cases cap; auto simp: lru_put_entry_def map_of_delete)+

lemma lru_put_entry_other:
  "map_of (lru_put_entry cap m k v) k' = Some y \<Longrightarrow> k' \<noteq> k \<Longrightarrow> map_of m k' = Some y"
  using lru_put_entry_get(2) [of k' k cap m v] by auto

lemma lru_ops_law:
  assumes "0 < cap" and "\<And>f s. sel (upd f s) = f (sel s)" and "\<And>f s. others (upd f s) = others s"
  shows "lru_law others (lru_ops sel upd cap)"
  unfolding lru_law_def lru_ops_def
  using assms by (auto simp: delete_conv' lru_put_entry_get(1)) (metis lru_put_entry_other)

end
