(* ===== verification/KPath.thy ===== *)
theory KPath
  imports PolicyTypes
begin

text \<open>
  The kernel-side path buffer of \<open>ebpf-mon-common/src/path.rs\<close> and \<open>path/bpf.rs\<close>: a buffer of
  1024 bytes that holds a path at its front (\<open>Append\<close>, as read from user memory) or at its end
  (\<open>Prepend\<close>, as built by walking from a dentry up to the root), with the operations that the
  hooks use: prepending components, hashing, cutting out the bytes for the classifier.

  \<open>path_bytes\<close> is the abstraction: the bytes the buffer stands for. The operations are shown to act
  on it as one expects, as long as the path is short enough for the caps of the verifier.

  The code is the one compiled for the BPF target, where \<open>bound_value_for_verifier\<close> and \<open>cap_size\<close>
  clamp, and where arithmetic wraps.
\<close>

definition MAX_PATH_DEPTH :: nat where "MAX_PATH_DEPTH = 128"
definition MAX_PATH_LEN :: nat where "MAX_PATH_LEN = 1024"
definition MAX_NAME :: nat where "MAX_NAME = 255"

section \<open>Clamping for the verifier\<close>

definition bound_value_for_verifier :: "int \<Rightarrow> int \<Rightarrow> int \<Rightarrow> int" where
  "bound_value_for_verifier v lo hi = (if v < lo then lo else if v > hi then hi else v)"

definition cap_size :: "nat \<Rightarrow> nat \<Rightarrow> nat" where
  "cap_size sz cap = (if sz \<ge> cap then cap else sz mod cap)"

lemma cap_size_min [simp]: "cap_size sz cap = min sz cap"
  by (auto simp: cap_size_def)

lemma bound_value_id [simp]: "lo \<le> v \<Longrightarrow> v \<le> hi \<Longrightarrow> bound_value_for_verifier v lo hi = v"
  by (simp add: bound_value_for_verifier_def)

section \<open>The buffer\<close>

datatype Mode = Append | Prepend

record Time =
  tv_sec :: "64 word"
  tv_nsec :: "64 word"

record Metadata =
  m_ino :: u64
  m_sb_ino :: u64
  m_size :: "64 word"
  m_atime :: Time
  m_mtime :: Time
  m_ctime :: Time

record Path =
  p_buffer :: string
  p_len :: u32
  p_depth :: u16
  p_real :: bool
  p_metadata :: "Metadata option"
  p_mode :: Mode
  p_error :: "u32 option"

definition default_path :: Path where
  "default_path = \<lparr>p_buffer = replicate MAX_PATH_LEN nul, p_len = 0, p_depth = 0, p_real = False,
     p_metadata = None, p_mode = Append, p_error = None\<rparr>"

definition path_len :: "Path \<Rightarrow> nat" where
  "path_len p = unat (p_len p)"

definition reset :: "Path \<Rightarrow> Path" where
  "reset p = p\<lparr>p_len := 0, p_depth := 0, p_real := False, p_metadata := None, p_error := None\<rparr>"

definition is_empty :: "Path \<Rightarrow> bool" where
  "is_empty p = (p_len p = 0)"

text \<open>
  \<open>copy_from_u8_array\<close> and \<open>copy_from_str\<close> share their second half. \<open>Inr n\<close> is \<open>Ok(n)\<close>, \<open>Inl n\<close> is
  \<open>Err(n)\<close>.
\<close>

definition copy_bytes :: "Path \<Rightarrow> string \<Rightarrow> Mode \<Rightarrow> Path \<times> (nat + nat)" where
  "copy_bytes p src mode =
     (let n = min (length src) (length (p_buffer p));
          start = (if mode = Prepend then length (p_buffer p) - n else 0);
          p' = p\<lparr>p_mode := mode, p_buffer := write_at start (take n src) (p_buffer p),
                  p_len := of_nat n, p_error := None\<rparr>
      in if length src > length (p_buffer p) then (p'\<lparr>p_error := Some 1\<rparr>, Inl n) else (p', Inr n))"

definition copy_from_u8_array :: "Path \<Rightarrow> string \<Rightarrow> Mode \<Rightarrow> Path \<times> (nat + nat)" where
  "copy_from_u8_array p src mode = copy_bytes p (takeWhile (\<lambda>c. c \<noteq> nul) src) mode"

definition copy_from_str :: "Path \<Rightarrow> string \<Rightarrow> Mode \<Rightarrow> Path \<times> (nat + nat)" where
  "copy_from_str p s mode = copy_bytes p s mode"

definition as_slice :: "Path \<Rightarrow> string" where
  "as_slice p =
     (case p_mode p of
        Append \<Rightarrow>
          take (nat (bound_value_for_verifier (int (path_len p)) 0 (int MAX_PATH_LEN))) (p_buffer p)
      | Prepend \<Rightarrow>
          (let len = cap_size (path_len p) (MAX_PATH_LEN - 255)
           in drop (MAX_PATH_LEN - len) (p_buffer p)))"

definition raw_buffer_and_offset :: "Path \<Rightarrow> string \<times> nat" where
  "raw_buffer_and_offset p =
     (case p_mode p of
        Append \<Rightarrow> (p_buffer p, 0)
      | Prepend \<Rightarrow>
          (let len = cap_size (path_len p) (MAX_PATH_LEN - 255) in (p_buffer p, MAX_PATH_LEN - len)))"

definition is_absolute :: "Path \<Rightarrow> bool" where
  "is_absolute p = (let s = as_slice p in if s \<noteq> [] then hd s = CHR ''/'' else False)"

definition get_byte :: "Path \<Rightarrow> nat \<Rightarrow> u32 + char" where
  "get_byte p i =
     (let fetch = (\<lambda>j. if j < MAX_PATH_LEN then Inr (p_buffer p ! j) else Inl 1) in
      case p_mode p of
        Append \<Rightarrow> fetch i
      | Prepend \<Rightarrow>
          if path_len p > MAX_PATH_LEN then Inl 1 else fetch (MAX_PATH_LEN - path_len p + i))"

definition starts_with :: "Path \<Rightarrow> string \<Rightarrow> bool" where
  "starts_with p start =
     (if length start > path_len p then False
      else list_all (\<lambda>i. get_byte p i = Inr (start ! i)) [0..<length start])"

text \<open>The bytes that the loop of \<open>hash_path\<close> visits, and the hash.\<close>

definition hash_path :: "Path \<Rightarrow> u64" where
  "hash_path p =
     (let (buf, start) = raw_buffer_and_offset p
      in fnv1a_loop 0xcbf29ce484222325
           (map (\<lambda>i. buf ! ((start + i) mod MAX_PATH_LEN)) [0..<min MAX_PATH_LEN (path_len p)]))"

definition to_classify_buffer :: "Path \<Rightarrow> string" where
  "to_classify_buffer p =
     (case p_mode p of
        Append \<Rightarrow> take MAX_PATH_DEPTH (p_buffer p)
      | Prepend \<Rightarrow>
          (let len = path_len p in
           if len = 0 \<or> len > MAX_PATH_LEN then replicate MAX_PATH_DEPTH nul
           else if len \<ge> MAX_PATH_DEPTH then
             (let start = MAX_PATH_LEN - cap_size len MAX_PATH_LEN;
                  bounded_start = nat (bound_value_for_verifier (int start) 0
                    (int (MAX_PATH_LEN - MAX_PATH_DEPTH)))
              in take MAX_PATH_DEPTH (drop bounded_start (p_buffer p)))
           else
             (let start = bound_value_for_verifier
                    (int (MAX_PATH_LEN - cap_size len MAX_PATH_DEPTH))
                    (int (MAX_PATH_LEN - MAX_PATH_DEPTH)) (int (MAX_PATH_LEN - 1))
              in map (\<lambda>i. p_buffer p ! nat (bound_value_for_verifier (start + int i) 0
                         (int (MAX_PATH_LEN - 1)))) [0..<32]
                 @ replicate (MAX_PATH_DEPTH - 32) nul)))"

section \<open>Prepending\<close>

definition prepend_path_sep :: "Path \<Rightarrow> Path" where
  "prepend_path_sep p =
     (let i = nat (bound_value_for_verifier (int MAX_PATH_LEN - int (path_len p) - 1) 0
                (int (MAX_PATH_LEN - 1)))
      in p\<lparr>p_buffer := (p_buffer p)[i := CHR ''/''], p_len := p_len p + 1\<rparr>)"

text \<open>
  \<open>name\<close> is what reading \<open>qstr_len\<close> bytes of the component's name yields, if the read succeeds. A
  failed read leaves the bytes outside the text unspecified, and here as they are.
\<close>

definition prepend_qstr_name :: "Path \<Rightarrow> string option \<Rightarrow> u32 \<Rightarrow> Path \<times> (u32 + unit)" where
  "prepend_qstr_name p name qstr_len =
     (let left = of_nat MAX_PATH_LEN - p_len p;
          size = ucast (ucast qstr_len :: u8) :: u32
      in if qstr_len > of_nat MAX_NAME then (p, Inl 1)
         else if left < qstr_len then (p, Inl 1)
         else
           let i = left - size
           in if i > of_nat MAX_PATH_LEN then (p, Inl 1)
              else case name of
                None \<Rightarrow> (p, Inl 1)
              | Some bs \<Rightarrow>
                  (p\<lparr>p_buffer := write_at (unat i) bs (p_buffer p), p_len := p_len p + size,
                      p_depth := p_depth p + 1\<rparr>, Inr ()))"

definition bpf_probe_read_str :: "Path \<Rightarrow> string option \<Rightarrow> Path \<times> (u32 + unit)" where
  "bpf_probe_read_str p user =
     (let p = p\<lparr>p_mode := Append\<rparr> in
      case user of
        None \<Rightarrow> (p, Inl 1)
      | Some s \<Rightarrow>
          (let bs = take (MAX_PATH_LEN - 1) (takeWhile (\<lambda>c. c \<noteq> nul) s)
           in (p\<lparr>p_buffer := write_at 0 (bs @ [nul]) (p_buffer p), p_len := of_nat (length bs)\<rparr>, Inr ())))"

text \<open>\<open>PartialEq\<close>: two paths without metadata are equal, whatever their bytes.\<close>

definition metadata_eq :: "Metadata \<Rightarrow> Metadata \<Rightarrow> bool" where
  "metadata_eq sm om =
     (m_ino sm = m_ino om \<and> m_sb_ino sm = m_sb_ino om \<and> m_size sm = m_size om
      \<and> m_mtime sm = m_mtime om \<and> m_ctime sm = m_ctime om)"

definition path_eq :: "Path \<Rightarrow> Path \<Rightarrow> bool" where
  "path_eq p other =
     (case (p_metadata p, p_metadata other) of
        (None, None) \<Rightarrow> True
      | (Some sm, Some om) \<Rightarrow> metadata_eq sm om
      | _ \<Rightarrow> False)"

lemma path_eq_no_metadata:
  "p_metadata p = None \<Longrightarrow> p_metadata q = None \<Longrightarrow> path_eq p q"
  by (simp add: path_eq_def)

section \<open>The bytes a buffer stands for\<close>

definition path_ok :: "Path \<Rightarrow> bool" where
  "path_ok p = (length (p_buffer p) = MAX_PATH_LEN \<and> path_len p \<le> MAX_PATH_LEN)"

definition path_bytes :: "Path \<Rightarrow> string" where
  "path_bytes p =
     (case p_mode p of
        Append \<Rightarrow> take (path_len p) (p_buffer p)
      | Prepend \<Rightarrow> drop (MAX_PATH_LEN - path_len p) (p_buffer p))"

lemma path_bytes_length [simp]: "path_ok p \<Longrightarrow> length (path_bytes p) = path_len p"
  by (simp add: path_ok_def path_bytes_def split: Mode.splits)

lemma default_path_ok: "path_ok default_path" and default_path_bytes: "path_bytes default_path = []"
  by (simp_all add: path_ok_def default_path_def path_len_def path_bytes_def)

lemma reset_ok: "path_ok p \<Longrightarrow> path_ok (reset p)" and reset_bytes: "path_ok p \<Longrightarrow> path_bytes (reset p) = []"
  by (simp_all add: path_ok_def reset_def path_len_def path_bytes_def split: Mode.splits)

lemma as_slice_bytes:
  assumes "path_ok p" and "p_mode p = Append \<or> path_len p \<le> MAX_PATH_LEN - 255"
  shows "as_slice p = path_bytes p"
  using assms by (auto simp: as_slice_def path_bytes_def path_ok_def Let_def split: Mode.splits)

text \<open>Copying a text into the buffer.\<close>

lemma copy_bytes_ok:
  assumes "length (p_buffer p) = MAX_PATH_LEN" and "length src \<le> MAX_PATH_LEN"
  shows "path_ok (fst (copy_bytes p src mode)) \<and> path_bytes (fst (copy_bytes p src mode)) = src
    \<and> snd (copy_bytes p src mode) = Inr (length src) \<and> p_mode (fst (copy_bytes p src mode)) = mode"
proof -
  have "unat (of_nat (length src) :: u32) = length src"
    using assms(2) by (simp add: MAX_PATH_LEN_def unat_of_nat take_bit_nat_eq_self)
  then show ?thesis
    using assms by (cases mode)
      (simp_all add: copy_bytes_def path_ok_def path_len_def path_bytes_def write_at_def Let_def)
qed

text \<open>One component, and a separator, in front of what is there.\<close>

lemma prepend_sep_bytes:
  assumes "path_ok p" and "p_mode p = Prepend" and "path_len p < MAX_PATH_LEN"
  shows "path_ok (prepend_path_sep p) \<and> path_bytes (prepend_path_sep p) = CHR ''/'' # path_bytes p
    \<and> p_mode (prepend_path_sep p) = Prepend \<and> path_len (prepend_path_sep p) = Suc (path_len p)"
proof -
  let ?i = "MAX_PATH_LEN - path_len p - 1"
  have i: "nat (bound_value_for_verifier (int MAX_PATH_LEN - int (path_len p) - 1) 0
      (int (MAX_PATH_LEN - 1))) = ?i"
    using assms(3) by (subst bound_value_id) auto
  have len: "unat (p_len p + 1) = Suc (path_len p)"
    using assms(3) by (simp add: path_len_def MAX_PATH_LEN_def unat_word_ariths)
  have "drop ?i ((p_buffer p)[?i := CHR ''/'']) = CHR ''/'' # drop (Suc ?i) (p_buffer p)"
    using assms by (simp add: path_ok_def drop_update_swap Cons_nth_drop_Suc [symmetric] del: Cons_nth_drop_Suc)
  moreover have "Suc ?i = MAX_PATH_LEN - path_len p" using assms(3) by simp
  ultimately show ?thesis
    using assms len unfolding prepend_path_sep_def i Let_def
    by (simp add: path_ok_def path_bytes_def path_len_def)
qed

lemma prepend_name_bytes:
  assumes "path_ok p" and "p_mode p = Prepend" and "length bs \<le> MAX_NAME"
    and "path_len p + length bs \<le> MAX_PATH_LEN"
  shows "\<exists>q. prepend_qstr_name p (Some bs) (of_nat (length bs)) = (q, Inr ())
    \<and> path_ok q \<and> path_bytes q = bs @ path_bytes p \<and> p_mode q = Prepend
    \<and> path_len q = path_len p + length bs"
proof -
  let ?n = "of_nat (length bs) :: u32"
  have n: "unat ?n = length bs"
    using assms(3) by (simp add: MAX_NAME_def unat_of_nat take_bit_nat_eq_self)
  have n8: "ucast (ucast ?n :: u8) = ?n"
    using assms(3) n by (intro word_unat_eq_iff [THEN iffD2])
      (simp add: MAX_NAME_def unsigned_ucast_eq unsigned_take_bit_eq take_bit_nat_eq_self)
  have left: "unat (of_nat MAX_PATH_LEN - p_len p) = MAX_PATH_LEN - path_len p"
    using assms(1) by (subst unat_sub) (simp_all add: path_ok_def path_len_def MAX_PATH_LEN_def
        word_le_nat_alt)
  have i: "unat (of_nat MAX_PATH_LEN - p_len p - ?n) = MAX_PATH_LEN - path_len p - length bs"
    using assms(4) left n by (subst unat_sub) (simp_all add: word_le_nat_alt)
  have g1: "\<not> ?n > of_nat MAX_NAME"
    using assms(3) n by (simp add: MAX_NAME_def word_less_nat_alt)
  have g2: "\<not> of_nat MAX_PATH_LEN - p_len p < ?n"
    using assms(4) left n by (simp add: word_less_nat_alt)
  have g3: "\<not> of_nat MAX_PATH_LEN - p_len p - ?n > of_nat MAX_PATH_LEN"
    using i by (simp add: word_less_nat_alt MAX_PATH_LEN_def)
  have len: "unat (p_len p + ?n) = path_len p + length bs"
    using assms(4) n by (simp add: path_len_def MAX_PATH_LEN_def unat_word_ariths)
  let ?q = "p\<lparr>p_buffer := write_at (MAX_PATH_LEN - path_len p - length bs) bs (p_buffer p),
      p_len := p_len p + ?n, p_depth := p_depth p + 1\<rparr>"
  have "prepend_qstr_name p (Some bs) ?n = (?q, Inr ())"
    unfolding prepend_qstr_name_def Let_def n8 if_not_P [OF g1] if_not_P [OF g2] if_not_P [OF g3]
    by (simp add: i)
  moreover have "path_ok ?q \<and> path_bytes ?q = bs @ path_bytes p \<and> p_mode ?q = Prepend
      \<and> path_len ?q = path_len p + length bs"
    using assms len by (simp add: path_ok_def path_bytes_def path_len_def write_at_def)
  ultimately show ?thesis by blast
qed

section \<open>Hashing\<close>

lemma hash_bytes_visited:
  assumes "path_ok p" and "p_mode p = Append \<or> path_len p \<le> MAX_PATH_LEN - 255"
  shows "(case raw_buffer_and_offset p of (buf, start) \<Rightarrow>
      map (\<lambda>i. buf ! ((start + i) mod MAX_PATH_LEN)) [0..<min MAX_PATH_LEN (path_len p)]) = path_bytes p"
proof (rule nth_equalityI)
  show len: "length (case raw_buffer_and_offset p of (buf, start) \<Rightarrow>
      map (\<lambda>i. buf ! ((start + i) mod MAX_PATH_LEN)) [0..<min MAX_PATH_LEN (path_len p)])
    = length (path_bytes p)"
    using assms by (simp add: raw_buffer_and_offset_def path_ok_def split: Mode.splits prod.splits)
  fix i assume "i < length (case raw_buffer_and_offset p of (buf, start) \<Rightarrow>
      map (\<lambda>i. buf ! ((start + i) mod MAX_PATH_LEN)) [0..<min MAX_PATH_LEN (path_len p)])"
  then have "i < path_len p" unfolding len using assms(1) by simp
  then show "(case raw_buffer_and_offset p of (buf, start) \<Rightarrow>
      map (\<lambda>i. buf ! ((start + i) mod MAX_PATH_LEN)) [0..<min MAX_PATH_LEN (path_len p)]) ! i
    = path_bytes p ! i"
    using assms
    by (auto simp: raw_buffer_and_offset_def path_ok_def path_bytes_def min_absorb1 min_absorb2
        split: Mode.splits)
qed

lemma hash_path_bytes:
  assumes "path_ok p" and "p_mode p = Append \<or> path_len p \<le> MAX_PATH_LEN - 255"
  shows "hash_path p = fnv1a_hash_bytes (path_bytes p)"
  using hash_bytes_visited [OF assms]
  by (simp add: hash_path_def fnv1a_hash_bytes_def FNV_OFFSET_BASIS_def split: prod.splits)



text \<open>
  Beyond 769 bytes the hash no longer sees the front of the path: only the last 769 bytes and
  then the start of the buffer, which the text does not reach.
\<close>

lemma hash_long_path:
  assumes "path_ok p" and "p_mode p = Prepend" and "path_len p > MAX_PATH_LEN - 255"
    and "p_buffer p ! 0 = nul"
  shows "hash_path p = fnv1a_hash_bytes (drop 255 (p_buffer p))"
proof -
  let ?f = "\<lambda>i. p_buffer p ! ((255 + i) mod MAX_PATH_LEN)"
  have "[0..<path_len p] = [0..<769] @ [769..<path_len p]"
    using assms(3) upt_add_eq_append [of 0 769 "path_len p - 769"] by (simp add: MAX_PATH_LEN_def)
  moreover have "map ?f [0..<769] = drop 255 (p_buffer p)"
    using assms(1) by (intro nth_equalityI) (auto simp: path_ok_def MAX_PATH_LEN_def)
  moreover have "map ?f [769..<path_len p] = nul # map ?f [Suc 769..<path_len p]"
    using assms(3,4) by (simp add: upt_conv_Cons MAX_PATH_LEN_def del: upt_Suc)
  ultimately have visited: "map ?f [0..<path_len p] =
      drop 255 (p_buffer p) @ nul # map ?f [Suc 769..<path_len p]"
    by simp
  have "takeWhile (\<lambda>c. c \<noteq> nul) (a @ nul # b) = takeWhile (\<lambda>c. c \<noteq> nul) a" for a b
    by (induction a) auto
  then show ?thesis
    using assms(1,2,3) visited
    by (simp add: hash_path_def raw_buffer_and_offset_def Let_def fnv1a_loop_foldl path_ok_def
        fnv1a_hash_bytes_def FNV_OFFSET_BASIS_def min_absorb2) (simp add: MAX_PATH_LEN_def)
qed

section \<open>The bytes for the classifier\<close>

definition classify_bytes :: "string \<Rightarrow> string" where
  "classify_bytes s =
     (if s = [] then replicate MAX_PATH_DEPTH nul
      else if length s \<ge> MAX_PATH_DEPTH then take MAX_PATH_DEPTH s
      else map (\<lambda>i. s ! min i (length s - 1)) [0..<32] @ replicate (MAX_PATH_DEPTH - 32) nul)"

lemma to_classify_buffer_prepend:
  assumes "path_ok p" and "p_mode p = Prepend"
  shows "to_classify_buffer p = classify_bytes (path_bytes p)"
proof -
  let ?n = "path_len p"
  have n: "?n \<le> MAX_PATH_LEN" and buf: "length (p_buffer p) = MAX_PATH_LEN"
    using assms(1) by (auto simp: path_ok_def)
  have empty: "path_bytes p = [] \<longleftrightarrow> ?n = 0" using path_bytes_length [OF assms(1)] by (metis length_0_conv)
  consider "?n = 0" | "?n \<ge> MAX_PATH_DEPTH" | "0 < ?n" "?n < MAX_PATH_DEPTH" by linarith
  then show ?thesis
  proof cases
    case 1
    then show ?thesis using assms empty by (simp add: to_classify_buffer_def classify_bytes_def)
  next
    case 2
    have start: "nat (bound_value_for_verifier (int (MAX_PATH_LEN - cap_size ?n MAX_PATH_LEN)) 0
        (int (MAX_PATH_LEN - MAX_PATH_DEPTH))) = MAX_PATH_LEN - ?n"
      using 2 n by (subst bound_value_id) (auto simp: MAX_PATH_DEPTH_def MAX_PATH_LEN_def)
    have guards: "\<not> (?n = 0 \<or> MAX_PATH_LEN < ?n)" "path_bytes p \<noteq> []" "MAX_PATH_DEPTH \<le> ?n"
      using 2 n empty by (auto simp: MAX_PATH_DEPTH_def)
    have "to_classify_buffer p = take MAX_PATH_DEPTH (drop (MAX_PATH_LEN - ?n) (p_buffer p))"
      unfolding to_classify_buffer_def assms(2) Mode.case Let_def start
      using guards by (simp only: if_True if_False)
    then show ?thesis
      using guards path_bytes_length [OF assms(1)]
      by (simp add: classify_bytes_def) (simp add: path_bytes_def assms(2))
  next
    case 3
    have start: "bound_value_for_verifier (int (MAX_PATH_LEN - cap_size ?n MAX_PATH_DEPTH))
        (int (MAX_PATH_LEN - MAX_PATH_DEPTH)) (int (MAX_PATH_LEN - 1)) = int (MAX_PATH_LEN - ?n)"
      using 3 n by (subst bound_value_id) (auto simp: MAX_PATH_DEPTH_def MAX_PATH_LEN_def)
    have idx: "nat (bound_value_for_verifier (int (MAX_PATH_LEN - ?n) + int i) 0
        (int (MAX_PATH_LEN - 1))) = MAX_PATH_LEN - ?n + min i (?n - 1)" for i
      using 3 n by (auto simp: bound_value_for_verifier_def min_def)
    have guards: "\<not> (?n = 0 \<or> MAX_PATH_LEN < ?n)" "path_bytes p \<noteq> []" "\<not> MAX_PATH_DEPTH \<le> ?n"
      using 3 n empty by auto
    have byte: "p_buffer p ! (MAX_PATH_LEN - ?n + min i (?n - 1)) = path_bytes p ! min i (?n - 1)" for i
      using assms buf n by (simp add: path_bytes_def)
    have "to_classify_buffer p = map (\<lambda>i. p_buffer p ! (MAX_PATH_LEN - ?n + min i (?n - 1))) [0..<32]
        @ replicate (MAX_PATH_DEPTH - 32) nul"
      unfolding to_classify_buffer_def assms(2) Mode.case Let_def start idx
      using guards by (simp only: if_True if_False)
    then show ?thesis
      using guards path_bytes_length [OF assms(1)] unfolding byte classify_bytes_def by simp
  qed
qed

end
