(* ===== verification/PathWalk.thy ===== *)
theory PathWalk
  imports KPath
begin

text \<open>
  Path resolution in \<open>ebpf-mon-common/src/path/bpf.rs\<close>: from a dentry and its mount up to the root
  of the mount tree, prepending one name per step, at most \<open>max_depth\<close> steps.

  The kernel objects are only reached through CO-RE reads, which may fail. They are the fields of
  the record \<open>KernelFs\<close>, a parameter of the model: addresses are words, and a failed read is
  \<open>None\<close>.
\<close>

record KernelFs =
  k_d_inode :: "u64 \<Rightarrow> u64 option"
  k_metadata :: "u64 \<Rightarrow> Metadata option"
  k_d_parent :: "u64 \<Rightarrow> u64 option"
  k_d_name :: "u64 \<Rightarrow> u64 option"
  k_d_name_len :: "u64 \<Rightarrow> u32 option"
  k_read :: "u64 \<Rightarrow> nat \<Rightarrow> string option"
  k_mount :: "u64 \<Rightarrow> u64"
  k_vfs_root :: "u64 \<Rightarrow> u64 option"
  k_mnt_parent :: "u64 \<Rightarrow> u64 option"
  k_mnt_mountpoint :: "u64 \<Rightarrow> u64 option"
  k_mnt_root :: "u64 \<Rightarrow> u64 option"

definition init_from_inode :: "KernelFs \<Rightarrow> Path \<Rightarrow> u64 \<Rightarrow> Path \<times> (u32 + unit)" where
  "init_from_inode k p i =
     (case k_metadata k i of None \<Rightarrow> (p, Inl 1) | Some m \<Rightarrow> (p\<lparr>p_metadata := Some m\<rparr>, Inr ()))"

definition prepend_dentry :: "KernelFs \<Rightarrow> Path \<Rightarrow> u64 \<Rightarrow> Path \<times> (u32 + unit)" where
  "prepend_dentry k p entry =
     (case k_d_name k entry of
        None \<Rightarrow> (p, Inl 1)
      | Some name \<Rightarrow>
          (case k_d_name_len k entry of
             None \<Rightarrow> (p, Inl 1)
           | Some len \<Rightarrow>
               prepend_qstr_name p (k_read k name (cap_size (unat len) MAX_NAME)) len))"

fun walk_up :: "KernelFs \<Rightarrow> nat \<Rightarrow> Path \<Rightarrow> u64 \<Rightarrow> u64 \<Rightarrow> u64 \<Rightarrow> u64 \<Rightarrow> Path \<times> (u32 + unit)" where
  "walk_up k 0 p entry mount mnt_parent mnt_root = (p, Inr ())"
| "walk_up k (Suc n) p entry mount mnt_parent mnt_root =
     (if entry = mnt_root then
        (if mount = mnt_parent then (p, Inr ())
         else case k_mnt_mountpoint k mount of
             None \<Rightarrow> (p, Inl 1)
           | Some entry' \<Rightarrow>
               (case k_mnt_parent k mnt_parent of
                  None \<Rightarrow> (p, Inl 1)
                | Some parent' \<Rightarrow>
                    (case k_mnt_root k mnt_parent of
                       None \<Rightarrow> (p, Inl 1)
                     | Some root' \<Rightarrow> walk_up k n p entry' mnt_parent parent' root')))
      else
        case k_d_parent k entry of
          None \<Rightarrow> (p, Inl 1)
        | Some parent \<Rightarrow>
            if entry = parent then (p, Inr ())
            else
              let p = (if \<not> is_empty p then prepend_path_sep p else p)
              in case prepend_dentry k p entry of
                   (p, Inl e) \<Rightarrow> (p, Inl e)
                 | (p, Inr _) \<Rightarrow>
                     if parent = 0 then (p, Inr ())
                     else walk_up k n p parent mount mnt_parent mnt_root)"

text \<open>What both entry points do once they know the first mount.\<close>

definition resolve_at ::
    "KernelFs \<Rightarrow> Path \<Rightarrow> u64 \<Rightarrow> u64 \<Rightarrow> nat \<Rightarrow> Path \<times> (u32 + unit)" where
  "resolve_at k p entry mnt max_depth =
     (let mount = k_mount k mnt in
      case k_mnt_parent k mount of
        None \<Rightarrow> (p, Inl 1)
      | Some mnt_parent \<Rightarrow>
          (case k_vfs_root k mnt of
             None \<Rightarrow> (p, Inl 1)
           | Some mnt_root \<Rightarrow>
               (case walk_up k max_depth p entry mount mnt_parent mnt_root of
                  (p, Inl e) \<Rightarrow> (p, Inl e)
                | (p, Inr _) \<Rightarrow> (prepend_path_sep p, Inr ()))))"

text \<open>
  \<open>core_resolve\<close> for a \<open>struct path\<close> (\<open>None\<close> when it is null) with dentry and vfsmount; either read
  may fail.
\<close>

definition core_resolve ::
    "KernelFs \<Rightarrow> Path \<Rightarrow> (u64 option \<times> u64 option) option \<Rightarrow> nat \<Rightarrow> Path \<times> (u32 + unit)" where
  "core_resolve k p kpath max_depth =
     (case kpath of
        None \<Rightarrow> (p, Inr ())
      | Some (dentry, mnt) \<Rightarrow>
          (case dentry of
             None \<Rightarrow> (p, Inl 1)
           | Some entry \<Rightarrow>
               (case k_d_inode k entry of
                  None \<Rightarrow> (p, Inl 1)
                | Some inode \<Rightarrow>
                    (case init_from_inode k (p\<lparr>p_mode := Prepend\<rparr>) inode of
                       (p, Inl e) \<Rightarrow> (p, Inl e)
                     | (p, Inr _) \<Rightarrow>
                         (case mnt of
                            None \<Rightarrow> (p, Inl 1)
                          | Some m \<Rightarrow> resolve_at k p entry m max_depth)))))"

text \<open>\<open>resolve_from_dentry\<close>, with the vfsmount of the root of the current task.\<close>

definition resolve_from_dentry ::
    "KernelFs \<Rightarrow> Path \<Rightarrow> u64 \<Rightarrow> u64 option \<Rightarrow> nat \<Rightarrow> Path \<times> (u32 + unit)" where
  "resolve_from_dentry k p dentry root_mnt max_depth =
     (if dentry = 0 then (p, Inr ())
      else case k_d_inode k dentry of
        None \<Rightarrow> (p, Inl 1)
      | Some inode \<Rightarrow>
          (case init_from_inode k (p\<lparr>p_mode := Prepend\<rparr>) inode of
             (p, Inl e) \<Rightarrow> (p, Inl e)
           | (p, Inr _) \<Rightarrow>
               (case root_mnt of
                  None \<Rightarrow> (p, Inl 1)
                | Some m \<Rightarrow> resolve_at k p dentry m max_depth)))"

text \<open>\<open>core_resolve_file\<close>: a null file resolves to nothing, without an error.\<close>

definition core_resolve_file ::
    "KernelFs \<Rightarrow> Path \<Rightarrow> (u64 option \<times> u64 option) option option option \<Rightarrow> nat
      \<Rightarrow> Path \<times> (u32 + unit)" where
  "core_resolve_file k p file max_depth =
     (case file of
        None \<Rightarrow> (p, Inr ())
      | Some None \<Rightarrow> (p, Inl 1)
      | Some (Some f_path) \<Rightarrow> core_resolve k p f_path max_depth)"

section \<open>Where a dentry is\<close>

text \<open>The name of a dentry, as the reads deliver it.\<close>

definition dentry_name :: "KernelFs \<Rightarrow> u64 \<Rightarrow> string option" where
  "dentry_name k entry =
     (case (k_d_name k entry, k_d_name_len k entry) of
        (Some name, Some len) \<Rightarrow>
          (case k_read k name (unat len) of
             Some bs \<Rightarrow> if length bs = unat len \<and> unat len \<le> MAX_NAME then Some bs else None
           | None \<Rightarrow> None)
      | _ \<Rightarrow> None)"

text \<open>
  \<open>located k e m mp mr comps n\<close>: in the dentry and mount trees, the entry \<open>e\<close> of the mount \<open>m\<close>
  (with parent mount \<open>mp\<close> and root dentry \<open>mr\<close>) is reached from the root by the components
  \<open>comps\<close>, and walking up takes \<open>n\<close> steps.
\<close>

inductive located ::
    "KernelFs \<Rightarrow> u64 \<Rightarrow> u64 \<Rightarrow> u64 \<Rightarrow> u64 \<Rightarrow> string list \<Rightarrow> nat \<Rightarrow> bool" for k where
  root: "located k e m m e [] 1"
| cross: "m \<noteq> mp \<Longrightarrow> k_mnt_mountpoint k m = Some e' \<Longrightarrow> k_mnt_parent k mp = Some mp' \<Longrightarrow>
    k_mnt_root k mp = Some mr' \<Longrightarrow> located k e' mp mp' mr' comps n \<Longrightarrow>
    located k e m mp e comps (Suc n)"
| detached: "e \<noteq> mr \<Longrightarrow> k_d_parent k e = Some e \<Longrightarrow> located k e m mp mr [] 1"
| child: "e \<noteq> mr \<Longrightarrow> k_d_parent k e = Some q \<Longrightarrow> e \<noteq> q \<Longrightarrow> q \<noteq> 0 \<Longrightarrow> dentry_name k e = Some name \<Longrightarrow>
    name \<noteq> [] \<Longrightarrow> located k q m mp mr comps n \<Longrightarrow> located k e m mp mr (comps @ [name]) (Suc n)"

inductive_cases located_zero: "located k e m mp mr comps 0"

text \<open>Putting a list of components in front of a text.\<close>

definition in_front :: "string list \<Rightarrow> string \<Rightarrow> string" where
  "in_front comps b =
     (if comps = [] then b else if b = [] then join ''/'' comps else join ''/'' comps @ ''/'' @ b)"

definition comps_size :: "string list \<Rightarrow> nat" where
  "comps_size comps = sum_list (map (\<lambda>c. length c + 1) comps)"

lemma join_snoc: "join sep (xs @ [x]) = (if xs = [] then x else join sep xs @ sep @ x)"
  by (induction sep xs rule: join.induct) auto

lemma in_front_snoc:
  "name \<noteq> [] \<or> b \<noteq> [] \<Longrightarrow>
   in_front (comps @ [name]) b = in_front comps (name @ (if b = [] then [] else ''/'' @ b))"
  by (auto simp: in_front_def join_snoc)

lemma prepend_dentry_name:
  assumes "path_ok p" and "p_mode p = Prepend" and "dentry_name k e = Some name"
    and "path_len p + length name \<le> MAX_PATH_LEN"
  shows "\<exists>q. prepend_dentry k p e = (q, Inr ()) \<and> path_ok q \<and> path_bytes q = name @ path_bytes p
    \<and> p_mode q = Prepend \<and> path_len q = path_len p + length name"
proof -
  obtain a len where a: "k_d_name k e = Some a" "k_d_name_len k e = Some len"
    "k_read k a (unat len) = Some name" "length name = unat len" "unat len \<le> MAX_NAME"
    using assms(3) by (auto simp: dentry_name_def split: option.splits if_splits)
  have "of_nat (length name) = len" using a(4) by simp
  moreover have "cap_size (unat len) MAX_NAME = unat len" using a(5) by simp
  ultimately have "prepend_dentry k p e = prepend_qstr_name p (Some name) (of_nat (length name))"
    by (simp add: prepend_dentry_def a del: cap_size_min)
  then show ?thesis using prepend_name_bytes [OF assms(1,2) _ assms(4)] a(4,5) by simp
qed

lemma length_join: "length (join ''/'' comps) \<le> comps_size comps"
  by (induction "''/''" comps rule: join.induct) (auto simp: comps_size_def)

lemma length_in_front: "length (in_front comps b) \<le> length b + comps_size comps"
proof (cases comps)
  case (Cons c cs)
  have "length (join ''/'' comps) + 1 \<le> comps_size comps"
    unfolding Cons by (induction "''/''" "c # cs" arbitrary: c cs rule: join.induct)
      (auto simp: comps_size_def)
  then show ?thesis by (simp add: in_front_def)
qed (simp add: in_front_def)

lemma comps_size_snoc [simp]: "comps_size (comps @ [name]) = comps_size comps + length name + 1"
  by (simp add: comps_size_def)

lemma walk_up_located:
  "located k e m mp mr comps n \<Longrightarrow> path_ok p \<Longrightarrow> p_mode p = Prepend \<Longrightarrow> n \<le> depth \<Longrightarrow>
   path_len p + comps_size comps \<le> MAX_PATH_LEN \<Longrightarrow>
   \<exists>q. walk_up k depth p e m mp mr = (q, Inr ()) \<and> path_ok q \<and> p_mode q = Prepend
     \<and> path_bytes q = in_front comps (path_bytes p)"
proof (induction arbitrary: p depth rule: located.induct)
  case (root e m)
  then show ?case by (cases depth) (simp_all add: in_front_def)
next
  case (cross m mp e' mp' mr' comps n e)
  then show ?case by (cases depth) simp_all
next
  case (detached e mr m mp)
  then show ?case by (cases depth) (simp_all add: in_front_def)
next
  case (child e mr q name m mp comps n)
  then obtain d where d: "depth = Suc d" "n \<le> d" by (cases depth) auto
  let ?sep = "if \<not> is_empty p then prepend_path_sep p else p"
  have empty: "is_empty p \<longleftrightarrow> path_bytes p = []"
    using path_bytes_length [OF child.prems(1)]
    by (metis is_empty_def length_0_conv path_len_def unat_eq_zero)
  have sep: "path_ok ?sep \<and> path_bytes ?sep = (if path_bytes p = [] then [] else ''/'' @ path_bytes p)
      \<and> p_mode ?sep = Prepend \<and> path_len ?sep = path_len p + (if path_bytes p = [] then 0 else 1)"
    using prepend_sep_bytes [OF child.prems(1,2)] child.prems empty by (simp split: if_splits)
  obtain p' where p': "prepend_dentry k ?sep e = (p', Inr ())" "path_ok p'"
    "path_bytes p' = name @ path_bytes ?sep" "p_mode p' = Prepend"
    "path_len p' = path_len ?sep + length name"
    using prepend_dentry_name [of ?sep k e name] sep child.hyps child.prems
    by (fastforce split: if_splits)
  have "path_len p' + comps_size comps \<le> MAX_PATH_LEN"
    using p'(5) sep child.prems(4) by (simp split: if_splits)
  from child.IH [OF p'(2,4) d(2) this] obtain r
    where r: "walk_up k d p' q m mp mr = (r, Inr ())" "path_ok r" "p_mode r = Prepend"
      "path_bytes r = in_front comps (path_bytes p')" by blast
  have "walk_up k depth p e m mp mr = (r, Inr ())"
    using child.hyps p'(1) r(1) by (simp add: d(1) Let_def)
  moreover have "path_bytes r = in_front (comps @ [name]) (path_bytes p)"
    using r(4) p'(3) sep child.hyps by (simp add: in_front_snoc)
  ultimately show ?case using r(2,3) by blast
qed

lemma resolve_at_located:
  assumes "path_ok p" and "path_len p = 0"
    and "k_mnt_parent k (k_mount k mnt) = Some mp" and "k_vfs_root k mnt = Some mr"
    and "located k e (k_mount k mnt) mp mr comps n" and "n \<le> max_depth"
    and "comps_size comps < MAX_PATH_LEN"
  shows "\<exists>q. resolve_at k (p\<lparr>p_mode := Prepend, p_metadata := Some md\<rparr>) e mnt max_depth = (q, Inr ())
    \<and> path_ok q \<and> p_mode q = Prepend \<and> path_bytes q = ''/'' @ join ''/'' comps"
proof -
  let ?p = "p\<lparr>p_mode := Prepend, p_metadata := Some md\<rparr>"
  have ok: "path_ok ?p" using assms(1) by (simp add: path_ok_def path_len_def)
  have len: "path_len ?p = 0" using assms(2) by (simp add: path_len_def)
  have bytes: "path_bytes ?p = []" using path_bytes_length [OF ok] len by simp
  obtain r where r: "walk_up k max_depth ?p e (k_mount k mnt) mp mr = (r, Inr ())" "path_ok r"
    "p_mode r = Prepend" "path_bytes r = in_front comps []"
    using walk_up_located [OF assms(5) ok _ assms(6)] assms(7) len bytes by auto
  have "path_len r < MAX_PATH_LEN"
    using length_in_front [of comps "[]"] assms(7) path_bytes_length [OF r(2)] r(4) by simp
  then have "path_ok (prepend_path_sep r) \<and> path_bytes (prepend_path_sep r) = ''/'' @ join ''/'' comps
      \<and> p_mode (prepend_path_sep r) = Prepend"
    using prepend_sep_bytes [OF r(2,3)] r(4) by (simp add: in_front_def split: if_splits)
  moreover have "resolve_at k ?p e mnt max_depth = (prepend_path_sep r, Inr ())"
    using assms r(1) by (simp add: resolve_at_def Let_def)
  ultimately show ?thesis by blast
qed

lemma core_resolve_at:
  "k_d_inode k e = Some i \<Longrightarrow> k_metadata k i = Some md \<Longrightarrow>
     core_resolve k p (Some (Some e, Some mnt)) max_depth
       = resolve_at k (p\<lparr>p_mode := Prepend, p_metadata := Some md\<rparr>) e mnt max_depth"
  "k_d_inode k e = Some i \<Longrightarrow> k_metadata k i = Some md \<Longrightarrow> e \<noteq> 0 \<Longrightarrow>
     resolve_from_dentry k p e (Some mnt) max_depth
       = resolve_at k (p\<lparr>p_mode := Prepend, p_metadata := Some md\<rparr>) e mnt max_depth"
  by (simp_all add: core_resolve_def resolve_from_dentry_def init_from_inode_def)

text \<open>
  C31: path resolution is correct within its bounds. For an entry that the dentry and mount trees
  reach from the root by the components \<open>comps\<close> in at most \<open>max_depth\<close> steps, with all reads
  succeeding and the text short enough for the buffer, \<open>core_resolve\<close> and \<open>resolve_from_dentry\<close> on a
  reset buffer succeed and leave exactly the absolute path of the components in it.
\<close>

theorem core_resolve_located:
  assumes "path_ok p" and "path_len p = 0"
    and "k_d_inode k e = Some i" and "k_metadata k i = Some md"
    and "k_mnt_parent k (k_mount k mnt) = Some mp" and "k_vfs_root k mnt = Some mr"
    and "located k e (k_mount k mnt) mp mr comps n" and "n \<le> max_depth"
    and "comps_size comps < MAX_PATH_LEN" and "e \<noteq> 0"
  shows "\<exists>q. core_resolve k p (Some (Some e, Some mnt)) max_depth = (q, Inr ())
    \<and> resolve_from_dentry k p e (Some mnt) max_depth = (q, Inr ())
    \<and> path_ok q \<and> p_mode q = Prepend \<and> path_bytes q = ''/'' @ join ''/'' comps"
  unfolding core_resolve_at(1) [OF assms(3,4)] core_resolve_at(2) [OF assms(3,4,10)]
  using resolve_at_located [OF assms(1,2,5,6,7,8,9)] by simp

text \<open>A file \<open>/etc/hosts\<close> on the root mount: dentries 3 (hosts), 2 (etc) and 1 (the root).\<close>

definition sample_metadata :: Metadata where
  "sample_metadata = \<lparr>m_ino = 9, m_sb_ino = 1, m_size = 0, m_atime = \<lparr>tv_sec = 0, tv_nsec = 0\<rparr>,
     m_mtime = \<lparr>tv_sec = 0, tv_nsec = 0\<rparr>, m_ctime = \<lparr>tv_sec = 0, tv_nsec = 0\<rparr>\<rparr>"

definition sample_fs :: KernelFs where
  "sample_fs = \<lparr>k_d_inode = (\<lambda>d. Some d), k_metadata = (\<lambda>_. Some sample_metadata),
     k_d_parent = (\<lambda>d. Some (if d = 3 then 2 else 1)), k_d_name = (\<lambda>d. Some d),
     k_d_name_len = (\<lambda>d. Some (if d = 3 then 5 else 3)),
     k_read = (\<lambda>a n. Some (if a = 3 then ''hosts'' else ''etc'')),
     k_mount = (\<lambda>v. 7), k_vfs_root = (\<lambda>v. Some 1), k_mnt_parent = (\<lambda>m. Some 7),
     k_mnt_mountpoint = (\<lambda>m. Some 1), k_mnt_root = (\<lambda>m. Some 1)\<rparr>"

lemma sample_located: "located sample_fs 3 (k_mount sample_fs 5) 7 1 [''etc'', ''hosts''] (Suc (Suc 1))"
proof -
  have n3: "dentry_name sample_fs 3 = Some ''hosts''" and n2: "dentry_name sample_fs 2 = Some ''etc''"
    by (simp_all add: dentry_name_def sample_fs_def MAX_NAME_def)
  have "located sample_fs 1 7 7 1 [] 1" by (rule located.root)
  then have "located sample_fs 2 7 7 1 ([] @ [''etc'']) (Suc 1)"
    by (rule located.child [rotated 6]) (simp_all add: n2, simp_all add: sample_fs_def)
  then have "located sample_fs 3 7 7 1 (([] @ [''etc'']) @ [''hosts'']) (Suc (Suc 1))"
    by (rule located.child [rotated 6]) (simp_all add: n3, simp_all add: sample_fs_def)
  then show ?thesis by (simp add: sample_fs_def)
qed

lemma core_resolve_located_witness:
  "\<exists>q. core_resolve sample_fs default_path (Some (Some 3, Some 5)) MAX_PATH_DEPTH = (q, Inr ())
     \<and> path_bytes q = ''/etc/hosts''"
proof -
  have "path_len default_path = 0" by (simp add: path_len_def default_path_def)
  then have "\<exists>q. core_resolve sample_fs default_path (Some (Some 3, Some 5)) MAX_PATH_DEPTH = (q, Inr ())
      \<and> resolve_from_dentry sample_fs default_path 3 (Some 5) MAX_PATH_DEPTH = (q, Inr ())
      \<and> path_ok q \<and> p_mode q = Prepend \<and> path_bytes q = ''/'' @ join ''/'' [''etc'', ''hosts'']"
    using sample_located
    by (intro core_resolve_located [OF default_path_ok, where i = 3 and md = sample_metadata
          and mp = 7 and mr = 1 and n = "Suc (Suc 1)"])
      (simp_all add: sample_fs_def comps_size_def MAX_PATH_LEN_def MAX_PATH_DEPTH_def)
  then show ?thesis by auto
qed

end
