(* ===== verification/Classify.thy ===== *)
theory Classify
  imports KPath PolicyIR
begin

text \<open>
  The in-kernel path classifier of \<open>ebpf-mon-common/src/fs/bpf.rs\<close>: from the 128 bytes that
  \<open>to_classify_buffer\<close> cuts out of a path to a class, a sensitivity flag and a cross-process flag.

  A comparison \<open>offset + n <= MAX_IDX && path[offset] == ..\<close> of consecutive bytes is \<open>bytes_at\<close>.
  The last section interprets the interface \<open>glob_semantics\<close> on the classifier: for every class but
  the two cgroup classes, the paths the kernel puts into a class begin with the literal root that
  \<open>relation_to\<close> reasons with.
\<close>

definition MAX_IDX :: nat where "MAX_IDX = MAX_PATH_DEPTH"

type_synonym Classification = "PathPattern \<times> bool \<times> bool"

definition bytes_at :: "string \<Rightarrow> nat \<Rightarrow> string \<Rightarrow> bool" where
  "bytes_at path offset lit =
     (offset + length lit \<le> MAX_IDX \<and> list_all (\<lambda>i. path ! (offset + i) = lit ! i) [0..<length lit])"

section \<open>The suffixes of /proc/PID\<close>

definition classify_proc_suffix_c :: "string \<Rightarrow> nat \<Rightarrow> PathPattern \<times> bool" where
  "classify_proc_suffix_c path offset =
     (if bytes_at path offset ''cmdline'' then (ProcPidCmdline, False)
      else if bytes_at path offset ''cgroup'' then (ProcPidCgroup, False)
      else if bytes_at path offset ''comm'' then (ProcPidComm, False)
      else if bytes_at path offset ''cwd'' then (ProcPidCwd, False)
      else (ProcPidOther, False))"

definition classify_proc_suffix_e :: "string \<Rightarrow> nat \<Rightarrow> PathPattern \<times> bool" where
  "classify_proc_suffix_e path offset =
     (if bytes_at path offset ''environ'' then (ProcPidEnviron, True)
      else if bytes_at path offset ''exe'' then (ProcPidExe, False)
      else (ProcPidOther, False))"

definition classify_proc_suffix_f :: "string \<Rightarrow> nat \<Rightarrow> PathPattern \<times> bool" where
  "classify_proc_suffix_f path offset =
     (if bytes_at path offset ''fd'' then (ProcPidFd, False) else (ProcPidOther, False))"

definition classify_proc_suffix_m :: "string \<Rightarrow> nat \<Rightarrow> PathPattern \<times> bool" where
  "classify_proc_suffix_m path offset =
     (if bytes_at path offset ''mountinfo'' then (ProcPidMountinfo, False)
      else if bytes_at path offset ''mounts'' then (ProcPidMounts, False)
      else if bytes_at path offset ''maps'' then (ProcPidMaps, True)
      else if bytes_at path offset ''mem'' then (ProcPidMem, True)
      else (ProcPidOther, False))"

text \<open>The entry ends here: the class name is followed by a NUL or a slash, or the buffer ends.\<close>

definition entry_end :: "string \<Rightarrow> nat \<Rightarrow> bool" where
  "entry_end path i = (i = MAX_IDX \<or> path ! i = nul \<or> path ! i = CHR ''/'')"

definition classify_proc_suffix_n :: "string \<Rightarrow> nat \<Rightarrow> PathPattern \<times> bool" where
  "classify_proc_suffix_n path offset =
     (if bytes_at path offset ''ns/'' then (ProcPidNs, False)
      else if bytes_at path offset ''ns'' \<and> entry_end path (offset + 2) then (ProcPidNs, False)
      else if bytes_at path offset ''net/'' then (ProcPidNet, False)
      else if bytes_at path offset ''net'' \<and> entry_end path (offset + 3) then (ProcPidNet, False)
      else (ProcPidOther, False))"

definition classify_proc_suffix_r :: "string \<Rightarrow> nat \<Rightarrow> PathPattern \<times> bool" where
  "classify_proc_suffix_r path offset =
     (if bytes_at path offset ''root'' then (ProcPidRoot, True) else (ProcPidOther, False))"

definition classify_proc_suffix_s :: "string \<Rightarrow> nat \<Rightarrow> PathPattern \<times> bool" where
  "classify_proc_suffix_s path offset =
     (if bytes_at path offset ''status'' then (ProcPidStatus, False)
      else if bytes_at path offset ''stat'' \<and> entry_end path (offset + 4) then (ProcPidStat, False)
      else (ProcPidOther, False))"

definition classify_proc_suffix_t :: "string \<Rightarrow> nat \<Rightarrow> PathPattern \<times> bool" where
  "classify_proc_suffix_t path offset =
     (if bytes_at path offset ''task/'' then (ProcPidTask, False)
      else if bytes_at path offset ''task'' \<and> (offset + 4 = MAX_IDX \<or> path ! (offset + 4) = nul)
      then (ProcPidTask, False)
      else (ProcPidOther, False))"

definition classify_proc_suffix :: "string \<Rightarrow> nat \<Rightarrow> PathPattern \<times> bool" where
  "classify_proc_suffix path offset =
     (if offset \<ge> MAX_IDX then (ProcPidOther, False)
      else
        let first = path ! offset in
        if first = nul then (ProcPidOther, False)
        else if first = CHR ''c'' then classify_proc_suffix_c path offset
        else if first = CHR ''e'' then classify_proc_suffix_e path offset
        else if first = CHR ''f'' then classify_proc_suffix_f path offset
        else if first = CHR ''m'' then classify_proc_suffix_m path offset
        else if first = CHR ''n'' then classify_proc_suffix_n path offset
        else if first = CHR ''r'' then classify_proc_suffix_r path offset
        else if first = CHR ''s'' then classify_proc_suffix_s path offset
        else if first = CHR ''t'' then classify_proc_suffix_t path offset
        else (ProcPidOther, False))"

section \<open>/proc\<close>

definition classify_proc_global :: "string \<Rightarrow> nat \<Rightarrow> Classification" where
  "classify_proc_global path offset =
     (if bytes_at path offset ''sys/'' then (ProcGlobalSys, False, False)
      else if bytes_at path offset ''net/'' then (ProcGlobalNet, False, False)
      else (ProcGlobal, False, False))"

text \<open>The unrolled loop over up to seven digits: the pid, its length, and whether to go on.\<close>

definition pid_step :: "string \<Rightarrow> nat \<Rightarrow> u32 \<times> nat \<times> bool \<Rightarrow> nat \<Rightarrow> u32 \<times> nat \<times> bool" where
  "pid_step path offset st I =
     (let (pid, pid_len, found_non_digit) = st in
      if \<not> found_non_digit then
        (let idx = offset + I in
         if idx < MAX_IDX then
           (let c = path ! idx in
            if is_digit c then
              (pid * 10 + of_nat (digit_val c), I + 1, found_non_digit)
            else (pid, pid_len, True))
         else (pid, pid_len, True))
      else st)"

definition parse_pid :: "string \<Rightarrow> nat \<Rightarrow> u32 \<times> nat \<times> bool" where
  "parse_pid path offset = foldl (pid_step path offset) (0, 0, False) [0..<7]"

definition classify_proc :: "string \<Rightarrow> nat \<Rightarrow> u32 \<Rightarrow> Classification" where
  "classify_proc path offset current_pid =
     (if offset + 5 > MAX_IDX then (ProcGlobal, False, False)
      else if bytes_at path offset ''self/'' then
        (let (pattern, sensitive) = classify_proc_suffix path (offset + 5)
         in (pattern, sensitive, False))
      else
        let (pid, pid_len, _) = parse_pid path offset in
        if pid_len = 0 then classify_proc_global path offset
        else
          let after_pid_idx = offset + pid_len in
          if after_pid_idx \<ge> MAX_IDX then (ProcGlobal, False, False)
          else if path ! after_pid_idx \<noteq> CHR ''/'' then (ProcGlobal, False, False)
          else
            let suffix_offset = after_pid_idx + 1;
                is_cross_process = (pid \<noteq> current_pid);
                (pattern, sensitive) = classify_proc_suffix path suffix_offset
            in (pattern, sensitive, is_cross_process))"

section \<open>/sys, /run, /dev and /tmp\<close>

definition contains_docker :: "string \<Rightarrow> bool" where
  "contains_docker path =
     foldl (\<lambda>found I.
        if \<not> found \<and> I + 8 \<le> MAX_IDX then
          (if path ! I = nul then found
           else if bytes_at path I ''/docker/'' then True
           else found)
        else found) False [0..<120]"

definition classify_sys :: "string \<Rightarrow> nat \<Rightarrow> Classification" where
  "classify_sys path offset =
     (if contains_docker path then (SysCgroupDocker, False, False)
      else if bytes_at path offset ''fs/cgroup'' then (SysCgroupOther, False, False)
      else if bytes_at path offset ''class/net/'' then (SysClassNet, False, False)
      else (SysOther, False, False))"

definition classify_run :: "string \<Rightarrow> nat \<Rightarrow> Classification" where
  "classify_run path offset =
     (if bytes_at path offset ''docker/'' then (RunDocker, False, False)
      else if bytes_at path offset ''user/'' then (RunUser, False, False)
      else (RunOther, False, False))"

definition classify_dev :: "string \<Rightarrow> nat \<Rightarrow> Classification" where
  "classify_dev path offset =
     (if bytes_at path offset ''pts/'' then (DevPts, False, False)
      else if bytes_at path offset ''shm/'' then (DevShm, False, False)
      else (DevOther, False, False))"

definition classify_tmp :: "string \<Rightarrow> nat \<Rightarrow> Classification" where
  "classify_tmp path offset =
     (if bytes_at path offset ''tmp'' then (TmpRandom, False, False) else (TmpOther, False, False))"

definition classify_path :: "string \<Rightarrow> u32 \<Rightarrow> Classification" where
  "classify_path path current_pid =
     (if bytes_at path 0 ''/proc/'' then classify_proc path 6 current_pid
      else if bytes_at path 0 ''/sys/'' then classify_sys path 5
      else if bytes_at path 0 ''/run/'' then classify_run path 5
      else if bytes_at path 0 ''/dev/'' then classify_dev path 5
      else if bytes_at path 0 ''/tmp/'' then classify_tmp path 5
      else (Regular, False, False))"

section \<open>The root of a class\<close>

lemma bytes_at_iff:
  "bytes_at path i lit \<longleftrightarrow> i + length lit \<le> MAX_IDX \<and> (\<forall>j < length lit. path ! (i + j) = lit ! j)"
  by (auto simp: bytes_at_def list_all_iff)

lemma bytes_at_append:
  assumes "bytes_at path i a" and "bytes_at path (i + length a) b"
  shows "bytes_at path i (a @ b)"
  unfolding bytes_at_iff
proof (intro conjI allI impI)
  show "i + length (a @ b) \<le> MAX_IDX" using assms(2) by (simp add: bytes_at_iff)
  fix j assume j: "j < length (a @ b)"
  show "path ! (i + j) = (a @ b) ! j"
  proof (cases "j < length a")
    case True
    then show ?thesis using assms(1) by (simp add: bytes_at_iff nth_append)
  next
    case False
    then have "j - length a < length b" using j by auto
    then have "path ! (i + length a + (j - length a)) = b ! (j - length a)"
      using assms(2) unfolding bytes_at_iff by blast
    moreover have "i + length a + (j - length a) = i + j" using False by simp
    ultimately show ?thesis using False by (simp add: nth_append)
  qed
qed

text \<open>
  A literal at the front of the classifier's bytes is at the front of the path itself, if its last
  two characters differ: only the last byte of a short path is repeated.
\<close>

lemma bytes_at_front:
  assumes "bytes_at (classify_bytes s) 0 (lit @ [x, y])" and "x \<noteq> y" and "nul \<notin> set (lit @ [x, y])"
    and "length lit + 2 \<le> 32"
  shows "prefix (lit @ [x, y]) s"
proof -
  let ?l = "lit @ [x, y]"
  have at: "classify_bytes s ! i = ?l ! i" if "i < length ?l" for i
    using assms(1) that unfolding bytes_at_iff by simp
  have ne: "s \<noteq> []"
  proof
    assume "s = []"
    then have "?l ! 0 = nul" using at [of 0] by (simp add: classify_bytes_def MAX_PATH_DEPTH_def)
    then show False using assms(3) nth_mem [of 0 ?l] by simp
  qed
  have byte: "classify_bytes s ! i = s ! min i (length s - 1)" if "i < 32" for i
    using that ne by (auto simp: classify_bytes_def nth_append MAX_PATH_DEPTH_def min_def)
  have "length ?l \<le> length s"
  proof (rule ccontr)
    assume "\<not> length ?l \<le> length s"
    then have "min (length lit) (length s - 1) = length s - 1"
      "min (length lit + 1) (length s - 1) = length s - 1" by auto
    then have "?l ! length lit = ?l ! (length lit + 1)"
      using at [of "length lit"] at [of "length lit + 1"] byte [of "length lit"]
        byte [of "length lit + 1"] assms(4) by simp
    then show False using assms(2) by (simp add: nth_append)
  qed
  moreover have "s ! i = ?l ! i" if "i < length ?l" for i
    using at [OF that] byte [of i] that calculation assms(4) by (simp add: min_absorb1)
  ultimately have "take (length ?l) s = ?l"
    by (intro nth_equalityI) auto
  then show ?thesis by (metis take_is_prefix)
qed

text \<open>The literal roots of the classes that the classifier decides by a literal.\<close>

definition pid_classes :: "PathPattern list" where
  "pid_classes =
     [ProcPidCmdline, ProcPidComm, ProcPidCwd, ProcPidEnviron, ProcPidExe, ProcPidFd, ProcPidMaps,
      ProcPidMem, ProcPidMountinfo, ProcPidMounts, ProcPidNet, ProcPidNs, ProcPidRoot, ProcPidStat,
      ProcPidStatus, ProcPidTask, ProcPidCgroup, ProcPidOther]"

lemma suffix_letter_classes:
  "fst (classify_proc_suffix_c path i) \<in> set pid_classes"
  "fst (classify_proc_suffix_e path i) \<in> set pid_classes"
  "fst (classify_proc_suffix_f path i) \<in> set pid_classes"
  "fst (classify_proc_suffix_m path i) \<in> set pid_classes"
  "fst (classify_proc_suffix_n path i) \<in> set pid_classes"
  "fst (classify_proc_suffix_r path i) \<in> set pid_classes"
  "fst (classify_proc_suffix_s path i) \<in> set pid_classes"
  "fst (classify_proc_suffix_t path i) \<in> set pid_classes"
  "ProcPidOther \<in> set pid_classes"
  by (simp_all add: classify_proc_suffix_c_def classify_proc_suffix_e_def
      classify_proc_suffix_f_def classify_proc_suffix_m_def classify_proc_suffix_n_def
      classify_proc_suffix_r_def classify_proc_suffix_s_def classify_proc_suffix_t_def pid_classes_def)

lemma suffix_classes: "fst (classify_proc_suffix path i) \<in> set pid_classes"
  by (simp add: classify_proc_suffix_def Let_def suffix_letter_classes)

lemma pid_root:
  "fst (classify_proc_suffix path i) = c \<Longrightarrow> glob_literal_root (as_str c) = ''/proc/''"
proof -
  have "list_all (\<lambda>c. glob_literal_root (as_str c) = ''/proc/'') pid_classes" by code_simp
  then show "fst (classify_proc_suffix path i) = c \<Longrightarrow> glob_literal_root (as_str c) = ''/proc/''"
    using suffix_classes [of path i] by (auto simp: list_all_iff)
qed

text \<open>What holds of the bytes when the classifier answers a class.\<close>

definition class_evidence :: "string \<Rightarrow> PathPattern \<Rightarrow> bool" where
  "class_evidence path c =
     (glob_literal_root (as_str c) = '''' \<or> bytes_at path 0 (glob_literal_root (as_str c)))"

lemma proc_evidence:
  assumes "bytes_at path 0 ''/proc/''"
  shows "class_evidence path (fst (classify_proc path 6 pid))"
proof -
  have sys: "bytes_at path 6 ''sys/'' \<Longrightarrow> bytes_at path 0 ''/proc/sys/''"
    and net: "bytes_at path 6 ''net/'' \<Longrightarrow> bytes_at path 0 ''/proc/net/''"
    using bytes_at_append [OF assms, of "''sys/''"] bytes_at_append [OF assms, of "''net/''"]
    by (simp_all add: numeral_eq_Suc)
  have suffix: "class_evidence path (fst (classify_proc_suffix path i))" for i
    using assms pid_root by (simp add: class_evidence_def)
  have "class_evidence path (fst (classify_proc_global path 6))"
    using assms sys net by (simp add: class_evidence_def classify_proc_global_def glob_literal_root_def)
  moreover have "class_evidence path ProcGlobal"
    using assms by (simp add: class_evidence_def glob_literal_root_def)
  moreover have triple: "fst (case x of (c, s) \<Rightarrow> (c, s, b)) = fst x" for x :: "PathPattern \<times> bool" and b :: bool
    by (cases x) simp
  moreover obtain q l f where "parse_pid path 6 = (q, l, f)" by (metis prod_cases3)
  ultimately show ?thesis
    using suffix by (simp add: classify_proc_def Let_def)
qed

lemma classify_evidence:
  assumes "fst (classify_path path pid) = c" and "c \<noteq> SysCgroupDocker" and "c \<noteq> SysCgroupOther"
  shows "class_evidence path c"
proof -
  have at: "bytes_at path 0 (a @ b)"
    if "bytes_at path 0 a" "bytes_at path 5 b" "a \<in> {''/sys/'', ''/run/'', ''/dev/'', ''/tmp/''}" for a b
    using bytes_at_append [of path 0 a b] that by (auto simp: numeral_eq_Suc)
  consider "bytes_at path 0 ''/proc/''" | "bytes_at path 0 ''/sys/''" "\<not> bytes_at path 0 ''/proc/''"
    | "bytes_at path 0 ''/run/''" "\<not> bytes_at path 0 ''/proc/''" "\<not> bytes_at path 0 ''/sys/''"
    | "bytes_at path 0 ''/dev/''" "\<not> bytes_at path 0 ''/proc/''" "\<not> bytes_at path 0 ''/sys/''"
      "\<not> bytes_at path 0 ''/run/''"
    | "bytes_at path 0 ''/tmp/''" "\<not> bytes_at path 0 ''/proc/''" "\<not> bytes_at path 0 ''/sys/''"
      "\<not> bytes_at path 0 ''/run/''" "\<not> bytes_at path 0 ''/dev/''"
    | "c = Regular" using assms(1) by (auto simp: classify_path_def split: if_splits)
  then show ?thesis
  proof cases
    case 1
    then show ?thesis using proc_evidence assms(1) by (auto simp: classify_path_def)
  next
    case 2
    then show ?thesis
      using assms at [of "''/sys/''" "''class/net/''"]
      by (auto simp: classify_path_def classify_sys_def class_evidence_def glob_literal_root_def
          split: if_splits)
  next
    case 3
    then show ?thesis
      using assms at [of "''/run/''" "''docker/''"] at [of "''/run/''" "''user/''"]
      by (auto simp: classify_path_def classify_run_def class_evidence_def glob_literal_root_def
          split: if_splits)
  next
    case 4
    then show ?thesis
      using assms at [of "''/dev/''" "''pts/''"] at [of "''/dev/''" "''shm/''"]
      by (auto simp: classify_path_def classify_dev_def class_evidence_def glob_literal_root_def
          split: if_splits)
  next
    case 5
    then show ?thesis
      using assms at [of "''/tmp/''" "''tmp''"]
      by (auto simp: classify_path_def classify_tmp_def class_evidence_def glob_literal_root_def
          split: if_splits)
  next
    case 6
    then show ?thesis by (simp add: class_evidence_def glob_literal_root_def)
  qed
qed

text \<open>Every root ends in two different characters.\<close>

lemma root_shape:
  "glob_literal_root (as_str c) = '''' \<or>
   (\<exists>lit x y. glob_literal_root (as_str c) = lit @ [x, y] \<and> x \<noteq> y \<and> nul \<notin> set (lit @ [x, y])
      \<and> length lit + 2 \<le> 32)"
proof -
  have "list_all (\<lambda>c. let r = glob_literal_root (as_str c) in
      r = '''' \<or> (2 \<le> length r \<and> length r \<le> 32 \<and> list_all (\<lambda>b. b \<noteq> nul) r
        \<and> r ! (length r - 2) \<noteq> r ! (length r - 1))) all_patterns"
    by code_simp
  then have c: "glob_literal_root (as_str c) = '''' \<or> (let r = glob_literal_root (as_str c) in
      2 \<le> length r \<and> length r \<le> 32 \<and> list_all (\<lambda>b. b \<noteq> nul) r
        \<and> r ! (length r - 2) \<noteq> r ! (length r - 1))"
    by (auto simp: list_all_iff Let_def)
  show ?thesis
  proof (cases "glob_literal_root (as_str c)" rule: rev_cases)
    case (snoc r y)
    then obtain lit x where "r = lit @ [x]" using c by (cases r rule: rev_cases) (auto simp: Let_def)
    then show ?thesis using c snoc by (auto simp: Let_def list_all_iff nth_append)
  qed simp
qed

text \<open>The paths that the kernel puts into a class, whatever process asks.\<close>

definition kernel_match :: "PathPattern \<Rightarrow> string \<Rightarrow> bool" where
  "kernel_match c s = (fst (classify_path (classify_bytes s) 0) = c)"

lemma classify_pid_irrelevant: "fst (classify_path path pid) = fst (classify_path path pid')"
  by (simp add: classify_path_def classify_proc_def Let_def split: prod.splits)

definition root_safe :: "PathPattern \<Rightarrow> bool" where
  "root_safe c = (c \<noteq> SysCgroupDocker \<and> c \<noteq> SysCgroupOther)"

interpretation kernel: glob_semantics kernel_match root_safe
proof
  fix c s assume safe: "root_safe c" and m: "kernel_match c s"
  have "class_evidence (classify_bytes s) c"
    using m safe by (intro classify_evidence) (auto simp: kernel_match_def root_safe_def)
  then show "prefix (glob_literal_root (as_str c)) s"
    using root_shape [of c] bytes_at_front by (fastforce simp: class_evidence_def)
qed

text \<open>
  C33: under the classification that the kernel hook computes, \<open>relation_to\<close> keeps its contract for
  all patterns outside the two cgroup classes: \<open>Superset\<close>, \<open>Subset\<close> and \<open>Equal\<close> are never
  claimed wrongly, and \<open>Disjoint\<close> patterns share no path.
\<close>

theorem relation_to_kernel_contract:
  assumes "good_pattern root_safe a" and "good_pattern root_safe b"
  shows "case relation_to a b of
     Equal \<Rightarrow> match_set kernel_match a = match_set kernel_match b
   | Superset \<Rightarrow> match_set kernel_match b \<subseteq> match_set kernel_match a
   | Subset \<Rightarrow> match_set kernel_match a \<subseteq> match_set kernel_match b
   | Overlap \<Rightarrow> True
   | Disjoint \<Rightarrow> match_set kernel_match a \<inter> match_set kernel_match b = {}"
  using assms
  by (cases "relation_to a b")
    (auto simp: match_set_def relation_to_Equal dest: kernel.superset_sound kernel.subset_sound
      kernel.disjoint_sound)

lemma relation_to_kernel_contract_witness:
  "relation_to (Prefix ''/run/'') (Classified RunDocker) = Superset
   \<and> match_set kernel_match (Classified RunDocker) \<subseteq> match_set kernel_match (Prefix ''/run/'')"
proof -
  have r: "relation_to (Prefix ''/run/'') (Classified RunDocker) = Superset" by code_simp
  then show ?thesis
    using relation_to_kernel_contract [of "Prefix ''/run/''" "Classified RunDocker"]
    by (simp add: root_safe_def)
qed

text \<open>
  The cgroup classes are excluded with reason: a path under \<open>/sys/\<close> that mentions \<open>/docker/\<close> is
  put into \<open>SysCgroupDocker\<close> although \<open>relation_to\<close> calls that class disjoint from its directory.
\<close>

lemma docker_class_not_rooted:
  "relation_to (Prefix ''/sys/kernel/debug/docker/'') (Classified SysCgroupDocker) = Disjoint
   \<and> kernel_match SysCgroupDocker ''/sys/kernel/debug/docker/x''"
  by code_simp

text \<open>
  A path of less than 32 bytes is padded with its last byte, so an entry that must end with a NUL
  is not recognised: \<open>/proc/1/stat\<close> is not in the class \<open>ProcPidStat\<close>.
\<close>

lemma short_stat_misclassified:
  "kernel_match ProcPidOther ''/proc/1/stat'' \<and> \<not> kernel_match ProcPidStat ''/proc/1/stat''"
  by code_simp

end
