(* ===== verification/Alloc.thy ===== *)
theory Alloc
  imports Prelude
begin

text \<open>
  The per-CPU scratch allocator of \<open>ebpf-mon-common/src/alloc/bpf.rs\<close>. A program calls \<open>init\<close> first,
  which gives all the slots back, and then takes zeroed slots one after the other.

  The maps \<open>HEAP\<close> and \<open>ALLOCATOR\<close> are kernel maps. Of them the model keeps the counter (\<open>None\<close> when
  the lookup of the allocator fails) and whether an insertion and a lookup of a slot succeed.
\<close>

definition MAX_ALLOCS :: u32 where "MAX_ALLOCS = 8"
definition HEAP_MAX_ALLOC_SIZE :: nat where "HEAP_MAX_ALLOC_SIZE = 10024 * 2"

record Heap =
  i_next :: "u32 option"
  heap_insert :: "u32 \<Rightarrow> bool"
  heap_get :: "u32 \<Rightarrow> bool"

definition allocator_new :: "Heap \<Rightarrow> Heap \<times> (u32 + unit)" where
  "allocator_new h =
     (case i_next h of None \<Rightarrow> (h, Inl 1) | Some _ \<Rightarrow> (h\<lparr>i_next := Some 0\<rparr>, Inr ()))"

definition alloc_init :: "Heap \<Rightarrow> Heap \<times> (u32 + unit)" where
  "alloc_init h = allocator_new h"

definition alloc_slice :: "Heap \<Rightarrow> nat \<Rightarrow> Heap \<times> (u32 + u32)" where
  "alloc_slice h sizeof =
     (case i_next h of
        None \<Rightarrow> (h, Inl 1)
      | Some k \<Rightarrow>
          if k = MAX_ALLOCS then (h, Inl 1)
          else if \<not> heap_insert h k then (h, Inl 1)
          else if heap_get h k then
            (if sizeof > HEAP_MAX_ALLOC_SIZE then (h, Inl 1)
             else (h\<lparr>i_next := Some (k + 1)\<rparr>, Inr k))
          else (h, Inl 1))"

text \<open>The slot that \<open>alloc_zero\<close> hands out; its bytes are zero.\<close>

definition alloc_zero :: "Heap \<Rightarrow> nat \<Rightarrow> Heap \<times> (u32 + u32)" where
  "alloc_zero h sizeof = alloc_slice h sizeof"

fun alloc_many :: "Heap \<Rightarrow> nat list \<Rightarrow> Heap \<times> u32 list" where
  "alloc_many h [] = (h, [])"
| "alloc_many h (n # ns) =
     (case alloc_zero h n of
        (h, Inl e) \<Rightarrow> alloc_many h ns
      | (h, Inr k) \<Rightarrow> (case alloc_many h ns of (h, ks) \<Rightarrow> (h, k # ks)))"

definition heap_ready :: "Heap \<Rightarrow> bool" where
  "heap_ready h = (i_next h \<noteq> None \<and> heap_insert h = (\<lambda>k. True) \<and> heap_get h = (\<lambda>k. True))"

lemma alloc_init_ready:
  "heap_ready h \<Longrightarrow> \<exists>h'. alloc_init h = (h', Inr ()) \<and> heap_ready h' \<and> i_next h' = Some 0"
  by (auto simp: heap_ready_def alloc_init_def allocator_new_def)

lemma alloc_zero_ready:
  assumes "heap_ready h" and "i_next h = Some k" and "k < MAX_ALLOCS" and "n \<le> HEAP_MAX_ALLOC_SIZE"
  shows "alloc_zero h n = (h\<lparr>i_next := Some (k + 1)\<rparr>, Inr k)"
  using assms by (auto simp: heap_ready_def alloc_zero_def alloc_slice_def)

text \<open>
  The slots handed out between two calls of \<open>init\<close> are all different, and at most eight, whatever the
  kernel maps answer.
\<close>

lemma alloc_many_slots:
  "i_next h = Some k \<Longrightarrow> k \<le> MAX_ALLOCS \<Longrightarrow> alloc_many h ns = (h', ks) \<Longrightarrow>
     \<exists>m. unat k + m \<le> unat MAX_ALLOCS \<and> ks = map (\<lambda>i. k + of_nat i) [0..<m]"
proof (induction ns arbitrary: h k h' ks)
  case Nil
  then show ?case by (intro exI [of _ 0]) (simp add: word_le_nat_alt)
next
  case (Cons n ns)
  consider (fail) e where "alloc_zero h n = (h, Inl e)"
    | (ok) "alloc_zero h n = (h\<lparr>i_next := Some (k + 1)\<rparr>, Inr k)" "k < MAX_ALLOCS"
    using Cons.prems(1,2)
    by (cases "k = MAX_ALLOCS"; cases "heap_insert h k"; cases "heap_get h k"; cases "HEAP_MAX_ALLOC_SIZE < n")
      (auto simp: alloc_zero_def alloc_slice_def)
  then show ?case
  proof cases
    case fail
    then show ?thesis using Cons by simp
  next
    case ok
    then obtain ks' where ks: "alloc_many (h\<lparr>i_next := Some (k + 1)\<rparr>) ns = (h', ks')" "ks = k # ks'"
      using Cons.prems(3) by (auto split: prod.splits)
    have u: "unat (k + 1) = Suc (unat k)" "k + 1 \<le> MAX_ALLOCS"
      using ok(2) by (auto simp: MAX_ALLOCS_def word_less_nat_alt word_le_nat_alt unat_word_ariths)
    then obtain m where m: "unat (k + 1) + m \<le> unat MAX_ALLOCS" "ks' = map (\<lambda>i. k + 1 + of_nat i) [0..<m]"
      using Cons.IH [OF _ u(2) ks(1)] by auto
    have "ks = map (\<lambda>i. k + of_nat i) [0..<Suc m]"
      unfolding ks(2) m(2) upt_conv_Cons [OF zero_less_Suc] map_Suc_upt [symmetric]
      by (simp add: ac_simps)
    then show ?thesis using m(1) u(1) by (intro exI [of _ "Suc m"]) simp
  qed
qed

text \<open>
  Between two calls of \<open>init\<close>, the allocator never hands out a slot twice, and at most eight of
  them. Two buffers that a program holds therefore never share memory.
\<close>

theorem alloc_distinct:
  assumes "alloc_init h = (h0, Inr u)" and "alloc_many h0 sizes = (h', slots)"
  shows "distinct slots \<and> length slots \<le> 8"
proof -
  have 0: "i_next h0 = Some 0"
    using assms(1) by (auto simp: alloc_init_def allocator_new_def split: option.splits)
  obtain m where m: "m \<le> 8" "slots = map (\<lambda>i. 0 + of_nat i) [0..<m]"
    using alloc_many_slots [OF 0 _ assms(2)] by (auto simp: MAX_ALLOCS_def)
  have "inj_on (\<lambda>i. 0 + of_nat i :: u32) {0..<m}"
    using m(1) by (intro inj_onI) (simp add: word_unat_eq_iff unat_of_nat take_bit_nat_eq_self)
  then show ?thesis using m by (simp add: distinct_map)
qed

definition fresh_heap :: Heap where
  "fresh_heap = \<lparr>i_next = Some 3, heap_insert = (\<lambda>k. True), heap_get = (\<lambda>k. True)\<rparr>"

lemma alloc_distinct_witness:
  "snd (alloc_many (fst (alloc_init fresh_heap)) [100, 30000, 200]) = [0, 1]
     \<and> distinct [0 :: u32, 1]"
proof -
  have 1: "alloc_init fresh_heap = (fresh_heap\<lparr>i_next := Some 0\<rparr>, Inr ())"
    by (simp add: alloc_init_def allocator_new_def fresh_heap_def)
  have 2: "alloc_many (fresh_heap\<lparr>i_next := Some 0\<rparr>) [100, 30000, 200]
      = (fresh_heap\<lparr>i_next := Some 2\<rparr>, [0, 1])"
    by (simp add: alloc_zero_def alloc_slice_def fresh_heap_def MAX_ALLOCS_def HEAP_MAX_ALLOC_SIZE_def)
  show ?thesis using 1 2 alloc_distinct [OF 1 2] by simp
qed

end
