(* ===== verification/Hooks.thy ===== *)
theory Hooks
  imports KernelMaps PathWalk Classify Alloc
begin

text \<open>
  The enforcement programs of \<open>ebpf-mon-ebpf/src/enforcement.rs\<close>: the three LSM hooks
  \<open>enforce_file_open\<close>, \<open>enforce_bprm_check\<close> and \<open>enforce_socket_connect\<close>.

  A hook reads the cgroup id of the current task, the object it is asked about, and the maps, and
  answers 0 (let the operation pass) or -1 (EPERM). It may emit audit events. What the CO-RE reads
  deliver is a parameter (\<open>None\<close> for a read that fails), as are the kernel objects of \<open>KernelFs\<close>.
\<close>

record AuditEvent =
  ae_cgroup_id :: u64
  ae_path_hash :: u64
  ae_pattern :: u8
  ae_action :: u8
  ae_verdict :: u8

type_synonym Outcome = "int \<times> AuditEvent list"

text \<open>A file as the hooks reach it: what \<open>core_resolve_file\<close> reads, and \<open>f_flags\<close>.\<close>

record KFile =
  kf_path :: "(u64 option \<times> u64 option) option option option"
  kf_flags :: "u32 option"

record Task =
  ts_cgroup_id :: "u64 option"
  ts_ns_tgid :: "u32 option"

definition SIZE_OF_PATH :: nat where "SIZE_OF_PATH = 1136"

definition requested_access :: "KFile \<Rightarrow> u8" where
  "requested_access f =
     (let flags = (case kf_flags f of Some w \<Rightarrow> w | None \<Rightarrow> 0);
          m = flags AND O_ACCMODE
      in if m = 0 then ACCESS_READ
         else if m = 1 then ACCESS_WRITE
         else ACCESS_READ OR ACCESS_WRITE)"

definition verdict_to_rc :: "u8 \<Rightarrow> int" where
  "verdict_to_rc v = (if v = 0 then -1 else if v = 1 then 0 else 0)"

definition emit_audit :: "u64 \<Rightarrow> u64 \<Rightarrow> u8 \<Rightarrow> u8 \<Rightarrow> u8 \<Rightarrow> AuditEvent" where
  "emit_audit cgid path_hash pattern act verdict =
     \<lparr>ae_cgroup_id = cgid, ae_path_hash = path_hash, ae_pattern = pattern, ae_action = act,
      ae_verdict = verdict\<rparr>"

text \<open>A matched verdict, and the end of every hook when nothing matched.\<close>

definition matched :: "PolicyConfig \<Rightarrow> u64 \<Rightarrow> u64 \<Rightarrow> u8 \<Rightarrow> u8 \<Rightarrow> u8 \<Rightarrow> Outcome" where
  "matched config cgid path_hash pattern act v =
     (if pc_audit_only config \<noteq> 0 \<and> v = 0 then (0, [emit_audit cgid path_hash pattern act v])
      else (verdict_to_rc v, []))"

definition unmatched :: "PolicyConfig \<Rightarrow> u64 \<Rightarrow> u64 \<Rightarrow> u8 \<Rightarrow> Outcome" where
  "unmatched config cgid path_hash act =
     (if pc_default_action config = 0 then
        (if pc_audit_only config \<noteq> 0 then 0 else -1, [emit_audit cgid path_hash 0xFF act 0])
      else (0, []))"

section \<open>The prefix tier\<close>

definition MAX_PREFIX_SLOTS :: nat where "MAX_PREFIX_SLOTS = 64"

definition entry_matches :: "Path \<Rightarrow> PrefixEntry \<Rightarrow> bool" where
  "entry_matches p entry =
     (let (buf, start) = raw_buffer_and_offset p; plen = unat (pe_prefix_len entry) in
      plen > 0 \<and> plen \<le> path_len p \<and> plen \<le> PREFIX_MAX_LEN \<and>
      list_all (\<lambda>i. i \<ge> plen \<or>
          (i < path_len p \<and> buf ! ((start + i) mod MAX_PATH_LEN) = pe_prefix entry ! i))
        [0..<PREFIX_MAX_LEN])"

fun scan_slots ::
    "(u64 \<Rightarrow> PrefixEntry option) \<Rightarrow> u64 \<Rightarrow> Path \<Rightarrow> nat \<Rightarrow> u64 \<Rightarrow> PrefixEntry option" where
  "scan_slots get cgid p 0 slot = None"
| "scan_slots get cgid p (Suc n) slot =
     (case get (push_bit 8 cgid OR slot) of
        None \<Rightarrow> None
      | Some entry \<Rightarrow>
          if entry_matches p entry then Some entry else scan_slots get cgid p n (slot + 1))"

definition check_prefix_match ::
    "'s EnforcementMaps \<Rightarrow> 's \<Rightarrow> PolicyConfig \<Rightarrow> u64 \<Rightarrow> u64 \<Rightarrow> Path \<Rightarrow> Outcome option" where
  "check_prefix_match K s config cgid path_hash p =
     (if path_len p = 0 then None
      else map_option (\<lambda>entry. matched config cgid path_hash 0xFF 0 (pe_verdict entry))
        (scan_slots (mo_get (FILE_PREFIX_POLICY K) s) cgid p MAX_PREFIX_SLOTS 0))"

section \<open>security_file_open\<close>

text \<open>\<open>alloc::init\<close> and \<open>alloc_zero::<Path>\<close>: a zeroed buffer, if there is one.\<close>

definition alloc_path :: "Heap \<Rightarrow> Path option" where
  "alloc_path h =
     (case alloc_init h of
        (h, Inl e) \<Rightarrow> None
      | (h, Inr _) \<Rightarrow> (case alloc_zero h SIZE_OF_PATH of (h, Inl e) \<Rightarrow> None | (h, Inr k) \<Rightarrow> Some default_path))"

definition path_class :: "Path \<Rightarrow> Task \<Rightarrow> PathPattern" where
  "path_class p ts =
     fst (classify_path (to_classify_buffer p) (case ts_ns_tgid ts of Some t \<Rightarrow> t | None \<Rightarrow> 0))"

definition file_tiers ::
    "'s EnforcementMaps \<Rightarrow> 's \<Rightarrow> PolicyConfig \<Rightarrow> u64 \<Rightarrow> Task \<Rightarrow> KFile \<Rightarrow> Path \<Rightarrow> Outcome" where
  "file_tiers K s config cgid ts f p =
     (let path_hash = hash_path p in
      case mo_get (FILE_PATH_POLICY K) s \<lparr>pk_cgroup_id = cgid, pk_path_hash = path_hash\<rparr> of
        Some allow_mask \<Rightarrow>
          (let req = requested_access f in
           if allow_mask \<noteq> 0 \<and> allow_mask AND req = req then (0, [])
           else (if pc_audit_only config \<noteq> 0 then 0 else -1,
                 [emit_audit cgid path_hash (pattern_u8 Regular) 0 0]))
      | None \<Rightarrow>
          (let pattern = path_class p ts in
           case (if pattern \<noteq> Regular
                 then mo_get (FILE_PATTERN_POLICY K) s
                   \<lparr>tk_cgroup_id = cgid, tk_pattern = pattern_u8 pattern, tk_action = 0\<rparr>
                 else None) of
             Some v \<Rightarrow> matched config cgid path_hash (pattern_u8 pattern) 0 v
           | None \<Rightarrow>
               (case check_prefix_match K s config cgid path_hash p of
                  Some rc \<Rightarrow> rc
                | None \<Rightarrow> unmatched config cgid path_hash 0)))"

definition enforce_file_open ::
    "'s EnforcementMaps \<Rightarrow> 's \<Rightarrow> KernelFs \<Rightarrow> Heap \<Rightarrow> Task \<Rightarrow> KFile \<Rightarrow> Outcome" where
  "enforce_file_open K s k h ts f =
     (case ts_cgroup_id ts of
        None \<Rightarrow> (0, [])
      | Some cgid \<Rightarrow>
          (case mo_get (POLICY_CGROUPS K) s cgid of
             None \<Rightarrow> (0, [])
           | Some config \<Rightarrow>
               (case alloc_path h of
                  None \<Rightarrow> (0, [])
                | Some path_buf \<Rightarrow>
                    file_tiers K s config cgid ts f
                      (fst (core_resolve_file k path_buf (kf_path f) MAX_PATH_DEPTH)))))"

section \<open>security_bprm_check_security\<close>

definition exec_tiers ::
    "'s EnforcementMaps \<Rightarrow> 's \<Rightarrow> PolicyConfig \<Rightarrow> u64 \<Rightarrow> Task \<Rightarrow> Path \<Rightarrow> Outcome" where
  "exec_tiers K s config cgid ts p =
     (let path_hash = hash_path p in
      case mo_get (EXEC_PATH_POLICY K) s \<lparr>pk_cgroup_id = cgid, pk_path_hash = path_hash\<rparr> of
        Some v \<Rightarrow> matched config cgid path_hash 0 5 v
      | None \<Rightarrow>
          (let pattern = path_class p ts in
           case (if pattern \<noteq> Regular
                 then mo_get (EXEC_PATTERN_POLICY K) s
                   \<lparr>tk_cgroup_id = cgid, tk_pattern = pattern_u8 pattern, tk_action = 5\<rparr>
                 else None) of
             Some v \<Rightarrow> matched config cgid path_hash (pattern_u8 pattern) 5 v
           | None \<Rightarrow> unmatched config cgid path_hash 5))"

definition enforce_bprm_check ::
    "'s EnforcementMaps \<Rightarrow> 's \<Rightarrow> KernelFs \<Rightarrow> Heap \<Rightarrow> Task \<Rightarrow> KFile option \<Rightarrow> Outcome" where
  "enforce_bprm_check K s k h ts bprm_file =
     (case ts_cgroup_id ts of
        None \<Rightarrow> (0, [])
      | Some cgid \<Rightarrow>
          (case mo_get (POLICY_CGROUPS K) s cgid of
             None \<Rightarrow> (0, [])
           | Some config \<Rightarrow>
               (case bprm_file of
                  None \<Rightarrow> (0, [])
                | Some f \<Rightarrow>
                    (case alloc_path h of
                       None \<Rightarrow> (0, [])
                     | Some path_buf \<Rightarrow>
                         exec_tiers K s config cgid ts
                           (fst (core_resolve_file k path_buf (kf_path f) MAX_PATH_DEPTH))))))"

section \<open>security_socket_connect\<close>

definition AF_INET :: u32 where "AF_INET = 2"

record SockAddr =
  sa_family :: "u32 option"
  sa_s_addr :: "u32 option"
  sa_sin_port :: "u16 option"

text \<open>\<open>u16::from_be\<close> on a little-endian machine.\<close>

definition u16_from_be :: "u16 \<Rightarrow> u16" where
  "u16_from_be w = push_bit 8 w OR drop_bit 8 w"

definition net_id :: "u32 \<Rightarrow> u32 \<Rightarrow> u64" where
  "net_id dst_ip dst_port = push_bit 32 (ucast dst_ip) OR ucast dst_port"

definition connect_tiers ::
    "'s EnforcementMaps \<Rightarrow> 's \<Rightarrow> PolicyConfig \<Rightarrow> u64 \<Rightarrow> u32 \<Rightarrow> u32 \<Rightarrow> Outcome" where
  "connect_tiers K s config cgid dst_ip dst_port =
     (case mo_get (NET_CONNECT_POLICY K) s
        \<lparr>nk_cgroup_id = cgid, nk_dst_ip = dst_ip, nk_dst_port = dst_port, nk_protocol = 0\<rparr> of
        Some v \<Rightarrow> matched config cgid (net_id dst_ip dst_port) 0 3 v
      | None \<Rightarrow>
          (case mo_get (NET_CONNECT_POLICY K) s
             \<lparr>nk_cgroup_id = cgid, nk_dst_ip = dst_ip, nk_dst_port = 0, nk_protocol = 0\<rparr> of
             Some v \<Rightarrow> matched config cgid (net_id dst_ip dst_port) 0 3 v
           | None \<Rightarrow> unmatched config cgid (net_id dst_ip dst_port) 3))"

definition enforce_socket_connect ::
    "'s EnforcementMaps \<Rightarrow> 's \<Rightarrow> Task \<Rightarrow> SockAddr \<Rightarrow> Outcome" where
  "enforce_socket_connect K s ts addr =
     (case ts_cgroup_id ts of
        None \<Rightarrow> (0, [])
      | Some cgid \<Rightarrow>
          (case mo_get (POLICY_CGROUPS K) s cgid of
             None \<Rightarrow> (0, [])
           | Some config \<Rightarrow>
               (case sa_family addr of
                  None \<Rightarrow> (0, [])
                | Some family \<Rightarrow>
                    if family \<noteq> AF_INET then (0, [])
                    else case sa_s_addr addr of
                        None \<Rightarrow> (0, [])
                      | Some dst_ip \<Rightarrow>
                          (case sa_sin_port addr of
                             None \<Rightarrow> (0, [])
                           | Some p \<Rightarrow>
                               connect_tiers K s config cgid dst_ip (ucast (u16_from_be p))))))"

end
