(* ===== verification/Loader.thy ===== *)
theory Loader
  imports PolicyIR KernelMaps
begin

text \<open>
  The policy loader of \<open>ebpf-mon/src/enforcement.rs\<close>: \<open>load_policy\<close>, \<open>bind\<close>, \<open>rebind\<close> and
  \<open>apply_rules\<close>, which writes a compiled policy into the enforcement maps for one cgroup.

  Every map operation may fail, and the loader returns at the first failure with what it has
  written so far left in the maps, so an operation answers a new kernel state together with an
  error or a result (\<open>bind_io\<close>, \<open>fold_io\<close> of the prelude).

  \<open>load_tables\<close> is the abstract specification: for each map, the entry under each key as a function
  of the rules and of the entry that was there. The loader is shown to refine it (C20), to return
  when there is room (C21), and to move a policy to a new cgroup (C22).
\<close>

section \<open>The keys and values that the loader writes\<close>

record PolicyStats =
  cgroups_configured :: nat
  path_rules :: nat
  pattern_rules :: nat
  prefix_rules :: nat
  exec_path_rules :: nat
  net_rules :: nat
  skipped_prefix :: nat
  skipped_non_file :: nat

definition default_stats :: PolicyStats where
  "default_stats = \<lparr>cgroups_configured = 0, path_rules = 0, pattern_rules = 0, prefix_rules = 0,
     exec_path_rules = 0, net_rules = 0, skipped_prefix = 0, skipped_non_file = 0\<rparr>"

primrec verdict_to_u8 :: "Verdict \<Rightarrow> u8" where
  "verdict_to_u8 Deny = 0"
| "verdict_to_u8 Allow = 1"
| "verdict_to_u8 Audit = 2"

definition net_policy_key :: "u64 \<Rightarrow> NetworkObject \<Rightarrow> NetPolicyKey" where
  "net_policy_key cgid net_obj =
     \<lparr>nk_cgroup_id = cgid,
      nk_dst_ip = (case no_dst_ip net_obj of Some ip \<Rightarrow> ip | None \<Rightarrow> 0),
      nk_dst_port = (case no_dst_port net_obj of Some port \<Rightarrow> port | None \<Rightarrow> 0),
      nk_protocol = 0\<rparr>"

definition path_key :: "u64 \<Rightarrow> string \<Rightarrow> PathPolicyKey" where
  "path_key cgid path = \<lparr>pk_cgroup_id = cgid, pk_path_hash = fnv1a_hash_bytes path\<rparr>"

definition open_key :: "u64 \<Rightarrow> PathPattern \<Rightarrow> PatternKey" where
  "open_key cgid c = \<lparr>tk_cgroup_id = cgid, tk_pattern = pattern_u8 c, tk_action = 0\<rparr>"

definition slot_key :: "u64 \<Rightarrow> u64 \<Rightarrow> u64" where
  "slot_key cgid slot = push_bit 8 cgid OR slot"

text \<open>The bytes of a prefix that fit, padded with NUL bytes.\<close>

definition prefix_entry :: "string \<Rightarrow> u8 \<Rightarrow> PrefixEntry" where
  "prefix_entry pre verdict_val =
     (let copy_len = min (length pre) PREFIX_MAX_LEN
      in \<lparr>pe_prefix = take copy_len pre @ replicate (PREFIX_MAX_LEN - copy_len) nul,
          pe_prefix_len = of_nat copy_len, pe_verdict = verdict_val\<rparr>)"

section \<open>apply_rules\<close>

definition access_bit :: "Action \<Rightarrow> u8" where
  "access_bit action = (case action of FileWrite \<Rightarrow> ACCESS_WRITE | _ \<Rightarrow> ACCESS_READ)"

definition apply_file_rule ::
    "'s EnforcementMaps \<Rightarrow> u64 \<Rightarrow> 's \<Rightarrow> PolicyStats \<times> u64 \<Rightarrow> BehaviorRule \<Rightarrow> FilePattern
      \<Rightarrow> 's \<times> (MapError + PolicyStats \<times> u64)" where
  "apply_file_rule K cgid s acc rule pattern =
     (case acc of (stats, prefix_slot) \<Rightarrow>
      case pattern of
        ExactPath path \<Rightarrow>
          (let key = path_key cgid path;
               bit = access_bit (r_action rule);
               new_val = (if r_verdict rule = Allow
                          then (case mo_get (FILE_PATH_POLICY K) s key of Some v \<Rightarrow> v | None \<Rightarrow> 0) OR bit
                          else 0)
           in bind_io (mo_insert (FILE_PATH_POLICY K) s key new_val)
                (\<lambda>s _. (s, Inr (path_rules_update Suc stats, prefix_slot))))
      | Classified c \<Rightarrow>
          bind_io (mo_insert (FILE_PATTERN_POLICY K) s (open_key cgid c) (verdict_to_u8 (r_verdict rule)))
            (\<lambda>s _. (s, Inr (pattern_rules_update Suc stats, prefix_slot)))
      | Prefix pre \<Rightarrow>
          (if prefix_slot < 64 then
             bind_io (mo_insert (FILE_PREFIX_POLICY K) s (slot_key cgid prefix_slot)
                        (prefix_entry pre (verdict_to_u8 (r_verdict rule))))
               (\<lambda>s _. (s, Inr (prefix_rules_update Suc stats, prefix_slot + 1)))
           else (s, Inr (skipped_prefix_update Suc stats, prefix_slot))))"

definition apply_rule ::
    "'s EnforcementMaps \<Rightarrow> u64 \<Rightarrow> 's \<Rightarrow> PolicyStats \<times> u64 \<Rightarrow> BehaviorRule
      \<Rightarrow> 's \<times> (MapError + PolicyStats \<times> u64)" where
  "apply_rule K cgid s acc rule =
     (case acc of (stats, prefix_slot) \<Rightarrow>
      let verdict_val = verdict_to_u8 (r_verdict rule);
          skip = (s, Inr (skipped_non_file_update Suc stats, prefix_slot))
      in case (r_object rule, r_action rule) of
        (File file_obj, FileOpen) \<Rightarrow> apply_file_rule K cgid s acc rule (fo_pattern file_obj)
      | (File file_obj, FileRead) \<Rightarrow> apply_file_rule K cgid s acc rule (fo_pattern file_obj)
      | (File file_obj, FileWrite) \<Rightarrow> apply_file_rule K cgid s acc rule (fo_pattern file_obj)
      | (Process proc_obj, ProcExec) \<Rightarrow>
          (case po_binary proc_obj of
             Path path \<Rightarrow>
               bind_io (mo_insert (EXEC_PATH_POLICY K) s (path_key cgid path) verdict_val)
                 (\<lambda>s _. (s, Inr (exec_path_rules_update Suc stats, prefix_slot)))
           | Comm _ \<Rightarrow> skip)
      | (Network net_obj, NetConnect) \<Rightarrow>
          (if no_dst_ip net_obj \<noteq> None then
             bind_io (mo_insert (NET_CONNECT_POLICY K) s (net_policy_key cgid net_obj) verdict_val)
               (\<lambda>s _. (s, Inr (net_rules_update Suc stats, prefix_slot)))
           else skip)
      | _ \<Rightarrow> skip)"

definition category_groups :: "PathPattern list list" where
  "category_groups =
     [[ProcGlobal, ProcGlobalSys, ProcGlobalNet],
      [ProcPidCmdline, ProcPidComm, ProcPidCwd, ProcPidExe, ProcPidFd, ProcPidMountinfo,
       ProcPidMounts, ProcPidNet, ProcPidNs, ProcPidStat, ProcPidStatus, ProcPidTask,
       ProcPidCgroup, ProcPidOther, ProcSelf],
      [SysCgroupDocker, SysCgroupOther, SysClassNet, SysOther],
      [RunDocker, RunUser, RunOther],
      [DevPts, DevShm, DevOther],
      [TmpRandom, TmpOther]]"

definition expand_pattern ::
    "'s EnforcementMaps \<Rightarrow> u64 \<Rightarrow> 's \<Rightarrow> PolicyStats \<Rightarrow> PathPattern \<Rightarrow> 's \<times> (MapError + PolicyStats)" where
  "expand_pattern K cgid s stats pat =
     (if mo_get (FILE_PATTERN_POLICY K) s (open_key cgid pat) = None then
        bind_io (mo_insert (FILE_PATTERN_POLICY K) s (open_key cgid pat) 1)
          (\<lambda>s _. (s, Inr (pattern_rules_update Suc stats)))
      else (s, Inr stats))"

definition expand_group ::
    "'s EnforcementMaps \<Rightarrow> u64 \<Rightarrow> 's \<Rightarrow> PolicyStats \<Rightarrow> PathPattern list \<Rightarrow> 's \<times> (MapError + PolicyStats)" where
  "expand_group K cgid s stats pats =
     (let any_present = list_ex (\<lambda>pat. mo_get (FILE_PATTERN_POLICY K) s (open_key cgid pat) \<noteq> None) pats
      in if any_present then fold_io (expand_pattern K cgid) s stats pats else (s, Inr stats))"

definition apply_rules ::
    "'s EnforcementMaps \<Rightarrow> u64 \<Rightarrow> bool \<Rightarrow> BehaviorRule list \<Rightarrow> bool \<Rightarrow> 's \<Rightarrow> 's \<times> (MapError + PolicyStats)" where
  "apply_rules K cgid audit_only rules skb_cgid s =
     (let config = \<lparr>pc_default_action = 0, pc_audit_only = (if audit_only then 1 else 0)\<rparr>
      in bind_io (mo_insert (POLICY_CGROUPS K) s cgid config) (\<lambda>s _.
         let stats = cgroups_configured_update Suc default_stats
         in bind_io (if skb_cgid then mo_insert (SKB_ENFORCE_CGID K) s 0 cgid else (s, Inr ())) (\<lambda>s _.
         bind_io (fold_io (apply_rule K cgid) s (stats, 0) rules) (\<lambda>s (stats, prefix_slot).
         fold_io (expand_group K cgid) s stats category_groups))))"

section \<open>load_policy, bind and rebind\<close>

record LoadedPolicy =
  lp_audit_only :: bool
  lp_rules :: "BehaviorRule list"
  lp_stats :: PolicyStats
  lp_skb_cgid :: bool

datatype LoadError = MapNotFound string | MapFailure MapError

definition bind_policy ::
    "'s EnforcementMaps \<Rightarrow> LoadedPolicy \<Rightarrow> u64 \<Rightarrow> 's \<Rightarrow> 's \<times> (MapError + PolicyStats)" where
  "bind_policy K lp cgid s = apply_rules K cgid (lp_audit_only lp) (lp_rules lp) (lp_skb_cgid lp) s"

text \<open>
  \<open>ebpf\<close> holds the names of the maps that have not been taken yet. The result says which required map
  was missing, if one was.
\<close>

fun take_maps :: "string list \<Rightarrow> string list \<Rightarrow> string list \<times> string option" where
  "take_maps ebpf [] = (ebpf, None)"
| "take_maps ebpf (n # ns) =
     (if n \<in> set ebpf then take_maps (removeAll n ebpf) ns else (ebpf, Some n))"

definition load_policy ::
    "'s EnforcementMaps \<Rightarrow> bool \<Rightarrow> string list \<Rightarrow> BehaviorRule list \<Rightarrow> u64 \<Rightarrow> 's
      \<Rightarrow> string list \<times> 's \<times> (LoadError + LoadedPolicy)" where
  "load_policy K audit_only ebpf rules cgid s =
     (case take_maps ebpf [''POLICY_CGROUPS''] of
        (ebpf, Some n) \<Rightarrow> (ebpf, s, Inl (MapNotFound n))
      | (ebpf, None) \<Rightarrow>
          (let skb_cgid = (''SKB_ENFORCE_CGID'' \<in> set ebpf) in
           case take_maps (removeAll ''SKB_ENFORCE_CGID'' ebpf)
               [''FILE_PATH_POLICY'', ''FILE_PATTERN_POLICY'', ''FILE_PREFIX_POLICY'',
                ''EXEC_PATH_POLICY'', ''EXEC_PATTERN_POLICY'', ''NET_CONNECT_POLICY''] of
             (ebpf, Some n) \<Rightarrow> (ebpf, s, Inl (MapNotFound n))
           | (ebpf, None) \<Rightarrow>
               (let loaded = \<lparr>lp_audit_only = audit_only, lp_rules = rules, lp_stats = default_stats,
                      lp_skb_cgid = skb_cgid\<rparr>
                in case bind_policy K loaded cgid s of
                     (s, Inl e) \<Rightarrow> (ebpf, s, Inl (MapFailure e))
                   | (s, Inr stats) \<Rightarrow> (ebpf, s, Inr (loaded\<lparr>lp_stats := stats\<rparr>)))))"

definition rebind ::
    "'s EnforcementMaps \<Rightarrow> LoadedPolicy \<Rightarrow> u64 \<Rightarrow> u64 \<Rightarrow> 's \<Rightarrow> LoadedPolicy \<times> 's \<times> (MapError + unit)" where
  "rebind K lp old_cgid new_cgid s =
     (case bind_policy K lp new_cgid s of
        (s, Inl e) \<Rightarrow> (lp, s, Inl e)
      | (s, Inr stats) \<Rightarrow>
          (case mo_remove (POLICY_CGROUPS K) s old_cgid of (s, _) \<Rightarrow>
             (lp\<lparr>lp_stats := default_stats\<lparr>cgroups_configured := 1\<rparr>\<rparr>, s, Inr ())))"

section \<open>What a loaded policy looks like\<close>

text \<open>The part of a rule that each map is concerned with.\<close>

definition rule_pattern :: "BehaviorRule \<Rightarrow> FilePattern option" where
  "rule_pattern r =
     (case r_object r of
        File fo \<Rightarrow> if r_action r = FileOpen \<or> r_action r = FileRead \<or> r_action r = FileWrite
                  then Some (fo_pattern fo) else None
      | _ \<Rightarrow> None)"

definition exact_hash :: "BehaviorRule \<Rightarrow> u64 option" where
  "exact_hash r =
     (case rule_pattern r of Some (ExactPath p) \<Rightarrow> Some (fnv1a_hash_bytes p) | _ \<Rightarrow> None)"

definition rule_class :: "BehaviorRule \<Rightarrow> PathPattern option" where
  "rule_class r = (case rule_pattern r of Some (Classified c) \<Rightarrow> Some c | _ \<Rightarrow> None)"

definition rule_prefix :: "BehaviorRule \<Rightarrow> string option" where
  "rule_prefix r = (case rule_pattern r of Some (Prefix p) \<Rightarrow> Some p | _ \<Rightarrow> None)"

definition exec_hash :: "BehaviorRule \<Rightarrow> u64 option" where
  "exec_hash r =
     (case r_object r of
        Process po \<Rightarrow> if r_action r = ProcExec
          then (case po_binary po of Path p \<Rightarrow> Some (fnv1a_hash_bytes p) | Comm _ \<Rightarrow> None) else None
      | _ \<Rightarrow> None)"

definition connect_to :: "BehaviorRule \<Rightarrow> (u32 \<times> u32) option" where
  "connect_to r =
     (case r_object r of
        Network n \<Rightarrow> if r_action r = NetConnect
          then map_option (\<lambda>ip. (ip, case no_dst_port n of Some port \<Rightarrow> port | None \<Rightarrow> 0)) (no_dst_ip n)
          else None
      | _ \<Rightarrow> None)"

text \<open>Access masks accumulate until a rule that does not allow clears them; verdicts are overwritten.\<close>

definition mask_step :: "u8 \<Rightarrow> BehaviorRule \<Rightarrow> u8" where
  "mask_step m r = (if r_verdict r = Allow then m OR access_bit (r_action r) else 0)"

definition mask_of :: "u8 option \<Rightarrow> BehaviorRule list \<Rightarrow> u8 option" where
  "mask_of old rs =
     (if rs = [] then old else Some (foldl mask_step (case old of Some v \<Rightarrow> v | None \<Rightarrow> 0) rs))"

definition wanted_verdict :: "u8 option \<Rightarrow> BehaviorRule list \<Rightarrow> u8 option" where
  "wanted_verdict old rs = (if rs = [] then old else Some (verdict_to_u8 (r_verdict (last rs))))"

definition rule_prefix_entry :: "BehaviorRule \<Rightarrow> PrefixEntry option" where
  "rule_prefix_entry r = map_option (\<lambda>p. prefix_entry p (verdict_to_u8 (r_verdict r))) (rule_prefix r)"

definition prefix_slots :: "BehaviorRule list \<Rightarrow> PrefixEntry list" where
  "prefix_slots rules = take 64 (List.map_filter rule_prefix_entry rules)"

definition prefix_table ::
    "u64 \<Rightarrow> PrefixEntry list \<Rightarrow> (u64 \<Rightarrow> PrefixEntry option) \<Rightarrow> u64 \<Rightarrow> PrefixEntry option" where
  "prefix_table cgid es old =
     foldl (\<lambda>m (i, e). m(slot_key cgid (of_nat i) \<mapsto> e)) old (enumerate 0 es)"

definition config_tables :: "u64 \<Rightarrow> bool \<Rightarrow> bool \<Rightarrow> Tables \<Rightarrow> Tables" where
  "config_tables cgid audit_only skb T =
     T\<lparr>t_cgroups := (t_cgroups T)(cgid \<mapsto>
          \<lparr>pc_default_action = 0, pc_audit_only = (if audit_only then 1 else 0)\<rparr>),
       t_skb := (if skb then (t_skb T)(0 \<mapsto> cgid) else t_skb T)\<rparr>"

definition rules_tables :: "u64 \<Rightarrow> BehaviorRule list \<Rightarrow> Tables \<Rightarrow> Tables" where
  "rules_tables cgid rules T =
     T\<lparr>t_paths := (\<lambda>k. if pk_cgroup_id k = cgid
          then mask_of (t_paths T k) (filter (\<lambda>r. exact_hash r = Some (pk_path_hash k)) rules)
          else t_paths T k),
       t_patterns := (\<lambda>k. if tk_cgroup_id k = cgid \<and> tk_action k = 0
          then wanted_verdict (t_patterns T k)
            (filter (\<lambda>r. map_option pattern_u8 (rule_class r) = Some (tk_pattern k)) rules)
          else t_patterns T k),
       t_prefixes := prefix_table cgid (prefix_slots rules) (t_prefixes T),
       t_exec := (\<lambda>k. if pk_cgroup_id k = cgid
          then wanted_verdict (t_exec T k) (filter (\<lambda>r. exec_hash r = Some (pk_path_hash k)) rules)
          else t_exec T k),
       t_net := (\<lambda>k. if nk_cgroup_id k = cgid \<and> nk_protocol k = 0
          then wanted_verdict (t_net T k)
            (filter (\<lambda>r. connect_to r = Some (nk_dst_ip k, nk_dst_port k)) rules)
          else t_net T k)\<rparr>"

text \<open>A class without a verdict of its own is allowed if a class of its category has an entry.\<close>

definition has_sibling :: "(PathPattern \<Rightarrow> bool) \<Rightarrow> PathPattern \<Rightarrow> bool" where
  "has_sibling present c = list_ex (\<lambda>g. c \<in> set g \<and> list_ex present g) category_groups"

definition expand_tables :: "u64 \<Rightarrow> PathPattern list list \<Rightarrow> Tables \<Rightarrow> Tables" where
  "expand_tables cgid groups T =
     T\<lparr>t_patterns := (\<lambda>k. if t_patterns T k = None
          \<and> (\<exists>g \<in> set groups. \<exists>c \<in> set g. k = open_key cgid c
               \<and> (\<exists>d \<in> set g. t_patterns T (open_key cgid d) \<noteq> None))
        then Some 1 else t_patterns T k)\<rparr>"

definition load_tables :: "u64 \<Rightarrow> bool \<Rightarrow> bool \<Rightarrow> BehaviorRule list \<Rightarrow> Tables \<Rightarrow> Tables" where
  "load_tables cgid audit_only skb rules T =
     expand_tables cgid category_groups (rules_tables cgid rules (config_tables cgid audit_only skb T))"

section \<open>The loader refines it\<close>

lemma mask_of_simps [simp]:
  "mask_of old [] = old"
  "mask_of old (rs @ [r]) = Some (mask_step (case mask_of old rs of Some v \<Rightarrow> v | None \<Rightarrow> 0) r)"
  by (simp_all add: mask_of_def)

lemma verdict_of_simps [simp]:
  "wanted_verdict old [] = old"
  "wanted_verdict old (rs @ [r]) = Some (verdict_to_u8 (r_verdict r))"
  by (simp_all add: wanted_verdict_def)

lemma prefix_slots_snoc:
  "prefix_slots (rules @ [r]) =
     (case rule_prefix_entry r of
        Some e \<Rightarrow> if length (prefix_slots rules) < 64 then prefix_slots rules @ [e] else prefix_slots rules
      | None \<Rightarrow> prefix_slots rules)"
  by (auto simp: prefix_slots_def map_filter_def split: option.splits)

lemma prefix_table_snoc:
  "prefix_table cgid (es @ [e]) old =
     (prefix_table cgid es old)(slot_key cgid (of_nat (length es)) \<mapsto> e)"
  by (simp add: prefix_table_def enumerate_append_eq)

lemma length_prefix_slots: "length (prefix_slots rules) \<le> 64"
  by (simp add: prefix_slots_def)

lemma rules_tables_Nil [simp]: "rules_tables cgid [] T = T"
  by (simp add: rules_tables_def prefix_slots_def prefix_table_def map_filter_def cong: if_cong)

lemmas rule_parts = rule_pattern_def exact_hash_def rule_class_def rule_prefix_def exec_hash_def
  connect_to_def rule_prefix_entry_def

lemma key_eq_iff:
  "pk = path_key cgid p \<longleftrightarrow> pk_cgroup_id pk = cgid \<and> pk_path_hash pk = fnv1a_hash_bytes p"
  "tk = open_key cgid c \<longleftrightarrow> tk_cgroup_id tk = cgid \<and> tk_pattern tk = pattern_u8 c \<and> tk_action tk = 0"
  "nk = net_policy_key cgid n \<longleftrightarrow> nk_cgroup_id nk = cgid \<and> nk_protocol nk = 0
     \<and> nk_dst_ip nk = (case no_dst_ip n of Some ip \<Rightarrow> ip | None \<Rightarrow> 0)
     \<and> nk_dst_port nk = (case no_dst_port n of Some port \<Rightarrow> port | None \<Rightarrow> 0)"
  by (cases pk; cases tk; cases nk; auto simp: path_key_def open_key_def net_policy_key_def)+

lemma key_fields [simp]:
  "pk_cgroup_id (path_key cgid p) = cgid" "pk_path_hash (path_key cgid p) = fnv1a_hash_bytes p"
  "tk_cgroup_id (open_key cgid c) = cgid" "tk_pattern (open_key cgid c) = pattern_u8 c"
  "tk_action (open_key cgid c) = 0"
  "nk_cgroup_id (net_policy_key cgid n) = cgid" "nk_protocol (net_policy_key cgid n) = 0"
  "nk_dst_ip (net_policy_key cgid n) = (case no_dst_ip n of Some ip \<Rightarrow> ip | None \<Rightarrow> 0)"
  "nk_dst_port (net_policy_key cgid n) = (case no_dst_port n of Some port \<Rightarrow> port | None \<Rightarrow> 0)"
  by (simp_all add: path_key_def open_key_def net_policy_key_def)

lemma rules_tables_exact:
  assumes "rule_pattern r = Some (ExactPath p)"
  shows "rules_tables cgid (rs @ [r]) T =
    (rules_tables cgid rs T)\<lparr>t_paths := (t_paths (rules_tables cgid rs T))(path_key cgid p \<mapsto>
       mask_step (case t_paths (rules_tables cgid rs T) (path_key cgid p) of Some v \<Rightarrow> v | None \<Rightarrow> 0) r)\<rparr>"
proof -
  have r: "exact_hash r = Some (fnv1a_hash_bytes p)" "rule_class r = None" "rule_prefix_entry r = None"
    "exec_hash r = None" "connect_to r = None"
    using assms by (auto simp: rule_parts split: Object.splits if_splits)
  have "t_paths (rules_tables cgid (rs @ [r]) T) k = ((t_paths (rules_tables cgid rs T))(path_key cgid p \<mapsto>
      mask_step (case t_paths (rules_tables cgid rs T) (path_key cgid p) of Some v \<Rightarrow> v | None \<Rightarrow> 0) r)) k" for k
    using key_eq_iff(1) [of k cgid p]
    by (cases "k = path_key cgid p") (auto simp: rules_tables_def r)
  then show ?thesis
    by (intro Tables.equality) (auto simp: rules_tables_def r prefix_slots_snoc cong: if_cong)
qed

lemma rules_tables_class:
  assumes "rule_pattern r = Some (Classified c)"
  shows "rules_tables cgid (rs @ [r]) T =
    (rules_tables cgid rs T)\<lparr>t_patterns := (t_patterns (rules_tables cgid rs T))(open_key cgid c \<mapsto>
       verdict_to_u8 (r_verdict r))\<rparr>"
proof -
  have r: "exact_hash r = None" "rule_class r = Some c" "rule_prefix_entry r = None"
    "exec_hash r = None" "connect_to r = None"
    using assms by (auto simp: rule_parts split: Object.splits if_splits)
  have "t_patterns (rules_tables cgid (rs @ [r]) T) k = ((t_patterns (rules_tables cgid rs T))
      (open_key cgid c \<mapsto> verdict_to_u8 (r_verdict r))) k" for k
    using key_eq_iff(2) [of k cgid c]
    by (cases "k = open_key cgid c") (auto simp: rules_tables_def r)
  then show ?thesis
    by (intro Tables.equality) (auto simp: rules_tables_def r prefix_slots_snoc cong: if_cong)
qed

lemma rules_tables_prefix:
  assumes "rule_pattern r = Some (Prefix p)"
  shows "rules_tables cgid (rs @ [r]) T =
    (if length (prefix_slots rs) < 64 then
       (rules_tables cgid rs T)\<lparr>t_prefixes := (t_prefixes (rules_tables cgid rs T))
          (slot_key cgid (of_nat (length (prefix_slots rs))) \<mapsto> prefix_entry p (verdict_to_u8 (r_verdict r)))\<rparr>
     else rules_tables cgid rs T)"
proof -
  have r: "exact_hash r = None" "rule_class r = None"
    "rule_prefix_entry r = Some (prefix_entry p (verdict_to_u8 (r_verdict r)))"
    "exec_hash r = None" "connect_to r = None"
    using assms by (auto simp: rule_parts split: Object.splits if_splits)
  show ?thesis
    by (auto intro!: Tables.equality simp: rules_tables_def r prefix_slots_snoc prefix_table_snoc cong: if_cong)
qed

lemma rules_tables_exec:
  assumes "exec_hash r = Some (fnv1a_hash_bytes p)"
  shows "rules_tables cgid (rs @ [r]) T =
    (rules_tables cgid rs T)\<lparr>t_exec := (t_exec (rules_tables cgid rs T))(path_key cgid p \<mapsto>
       verdict_to_u8 (r_verdict r))\<rparr>"
proof -
  have r: "exact_hash r = None" "rule_class r = None" "rule_prefix_entry r = None" "connect_to r = None"
    using assms by (auto simp: rule_parts split: Object.splits if_splits)
  have "t_exec (rules_tables cgid (rs @ [r]) T) k = ((t_exec (rules_tables cgid rs T))
      (path_key cgid p \<mapsto> verdict_to_u8 (r_verdict r))) k" for k
    using key_eq_iff(1) [of k cgid p] assms
    by (cases "k = path_key cgid p") (auto simp: rules_tables_def)
  then show ?thesis
    by (intro Tables.equality) (auto simp: rules_tables_def r prefix_slots_snoc cong: if_cong)
qed

lemma rules_tables_net:
  assumes "r_object r = Network n" and "r_action r = NetConnect" and "no_dst_ip n = Some ip"
  shows "rules_tables cgid (rs @ [r]) T =
    (rules_tables cgid rs T)\<lparr>t_net := (t_net (rules_tables cgid rs T))(net_policy_key cgid n \<mapsto>
       verdict_to_u8 (r_verdict r))\<rparr>"
proof -
  have r: "exact_hash r = None" "rule_class r = None" "rule_prefix_entry r = None" "exec_hash r = None"
    "connect_to r = Some (ip, case no_dst_port n of Some port \<Rightarrow> port | None \<Rightarrow> 0)"
    using assms by (auto simp: rule_parts)
  have "t_net (rules_tables cgid (rs @ [r]) T) k = ((t_net (rules_tables cgid rs T))
      (net_policy_key cgid n \<mapsto> verdict_to_u8 (r_verdict r))) k" for k
    using key_eq_iff(3) [of k cgid n] assms(3)
    by (cases "k = net_policy_key cgid n") (auto simp: rules_tables_def r)
  then show ?thesis
    by (intro Tables.equality) (auto simp: rules_tables_def r prefix_slots_snoc cong: if_cong)
qed

lemma rules_tables_skip:
  assumes "rule_pattern r = None" and "exec_hash r = None" and "connect_to r = None"
  shows "rules_tables cgid (rs @ [r]) T = rules_tables cgid rs T"
proof -
  have r: "exact_hash r = None" "rule_class r = None" "rule_prefix_entry r = None"
    using assms(1) by (auto simp: rule_parts)
  show ?thesis
    by (intro Tables.equality)
      (auto simp: rules_tables_def r assms prefix_slots_snoc cong: if_cong)
qed

lemma apply_rule_cases:
  "apply_rule K cgid s acc r =
     (case rule_pattern r of
        Some pat \<Rightarrow> apply_file_rule K cgid s acc r pat
      | None \<Rightarrow>
          (case r_object r of
             Process po \<Rightarrow>
               (case (r_action r, po_binary po) of
                  (ProcExec, Path path) \<Rightarrow>
                    bind_io (mo_insert (EXEC_PATH_POLICY K) s (path_key cgid path) (verdict_to_u8 (r_verdict r)))
                      (\<lambda>s _. (s, Inr (exec_path_rules_update Suc (fst acc), snd acc)))
                | _ \<Rightarrow> (s, Inr (skipped_non_file_update Suc (fst acc), snd acc)))
           | Network n \<Rightarrow>
               if r_action r = NetConnect \<and> no_dst_ip n \<noteq> None then
                 bind_io (mo_insert (NET_CONNECT_POLICY K) s (net_policy_key cgid n) (verdict_to_u8 (r_verdict r)))
                   (\<lambda>s _. (s, Inr (net_rules_update Suc (fst acc), snd acc)))
               else (s, Inr (skipped_non_file_update Suc (fst acc), snd acc))
           | File fo \<Rightarrow> (s, Inr (skipped_non_file_update Suc (fst acc), snd acc))))"
  by (cases acc; cases "r_object r"; cases "r_action r")
    (simp_all add: apply_rule_def rule_pattern_def Let_def split: BinaryRef.splits)

lemma exec_hash_Some:
  "exec_hash r = Some h \<longleftrightarrow>
     (\<exists>po p. r_object r = Process po \<and> po_binary po = Path p \<and> r_action r = ProcExec
        \<and> h = fnv1a_hash_bytes p)"
  by (auto simp: exec_hash_def split: Object.splits BinaryRef.splits)

context bpf_kernel
begin

lemma apply_file_rule_tables:
  assumes "apply_file_rule K cgid s (stats, of_nat (length (prefix_slots rs))) r pat = (s', Inr (stats', slot'))"
    and "rule_pattern r = Some pat" and "tables K s = rules_tables cgid rs T"
  shows "tables K s' = rules_tables cgid (rs @ [r]) T \<and> slot' = of_nat (length (prefix_slots (rs @ [r])))"
proof (cases pat)
  case (Classified c)
  then have "rule_prefix_entry r = None" using assms(2) by (simp add: rule_parts)
  then show ?thesis
    using assms insert_tables(4) Classified
    by (auto simp: apply_file_rule_def bind_io_Inr rules_tables_class prefix_slots_snoc)
next
  case (ExactPath p)
  then have "rule_prefix_entry r = None" using assms(2) by (simp add: rule_parts)
  then show ?thesis
    using assms insert_tables(3) ExactPath
    by (auto simp: apply_file_rule_def bind_io_Inr rules_tables_exact prefix_slots_snoc Let_def
        mask_step_def map_simps)
next
  case (Prefix p)
  then have e: "rule_prefix_entry r = Some (prefix_entry p (verdict_to_u8 (r_verdict r)))"
    using assms(2) by (simp add: rule_parts)
  have "(of_nat (length (prefix_slots rs)) < (64 :: u64)) = (length (prefix_slots rs) < 64)"
    using length_prefix_slots [of rs]
    by (simp add: word_less_nat_alt unat_of_nat take_bit_nat_eq_self)
  then show ?thesis
    using assms insert_tables(5) Prefix e
    by (auto simp: apply_file_rule_def bind_io_Inr rules_tables_prefix prefix_slots_snoc
        split: if_splits)
qed

lemma apply_rule_tables:
  assumes "apply_rule K cgid s (stats, of_nat (length (prefix_slots rs))) r = (s', Inr (stats', slot'))"
    and "tables K s = rules_tables cgid rs T"
  shows "tables K s' = rules_tables cgid (rs @ [r]) T \<and> slot' = of_nat (length (prefix_slots (rs @ [r])))"
proof (cases "rule_pattern r")
  case (Some pat)
  then show ?thesis using apply_file_rule_tables assms by (simp add: apply_rule_cases)
next
  case None
  then have e: "prefix_slots (rs @ [r]) = prefix_slots rs" by (simp add: prefix_slots_snoc rule_parts)
  consider (exec) h where "exec_hash r = Some h" | (net) d where "connect_to r = Some d"
    | (skip) "exec_hash r = None" "connect_to r = None"
    by (cases "exec_hash r"; cases "connect_to r") auto
  then show ?thesis
  proof cases
    case exec
    then obtain po p where "r_object r = Process po" "po_binary po = Path p" "r_action r = ProcExec"
      "exec_hash r = Some (fnv1a_hash_bytes p)" by (auto simp: exec_hash_Some)
    then show ?thesis
      using assms insert_tables(6) None e by (auto simp: apply_rule_cases bind_io_Inr rules_tables_exec)
  next
    case net
    then obtain n where "r_object r = Network n" "r_action r = NetConnect" "no_dst_ip n \<noteq> None"
      by (auto simp: connect_to_def split: Object.splits if_splits)
    then show ?thesis
      using assms insert_tables(7) None e by (auto simp: apply_rule_cases bind_io_Inr rules_tables_net)
  next
    case skip
    then have "s' = s" "slot' = of_nat (length (prefix_slots rs))"
      using assms(1) None
      by (auto simp: apply_rule_cases exec_hash_def connect_to_def
          split: Object.splits Action.splits BinaryRef.splits if_splits)
    then show ?thesis using assms(2) rules_tables_skip [OF None skip] e by simp
  qed
qed

lemma fold_rules_tables:
  assumes "fold_io (apply_rule K cgid) s (stats, 0) rules = (s', Inr (stats', slot'))"
  shows "tables K s' = rules_tables cgid rules (tables K s) \<and> slot' = of_nat (length (prefix_slots rules))"
  using assms
proof (induction rules arbitrary: s' stats' slot' rule: rev_induct)
  case Nil
  then show ?case by (simp add: prefix_slots_def map_filter_def)
next
  case (snoc r rs)
  then obtain s1 stats1 slot1 where 1: "fold_io (apply_rule K cgid) s (stats, 0) rs = (s1, Inr (stats1, slot1))"
    and 2: "apply_rule K cgid s1 (stats1, slot1) r = (s', Inr (stats', slot'))"
    by (auto simp: fold_io_snoc bind_io_Inr)
  from snoc.IH [OF 1] 2 show ?case using apply_rule_tables by simp
qed

end

lemma open_key_inject [simp]: "open_key cgid c = open_key cgid d \<longleftrightarrow> c = d"
  by (metis key_fields(4) pattern_u8_inject)

lemma expand_tables_snoc:
  assumes "\<And>c. c \<in> set g \<Longrightarrow> \<forall>h \<in> set gs. c \<notin> set h"
  shows "expand_tables cgid (gs @ [g]) T = expand_tables cgid [g] (expand_tables cgid gs T)"
proof -
  have keep: "t_patterns (expand_tables cgid gs T) (open_key cgid c) = t_patterns T (open_key cgid c)"
    if "c \<in> set g" for c
    using assms [OF that] by (auto simp: expand_tables_def)
  have "t_patterns (expand_tables cgid (gs @ [g]) T) k
      = t_patterns (expand_tables cgid [g] (expand_tables cgid gs T)) k" for k
  proof (cases "\<exists>c \<in> set g. k = open_key cgid c")
    case True
    then obtain c where c: "c \<in> set g" "k = open_key cgid c" by blast
    show ?thesis
      using c keep [OF c(1)] keep assms [OF c(1)]
      by (simp add: expand_tables_def [of _ "[g]"]) (auto simp: expand_tables_def)
  next
    case False
    then show ?thesis
      by (simp add: expand_tables_def [of _ "[g]"]) (auto simp: expand_tables_def)
  qed
  then show ?thesis by (intro Tables.equality ext) (simp_all add: expand_tables_def)
qed

context bpf_kernel
begin

lemma expand_patterns_tables:
  "fold_io (expand_pattern K cgid) s stats pats = (s', Inr stats') \<Longrightarrow>
     tables K s' = (tables K s)\<lparr>t_patterns := (\<lambda>k.
       if t_patterns (tables K s) k = None \<and> (\<exists>c \<in> set pats. k = open_key cgid c) then Some 1
       else t_patterns (tables K s) k)\<rparr>"
proof (induction pats arbitrary: s stats)
  case Nil
  then show ?case by simp
next
  case (Cons c pats)
  then obtain s1 stats1 where 1: "expand_pattern K cgid s stats c = (s1, Inr stats1)"
    and 2: "fold_io (expand_pattern K cgid) s1 stats1 pats = (s', Inr stats')"
    by (auto simp: bind_io_Inr)
  have t: "tables K s1 = (if t_patterns (tables K s) (open_key cgid c) = None
      then (tables K s)\<lparr>t_patterns := (t_patterns (tables K s))(open_key cgid c \<mapsto> 1)\<rparr> else tables K s)"
    using 1 insert_tables(4) by (auto simp: expand_pattern_def bind_io_Inr map_simps split: if_splits)
  show ?case
    unfolding Cons.IH [OF 2] t by (intro Tables.equality ext) (auto split: if_splits)
qed

lemma expand_group_tables:
  assumes "expand_group K cgid s stats g = (s', Inr stats')"
  shows "tables K s' = expand_tables cgid [g] (tables K s)"
proof (cases "list_ex (\<lambda>c. t_patterns (tables K s) (open_key cgid c) \<noteq> None) g")
  case True
  then have "tables K s' = (tables K s)\<lparr>t_patterns := (\<lambda>k.
       if t_patterns (tables K s) k = None \<and> (\<exists>c \<in> set g. k = open_key cgid c) then Some 1
       else t_patterns (tables K s) k)\<rparr>"
    using assms expand_patterns_tables by (simp add: expand_group_def map_simps)
  then show ?thesis
    using True by (intro Tables.equality ext) (auto simp: expand_tables_def list_ex_iff)
next
  case False
  then have "s' = s" using assms by (simp add: expand_group_def map_simps)
  moreover have "expand_tables cgid [g] (tables K s) = tables K s"
    using False by (intro Tables.equality ext) (auto simp: expand_tables_def list_ex_iff)
  ultimately show ?thesis by simp
qed

lemma expand_groups_tables:
  "fold_io (expand_group K cgid) s stats groups = (s', Inr stats') \<Longrightarrow> distinct (concat groups) \<Longrightarrow>
     tables K s' = expand_tables cgid groups (tables K s)"
proof (induction groups arbitrary: s' stats' rule: rev_induct)
  case Nil
  then show ?case by (simp add: expand_tables_def)
next
  case (snoc g gs)
  then obtain s1 stats1 where 1: "fold_io (expand_group K cgid) s stats gs = (s1, Inr stats1)"
    and 2: "expand_group K cgid s1 stats1 g = (s', Inr stats')"
    by (auto simp: fold_io_snoc bind_io_Inr)
  have "\<forall>h \<in> set gs. c \<notin> set h" if "c \<in> set g" for c
    using snoc.prems(2) that by auto
  then show ?case
    using snoc.IH [OF 1] snoc.prems(2) expand_group_tables [OF 2] expand_tables_snoc by simp
qed

lemma apply_rules_load:
  assumes "apply_rules K cgid audit_only rules skb s = (s', Inr stats)"
  shows "tables K s' = load_tables cgid audit_only skb rules (tables K s)"
proof -
  let ?config = "\<lparr>pc_default_action = 0, pc_audit_only = (if audit_only then 1 else 0)\<rparr>"
  obtain s1 s2 s3 u v stats3 slot where
    1: "mo_insert (POLICY_CGROUPS K) s cgid ?config = (s1, Inr u)"
    and 2: "(if skb then mo_insert (SKB_ENFORCE_CGID K) s1 0 cgid else (s1, Inr ())) = (s2, Inr v)"
    and 3: "fold_io (apply_rule K cgid) s2 (cgroups_configured_update Suc default_stats, 0) rules
      = (s3, Inr (stats3, slot))"
    and 4: "fold_io (expand_group K cgid) s3 stats3 category_groups = (s', Inr stats)"
    using assms unfolding apply_rules_def Let_def bind_io_Inr by auto
  have "tables K s2 = config_tables cgid audit_only skb (tables K s)"
    using insert_tables(1) [OF 1] 2 insert_tables(2) [of s1 0 cgid s2 v]
    by (auto simp: config_tables_def split: if_splits)
  moreover have "distinct (concat category_groups)" by code_simp
  ultimately show ?thesis
    using fold_rules_tables [OF 3] expand_groups_tables [OF 4] by (simp add: load_tables_def)
qed

end

section \<open>The loader returns when there is room\<close>

text \<open>Room for \<open>n\<close> more rules and for the expansion of the categories.\<close>

definition fits :: "Tables \<Rightarrow> nat \<Rightarrow> u64 \<Rightarrow> bool" where
  "fits T n slot =
     (card (dom (t_paths T)) + n \<le> FILE_PATH_POLICY_MAX
      \<and> card (dom (t_patterns T)) + n + length (concat category_groups) \<le> FILE_PATTERN_POLICY_MAX
      \<and> card (dom (t_exec T)) + n \<le> EXEC_PATH_POLICY_MAX
      \<and> card (dom (t_net T)) + n \<le> NET_CONNECT_POLICY_MAX
      \<and> card (dom (t_prefixes T)) + 64 \<le> FILE_PREFIX_POLICY_MAX + unat slot)"

lemma card_dom_upd: "finite (dom m) \<Longrightarrow> card (dom (m(k \<mapsto> v))) \<le> Suc (card (dom m))"
  by (simp add: card_insert_if)

lemma fits_mono: "fits T n slot \<Longrightarrow> n' \<le> n \<Longrightarrow> fits T n' slot"
  by (auto simp: fits_def)

lemma insert_ok:
  assumes "snd r = Inr ()" obtains s' where "r = (s', Inr ())"
  using assms by (cases r) auto

lemma take_maps_present:
  "set ns \<subseteq> set ebpf \<Longrightarrow> distinct ns \<Longrightarrow> take_maps ebpf ns = (filter (\<lambda>n. n \<notin> set ns) ebpf, None)"
proof (induction ebpf ns rule: take_maps.induct)
  case (2 ebpf n ns)
  then have "set ns \<subseteq> set (removeAll n ebpf)" by auto
  with 2 show ?case by (auto simp: removeAll_filter_not_eq intro!: filter_cong)
qed simp

context bpf_kernel_room
begin

lemma finite_tables:
  "finite (dom (t_cgroups (tables K s)))" "finite (dom (t_paths (tables K s)))"
  "finite (dom (t_patterns (tables K s)))" "finite (dom (t_prefixes (tables K s)))"
  "finite (dom (t_exec (tables K s)))" "finite (dom (t_net (tables K s)))"
  using room by (auto simp: kernel_room_def room_law_def)

lemmas dom_upd_le = finite_tables [THEN card_dom_upd]

lemma apply_file_rule_succeeds:
  assumes "fits (tables K s) (Suc n) slot"
  shows "\<exists>s' stats' slot'. apply_file_rule K cgid s (stats, slot) r pat = (s', Inr (stats', slot'))
    \<and> fits (tables K s') n slot'"
proof (cases pat)
  case (Classified c)
  have "card (dom (t_patterns (tables K s))) < FILE_PATTERN_POLICY_MAX"
    using assms by (simp add: fits_def)
  then obtain s' where s': "mo_insert (FILE_PATTERN_POLICY K) s (open_key cgid c) (verdict_to_u8 (r_verdict r)) = (s', Inr ())"
    using insert_ok [OF insert_succeeds(4)] by blast
  have "fits (tables K s') n slot"
    using assms dom_upd_le(3) [of s "open_key cgid c" "verdict_to_u8 (r_verdict r)"]
    unfolding insert_tables(4) [OF s'] by (simp add: fits_def del: dom_fun_upd)
  then show ?thesis by (simp add: apply_file_rule_def Classified s')
next
  case (ExactPath p)
  let ?v = "if r_verdict r = Allow
    then (case mo_get (FILE_PATH_POLICY K) s (path_key cgid p) of Some v \<Rightarrow> v | None \<Rightarrow> 0) OR access_bit (r_action r)
    else 0"
  have "card (dom (t_paths (tables K s))) < FILE_PATH_POLICY_MAX"
    using assms by (simp add: fits_def)
  then obtain s' where s': "mo_insert (FILE_PATH_POLICY K) s (path_key cgid p) ?v = (s', Inr ())"
    using insert_ok [OF insert_succeeds(3)] by blast
  have "fits (tables K s') n slot"
    using assms dom_upd_le(2) [of s "path_key cgid p" ?v]
    unfolding insert_tables(3) [OF s'] by (simp add: fits_def del: dom_fun_upd)
  then show ?thesis unfolding apply_file_rule_def ExactPath Let_def by (simp add: s')
next
  case (Prefix p)
  show ?thesis
  proof (cases "slot < 64")
    case True
    have u: "unat slot < 64" "unat (slot + 1) = Suc (unat slot)"
      using True by (auto simp: word_less_nat_alt unat_word_ariths)
    then have "card (dom (t_prefixes (tables K s))) < FILE_PREFIX_POLICY_MAX"
      using assms by (simp add: fits_def)
    then obtain s' where s': "mo_insert (FILE_PREFIX_POLICY K) s (slot_key cgid slot)
        (prefix_entry p (verdict_to_u8 (r_verdict r))) = (s', Inr ())"
      using insert_ok [OF insert_succeeds(5)] by blast
    have "fits (tables K s') n (slot + 1)"
      using assms u dom_upd_le(4) [of s "slot_key cgid slot" "prefix_entry p (verdict_to_u8 (r_verdict r))"]
      unfolding insert_tables(5) [OF s'] by (simp add: fits_def del: dom_fun_upd)
    then show ?thesis using True by (simp add: apply_file_rule_def Prefix s')
  next
    case False
    then show ?thesis using assms fits_mono [of _ "Suc n" slot n] by (simp add: apply_file_rule_def Prefix)
  qed
qed

lemma apply_rule_succeeds:
  assumes "fits (tables K s) (Suc n) slot"
  shows "\<exists>s' stats' slot'. apply_rule K cgid s (stats, slot) r = (s', Inr (stats', slot'))
    \<and> fits (tables K s') n slot'"
proof -
  have skip: "fits (tables K s) n slot" using assms fits_mono by simp
  have exec: "\<exists>s'. mo_insert (EXEC_PATH_POLICY K) s k v = (s', Inr ()) \<and> fits (tables K s') n slot" for k v
  proof -
    have "card (dom (t_exec (tables K s))) < EXEC_PATH_POLICY_MAX" using assms by (simp add: fits_def)
    then obtain s' where s': "mo_insert (EXEC_PATH_POLICY K) s k v = (s', Inr ())"
      using insert_ok [OF insert_succeeds(6)] by blast
    show ?thesis
      using s' assms dom_upd_le(5) [of s k v] insert_tables(6) [OF s'] by (simp add: fits_def del: dom_fun_upd)
  qed
  have net: "\<exists>s'. mo_insert (NET_CONNECT_POLICY K) s k v = (s', Inr ()) \<and> fits (tables K s') n slot" for k v
  proof -
    have "card (dom (t_net (tables K s))) < NET_CONNECT_POLICY_MAX" using assms by (simp add: fits_def)
    then obtain s' where s': "mo_insert (NET_CONNECT_POLICY K) s k v = (s', Inr ())"
      using insert_ok [OF insert_succeeds(7)] by blast
    show ?thesis
      using s' assms dom_upd_le(6) [of s k v] insert_tables(7) [OF s'] by (simp add: fits_def del: dom_fun_upd)
  qed
  have pat: "\<exists>s' stats' slot'. apply_file_rule K cgid s (stats, slot) r pat = (s', Inr (stats', slot'))
    \<and> fits (tables K s') n slot'" for pat
    by (rule apply_file_rule_succeeds [OF assms])
  have e: "\<exists>s' stats' slot'. bind_io (mo_insert (EXEC_PATH_POLICY K) s k v) (\<lambda>s _. (s, Inr (f, slot)))
      = (s', Inr (stats', slot')) \<and> fits (tables K s') n slot'" for k v and f :: PolicyStats
    using exec [of k v] by auto
  have c: "\<exists>s' stats' slot'. bind_io (mo_insert (NET_CONNECT_POLICY K) s k v) (\<lambda>s _. (s, Inr (f, slot)))
      = (s', Inr (stats', slot')) \<and> fits (tables K s') n slot'" for k v and f :: PolicyStats
    using net [of k v] by auto
  show ?thesis
    unfolding apply_rule_cases fst_conv snd_conv
    using pat e c skip
    by (cases "rule_pattern r"; cases "r_object r"; cases "r_action r")
      (simp_all split: BinaryRef.splits)
qed

lemma fold_rules_succeed:
  "fits (tables K s) (length rules) slot \<Longrightarrow>
     \<exists>s' stats' slot'. fold_io (apply_rule K cgid) s (stats, slot) rules = (s', Inr (stats', slot'))
       \<and> fits (tables K s') 0 slot'"
proof (induction rules arbitrary: s stats slot)
  case Nil
  then show ?case by simp
next
  case (Cons r rules)
  then have "fits (tables K s) (Suc (length rules)) slot" by simp
  then obtain s' stats' slot' where 1: "apply_rule K cgid s (stats, slot) r = (s', Inr (stats', slot'))"
    and 2: "fits (tables K s') (length rules) slot'" using apply_rule_succeeds by blast
  show ?case using Cons.IH [OF 2, of stats'] by (simp add: 1)
qed

lemma expand_patterns_succeed:
  "card (dom (t_patterns (tables K s))) + length pats + m \<le> FILE_PATTERN_POLICY_MAX \<Longrightarrow>
     \<exists>s' stats'. fold_io (expand_pattern K cgid) s stats pats = (s', Inr stats')
       \<and> card (dom (t_patterns (tables K s'))) + m \<le> FILE_PATTERN_POLICY_MAX"
proof (induction pats arbitrary: s stats)
  case Nil
  then show ?case by simp
next
  case (Cons c pats)
  show ?case
  proof (cases "t_patterns (tables K s) (open_key cgid c)")
    case None
    have "card (dom (t_patterns (tables K s))) < FILE_PATTERN_POLICY_MAX" using Cons.prems by simp
    then obtain s1 where s1: "mo_insert (FILE_PATTERN_POLICY K) s (open_key cgid c) 1 = (s1, Inr ())"
      using insert_ok [OF insert_succeeds(4)] by blast
    have "card (dom (t_patterns (tables K s1))) + length pats + m \<le> FILE_PATTERN_POLICY_MAX"
      using Cons.prems dom_upd_le(3) [of s "open_key cgid c" 1] insert_tables(4) [OF s1]
      by (simp del: dom_fun_upd)
    then show ?thesis using Cons.IH s1 None by (simp add: expand_pattern_def map_simps)
  next
    case (Some v)
    then show ?thesis using Cons.IH Cons.prems by (simp add: expand_pattern_def map_simps)
  qed
qed

lemma expand_groups_succeed:
  "card (dom (t_patterns (tables K s))) + length (concat groups) \<le> FILE_PATTERN_POLICY_MAX \<Longrightarrow>
     \<exists>s' stats'. fold_io (expand_group K cgid) s stats groups = (s', Inr stats')"
proof (induction groups arbitrary: s stats)
  case Nil
  then show ?case by simp
next
  case (Cons g groups)
  then obtain s' stats' where "expand_group K cgid s stats g = (s', Inr stats')"
    "card (dom (t_patterns (tables K s'))) + length (concat groups) \<le> FILE_PATTERN_POLICY_MAX"
    using expand_patterns_succeed [of s g "length (concat groups)" cgid stats]
    by (cases "list_ex (\<lambda>c. mo_get (FILE_PATTERN_POLICY K) s (open_key cgid c) \<noteq> None) g")
      (auto simp: expand_group_def simp del: split_paired_Ex)
  then show ?case using Cons.IH by simp
qed

lemma apply_rules_succeeds:
  assumes "card (dom (t_cgroups (tables K s))) < POLICY_CGROUPS_MAX" and "fits (tables K s) (length rules) 0"
  shows "\<exists>s' stats. apply_rules K cgid audit_only rules skb s = (s', Inr stats)"
proof -
  let ?config = "\<lparr>pc_default_action = 0, pc_audit_only = (if audit_only then 1 else 0)\<rparr>"
  obtain s1 where 1: "mo_insert (POLICY_CGROUPS K) s cgid ?config = (s1, Inr ())"
    using insert_ok [OF insert_succeeds(1) [OF assms(1)]] by blast
  obtain t where t: "mo_insert (SKB_ENFORCE_CGID K) s1 0 cgid = (t, Inr ())"
    using insert_ok [OF insert_succeeds(2)] by blast
  define s2 where "s2 = (if skb then t else s1)"
  have 2: "(if skb then mo_insert (SKB_ENFORCE_CGID K) s1 0 cgid else (s1, Inr ())) = (s2, Inr ())"
    by (simp add: t s2_def)
  have "fits (tables K s2) (length rules) 0"
    using assms(2) insert_tables(1) [OF 1] insert_tables(2) [of s1 0 cgid s2 "()"] 2
    by (cases skb) (simp_all add: fits_def)
  then obtain s3 stats3 slot where 3: "fold_io (apply_rule K cgid) s2
      (cgroups_configured_update Suc default_stats, 0) rules = (s3, Inr (stats3, slot))"
    and f: "fits (tables K s3) 0 slot" using fold_rules_succeed by blast
  obtain s4 stats4 where 4: "fold_io (expand_group K cgid) s3 stats3 category_groups = (s4, Inr stats4)"
    using expand_groups_succeed f by (fastforce simp: fits_def)
  show ?thesis by (simp add: apply_rules_def 1 2 3 4)
qed

lemma load_policy_total_aux:
  assumes "{''POLICY_CGROUPS'', ''SKB_ENFORCE_CGID'', ''FILE_PATH_POLICY'',
      ''FILE_PATTERN_POLICY'', ''FILE_PREFIX_POLICY'', ''EXEC_PATH_POLICY'', ''EXEC_PATTERN_POLICY'',
      ''NET_CONNECT_POLICY''} \<subseteq> set ebpf"
    and "card (dom (t_cgroups (tables K s))) < POLICY_CGROUPS_MAX"
    and "fits (tables K s) (length rules) 0"
  shows "\<exists>ebpf' s' lp. load_policy K audit_only ebpf rules cgid s = (ebpf', s', Inr lp)
    \<and> tables K s' = load_tables cgid audit_only True rules (tables K s)
    \<and> lp_rules lp = rules \<and> lp_audit_only lp = audit_only \<and> lp_skb_cgid lp"
proof -
  obtain s' stats where r: "apply_rules K cgid audit_only rules True s = (s', Inr stats)"
    using apply_rules_succeeds [OF assms(2,3)] by blast
  let ?e1 = "filter (\<lambda>n. n \<notin> set [''POLICY_CGROUPS'']) ebpf"
  let ?ns = "[''FILE_PATH_POLICY'', ''FILE_PATTERN_POLICY'', ''FILE_PREFIX_POLICY'',
    ''EXEC_PATH_POLICY'', ''EXEC_PATTERN_POLICY'', ''NET_CONNECT_POLICY'']"
  have 1: "take_maps ebpf [''POLICY_CGROUPS''] = (?e1, None)"
    using assms(1) by (intro take_maps_present) auto
  have 2: "take_maps (removeAll ''SKB_ENFORCE_CGID'' ?e1) ?ns
      = (filter (\<lambda>n. n \<notin> set ?ns) (removeAll ''SKB_ENFORCE_CGID'' ?e1), None)"
    using assms(1) by (intro take_maps_present) auto
  have 3: "(''SKB_ENFORCE_CGID'' \<in> set ?e1) = True" using assms(1) by simp
  show ?thesis
    unfolding load_policy_def Let_def bind_policy_def 1 prod.case option.case 2 3 LoadedPolicy.simps r sum.case
    using apply_rules_load [OF r] by simp
qed

lemma rebind_tables:
  assumes "rebind K lp old_cgid new_cgid s = (lp', s', Inr u)"
  shows "tables K s' =
    (let T = load_tables new_cgid (lp_audit_only lp) (lp_skb_cgid lp) (lp_rules lp) (tables K s)
     in T\<lparr>t_cgroups := (t_cgroups T)(old_cgid := None)\<rparr>)"
proof -
  obtain s1 stats r where 1: "apply_rules K new_cgid (lp_audit_only lp) (lp_rules lp) (lp_skb_cgid lp) s
      = (s1, Inr stats)" and 2: "mo_remove (POLICY_CGROUPS K) s1 old_cgid = (s', r)"
    using assms by (auto simp: rebind_def bind_policy_def split: prod.splits sum.splits)
  show ?thesis
    using apply_rules_load [OF 1] remove_cgroup_tables [OF 2] by (simp add: Let_def)
qed

end

lemmas kernel_intro = bpf_kernel_room.intro bpf_kernel.intro bpf_kernel_room_axioms.intro

section \<open>A small policy\<close>

definition granted_rule :: "RuleId \<Rightarrow> Object \<Rightarrow> Action \<Rightarrow> Verdict \<Rightarrow> BehaviorRule" where
  "granted_rule n obj act v =
     \<lparr>r_id = n, r_subject = \<lparr>sub_container = None, sub_binary = None, sub_uid = None\<rparr>, r_object = obj,
      r_action = act, r_verdict = v,
      r_metadata = \<lparr>source_module = Fs, observation_count = 1, confidence = 0, first_seen = 0,
        last_seen = 0\<rparr>\<rparr>"

definition sample_file :: "RuleId \<Rightarrow> FilePattern \<Rightarrow> Action \<Rightarrow> BehaviorRule" where
  "sample_file n pat act = granted_rule n (File \<lparr>fo_pattern = pat, fo_is_sensitive = False\<rparr>) act Allow"

definition sample_policy :: "BehaviorRule list" where
  "sample_policy =
     [sample_file 1 (ExactPath ''/etc/app.conf'') FileRead,
      sample_file 2 (ExactPath ''/var/log/app'') FileRead,
      sample_file 3 (ExactPath ''/var/log/app'') FileWrite,
      sample_file 4 (Classified DevPts) FileOpen,
      sample_file 5 (Prefix ''/usr/lib/'') FileOpen,
      granted_rule 6 (Process \<lparr>po_binary = Path ''/usr/bin/app''\<rparr>) ProcExec Allow,
      granted_rule 7 (Network \<lparr>no_dst_ip = Some 0x0100007F, no_dst_port = Some 443, no_protocol = Some 6,
        no_direction = Some 1\<rparr>) NetConnect Allow]"

lemma sample_fits:
  "fits (tables hash_kernel empty_maps) (length sample_policy) 0"
  "card (dom (t_cgroups (tables hash_kernel empty_maps))) < POLICY_CGROUPS_MAX"
  by (simp_all add: fits_def hash_tables empty_maps_def sample_policy_def category_groups_def
      FILE_PATH_POLICY_MAX_def FILE_PATTERN_POLICY_MAX_def EXEC_PATH_POLICY_MAX_def
      NET_CONNECT_POLICY_MAX_def FILE_PREFIX_POLICY_MAX_def POLICY_CGROUPS_MAX_def)

section \<open>Properties of the loader\<close>

text \<open>
  C20: the loader implements the abstract policy. Over any kernel that obeys the laws of the maps, when
  \<open>apply_rules\<close> returns, each of the maps answers exactly what \<open>load_tables\<close> says: accumulated access
  masks for exact paths, the last verdict for classes, executables and destinations, the first 64
  prefixes in order, the siblings of the categories that occur, and nothing changed under any other
  key.
\<close>

theorem apply_rules_refines:
  assumes "kernel_laws K" and "apply_rules K cgid audit_only rules skb s = (s', Inr stats)"
  shows "tables K s' = load_tables cgid audit_only skb rules (tables K s)"
  using assms by (intro bpf_kernel.apply_rules_load bpf_kernel.intro)

lemma apply_rules_refines_witness:
  "\<exists>s' stats. apply_rules hash_kernel 7 False sample_policy True empty_maps = (s', Inr stats)
     \<and> tables hash_kernel s' = load_tables 7 False True sample_policy (tables hash_kernel empty_maps)"
  using hash.apply_rules_succeeds [OF sample_fits(2,1)] apply_rules_refines [OF hash_kernel_laws] by blast

text \<open>
  Loading is total when there is room. With all the maps present in the object file, a free
  cgroup entry and room for the rules, \<open>load_policy\<close> returns a handle, the maps hold the policy of
  the rules, and the handle keeps what a later rebinding needs.
\<close>

theorem load_policy_total:
  assumes "kernel_laws K" and "kernel_room K"
    and "{''POLICY_CGROUPS'', ''SKB_ENFORCE_CGID'', ''FILE_PATH_POLICY'',
      ''FILE_PATTERN_POLICY'', ''FILE_PREFIX_POLICY'', ''EXEC_PATH_POLICY'', ''EXEC_PATTERN_POLICY'',
      ''NET_CONNECT_POLICY''} \<subseteq> set ebpf"
    and "card (dom (t_cgroups (tables K s))) < POLICY_CGROUPS_MAX"
    and "fits (tables K s) (length rules) 0"
  shows "\<exists>ebpf' s' lp. load_policy K audit_only ebpf rules cgid s = (ebpf', s', Inr lp)
    \<and> tables K s' = load_tables cgid audit_only True rules (tables K s)
    \<and> lp_rules lp = rules \<and> lp_audit_only lp = audit_only \<and> lp_skb_cgid lp"
  by (rule bpf_kernel_room.load_policy_total_aux [OF _ assms(3-5)])
    (use assms(1,2) kernel_intro in blast)

lemma load_policy_total_witness:
  "\<exists>ebpf' s' lp. load_policy hash_kernel False
      [''NET_CONNECT_POLICY'', ''EXEC_PATTERN_POLICY'', ''EXEC_PATH_POLICY'', ''FILE_PREFIX_POLICY'',
       ''FILE_PATTERN_POLICY'', ''FILE_PATH_POLICY'', ''SKB_ENFORCE_CGID'', ''POLICY_CGROUPS'', ''EVENTS'']
      sample_policy 7 empty_maps = (ebpf', s', Inr lp)
    \<and> tables hash_kernel s' = load_tables 7 False True sample_policy (tables hash_kernel empty_maps)
    \<and> lp_rules lp = sample_policy \<and> lp_audit_only lp = False \<and> lp_skb_cgid lp"
  by (rule load_policy_total [OF hash_kernel_laws hash_kernel_room _ sample_fits(2,1)]) simp

text \<open>
  Rebinding moves the policy. When \<open>rebind\<close> returns without an error, the maps hold the policy
  of the retained rules for the new cgroup, and the old cgroup is out of the allowlist of enforced
  cgroups, whatever the two ids are.
\<close>

theorem rebind_moves:
  assumes "kernel_laws K" and "kernel_room K"
    and "rebind K lp old_cgid new_cgid s = (lp', s', Inr u)"
  shows "tables K s' =
    (let T = load_tables new_cgid (lp_audit_only lp) (lp_skb_cgid lp) (lp_rules lp) (tables K s)
     in T\<lparr>t_cgroups := (t_cgroups T)(old_cgid := None)\<rparr>)"
  by (rule bpf_kernel_room.rebind_tables [OF _ assms(3)]) (use assms(1,2) kernel_intro in blast)

definition sample_loaded :: LoadedPolicy where
  "sample_loaded = \<lparr>lp_audit_only = False, lp_rules = sample_policy, lp_stats = default_stats,
     lp_skb_cgid = True\<rparr>"

lemma rebind_moves_witness:
  "\<exists>lp' s'. rebind hash_kernel sample_loaded 7 8 empty_maps = (lp', s', Inr ())
     \<and> t_cgroups (tables hash_kernel s') 7 = None
     \<and> t_cgroups (tables hash_kernel s') 8 = Some \<lparr>pc_default_action = 0, pc_audit_only = 0\<rparr>"
proof -
  obtain s1 stats where 1: "apply_rules hash_kernel 8 False sample_policy True empty_maps = (s1, Inr stats)"
    using hash.apply_rules_succeeds [OF sample_fits(2,1)] by blast
  obtain s2 r where 2: "mo_remove (POLICY_CGROUPS hash_kernel) s1 7 = (s2, r)" by fastforce
  have "rebind hash_kernel sample_loaded 7 8 empty_maps =
      (sample_loaded\<lparr>lp_stats := default_stats\<lparr>cgroups_configured := 1\<rparr>\<rparr>, s2, Inr ())"
    by (simp add: rebind_def bind_policy_def sample_loaded_def 1 2)
  from this rebind_moves [OF hash_kernel_laws hash_kernel_room this] show ?thesis
    by (auto simp: Let_def load_tables_def expand_tables_def rules_tables_def config_tables_def sample_loaded_def)
qed

text \<open>
  A rebinding to the id that is bound already takes the cgroup out of the allowlist: enforcement ends.
  The watcher does not ask for it.
\<close>

lemma rebind_same_unbinds:
  assumes "kernel_laws K" and "kernel_room K" and "rebind K lp cgid cgid s = (lp', s', Inr u)"
  shows "t_cgroups (tables K s') cgid = None"
proof -
  have "bpf_kernel_room K" using assms(1,2) kernel_intro by blast
  from bpf_kernel_room.rebind_tables [OF this assms(3)] show ?thesis by (simp add: Let_def)
qed

section \<open>Cgroups do not interfere\<close>

text \<open>All that the hooks can read about a cgroup.\<close>

definition cgroup_slice where
  "cgroup_slice c T =
     (t_cgroups T c,
      (\<lambda>h. t_paths T \<lparr>pk_cgroup_id = c, pk_path_hash = h\<rparr>),
      (\<lambda>p a. t_patterns T \<lparr>tk_cgroup_id = c, tk_pattern = p, tk_action = a\<rparr>),
      (\<lambda>i. if i < 64 then t_prefixes T (slot_key c i) else None),
      (\<lambda>h. t_exec T \<lparr>pk_cgroup_id = c, pk_path_hash = h\<rparr>),
      (\<lambda>p a. t_exec_patterns T \<lparr>tk_cgroup_id = c, tk_pattern = p, tk_action = a\<rparr>),
      (\<lambda>ip port pr. t_net T \<lparr>nk_cgroup_id = c, nk_dst_ip = ip, nk_dst_port = port, nk_protocol = pr\<rparr>))"

lemma small_slot_bits: "i < 64 \<Longrightarrow> bit (i :: u64) n \<Longrightarrow> n < 8"
proof -
  assume "i < 64" "bit i n"
  then have "take_bit 8 i = i"
    by (simp add: take_bit_eq_mod word_arith_nat_mod word_less_nat_alt)
  with \<open>bit i n\<close> show "n < 8" by (metis bit_take_bit_iff)
qed

lemma slot_key_low: "i < 64 \<Longrightarrow> take_bit 8 (slot_key c i) = i"
  by (rule bit_word_eqI) (auto simp: slot_key_def bit_simps dest: small_slot_bits)

lemma slot_key_high: "i < 64 \<Longrightarrow> drop_bit 8 (slot_key c i) = take_bit 56 c"
  by (rule bit_word_eqI) (auto simp: slot_key_def bit_simps dest: small_slot_bits)

lemma slot_key_inject:
  "i < 64 \<Longrightarrow> j < 64 \<Longrightarrow> slot_key c i = slot_key d j \<Longrightarrow> take_bit 56 c = take_bit 56 d \<and> i = j"
  by (metis slot_key_low slot_key_high)

lemma bind_io_same:
  assumes "bind_io r f = (s', q)" and "I (fst r) = I s"
    and "\<And>s1 a s2 q2. f s1 a = (s2, q2) \<Longrightarrow> I s2 = I s1"
  shows "I s' = I s"
  using assms by (auto simp: bind_io_def split: prod.splits sum.splits)

lemma fold_io_same:
  assumes "\<And>s1 a x s2 q2. f s1 a x = (s2, q2) \<Longrightarrow> I s2 = I s1"
  shows "fold_io f s a xs = (s', q) \<Longrightarrow> I s' = I s"
proof (induction xs arbitrary: s a s' q)
  case (Cons x xs)
  have b: "bind_io (f s a x) (\<lambda>s a. fold_io f s a xs) = (s', q)" using Cons.prems by simp
  have "I (fst (f s a x)) = I s" using assms by (metis prod.collapse)
  from bind_io_same [OF b, of I, OF this] Cons.IH show ?case by blast
qed simp

context bpf_kernel
begin

lemma insert_slice:
  "mo_insert (POLICY_CGROUPS K) s k1 v1 = (s', r) \<Longrightarrow> k1 \<noteq> c \<Longrightarrow>
     cgroup_slice c (tables K s') = cgroup_slice c (tables K s)"
  "mo_insert (SKB_ENFORCE_CGID K) s k2 v2 = (s', r) \<Longrightarrow>
     cgroup_slice c (tables K s') = cgroup_slice c (tables K s)"
  "mo_insert (FILE_PATH_POLICY K) s k3 v3 = (s', r) \<Longrightarrow> pk_cgroup_id k3 \<noteq> c \<Longrightarrow>
     cgroup_slice c (tables K s') = cgroup_slice c (tables K s)"
  "mo_insert (FILE_PATTERN_POLICY K) s k4 v4 = (s', r) \<Longrightarrow> tk_cgroup_id k4 \<noteq> c \<Longrightarrow>
     cgroup_slice c (tables K s') = cgroup_slice c (tables K s)"
  "mo_insert (FILE_PREFIX_POLICY K) s k5 v5 = (s', r) \<Longrightarrow> (\<And>i. i < 64 \<Longrightarrow> k5 \<noteq> slot_key c i) \<Longrightarrow>
     cgroup_slice c (tables K s') = cgroup_slice c (tables K s)"
  "mo_insert (EXEC_PATH_POLICY K) s k6 v6 = (s', r) \<Longrightarrow> pk_cgroup_id k6 \<noteq> c \<Longrightarrow>
     cgroup_slice c (tables K s') = cgroup_slice c (tables K s)"
  "mo_insert (NET_CONNECT_POLICY K) s k8 v8 = (s', r) \<Longrightarrow> nk_cgroup_id k8 \<noteq> c \<Longrightarrow>
     cgroup_slice c (tables K s') = cgroup_slice c (tables K s)"
  by (cases r; auto simp: insert_tables failed_insert_tables cgroup_slice_def fun_eq_iff)+

lemma apply_rule_slice:
  assumes "take_bit 56 c \<noteq> take_bit 56 cgid" and "apply_rule K cgid s acc r = (s', q)"
  shows "cgroup_slice c (tables K s') = cgroup_slice c (tables K s)"
proof -
  have ne: "cgid \<noteq> c" using assms(1) by auto
  have slot: "slot_key cgid j \<noteq> slot_key c i" if "i < 64" "j < 64" for i j
    using slot_key_inject [OF that(2,1)] assms(1) by auto
  obtain stats slot where acc: "acc = (stats, slot)" by (cases acc)
  have pat: "cgroup_slice c (tables K s1) = cgroup_slice c (tables K s)"
    if "apply_file_rule K cgid s acc r p = (s1, q1)" for p s1 q1
    using that ne slot insert_slice(3-5)
    by (cases p) (auto simp: acc apply_file_rule_def Let_def bind_io_def
      split: prod.splits sum.splits if_splits)
  show ?thesis
    using assms(2) pat ne insert_slice(6,7)
    by (auto simp: apply_rule_cases bind_io_def
      split: option.splits Object.splits Action.splits BinaryRef.splits if_splits prod.splits sum.splits)
qed

lemma expand_group_slice:
  assumes "cgid \<noteq> c" and "expand_group K cgid s stats g = (s', q)"
  shows "cgroup_slice c (tables K s') = cgroup_slice c (tables K s)"
proof -
  have "cgroup_slice c (tables K s2) = cgroup_slice c (tables K s1)"
    if "expand_pattern K cgid s1 a x = (s2, q2)" for s1 a x s2 q2
    using that assms(1) insert_slice(4)
    by (auto simp: expand_pattern_def bind_io_def split: prod.splits sum.splits if_splits)
  from fold_io_same [of "expand_pattern K cgid" "\<lambda>s. cgroup_slice c (tables K s)", OF this]
  show ?thesis using assms(2) by (auto simp: expand_group_def Let_def split: if_splits)
qed

lemma apply_rules_slice:
  assumes "take_bit 56 c \<noteq> take_bit 56 cgid" and "apply_rules K cgid audit_only rules skb s = (s', q)"
  shows "cgroup_slice c (tables K s') = cgroup_slice c (tables K s)"
proof -
  let ?I = "\<lambda>s. cgroup_slice c (tables K s)"
  have ne: "cgid \<noteq> c" using assms(1) by auto
  have groups: "?I s2 = ?I s1" if "fold_io (expand_group K cgid) s1 a gs = (s2, q2)" for s1 a gs s2 q2
    using fold_io_same [of "expand_group K cgid" ?I, OF _ that] expand_group_slice [OF ne] by blast
  have rules: "?I s2 = ?I s1" if "fold_io (apply_rule K cgid) s1 a rs = (s2, q2)" for s1 a rs s2 q2
    using fold_io_same [of "apply_rule K cgid" ?I, OF _ that] apply_rule_slice [OF assms(1)] by blast
  have skb: "?I s2 = ?I s1"
    if "(if skb then mo_insert (SKB_ENFORCE_CGID K) s1 0 cgid else (s1, Inr ())) = (s2, q2)" for s1 s2 q2
    using that insert_slice(2) by (auto split: if_splits)
  have cg: "?I s2 = ?I s1" if "mo_insert (POLICY_CGROUPS K) s1 cgid v = (s2, q2)" for s1 v s2 q2
    using insert_slice(1) [OF that ne] .
  show ?thesis
    using assms(2) cg skb rules groups
    by (auto simp: apply_rules_def Let_def bind_io_def split: prod.splits sum.splits)
qed

end

text \<open>
  C35: policies of different cgroups do not interfere. Whether \<open>apply_rules\<close> returns or fails half
  way, nothing that the hooks can read about a cgroup changes when the policy of another one is
  loaded, as long as the two ids differ in their low 56 bits (the prefix slots shift the id by
  eight bits).
\<close>

theorem apply_rules_isolated:
  assumes "kernel_laws K" and "take_bit 56 c \<noteq> take_bit 56 cgid"
    and "apply_rules K cgid audit_only rules skb s = (s', r)"
  shows "cgroup_slice c (tables K s') = cgroup_slice c (tables K s)"
  using assms by (intro bpf_kernel.apply_rules_slice [OF bpf_kernel.intro])

lemma apply_rules_isolated_witness:
  "\<exists>s1 s2 stats. apply_rules hash_kernel 8 False sample_policy True s1 = (s2, Inr stats)
     \<and> t_cgroups (tables hash_kernel s1) 7 = Some \<lparr>pc_default_action = 0, pc_audit_only = 1\<rparr>
     \<and> cgroup_slice 7 (tables hash_kernel s2) = cgroup_slice 7 (tables hash_kernel s1)"
proof -
  let ?s = "empty_maps\<lparr>h_cgroups := [(7, \<lparr>pc_default_action = 0, pc_audit_only = 1\<rparr>)]\<rparr>"
  have "fits (tables hash_kernel ?s) (length sample_policy) 0"
    "card (dom (t_cgroups (tables hash_kernel ?s))) < POLICY_CGROUPS_MAX"
    using sample_fits by (simp_all add: fits_def hash_tables POLICY_CGROUPS_MAX_def)
  then obtain s2 stats where r: "apply_rules hash_kernel 8 False sample_policy True ?s = (s2, Inr stats)"
    using hash.apply_rules_succeeds by blast
  have "take_bit 56 (7 :: u64) \<noteq> take_bit 56 8" by simp
  from apply_rules_isolated [OF hash_kernel_laws this r] r show ?thesis
    by (intro exI [of _ ?s] exI [of _ s2] exI [of _ stats]) (simp add: hash_tables)
qed

text \<open>Ids that agree in the low 56 bits share their prefix slots.\<close>

lemma slot_key_collision:
  assumes "take_bit 56 c = take_bit 56 d"
  shows "slot_key c i = slot_key d i"
proof -
  have "push_bit 8 x = push_bit 8 (take_bit 56 x)" for x :: u64
    by (rule bit_word_eqI) (auto simp: bit_simps)
  then show ?thesis unfolding slot_key_def by (metis assms)
qed

end
