(* ===== verification/Enforcement.thy ===== *)
theory Enforcement
  imports Hooks Loader
begin

text \<open>
  The loader and the hooks together.

  The locale \<open>enforcement_hook\<close> is the contract that every hook keeps towards the workload and the
  rest of the system: it blocks only tasks of a cgroup that is enforced and not in audit-only mode,
  and what it logs carries the id of the task's own cgroup. The three hooks interpret it.

  \<open>file_decision\<close>, \<open>exec_decision\<close> and \<open>connect_decision\<close> say, on the rules of the policy, what is to be
  let through. Once the loader has returned, the hooks answer exactly that.
\<close>

section \<open>What every hook promises\<close>

text \<open>Whether the policy of the task's cgroup is enforced, rather than absent or only logged.\<close>

definition enforced :: "Tables \<Rightarrow> Task \<Rightarrow> bool" where
  "enforced T ts =
     (case ts_cgroup_id ts of
        None \<Rightarrow> False
      | Some c \<Rightarrow> (case t_cgroups T c of None \<Rightarrow> False | Some config \<Rightarrow> pc_audit_only config = 0))"

locale enforcement_hook =
  fixes K :: "'s EnforcementMaps" and hook :: "'s \<Rightarrow> Task \<Rightarrow> 'x \<Rightarrow> Outcome"
  assumes blocks: "fst (hook s ts x) \<noteq> 0 \<Longrightarrow>
      fst (hook s ts x) = -1 \<and>
      (\<exists>c config. ts_cgroup_id ts = Some c \<and> t_cgroups (tables K s) c = Some config
         \<and> pc_audit_only config = 0)"
    and logs: "e \<in> set (snd (hook s ts x)) \<Longrightarrow>
      \<exists>c config. ts_cgroup_id ts = Some c \<and> t_cgroups (tables K s) c = Some config
        \<and> ae_cgroup_id e = c"
begin

lemma foreign_cgroup_passes:
  assumes "ts_cgroup_id ts = Some c" and "t_cgroups (tables K s) c = None"
  shows "hook s ts x = (0, [])"
proof -
  have "fst (hook s ts x) = 0" using blocks [of s ts x] assms by auto
  moreover have "snd (hook s ts x) = []" using logs [of _ s ts x] assms by (cases "snd (hook s ts x)") force+
  ultimately show ?thesis by (metis prod.collapse)
qed

lemma audit_only_passes:
  assumes "ts_cgroup_id ts = Some c" and "t_cgroups (tables K s) c = Some config"
    and "pc_audit_only config \<noteq> 0"
  shows "fst (hook s ts x) = 0"
  using blocks [of s ts x] assms by auto

lemma return_codes: "fst (hook s ts x) = 0 \<or> (fst (hook s ts x) = -1 \<and> enforced (tables K s) ts)"
  using blocks [of s ts x] by (auto simp: enforced_def)

end

lemma outcome_shapes:
  "fst (matched config cgid h p a v) = (if v = 0 \<and> pc_audit_only config = 0 then -1 else 0)"
  "fst (unmatched config cgid h a) =
     (if pc_default_action config = 0 \<and> pc_audit_only config = 0 then -1 else 0)"
  "e \<in> set (snd (matched config cgid h p a v)) \<Longrightarrow> ae_cgroup_id e = cgid"
  "e \<in> set (snd (unmatched config cgid h a)) \<Longrightarrow> ae_cgroup_id e = cgid"
  by (auto simp: matched_def unmatched_def verdict_to_rc_def emit_audit_def split: if_splits)

lemma check_prefix_Some:
  assumes "check_prefix_match K s config cgid h p = Some rc"
  shows "fst rc = 0 \<or> fst rc = -1 \<and> pc_audit_only config = 0"
    "e \<in> set (snd rc) \<Longrightarrow> ae_cgroup_id e = cgid"
proof -
  obtain v where "rc = matched config cgid h 0xFF 0 v"
    using assms by (auto simp: check_prefix_match_def split: if_splits)
  then show "fst rc = 0 \<or> fst rc = -1 \<and> pc_audit_only config = 0"
    "e \<in> set (snd rc) \<Longrightarrow> ae_cgroup_id e = cgid"
    by (simp_all add: outcome_shapes)
qed

lemma tiers_block:
  "fst (file_tiers K s config cgid ts f p) \<noteq> 0 \<Longrightarrow>
     fst (file_tiers K s config cgid ts f p) = -1 \<and> pc_audit_only config = 0"
  "fst (exec_tiers K s config cgid ts p) \<noteq> 0 \<Longrightarrow>
     fst (exec_tiers K s config cgid ts p) = -1 \<and> pc_audit_only config = 0"
  "fst (connect_tiers K s config cgid ip port) \<noteq> 0 \<Longrightarrow>
     fst (connect_tiers K s config cgid ip port) = -1 \<and> pc_audit_only config = 0"
  by (auto simp: file_tiers_def exec_tiers_def connect_tiers_def Let_def outcome_shapes
      dest: check_prefix_Some(1) split: option.splits if_splits)

lemma tiers_log:
  "e \<in> set (snd (file_tiers K s config cgid ts f p)) \<Longrightarrow> ae_cgroup_id e = cgid"
  "e \<in> set (snd (exec_tiers K s config cgid ts p)) \<Longrightarrow> ae_cgroup_id e = cgid"
  "e \<in> set (snd (connect_tiers K s config cgid ip port)) \<Longrightarrow> ae_cgroup_id e = cgid"
  by (auto simp: file_tiers_def exec_tiers_def connect_tiers_def Let_def outcome_shapes emit_audit_def
      dest: check_prefix_Some(2) split: option.splits if_splits)

interpretation file_open: enforcement_hook K
  "\<lambda>s ts (k, h, f). enforce_file_open K s k h ts f" for K
  by unfold_locales
    (auto simp: enforce_file_open_def map_simps dest: tiers_block tiers_log split: option.splits prod.splits)

interpretation bprm_check: enforcement_hook K
  "\<lambda>s ts (k, h, f). enforce_bprm_check K s k h ts f" for K
  by unfold_locales
    (auto simp: enforce_bprm_check_def map_simps dest: tiers_block tiers_log split: option.splits prod.splits)

interpretation socket_connect: enforcement_hook K "\<lambda>s. enforce_socket_connect K s" for K
  by unfold_locales
    (auto simp: enforce_socket_connect_def map_simps dest: tiers_block tiers_log
      split: option.splits if_splits)


section \<open>What the rules allow\<close>

text \<open>The verdict of a class: of the last rule for it, or of its category.\<close>

definition class_verdict :: "BehaviorRule list \<Rightarrow> PathPattern \<Rightarrow> u8 option" where
  "class_verdict rules c =
     (case wanted_verdict None (filter (\<lambda>r. rule_class r = Some c) rules) of
        Some v \<Rightarrow> Some v
      | None \<Rightarrow> if has_sibling (\<lambda>d. list_ex (\<lambda>r. rule_class r = Some d) rules) c then Some 1 else None)"

text \<open>The prefixes that the loader keeps: the first 64, cut to 128 bytes.\<close>

definition kept_prefixes :: "BehaviorRule list \<Rightarrow> (string \<times> u8) list" where
  "kept_prefixes rules =
     take 64 (List.map_filter (\<lambda>r. map_option (\<lambda>p. (take PREFIX_MAX_LEN p, verdict_to_u8 (r_verdict r)))
       (rule_prefix r)) rules)"

definition prefix_verdict :: "BehaviorRule list \<Rightarrow> string \<Rightarrow> u8 option" where
  "prefix_verdict rules path =
     map_option snd (find (\<lambda>(pre, v). pre \<noteq> [] \<and> prefix pre path) (kept_prefixes rules))"

definition file_decision :: "BehaviorRule list \<Rightarrow> string \<Rightarrow> PathPattern \<Rightarrow> u8 \<Rightarrow> bool" where
  "file_decision rules path c req =
     (case mask_of None (filter (\<lambda>r. exact_hash r = Some (fnv1a_hash_bytes path)) rules) of
        Some m \<Rightarrow> m \<noteq> 0 \<and> m AND req = req
      | None \<Rightarrow>
          (case if c \<noteq> Regular then class_verdict rules c else None of
             Some v \<Rightarrow> v \<noteq> 0
           | None \<Rightarrow> (case prefix_verdict rules path of Some v \<Rightarrow> v \<noteq> 0 | None \<Rightarrow> False)))"

definition exec_decision :: "BehaviorRule list \<Rightarrow> string \<Rightarrow> bool" where
  "exec_decision rules path =
     (case wanted_verdict None (filter (\<lambda>r. exec_hash r = Some (fnv1a_hash_bytes path)) rules) of
        Some v \<Rightarrow> v \<noteq> 0 | None \<Rightarrow> False)"

definition connect_decision :: "BehaviorRule list \<Rightarrow> u32 \<Rightarrow> u32 \<Rightarrow> bool" where
  "connect_decision rules ip port =
     (let verdict = (\<lambda>d. wanted_verdict None (filter (\<lambda>r. connect_to r = Some d) rules))
      in case verdict (ip, port) of
           Some v \<Rightarrow> v \<noteq> 0
         | None \<Rightarrow> (case verdict (ip, 0) of Some v \<Rightarrow> v \<noteq> 0 | None \<Rightarrow> False))"

text \<open>No entries for the cgroup yet: the state before its policy is loaded for the first time.\<close>

definition unbound :: "u64 \<Rightarrow> Tables \<Rightarrow> bool" where
  "unbound cgid T =
     ((\<forall>h. t_paths T \<lparr>pk_cgroup_id = cgid, pk_path_hash = h\<rparr> = None)
      \<and> (\<forall>p a. t_patterns T \<lparr>tk_cgroup_id = cgid, tk_pattern = p, tk_action = a\<rparr> = None)
      \<and> (\<forall>i. i < 64 \<longrightarrow> t_prefixes T (slot_key cgid i) = None)
      \<and> (\<forall>h. t_exec T \<lparr>pk_cgroup_id = cgid, pk_path_hash = h\<rparr> = None)
      \<and> (\<forall>p a. t_exec_patterns T \<lparr>tk_cgroup_id = cgid, tk_pattern = p, tk_action = a\<rparr> = None)
      \<and> (\<forall>ip port pr. t_net T \<lparr>nk_cgroup_id = cgid, nk_dst_ip = ip, nk_dst_port = port,
             nk_protocol = pr\<rparr> = None))"

section \<open>Lookups in a loaded policy\<close>

lemma has_sibling_iff:
  "has_sibling present c \<longleftrightarrow> (\<exists>g \<in> set category_groups. c \<in> set g \<and> (\<exists>d \<in> set g. present d))"
  by (auto simp: has_sibling_def list_ex_iff)

lemma filter_class_u8:
  "filter (\<lambda>r. map_option pattern_u8 (rule_class r) = Some (pattern_u8 c)) rules
     = filter (\<lambda>r. rule_class r = Some c) rules"
  by (intro filter_cong) auto

lemma verdict_of_None: "wanted_verdict None rs = None \<longleftrightarrow> rs = []"
  by (simp add: wanted_verdict_def)

lemma loaded_class:
  assumes "unbound cgid T"
  shows "t_patterns (load_tables cgid a skb rules T)
      \<lparr>tk_cgroup_id = cgid, tk_pattern = pattern_u8 c, tk_action = 0\<rparr> = class_verdict rules c"
proof -
  have key: "\<lparr>tk_cgroup_id = cgid, tk_pattern = pattern_u8 c, tk_action = 0\<rparr> = open_key cgid c" for c
    by (simp add: open_key_def)
  let ?R = "rules_tables cgid rules (config_tables cgid a skb T)"
  have lookup: "t_patterns ?R (open_key cgid d) = wanted_verdict None (filter (\<lambda>r. rule_class r = Some d) rules)" for d
    using assms by (simp add: rules_tables_def filter_class_u8 config_tables_def unbound_def) (simp add: open_key_def)
  have none: "wanted_verdict None (filter (\<lambda>r. rule_class r = Some d) rules) = None
      \<longleftrightarrow> \<not> list_ex (\<lambda>r. rule_class r = Some d) rules" for d
    by (simp add: verdict_of_None filter_empty_conv list_ex_iff)
  have "(\<exists>g \<in> set category_groups. \<exists>e \<in> set g. open_key cgid c = open_key cgid e
        \<and> (\<exists>d \<in> set g. t_patterns ?R (open_key cgid d) \<noteq> None))
      \<longleftrightarrow> has_sibling (\<lambda>d. list_ex (\<lambda>r. rule_class r = Some d) rules) c"
    unfolding has_sibling_iff lookup none by auto
  then show ?thesis
    unfolding key load_tables_def expand_tables_def class_verdict_def
    by (simp add: lookup split: option.splits)
qed

lemma of_nat_slot_less: "i < 64 \<Longrightarrow> (of_nat i :: u64) < 64"
  by (simp add: word_less_nat_alt unat_of_nat take_bit_nat_eq_self)

lemma slot_key_nat_inject:
  assumes "i < 64" and "j < 64"
  shows "slot_key c (of_nat i) = slot_key c (of_nat j) \<longleftrightarrow> i = j"
proof
  assume "slot_key c (of_nat i) = slot_key c (of_nat j)"
  then have "(of_nat i :: u64) = of_nat j"
    using slot_key_inject assms of_nat_slot_less by blast
  then have "unat (of_nat i :: u64) = unat (of_nat j :: u64)" by simp
  then show "i = j" using assms by (simp add: unat_of_nat take_bit_nat_eq_self)
qed simp

lemma prefix_table_lookup:
  assumes "length es \<le> 64" and "i < 64" and "old (slot_key cgid (of_nat i)) = None"
  shows "prefix_table cgid es old (slot_key cgid (of_nat i)) = (if i < length es then Some (es ! i) else None)"
  using assms(1)
proof (induction es rule: rev_induct)
  case Nil
  then show ?case using assms(3) by (simp add: prefix_table_def)
next
  case (snoc e es)
  then have "slot_key cgid (of_nat i) = slot_key cgid (of_nat (length es)) \<longleftrightarrow> i = length es"
    using slot_key_nat_inject assms(2) by simp
  then show ?case using snoc by (auto simp: prefix_table_snoc nth_append)
qed

lemma scan_slots_find:
  assumes "\<And>i. i < 64 \<Longrightarrow> get (slot_key cgid (of_nat i)) = (if i < length es then Some (es ! i) else None)"
  shows "k + n \<le> 64 \<Longrightarrow> scan_slots get cgid p n (of_nat k) = find (entry_matches p) (take n (drop k es))"
proof (induction n arbitrary: k)
  case (Suc n)
  then have "k < 64" by simp
  note g = assms [OF this, unfolded slot_key_def]
  show ?case
  proof (cases "k < length es")
    case True
    then have "take (Suc n) (drop k es) = es ! k # take n (drop (Suc k) es)"
      by (simp add: Cons_nth_drop_Suc [symmetric])
    then show ?thesis
      using g True Suc.IH [of "Suc k"] Suc.prems by (simp add: add.commute)
  next
    case False
    then show ?thesis using g by simp
  qed
qed simp

lemma find_map_option: "find P (map f xs) = map_option f (find (\<lambda>x. P (f x)) xs)"
  by (induction xs) auto

lemma prefix_slots_kept: "prefix_slots rules = map (\<lambda>(pre, v). prefix_entry pre v) (kept_prefixes rules)"
proof -
  have "prefix_entry (take PREFIX_MAX_LEN pre) v = prefix_entry pre v" for pre v
    by (simp add: prefix_entry_def min.commute)
  then have "List.map_filter rule_prefix_entry rules
      = map (\<lambda>(pre, v). prefix_entry pre v) (List.map_filter
          (\<lambda>r. map_option (\<lambda>p. (take PREFIX_MAX_LEN p, verdict_to_u8 (r_verdict r))) (rule_prefix r)) rules)"
    by (induction rules) (auto simp: map_filter_simps rule_prefix_entry_def split: option.splits)
  then show ?thesis by (simp add: prefix_slots_def kept_prefixes_def take_map)
qed

lemma kept_prefixes_short: "(pre, v) \<in> set (kept_prefixes rules) \<Longrightarrow> length pre \<le> PREFIX_MAX_LEN"
  by (auto simp: kept_prefixes_def map_filter_def dest!: in_set_takeD)

text \<open>A buffer that holds a short path, as the walk leaves it.\<close>

definition holds_path :: "Path \<Rightarrow> string \<Rightarrow> bool" where
  "holds_path p path =
     (path_ok p \<and> p_mode p = Prepend \<and> path_bytes p = path \<and> length path \<le> MAX_PATH_LEN - 255)"

lemma entry_matches_prefix:
  assumes "holds_path p path" and "length pre \<le> PREFIX_MAX_LEN"
  shows "entry_matches p (prefix_entry pre v) \<longleftrightarrow> pre \<noteq> [] \<and> prefix pre path"
proof -
  have len: "path_len p = length path" using assms(1) path_bytes_length by (auto simp: holds_path_def)
  have plen: "unat (pe_prefix_len (prefix_entry pre v)) = length pre"
    using assms(2)
    by (simp add: prefix_entry_def Let_def PREFIX_MAX_LEN_def unat_of_nat take_bit_nat_eq_self)
  have raw: "raw_buffer_and_offset p = (p_buffer p, MAX_PATH_LEN - length path)"
    using assms(1) len by (simp add: holds_path_def raw_buffer_and_offset_def)
  have byte: "p_buffer p ! ((MAX_PATH_LEN - length path + i) mod MAX_PATH_LEN) = path ! i"
    if "i < length path" for i
    using that assms(1) len by (auto simp: holds_path_def path_bytes_def path_ok_def)
  have pre: "pe_prefix (prefix_entry pre v) ! i = pre ! i" if "i < length pre" for i
    using that assms(2) by (simp add: prefix_entry_def Let_def nth_append)
  have "prefix pre path \<longleftrightarrow> length pre \<le> length path \<and> (\<forall>i < length pre. path ! i = pre ! i)"
    unfolding prefix_def by (auto simp: list_eq_iff_nth_eq nth_append intro!: exI [of _ "drop (length pre) path"])
  moreover have "(length pre \<le> i \<or> (i < length path \<and>
      p_buffer p ! ((MAX_PATH_LEN - length path + i) mod MAX_PATH_LEN) = pe_prefix (prefix_entry pre v) ! i))
      \<longleftrightarrow> (i < length pre \<longrightarrow> path ! i = pre ! i)" if "length pre \<le> length path" for i
    using that byte [of i] pre [of i] by (cases "i < length pre") simp_all
  ultimately show ?thesis
    using assms(2)
    by (cases "length pre \<le> length path")
      (auto simp: entry_matches_def raw plen len list_all_iff Let_def)
qed

lemma loaded_prefix:
  assumes "holds_path p path" and "path \<noteq> []" and "unbound cgid (tables K s)"
    and "tables K s' = load_tables cgid a skb rules (tables K s)"
  shows "check_prefix_match K s' config cgid h p
     = map_option (matched config cgid h 0xFF 0) (prefix_verdict rules path)"
proof -
  have len: "path_len p = length path" using assms(1) path_bytes_length by (auto simp: holds_path_def)
  have get: "mo_get (FILE_PREFIX_POLICY K) s' (slot_key cgid (of_nat i))
      = (if i < length (prefix_slots rules) then Some (prefix_slots rules ! i) else None)" if "i < 64" for i
    using prefix_table_lookup [OF length_prefix_slots that] assms(3) of_nat_slot_less [OF that]
    by (simp add: map_simps assms(4) load_tables_def expand_tables_def rules_tables_def config_tables_def
        unbound_def)
  have "scan_slots (mo_get (FILE_PREFIX_POLICY K) s') cgid p MAX_PREFIX_SLOTS 0
      = find (entry_matches p) (prefix_slots rules)"
    using scan_slots_find [of _ cgid _ 0 64 p, OF get] length_prefix_slots [of rules]
    by (simp add: MAX_PREFIX_SLOTS_def)
  also have "\<dots> = map_option (\<lambda>(pre, v). prefix_entry pre v)
      (find (\<lambda>(pre, v). pre \<noteq> [] \<and> prefix pre path) (kept_prefixes rules))"
    unfolding prefix_slots_kept find_map_option
    by (intro arg_cong [of _ _ "map_option _"] find_cong refl)
      (auto simp: entry_matches_prefix [OF assms(1)] dest: kept_prefixes_short)
  finally show ?thesis
    using assms(2) len
    by (auto simp: check_prefix_match_def prefix_verdict_def option.map_comp prefix_entry_def Let_def
        intro!: map_option_cong)
qed

section \<open>From the file to its path\<close>

text \<open>The hook's resolution of the file finds \<open>path\<close>, within the bounds of the kernel side.\<close>

definition resolves_to :: "KernelFs \<Rightarrow> Heap \<Rightarrow> KFile \<Rightarrow> string \<Rightarrow> bool" where
  "resolves_to k h f path =
     (case alloc_path h of
        None \<Rightarrow> False
      | Some buf \<Rightarrow>
          path \<noteq> [] \<and> holds_path (fst (core_resolve_file k buf (kf_path f) MAX_PATH_DEPTH)) path)"

definition kernel_class :: "string \<Rightarrow> PathPattern" where
  "kernel_class path = fst (classify_path (classify_bytes path) 0)"

lemma resolves_to_class:
  assumes "holds_path p path"
  shows "path_class p ts = kernel_class path"
  using assms classify_pid_irrelevant
  by (auto simp: path_class_def kernel_class_def holds_path_def to_classify_buffer_prepend)

lemma resolves_to_hash: "holds_path p path \<Longrightarrow> hash_path p = fnv1a_hash_bytes path"
  using hash_path_bytes [of p] path_bytes_length [of p] by (auto simp: holds_path_def)

text \<open>A file that sits in the mount tree within the bounds resolves to its path.\<close>

lemma located_resolves:
  assumes "heap_ready h" and "kf_path f = Some (Some (Some (Some e, Some mnt)))"
    and "k_d_inode k e = Some i" and "k_metadata k i = Some md"
    and "k_mnt_parent k (k_mount k mnt) = Some mp" and "k_vfs_root k mnt = Some mr"
    and "located k e (k_mount k mnt) mp mr comps n" and "n \<le> MAX_PATH_DEPTH"
    and "comps_size comps < MAX_PATH_LEN - 255"
  shows "resolves_to k h f (''/'' @ join ''/'' comps)"
proof -
  obtain h1 where h1: "alloc_init h = (h1, Inr ())" "heap_ready h1" "i_next h1 = Some 0"
    using alloc_init_ready [OF assms(1)] by blast
  have a: "alloc_path h = Some default_path"
    using h1(1) alloc_zero_ready [OF h1(2,3), of SIZE_OF_PATH]
    by (simp add: alloc_path_def MAX_ALLOCS_def SIZE_OF_PATH_def HEAP_MAX_ALLOC_SIZE_def)
  have "path_len default_path = 0" by (simp add: path_len_def default_path_def)
  then obtain q where q: "resolve_at k (default_path\<lparr>p_mode := Prepend, p_metadata := Some md\<rparr>) e mnt
      MAX_PATH_DEPTH = (q, Inr ())" "path_ok q" "p_mode q = Prepend" "path_bytes q = ''/'' @ join ''/'' comps"
    using resolve_at_located [OF default_path_ok _ assms(5,6,7,8)] assms(9) by fastforce
  have "length (''/'' @ join ''/'' comps) \<le> MAX_PATH_LEN - 255"
    using length_join [of comps] assms(9) by simp
  then show ?thesis
    using q by (simp add: resolves_to_def a assms(2) core_resolve_file_def core_resolve_at(1) [OF assms(3,4)]
        holds_path_def)
qed

section \<open>The hooks implement the policy\<close>

lemma loaded_config:
  "t_cgroups (load_tables cgid audit_only skb rules T) cgid
     = Some \<lparr>pc_default_action = 0, pc_audit_only = (if audit_only then 1 else 0)\<rparr>"
  by (simp add: load_tables_def expand_tables_def rules_tables_def config_tables_def)

lemma loaded_entries:
  assumes "unbound cgid T"
  shows "t_paths (load_tables cgid a skb rules T) \<lparr>pk_cgroup_id = cgid, pk_path_hash = h\<rparr>
      = mask_of None (filter (\<lambda>r. exact_hash r = Some h) rules)"
    and "t_exec (load_tables cgid a skb rules T) \<lparr>pk_cgroup_id = cgid, pk_path_hash = h\<rparr>
      = wanted_verdict None (filter (\<lambda>r. exec_hash r = Some h) rules)"
    and "t_exec_patterns (load_tables cgid a skb rules T)
      \<lparr>tk_cgroup_id = cgid, tk_pattern = p, tk_action = act\<rparr> = None"
    and "t_net (load_tables cgid a skb rules T)
      \<lparr>nk_cgroup_id = cgid, nk_dst_ip = ip, nk_dst_port = port, nk_protocol = 0\<rparr>
      = wanted_verdict None (filter (\<lambda>r. connect_to r = Some (ip, port)) rules)"
  using assms
  by (simp_all add: load_tables_def expand_tables_def rules_tables_def config_tables_def unbound_def)

lemma file_tiers_loaded:
  assumes "holds_path p path" and "path \<noteq> []" and "unbound cgid (tables K s)"
    and "tables K s' = load_tables cgid a skb rules (tables K s)" and "pc_audit_only config = 0"
    and "pc_default_action config = 0"
  shows "fst (file_tiers K s' config cgid ts f p)
     = (if file_decision rules path (kernel_class path) (requested_access f) then 0 else -1)"
proof -
  have cp: "check_prefix_match K s' config cgid (fnv1a_hash_bytes path) p
      = map_option (matched config cgid (fnv1a_hash_bytes path) 0xFF 0) (prefix_verdict rules path)"
    by (rule loaded_prefix [OF assms(1-4)])
  show ?thesis
    unfolding file_tiers_def file_decision_def Let_def resolves_to_class [OF assms(1)]
      resolves_to_hash [OF assms(1)] cp map_simps assms(4) loaded_entries [OF assms(3)] loaded_class [OF assms(3)]
    by (simp add: assms(5,6) outcome_shapes split: option.splits)
qed

lemma exec_tiers_loaded:
  assumes "holds_path p path" and "unbound cgid (tables K s)"
    and "tables K s' = load_tables cgid a skb rules (tables K s)" and "pc_audit_only config = 0"
    and "pc_default_action config = 0"
  shows "fst (exec_tiers K s' config cgid ts p) = (if exec_decision rules path then 0 else -1)"
  unfolding exec_tiers_def exec_decision_def Let_def resolves_to_hash [OF assms(1)] map_simps assms(3)
    loaded_entries [OF assms(2)]
  by (simp add: assms(4,5) outcome_shapes split: option.splits)

lemma connect_tiers_loaded:
  assumes "unbound cgid (tables K s)"
    and "tables K s' = load_tables cgid a skb rules (tables K s)" and "pc_audit_only config = 0"
    and "pc_default_action config = 0"
  shows "fst (connect_tiers K s' config cgid ip port) = (if connect_decision rules ip port then 0 else -1)"
  unfolding connect_tiers_def connect_decision_def Let_def map_simps assms(2) loaded_entries [OF assms(1)]
  by (simp add: assms(3,4) outcome_shapes split: option.splits)

lemma load_effect:
  assumes "kernel_laws K" and "apply_rules K cgid audit_only rules skb s = (s', Inr stats)"
  shows "tables K s' = load_tables cgid audit_only skb rules (tables K s)"
  using assms by (intro bpf_kernel.apply_rules_load bpf_kernel.intro)

text \<open>The file hook reads four maps; what else a state holds does not matter.\<close>

lemma file_tiers_cong:
  assumes "t_paths (tables K s) = t_paths (tables K s')" and "t_patterns (tables K s) = t_patterns (tables K s')"
    and "t_prefixes (tables K s) = t_prefixes (tables K s')"
  shows "file_tiers K s config cgid ts f p = file_tiers K s' config cgid ts f p"
proof -
  have eq: "mo_get (FILE_PATH_POLICY K) s = mo_get (FILE_PATH_POLICY K) s'"
    "mo_get (FILE_PATTERN_POLICY K) s = mo_get (FILE_PATTERN_POLICY K) s'"
    "mo_get (FILE_PREFIX_POLICY K) s = mo_get (FILE_PREFIX_POLICY K) s'"
    using assms by (simp_all add: tables_def)
  show ?thesis unfolding file_tiers_def check_prefix_match_def eq ..
qed

lemma file_open_loaded:
  assumes "tables K s1 = load_tables cgid False skb rules (tables K s)" and "unbound cgid (tables K s)"
    and "ts_cgroup_id ts = Some cgid" and "resolves_to k h f path"
    and "t_cgroups (tables K s') cgid = t_cgroups (tables K s1) cgid"
    and "t_paths (tables K s') = t_paths (tables K s1)" and "t_patterns (tables K s') = t_patterns (tables K s1)"
    and "t_prefixes (tables K s') = t_prefixes (tables K s1)"
  shows "fst (enforce_file_open K s' k h ts f)
    = (if file_decision rules path (kernel_class path) (requested_access f) then 0 else -1)"
proof -
  obtain buf where buf: "alloc_path h = Some buf" "path \<noteq> []"
    "holds_path (fst (core_resolve_file k buf (kf_path f) MAX_PATH_DEPTH)) path"
    using assms(4) by (auto simp: resolves_to_def split: option.splits)
  have "t_cgroups (tables K s') cgid = Some \<lparr>pc_default_action = 0, pc_audit_only = 0\<rparr>"
    by (simp add: assms(5,1) loaded_config)
  then show ?thesis
    using file_tiers_loaded [OF buf(3,2) assms(2,1), where config = "\<lparr>pc_default_action = 0, pc_audit_only = 0\<rparr>"]
      assms(3) buf(1) file_tiers_cong [OF assms(6-8)]
    by (simp add: enforce_file_open_def map_simps)
qed

lemma bprm_check_loaded:
  assumes "tables K s' = load_tables cgid False skb rules (tables K s)" and "unbound cgid (tables K s)"
    and "ts_cgroup_id ts = Some cgid" and "resolves_to k h f path"
  shows "fst (enforce_bprm_check K s' k h ts (Some f)) = (if exec_decision rules path then 0 else -1)"
proof -
  obtain buf where buf: "alloc_path h = Some buf"
    "holds_path (fst (core_resolve_file k buf (kf_path f) MAX_PATH_DEPTH)) path"
    using assms(4) by (auto simp: resolves_to_def split: option.splits)
  show ?thesis
    using exec_tiers_loaded [OF buf(2) assms(2,1)] assms(3) buf(1)
    by (simp add: enforce_bprm_check_def map_simps assms(1) loaded_config)
qed

lemma socket_connect_loaded:
  assumes "tables K s' = load_tables cgid False skb rules (tables K s)" and "unbound cgid (tables K s)"
    and "ts_cgroup_id ts = Some cgid"
    and "addr = \<lparr>sa_family = Some AF_INET, sa_s_addr = Some ip, sa_sin_port = Some be_port\<rparr>"
  shows "fst (enforce_socket_connect K s' ts addr)
    = (if connect_decision rules ip (ucast (u16_from_be be_port)) then 0 else -1)"
  using connect_tiers_loaded [OF assms(2,1)] assms(3)
  by (simp add: enforce_socket_connect_def map_simps assms(1) loaded_config assms(4))

text \<open>
  C2: file enforcement is what the policy says. After the loader has returned for a cgroup without
  earlier entries, opening a file passes if and only if the rules allow it: the access mask of the
  exact path decides if there is one; otherwise the verdict of the kernel's class of the path, with
  the categories filled up; otherwise the first of the kept prefixes that the path begins with;
  and otherwise the open is denied.
\<close>

theorem file_open_enforces:
  assumes "kernel_laws K" and "apply_rules K cgid False rules skb s = (s', Inr stats)"
    and "unbound cgid (tables K s)" and "ts_cgroup_id ts = Some cgid" and "resolves_to k h f path"
  shows "fst (enforce_file_open K s' k h ts f)
    = (if file_decision rules path (kernel_class path) (requested_access f) then 0 else -1)"
  by (rule file_open_loaded [OF load_effect [OF assms(1,2)] assms(3-5)]) simp_all

definition hosts_policy :: "BehaviorRule list" where
  "hosts_policy = [sample_file 1 (ExactPath ''/etc/hosts'') FileRead]"

definition hosts_file :: "u32 \<Rightarrow> KFile" where
  "hosts_file flags = \<lparr>kf_path = Some (Some (Some (Some 3, Some 5))), kf_flags = Some flags\<rparr>"

definition sample_task :: Task where
  "sample_task = \<lparr>ts_cgroup_id = Some 7, ts_ns_tgid = Some 1\<rparr>"

lemma hosts_resolves: "resolves_to sample_fs fresh_heap (hosts_file flags) ''/etc/hosts''"
proof -
  have "resolves_to sample_fs fresh_heap (hosts_file flags) (''/'' @ join ''/'' [''etc'', ''hosts''])"
    using sample_located
    by (intro located_resolves [where e = 3 and mnt = 5 and i = 3 and md = sample_metadata and mp = 7
          and mr = 1 and n = "Suc (Suc 1)"])
      (simp_all add: heap_ready_def fresh_heap_def hosts_file_def sample_fs_def comps_size_def
        MAX_PATH_LEN_def MAX_PATH_DEPTH_def)
  then show ?thesis by simp
qed

lemma empty_unbound: "unbound cgid (tables hash_kernel empty_maps)"
  by (simp add: unbound_def hash_tables empty_maps_def)

lemma small_policy_loads:
  assumes "length rules \<le> 1000"
  shows "\<exists>s' stats. apply_rules hash_kernel cgid audit_only rules skb empty_maps = (s', Inr stats)"
  using assms
  by (intro hash.apply_rules_succeeds)
    (simp_all add: fits_def hash_tables empty_maps_def category_groups_def FILE_PATH_POLICY_MAX_def
      FILE_PATTERN_POLICY_MAX_def EXEC_PATH_POLICY_MAX_def NET_CONNECT_POLICY_MAX_def
      FILE_PREFIX_POLICY_MAX_def POLICY_CGROUPS_MAX_def)

lemma policy_sizes: "length hosts_policy \<le> 1000" "length sample_policy \<le> 1000"
  by (simp_all add: hosts_policy_def sample_policy_def)

lemma hosts_decision:
  "file_decision hosts_policy ''/etc/hosts'' c req \<longleftrightarrow> ACCESS_READ AND req = req"
  by (simp add: file_decision_def hosts_policy_def sample_file_def granted_rule_def exact_hash_def
      rule_pattern_def mask_of_def mask_step_def access_bit_def ACCESS_READ_def)

text \<open>A file that was only read may be opened for reading, and not for writing.\<close>

lemma file_open_enforces_witness:
  "\<exists>s' stats. apply_rules hash_kernel 7 False hosts_policy True empty_maps = (s', Inr stats)
     \<and> fst (enforce_file_open hash_kernel s' sample_fs fresh_heap sample_task (hosts_file 0)) = 0
     \<and> fst (enforce_file_open hash_kernel s' sample_fs fresh_heap sample_task (hosts_file 1)) = -1"
proof -
  obtain s' stats where r: "apply_rules hash_kernel 7 False hosts_policy True empty_maps = (s', Inr stats)"
    using small_policy_loads [OF policy_sizes(1)] by blast
  have "ts_cgroup_id sample_task = Some 7" by (simp add: sample_task_def)
  note e = file_open_enforces [OF hash_kernel_laws r empty_unbound this hosts_resolves]
  show ?thesis
    using r e [of 0] e [of 1]
    by (auto simp: hosts_decision hosts_file_def requested_access_def O_ACCMODE_def
        ACCESS_READ_def ACCESS_WRITE_def)
qed

text \<open>
  C30: execution is enforced by exact path alone. After loading, a program may be executed if and
  only if the last rule for the hash of its path does not deny it; without a rule it is denied.
\<close>

theorem bprm_check_enforces:
  assumes "kernel_laws K" and "apply_rules K cgid False rules skb s = (s', Inr stats)"
    and "unbound cgid (tables K s)" and "ts_cgroup_id ts = Some cgid" and "resolves_to k h f path"
  shows "fst (enforce_bprm_check K s' k h ts (Some f)) = (if exec_decision rules path then 0 else -1)"
  by (rule bprm_check_loaded [OF load_effect [OF assms(1,2)] assms(3-5)])

lemma bprm_check_enforces_witness:
  "\<exists>s' stats. apply_rules hash_kernel 7 False hosts_policy True empty_maps = (s', Inr stats)
     \<and> fst (enforce_bprm_check hash_kernel s' sample_fs fresh_heap sample_task (Some (hosts_file 0))) = -1"
proof -
  obtain s' stats where r: "apply_rules hash_kernel 7 False hosts_policy True empty_maps = (s', Inr stats)"
    using small_policy_loads [OF policy_sizes(1)] by blast
  have "ts_cgroup_id sample_task = Some 7" by (simp add: sample_task_def)
  moreover have "\<not> exec_decision hosts_policy ''/etc/hosts''"
    by (simp add: exec_decision_def hosts_policy_def sample_file_def granted_rule_def exec_hash_def wanted_verdict_def)
  ultimately show ?thesis
    using r bprm_check_enforces [OF hash_kernel_laws r empty_unbound _ hosts_resolves] by auto
qed

text \<open>
  C29: connections are enforced by address and port. After loading, an IPv4 connect passes if and only
  if the last rule for the destination does not deny it, or, without a rule for the port, the
  last rule for the address without a port does not; everything else is denied. The protocol plays
  no role.
\<close>

theorem socket_connect_enforces:
  assumes "kernel_laws K" and "apply_rules K cgid False rules skb s = (s', Inr stats)"
    and "unbound cgid (tables K s)" and "ts_cgroup_id ts = Some cgid"
    and "addr = \<lparr>sa_family = Some AF_INET, sa_s_addr = Some ip, sa_sin_port = Some be_port\<rparr>"
  shows "fst (enforce_socket_connect K s' ts addr)
    = (if connect_decision rules ip (ucast (u16_from_be be_port)) then 0 else -1)"
  by (rule socket_connect_loaded [OF load_effect [OF assms(1,2)] assms(3-5)])

lemma socket_connect_enforces_witness:
  "\<exists>s' stats. apply_rules hash_kernel 7 False sample_policy True empty_maps = (s', Inr stats)
     \<and> fst (enforce_socket_connect hash_kernel s' sample_task
         \<lparr>sa_family = Some AF_INET, sa_s_addr = Some 0x0100007F, sa_sin_port = Some 0xBB01\<rparr>) = 0
     \<and> fst (enforce_socket_connect hash_kernel s' sample_task
         \<lparr>sa_family = Some AF_INET, sa_s_addr = Some 0x0100007F, sa_sin_port = Some 0x5000\<rparr>) = -1"
proof -
  obtain s' stats where r: "apply_rules hash_kernel 7 False sample_policy True empty_maps = (s', Inr stats)"
    using small_policy_loads [OF policy_sizes(2)] by blast
  have task: "ts_cgroup_id sample_task = Some 7" by (simp add: sample_task_def)
  have "u16_from_be 0xBB01 = 443" "u16_from_be 0x5000 = 80" by (simp_all add: u16_from_be_def)
  moreover have "connect_decision sample_policy 0x0100007F 443"
    "\<not> connect_decision sample_policy 0x0100007F 80"
    by (simp_all add: connect_decision_def sample_policy_def sample_file_def granted_rule_def
        connect_to_def wanted_verdict_def)
  ultimately show ?thesis
    using r socket_connect_enforces [OF hash_kernel_laws r empty_unbound task refl] by auto
qed

section \<open>Where the tiers lose what was profiled\<close>

text \<open>
  The exact tier is final: a file that was read by its exact path and may be written by a prefix is
  not writable, although a rule of the policy allows it.
\<close>

lemma exact_shadows_prefix:
  "\<not> file_decision [sample_file 1 (ExactPath ''/data/log'') FileRead, sample_file 2 (Prefix ''/data/'') FileWrite]
       ''/data/log'' c ACCESS_WRITE"
  by (simp add: file_decision_def sample_file_def granted_rule_def exact_hash_def
      rule_pattern_def mask_of_def mask_step_def access_bit_def ACCESS_READ_def ACCESS_WRITE_def)

text \<open>An \<open>Audit\<close> verdict on an exact path clears the mask, which is an explicit denial.\<close>

lemma audit_denies_exact:
  "\<not> file_decision [sample_file 1 (ExactPath ''/data/log'') FileRead,
       (sample_file 2 (ExactPath ''/data/log'') FileRead)\<lparr>r_verdict := Audit\<rparr>] ''/data/log'' c req"
  by (simp add: file_decision_def sample_file_def granted_rule_def exact_hash_def
      rule_pattern_def mask_of_def mask_step_def access_bit_def ACCESS_READ_def)

end
