(* ===== verification/Buffers.thy ===== *)
theory Buffers
  imports RustStr
begin

text \<open>
  The fixed-size string and buffer types of \<open>ebpf-mon-common/src/string.rs\<close>, \<open>buffer.rs\<close> and their
  kernel and user sides. The capacity \<open>N\<close> is the length of the array (it is positive wherever the
  source uses the types).

  Reads of user and kernel memory are parameters: the bytes that are there, or \<open>None\<close> if the read
  faults. \<open>read_str\<close> is the documented behaviour of \<open>bpf_probe_read_*_str\<close>: the bytes before the first
  NUL, cut so that a final NUL fits.
\<close>

section \<open>Strings\<close>

record KString =
  ks_s :: string
  ks_len :: nat

definition string_default :: "nat \<Rightarrow> KString" where
  "string_default n = \<lparr>ks_s = replicate n nul, ks_len = 0\<rparr>"

definition string_cap :: "KString \<Rightarrow> nat" where
  "string_cap s = length (ks_s s)"

definition string_is_full :: "KString \<Rightarrow> bool" where
  "string_is_full s = (ks_len s = string_cap s - 1)"

definition string_is_empty :: "KString \<Rightarrow> bool" where
  "string_is_empty s = (ks_len s = 0)"

text \<open>The copying loop of \<open>concat_static\<close>, from index \<open>i\<close> on.\<close>

fun concat_loop :: "KString \<Rightarrow> nat \<Rightarrow> string \<Rightarrow> KString \<times> nat" where
  "concat_loop s i [] = (s, i)"
| "concat_loop s i (b # bs) =
     (if i = string_cap s then (s, i)
      else concat_loop (s\<lparr>ks_s := (ks_s s)[i := b], ks_len := ks_len s + 1\<rparr>) (i + 1) bs)"

definition concat_static :: "nat \<Rightarrow> string \<Rightarrow> string \<Rightarrow> KString" where
  "concat_static n st1 st2 =
     (case concat_loop (string_default n) 0 st1 of (s, i) \<Rightarrow> fst (concat_loop s i st2))"

fun from_static_loop :: "KString \<Rightarrow> nat \<Rightarrow> string \<Rightarrow> KString" where
  "from_static_loop s i [] = s"
| "from_static_loop s i (b # bs) =
     (if i = string_cap s - 1 then s
      else from_static_loop (s\<lparr>ks_s := (ks_s s)[i := b], ks_len := ks_len s + 1\<rparr>) (i + 1) bs)"

text \<open>\<open>from_static\<close> panics when the source does not fit.\<close>

definition from_static :: "nat \<Rightarrow> string \<Rightarrow> KString option" where
  "from_static n st = (if length st < n then Some (from_static_loop (string_default n) 0 st) else None)"

text \<open>\<open>push_byte_at\<close> with its index clamped to the array.\<close>

definition push_byte_at :: "KString \<Rightarrow> char \<Rightarrow> nat \<Rightarrow> KString \<times> (u32 + unit)" where
  "push_byte_at s b i =
     (if string_is_full s then (s, Inl 1)
      else (s\<lparr>ks_s := (ks_s s)[min i (string_cap s - 1) := b], ks_len := ks_len s + 1\<rparr>, Inr ()))"

definition push_byte :: "KString \<Rightarrow> char \<Rightarrow> KString \<times> (u32 + unit)" where
  "push_byte s b = push_byte_at s b (ks_len s)"

fun push_bytes_unchecked :: "KString \<Rightarrow> string \<Rightarrow> KString" where
  "push_bytes_unchecked s [] = s"
| "push_bytes_unchecked s (b # bs) =
     (if string_is_full s then s else push_bytes_unchecked (fst (push_byte s b)) bs)"

definition string_reset :: "KString \<Rightarrow> KString" where
  "string_reset s = string_default (string_cap s)"

text \<open>\<open>bpf_probe_read_*_str\<close> into \<open>n\<close> bytes, and what it leaves in the destination.\<close>

definition read_str :: "string option \<Rightarrow> nat \<Rightarrow> string option" where
  "read_str src n =
     (case src of
        None \<Rightarrow> None
      | Some s \<Rightarrow> if n = 0 then None else Some (take (n - 1) (takeWhile (\<lambda>c. c \<noteq> nul) s)))"

text \<open>\<open>read_user_str_bytes\<close> and \<open>read_kernel_str_bytes\<close>; \<open>None\<close> for a null pointer.\<close>

definition read_str_bytes :: "KString \<Rightarrow> string option option \<Rightarrow> KString \<times> (u32 + unit)" where
  "read_str_bytes s src =
     (case src of
        None \<Rightarrow> (s, Inr ())
      | Some mem \<Rightarrow>
          (case read_str mem (string_cap s) of
             None \<Rightarrow> (s, Inl 1)
           | Some t \<Rightarrow>
               (s\<lparr>ks_s := write_at 0 (t @ [nul]) (ks_s s), ks_len := length t\<rparr>, Inr ())))"

definition append_kernel_str_bytes :: "KString \<Rightarrow> string option option \<Rightarrow> KString \<times> (u32 + nat)" where
  "append_kernel_str_bytes s src =
     (let limit = string_cap s div 2 in
      case src of
        None \<Rightarrow> (s, Inr 0)
      | Some mem \<Rightarrow>
          (let k = ks_len s in
           if k \<ge> limit then (s, Inl 1)
           else case read_str mem (limit - k) of
               None \<Rightarrow> (s, Inl 1)
             | Some t \<Rightarrow>
                 (s\<lparr>ks_s := write_at k (t @ [nul]) (ks_s s), ks_len := ks_len s + length t\<rparr>,
                  Inr (length t))))"

definition string_get_byte :: "KString \<Rightarrow> nat \<Rightarrow> u32 + char" where
  "string_get_byte s i = (if i < length (ks_s s) then Inr (ks_s s ! i) else Inl 1)"

text \<open>The user side: the valid bytes, which a conversion copies in and out.\<close>

definition string_try_from :: "nat \<Rightarrow> string \<Rightarrow> KString option" where
  "string_try_from n v =
     (if length v > n then None
      else Some \<lparr>ks_s = v @ replicate (n - length v) nul, ks_len = length v\<rparr>)"

definition string_as_str :: "KString \<Rightarrow> string" where
  "string_as_str s = take (ks_len s) (ks_s s)"

section \<open>Buffers\<close>

record Buffer =
  b_buf :: string
  b_len :: nat

definition buffer_default :: "nat \<Rightarrow> Buffer" where
  "buffer_default n = \<lparr>b_buf = replicate n nul, b_len = 0\<rparr>"

definition buffer_as_slice :: "Buffer \<Rightarrow> string" where
  "buffer_as_slice b = take (min (b_len b) (length (b_buf b))) (b_buf b)"

definition space_left :: "Buffer \<Rightarrow> nat" where
  "space_left b = length (b_buf b) - b_len b"

definition buffer_is_full :: "Buffer \<Rightarrow> bool" where
  "buffer_is_full b = (space_left b = 0)"

definition buffer_reset :: "Buffer \<Rightarrow> Buffer" where
  "buffer_reset b =
     (let n = min (b_len b) (length (b_buf b))
      in \<lparr>b_buf = replicate n nul @ drop n (b_buf b), b_len = 0\<rparr>)"

text \<open>\<open>user\<close> answers the bytes of a read of the given size, if it does not fault.\<close>

definition read_user_memory :: "Buffer \<Rightarrow> (nat \<Rightarrow> string option) \<Rightarrow> u32 \<Rightarrow> Buffer \<times> (u32 + unit)" where
  "read_user_memory b user sz =
     (let n = min (unat sz) (length (b_buf b)) in
      case user n of
        None \<Rightarrow> (b, Inl 1)
      | Some bs \<Rightarrow> (\<lparr>b_buf = write_at 0 bs (b_buf b), b_len = n\<rparr>, Inr ()))"

definition to_argv :: "Buffer \<Rightarrow> string list" where
  "to_argv b = filter (\<lambda>s. s \<noteq> []) (split_on nul (buffer_as_slice b))"

definition to_command_line :: "Buffer \<Rightarrow> string" where
  "to_command_line b = join '' '' (to_argv b)"

section \<open>The operations keep the strings well-formed\<close>

text \<open>
  A string is well-formed when its bytes and at least one more fit its array. \<open>string_as_str\<close> is what it
  stands for.
\<close>

definition string_ok :: "KString \<Rightarrow> bool" where
  "string_ok s = (ks_len s < string_cap s)"

lemma string_ok_default: "0 < n \<Longrightarrow> string_ok (string_default n)"
  by (simp add: string_ok_def string_default_def string_cap_def)

lemma string_as_str_default [simp]: "string_as_str (string_default n) = []"
  by (simp add: string_as_str_def string_default_def)

lemma string_cap_default [simp]: "string_cap (string_default n) = n"
  by (simp add: string_default_def string_cap_def)

lemma push_byte_correct:
  assumes "string_ok s"
  shows "string_ok (fst (push_byte s b)) \<and> string_cap (fst (push_byte s b)) = string_cap s
    \<and> (if ks_len s + 1 = string_cap s
       then push_byte s b = (s, Inl 1)
       else snd (push_byte s b) = Inr () \<and> string_as_str (fst (push_byte s b)) = string_as_str s @ [b]
         \<and> ks_len (fst (push_byte s b)) = ks_len s + 1)"
  using assms
  by (auto simp: push_byte_def push_byte_at_def string_is_full_def string_ok_def string_cap_def
      string_as_str_def take_Suc_conv_app_nth min_def)

lemma push_bytes_unchecked_correct:
  assumes "string_ok s"
  shows "string_as_str (push_bytes_unchecked s bs)
      = string_as_str s @ take (string_cap s - 1 - ks_len s) bs
    \<and> string_ok (push_bytes_unchecked s bs)"
  using assms
proof (induction s bs rule: push_bytes_unchecked.induct)
  case (1 s)
  then show ?case by simp
next
  case (2 s b bs)
  show ?case
  proof (cases "string_is_full s")
    case True
    with "2.prems" show ?thesis by (simp add: string_is_full_def)
  next
    case False
    with "2.prems" have l: "ks_len s + 1 < string_cap s"
      by (auto simp: string_is_full_def string_ok_def)
    then obtain n where n: "string_cap s - 1 - ks_len s = Suc n" "string_cap s - 1 - (ks_len s + 1) = n"
      by (metis Suc_diff_Suc add.commute diff_diff_left less_diff_conv plus_1_eq_Suc)
    show ?thesis
      using "2.IH" [OF False] push_byte_correct [OF "2.prems", of b] l False n by auto
  qed
qed

lemma append_kernel_str_bytes_correct:
  assumes "ks_len s \<le> string_cap s" and "nul \<notin> set t"
    and "ks_len s + length t < string_cap s div 2"
  shows "\<exists>s'. append_kernel_str_bytes s (Some (Some t)) = (s', Inr (length t))
    \<and> string_as_str s' = string_as_str s @ t \<and> ks_len s' = ks_len s + length t
    \<and> string_cap s' = string_cap s"
proof -
  let ?s = "s\<lparr>ks_s := write_at (ks_len s) (t @ [nul]) (ks_s s), ks_len := ks_len s + length t\<rparr>"
  have tw: "takeWhile (\<lambda>c. c \<noteq> nul) t = t" using assms(2) by (induction t) auto
  have "read_str (Some t) (string_cap s div 2 - ks_len s) = Some t"
    using assms(3) by (simp add: read_str_def tw)
  then have "append_kernel_str_bytes s (Some (Some t)) = (?s, Inr (length t))"
    using assms(3) by (simp add: append_kernel_str_bytes_def Let_def)
  moreover have "string_as_str ?s = string_as_str s @ t"
    using assms(1) by (simp add: string_as_str_def write_at_def string_cap_def)
  moreover have "string_cap ?s = string_cap s"
    using assms(3) by (simp add: string_cap_def)
  ultimately show ?thesis by simp
qed

lemma string_try_from_roundtrip:
  "length v \<le> n \<Longrightarrow> \<exists>s. string_try_from n v = Some s \<and> string_as_str s = v \<and> string_cap s = n"
  by (simp add: string_try_from_def string_as_str_def string_cap_def)

end
