(* ===== verification/CgroupPath.thy ===== *)
theory CgroupPath
  imports Buffers
begin

text \<open>
  The cgroup of a process, \<open>ebpf-mon-common/src/cgroup.rs\<close> with \<open>cgroup/bpf.rs\<close> and \<open>cgroup/user.rs\<close>.
  The kernel side walks from the kernfs node of the cgroup to the root and appends one name per
  step, so the text has the components in reverse order; the user side turns it around.

  The reads of kernfs nodes are the parameter \<open>KernFs\<close>. A name is \<open>None\<close> when the pointer cannot be read,
  \<open>Some None\<close> for a null pointer, and otherwise the text that is there, if it can be read.
\<close>

definition CGROUP_PATH_MAX :: nat where "CGROUP_PATH_MAX = 128"
definition CGROUP_STRING_LEN :: nat where "CGROUP_STRING_LEN = CGROUP_PATH_MAX * 2"
definition CONTAINER_ID_MAX_BUF :: nat where "CONTAINER_ID_MAX_BUF = 72"
definition MAX_CGROUP_DEPTH :: nat where "MAX_CGROUP_DEPTH = 32"

record Cgroup =
  cg_path :: KString
  cg_cgroup_id :: string
  cg_is_parsed :: u32
  cg_cgrp_id :: u64

definition default_cgroup :: Cgroup where
  "default_cgroup = \<lparr>cg_path = string_default CGROUP_STRING_LEN,
     cg_cgroup_id = replicate CONTAINER_ID_MAX_BUF nul, cg_is_parsed = 0, cg_cgrp_id = 0\<rparr>"

record KernFs =
  kn_of :: "u64 \<Rightarrow> u64 option"
  kn_name :: "u64 \<Rightarrow> string option option option"
  kn_id :: "u64 \<Rightarrow> u64 option"
  kn_parent :: "u64 \<Rightarrow> u64 option"

section \<open>Resolution in the kernel\<close>

text \<open>The loop from iteration \<open>i\<close> on, with \<open>n\<close> iterations left.\<close>

fun resolve_loop :: "KernFs \<Rightarrow> nat \<Rightarrow> nat \<Rightarrow> Cgroup \<Rightarrow> u64 \<Rightarrow> Cgroup \<times> (u32 + unit)" where
  "resolve_loop K 0 i cg kn = (cg, Inr ())"
| "resolve_loop K (Suc n) i cg kn =
     (case kn_name K kn of
        None \<Rightarrow> (cg, Inl 1)
      | Some name \<Rightarrow>
          (case append_kernel_str_bytes (cg_path cg) name of
             (p, Inl e) \<Rightarrow> (cg\<lparr>cg_path := p\<rparr>, Inl 1)
           | (p, Inr _) \<Rightarrow>
               (let cg = cg\<lparr>cg_path := p\<rparr>;
                    cg = (if i = 0 then
                            (case kn_id K kn of Some i_no \<Rightarrow> cg\<lparr>cg_cgrp_id := i_no\<rparr> | None \<Rightarrow> cg)
                          else cg)
                in case kn_parent K kn of
                     None \<Rightarrow> (cg, Inl 1)
                   | Some parent \<Rightarrow>
                       if parent = 0 then (cg, Inr ())
                       else case push_byte (cg_path cg) CHR ''/'' of
                           (p, Inl e) \<Rightarrow> (cg\<lparr>cg_path := p\<rparr>, Inl 1)
                         | (p, Inr _) \<Rightarrow> resolve_loop K n (i + 1) (cg\<lparr>cg_path := p\<rparr>) parent)))"

definition cgroup_resolve :: "KernFs \<Rightarrow> Cgroup \<Rightarrow> u64 \<Rightarrow> Cgroup \<times> (u32 + unit)" where
  "cgroup_resolve K cg cgroup =
     (if cgroup = 0 then (cg, Inr ())
      else case kn_of K cgroup of
          None \<Rightarrow> (cg, Inl 1)
        | Some kn \<Rightarrow> resolve_loop K MAX_CGROUP_DEPTH 0 cg kn)"

definition read_from_raw :: "Cgroup \<Rightarrow> string option option \<Rightarrow> Cgroup \<times> (u32 + unit)" where
  "read_from_raw cg ptr =
     (case read_str_bytes (cg_path cg) ptr of (p, r) \<Rightarrow> (cg\<lparr>cg_path := p\<rparr>, r))"

section \<open>Display in user space\<close>

definition to_vec :: "Cgroup \<Rightarrow> string list" where
  "to_vec cg = rev (split_on CHR ''/'' (string_as_str (cg_path cg)))"

definition show_cgroup :: "Cgroup \<Rightarrow> string" where
  "show_cgroup cg = join ''/'' (to_vec cg)"

section \<open>The displayed path is the path of the cgroup\<close>

lemma default_cgroup_fields:
  "string_as_str (cg_path default_cgroup) = []" "ks_len (cg_path default_cgroup) = 0"
  "string_cap (cg_path default_cgroup) = CGROUP_STRING_LEN" "cg_cgrp_id default_cgroup = 0"
  by (simp_all add: default_cgroup_def) (simp add: string_default_def)

text \<open>The names from a node up to the root, as the reads deliver them.\<close>

fun kn_chain :: "KernFs \<Rightarrow> u64 \<Rightarrow> string list \<Rightarrow> bool" where
  "kn_chain K kn [] = False"
| "kn_chain K kn [n] = (kn_name K kn = Some (Some (Some n)) \<and> kn_parent K kn = Some 0)"
| "kn_chain K kn (n # m # ns) =
     (kn_name K kn = Some (Some (Some n))
      \<and> (\<exists>p. kn_parent K kn = Some p \<and> p \<noteq> 0 \<and> kn_chain K p (m # ns)))"

lemma resolve_loop_correct:
  assumes "kn_chain K kn ns" and "length ns \<le> n" and "\<forall>x \<in> set ns. nul \<notin> set x"
    and "string_cap (cg_path cg) = CGROUP_STRING_LEN"
    and "ks_len (cg_path cg) + length (join ''/'' ns) < CGROUP_PATH_MAX"
  shows "\<exists>cg'. resolve_loop K n i cg kn = (cg', Inr ())
    \<and> string_as_str (cg_path cg') = string_as_str (cg_path cg) @ join ''/'' ns
    \<and> cg_cgrp_id cg' = (if i = 0 then (case kn_id K kn of Some i_no \<Rightarrow> i_no | None \<Rightarrow> cg_cgrp_id cg)
        else cg_cgrp_id cg)"
  using assms
proof (induction ns arbitrary: kn n i cg rule: induct_list012)
  case 1
  then show ?case by simp
next
  case (2 x)
  obtain m where n: "n = Suc m" using "2.prems"(2) by (cases n) auto
  obtain p where "append_kernel_str_bytes (cg_path cg) (Some (Some x)) = (p, Inr (length x))"
    and "string_as_str p = string_as_str (cg_path cg) @ x"
    using append_kernel_str_bytes_correct [of "cg_path cg" x] "2.prems"(3-5)
    by (auto simp: CGROUP_STRING_LEN_def)
  with "2.prems"(1) n show ?case by (auto simp: Let_def split: option.split)
next
  case (3 x y ns)
  obtain m where n: "n = Suc m" using "3.prems"(2) by (cases n) auto
  obtain par where par: "kn_name K kn = Some (Some (Some x))" "kn_parent K kn = Some par" "par \<noteq> 0"
    "kn_chain K par (y # ns)"
    using "3.prems"(1) by auto
  obtain p where p: "append_kernel_str_bytes (cg_path cg) (Some (Some x)) = (p, Inr (length x))"
    "string_as_str p = string_as_str (cg_path cg) @ x" "ks_len p = ks_len (cg_path cg) + length x"
    "string_cap p = CGROUP_STRING_LEN"
    using append_kernel_str_bytes_correct [of "cg_path cg" x] "3.prems"(3-5)
    by (auto simp: CGROUP_STRING_LEN_def)
  define q where "q = fst (push_byte p CHR ''/'')"
  have "string_ok p" "ks_len p + 1 \<noteq> string_cap p"
    using p "3.prems"(5) by (simp_all add: string_ok_def CGROUP_STRING_LEN_def)
  from push_byte_correct [OF this(1), of "CHR ''/''"] this(2)
  have q: "push_byte p CHR ''/'' = (q, Inr ())" "string_as_str q = string_as_str p @ ''/''"
    "ks_len q = ks_len p + 1" "string_cap q = CGROUP_STRING_LEN"
    using p by (simp_all add: q_def prod_eq_iff)
  define cg1 where "cg1 = (let cg = cg\<lparr>cg_path := p\<rparr> in if i = 0 then
      (case kn_id K kn of Some i_no \<Rightarrow> cg\<lparr>cg_cgrp_id := i_no\<rparr> | None \<Rightarrow> cg) else cg)"
  have cg1: "cg_path cg1 = p" "cg_cgrp_id cg1 = (if i = 0
      then (case kn_id K kn of Some i_no \<Rightarrow> i_no | None \<Rightarrow> cg_cgrp_id cg) else cg_cgrp_id cg)"
    by (auto simp: cg1_def Let_def split: option.split)
  have step: "resolve_loop K n i cg kn = resolve_loop K m (i + 1) (cg1\<lparr>cg_path := q\<rparr>) par"
    using par p q by (cases "i = 0"; cases "kn_id K kn") (simp_all add: n cg1_def Let_def)
  have "\<exists>cg'. resolve_loop K m (i + 1) (cg1\<lparr>cg_path := q\<rparr>) par = (cg', Inr ())
      \<and> string_as_str (cg_path cg') = string_as_str q @ join ''/'' (y # ns)
      \<and> cg_cgrp_id cg' = cg_cgrp_id cg1"
    using "3.IH"(2) [OF par(4), of m "cg1\<lparr>cg_path := q\<rparr>" "i + 1"] "3.prems"(2,3,5) n q p by simp
  then show ?case using step cg1 q p by auto
qed

text \<open>
  The path of a cgroup survives the way from the kernel to the display. When the names from the
  cgroup's node up to the root can be read, hold no slash, are at most 32 and short enough for half of
  the buffer, resolution succeeds, records the id of the node, and the user side displays the names
  from the root down.
\<close>

theorem cgroup_path_displayed:
  assumes "cgroup \<noteq> 0" and "kn_of K cgroup = Some kn" and "kn_chain K kn ns"
    and "kn_id K kn = Some cgid" and "length ns \<le> MAX_CGROUP_DEPTH"
    and "\<forall>x \<in> set ns. nul \<notin> set x \<and> CHR ''/'' \<notin> set x"
    and "length (join ''/'' ns) < CGROUP_PATH_MAX"
  shows "\<exists>cg. cgroup_resolve K default_cgroup cgroup = (cg, Inr ())
    \<and> show_cgroup cg = join ''/'' (rev ns) \<and> cg_cgrp_id cg = cgid"
proof -
  obtain cg where cg: "resolve_loop K MAX_CGROUP_DEPTH 0 default_cgroup kn = (cg, Inr ())"
    "string_as_str (cg_path cg) = join ''/'' ns" "cg_cgrp_id cg = cgid"
    using resolve_loop_correct [OF assms(3,5), of default_cgroup 0] assms(4,6,7)
    by (auto simp: default_cgroup_fields)
  have "ns \<noteq> []" using assms(3) by auto
  then have "to_vec cg = rev ns"
    using split_join [of ns "CHR ''/''"] assms(6) by (simp add: to_vec_def cg)
  then show ?thesis using cg assms(1,2) by (simp add: cgroup_resolve_def show_cgroup_def)
qed

definition sample_kernfs :: KernFs where
  "sample_kernfs = \<lparr>kn_of = (\<lambda>c. Some 3),
     kn_name = (\<lambda>k. Some (Some (Some (if k = 3 then ''docker-a.scope'' else if k = 2 then ''system.slice'' else '''')))),
     kn_id = (\<lambda>k. Some (k + 40)), kn_parent = (\<lambda>k. Some (k - 1))\<rparr>"

theorem cgroup_path_displayed_witness:
  "\<exists>cg. cgroup_resolve sample_kernfs default_cgroup 7 = (cg, Inr ())
    \<and> show_cgroup cg = ''/system.slice/docker-a.scope'' \<and> cg_cgrp_id cg = 43"
  using cgroup_path_displayed [of 7 sample_kernfs 3 "[''docker-a.scope'', ''system.slice'', '''']" 43]
  by (simp add: sample_kernfs_def MAX_CGROUP_DEPTH_def CGROUP_PATH_MAX_def nul_def)

end
