(* ===== verification/Modules.thy ===== *)
theory Modules
  imports PathWalk CgroupPath
begin

text \<open>
  The header of every event, \<open>ebpf-mon-common/src/modules.rs\<close> with \<open>modules/bpf.rs\<close>: what the kernel side
  records about the current process and its parent, and how the user side recognizes a raw event
  (\<open>modules/user.rs\<close>).

  The reads of the task structure are the parameter \<open>KTask\<close>, with \<open>None\<close> for a read that fails.
  Signed 32-bit ids are kept as words.
\<close>

section \<open>Types\<close>

datatype EventType = InetOut | InetIn | EvFileWrite | EvFileRead | EvFork | EvExecve | EvUnknown

definition MAX_BPF_EVENT_SIZE :: nat where "MAX_BPF_EVENT_SIZE = 1000"
definition ARGS_LEN :: nat where "ARGS_LEN = 512"

record ProcessInfo =
  pi_comm :: string
  pi_uid :: u32
  pi_gid :: u32
  pi_tgid :: u32
  pi_pid :: u32
  pi_executable :: Path
  pi_interpreter :: Path
  pi_namespaces :: "u32 option"
  pi_start_time :: u64
  pi_cgroup :: Cgroup
  pi_args :: Buffer

definition default_process_info :: ProcessInfo where
  "default_process_info = \<lparr>pi_comm = replicate 16 nul, pi_uid = 0, pi_gid = 0, pi_tgid = 0, pi_pid = 0,
     pi_executable = default_path, pi_interpreter = default_path, pi_namespaces = None,
     pi_start_time = 0, pi_cgroup = default_cgroup, pi_args = buffer_default ARGS_LEN\<rparr>"

record EventInfo =
  ei_event_type :: EventType
  ei_process :: ProcessInfo
  ei_parent :: ProcessInfo
  ei_timestamp :: u64

definition default_event_info :: EventInfo where
  "default_event_info = \<lparr>ei_event_type = EvUnknown, ei_process = default_process_info,
     ei_parent = default_process_info, ei_timestamp = 0\<rparr>"

text \<open>What \<open>alloc_zero\<close> yields: every byte of the header is zero.\<close>

definition zeroed_event_info :: EventInfo where
  "zeroed_event_info = default_event_info\<lparr>ei_event_type := InetOut\<rparr>"

record 'p EventRaw =
  er_header :: EventInfo
  er_payload :: 'p

text \<open>\<open>bytes\<close> up to the first NUL, as \<open>comm_str\<close> takes them.\<close>

definition comm_str :: "ProcessInfo \<Rightarrow> string" where
  "comm_str p = hd (split_on nul (pi_comm p))"

section \<open>Filling in the header\<close>

text \<open>
  \<open>kt_mnt_ns\<close>: \<open>None\<close> when the nsproxy cannot be read, \<open>Some None\<close> when it is null, then the read of
  the mount namespace's number. \<open>kt_exe\<close>: the executable of the memory map, if the chain of reads
  succeeds. \<open>kt_mm\<close>: start and end of the arguments, if the memory map can be read.
\<close>

record KTask =
  kt_comm :: "string option"
  kt_start_boottime :: "u64 option"
  kt_tgid :: "u32 option"
  kt_pid :: "u32 option"
  kt_mnt_ns :: "u32 option option option"
  kt_exe :: "(u64 option \<times> u64 option) option option option option"
  kt_cgroup :: "u64 option"
  kt_mm :: "(u64 option \<times> u64 option) option"

record World =
  w_fs :: KernelFs
  w_kernfs :: KernFs
  w_user :: "u64 \<Rightarrow> nat \<Rightarrow> string option"

definition arg_len :: "u64 option \<times> u64 option \<Rightarrow> u64 option" where
  "arg_len mm =
     (case mm of
        (Some a, Some e) \<Rightarrow> Some (if e = 0 \<or> a \<ge> e then 0 else e - a)
      | _ \<Rightarrow> None)"

definition parse_namespace :: "ProcessInfo \<Rightarrow> u32 option \<Rightarrow> ProcessInfo \<times> (u32 + unit)" where
  "parse_namespace pi inum =
     (case inum of None \<Rightarrow> (pi, Inl 1) | Some n \<Rightarrow> (pi\<lparr>pi_namespaces := Some n\<rparr>, Inr ()))"

definition init_namespace :: "ProcessInfo \<Rightarrow> KTask \<Rightarrow> ProcessInfo \<times> (u32 + unit)" where
  "init_namespace pi t =
     (case kt_mnt_ns t of Some (Some inum) \<Rightarrow> parse_namespace pi inum | _ \<Rightarrow> (pi, Inr ()))"

definition init_executable :: "World \<Rightarrow> ProcessInfo \<Rightarrow> KTask \<Rightarrow> ProcessInfo \<times> (u32 + unit)" where
  "init_executable W pi t =
     (case kt_exe t of
        None \<Rightarrow> (pi, Inr ())
      | Some f \<Rightarrow>
          (case core_resolve_file (w_fs W) (pi_executable pi) f MAX_PATH_DEPTH of
             (p, r) \<Rightarrow> (pi\<lparr>pi_executable := p\<rparr>, r)))"

definition init_cgroup :: "World \<Rightarrow> ProcessInfo \<Rightarrow> KTask \<Rightarrow> ProcessInfo \<times> (u32 + unit)" where
  "init_cgroup W pi t =
     (case kt_cgroup t of
        None \<Rightarrow> (pi, Inr ())
      | Some c \<Rightarrow>
          (case cgroup_resolve (w_kernfs W) (pi_cgroup pi) c of
             (cg, r) \<Rightarrow> (pi\<lparr>pi_cgroup := cg\<rparr>, r)))"

definition init_args :: "World \<Rightarrow> ProcessInfo \<Rightarrow> KTask \<Rightarrow> ProcessInfo \<times> (u32 + unit)" where
  "init_args W pi t =
     (case kt_mm t of
        None \<Rightarrow> (pi, Inr ())
      | Some mm \<Rightarrow>
          (case (fst mm, arg_len mm) of
             (Some arg_start, Some len) \<Rightarrow>
               (case read_user_memory (pi_args pi) (w_user W arg_start) (ucast len) of
                  (b, r) \<Rightarrow> (pi\<lparr>pi_args := b\<rparr>, r))
           | _ \<Rightarrow> (pi, Inl 1)))"

definition init_from_task :: "World \<Rightarrow> ProcessInfo \<Rightarrow> KTask \<Rightarrow> ProcessInfo \<times> (u32 + u32)" where
  "init_from_task W pi t =
     bind_io (or_err 1 pi (kt_comm t)) (\<lambda>pi comm.
     bind_io (or_err 1 (pi\<lparr>pi_comm := comm\<rparr>) (kt_start_boottime t)) (\<lambda>pi start.
     bind_io (or_err 1 (pi\<lparr>pi_start_time := start\<rparr>) (kt_tgid t)) (\<lambda>pi tgid.
     bind_io (or_err 1 (pi\<lparr>pi_tgid := tgid\<rparr>) (kt_pid t)) (\<lambda>pi pid.
     bind_io (init_namespace (pi\<lparr>pi_pid := pid\<rparr>) t) (\<lambda>pi _.
     bind_io (init_executable W pi t) (\<lambda>pi _.
     bind_io (init_cgroup W pi t) (\<lambda>pi _.
     bind_io (init_args W pi t) (\<lambda>pi _. (pi, Inr 0)))))))))"

text \<open>
  \<open>EventInfo::new\<close>: the results of the two initializations are ignored, an unreadable parent is an
  error. \<open>task\<close> is \<open>None\<close> for a null pointer.
\<close>

definition event_info_new ::
    "World \<Rightarrow> EventInfo \<Rightarrow> EventType \<Rightarrow> u64 \<Rightarrow> KTask option \<Rightarrow> KTask option \<Rightarrow> EventInfo \<times> (u32 + unit)" where
  "event_info_new W ei t now task real_parent =
     (let ei = ei\<lparr>ei_timestamp := now, ei_event_type := t\<rparr> in
      case task of
        None \<Rightarrow> (ei, Inr ())
      | Some ts \<Rightarrow>
          (let ei = ei\<lparr>ei_process := fst (init_from_task W (ei_process ei) ts)\<rparr> in
           case real_parent of
             None \<Rightarrow> (ei, Inl 1)
           | Some parent \<Rightarrow>
               (ei\<lparr>ei_parent := fst (init_from_task W (ei_parent ei) parent)\<rparr>, Inr ())))"

definition event_init ::
    "World \<Rightarrow> 'p EventRaw \<Rightarrow> EventType \<Rightarrow> u64 \<Rightarrow> KTask option \<Rightarrow> KTask option \<Rightarrow> 'p EventRaw \<times> (u32 + unit)" where
  "event_init W e t now task real_parent =
     (case event_info_new W (er_header e) t now task real_parent of
        (ei, r) \<Rightarrow> (e\<lparr>er_header := ei\<rparr>, r))"

section \<open>Recognizing a raw event\<close>

text \<open>
  A raw event is the bytes that arrived. How the bytes of a structure are laid out is up to the
  compiler: the sizes and the reinterpretation of the bytes are the parameter \<open>Layout\<close>.
\<close>

type_synonym EncodedEvent = "u8 list"

datatype DecoderError = NotEnoughBytes | SizeDontMatch | UnknownType

record 'p Layout =
  l_size :: nat
  l_read :: "u8 list \<Rightarrow> 'p"

definition event_info :: "EventInfo Layout \<Rightarrow> EncodedEvent \<Rightarrow> DecoderError + EventInfo" where
  "event_info L e = (if length e < l_size L then Inl NotEnoughBytes else Inr (l_read L e))"

definition as_event_with_data :: "'p EventRaw Layout \<Rightarrow> EncodedEvent \<Rightarrow> DecoderError + 'p EventRaw" where
  "as_event_with_data L e = (if length e < l_size L then Inl SizeDontMatch else Inr (l_read L e))"

section \<open>What the header says\<close>

text \<open>No program ever fills in the user and group ids of a header.\<close>

lemma init_parts_ids:
  "pi_uid (fst (init_namespace pi t)) = pi_uid pi" "pi_gid (fst (init_namespace pi t)) = pi_gid pi"
  "pi_uid (fst (init_executable W pi t)) = pi_uid pi" "pi_gid (fst (init_executable W pi t)) = pi_gid pi"
  "pi_uid (fst (init_cgroup W pi t)) = pi_uid pi" "pi_gid (fst (init_cgroup W pi t)) = pi_gid pi"
  "pi_uid (fst (init_args W pi t)) = pi_uid pi" "pi_gid (fst (init_args W pi t)) = pi_gid pi"
  by (simp_all add: init_namespace_def parse_namespace_def init_executable_def init_cgroup_def
      init_args_def split: option.split prod.split)

lemma fst_bind_io:
  "(\<And>s a. P s \<Longrightarrow> P (fst (f s a))) \<Longrightarrow> P (fst r) \<Longrightarrow> P (fst (bind_io r f))"
  by (cases r; cases "snd r") auto

lemma init_from_task_ids:
  "pi_uid (fst (init_from_task W pi t)) = pi_uid pi \<and> pi_gid (fst (init_from_task W pi t)) = pi_gid pi"
  unfolding init_from_task_def
  by (intro fst_bind_io [where P = "\<lambda>q. pi_uid q = pi_uid pi \<and> pi_gid q = pi_gid pi"])
    (simp_all add: or_err_def init_parts_ids)

lemma event_info_ids:
  "pi_uid (ei_process (fst (event_info_new W ei t now task par))) = pi_uid (ei_process ei)"
  by (simp add: event_info_new_def Let_def init_from_task_ids split: option.split)

end
