(* ===== verification/Network.thy ===== *)
theory Network
  imports Enforcement Modules
begin

text \<open>
  The packet programs of \<open>ebpf-mon-ebpf/src/network.rs\<close>: the cgroup_skb programs that report new
  connections and, in enforcement mode, drop denied ones, the table of recent UDP flows, the
  deduplication of events, and the tracking of the real source behind docker-proxy.

  A packet is the list of its bytes. The LRU maps are a parameter, like the maps of the policy:
  \<open>NetMaps\<close> holds their operations over an abstract state, and \<open>lru_law\<close> states their documented
  behaviour (an insertion that must not replace succeeds exactly when there is no entry; any
  insertion may evict other entries, but changes none).
\<close>

section \<open>Types and maps\<close>

datatype Direction = Ingress | Egress

record NetworkIdentity =
  ni_src_ip :: u32
  ni_dst_ip :: u32
  ni_dst_port :: u32
  ni_direction :: Direction

record RealSource =
  rs_real_ip :: u32
  rs_real_port :: u32

record ConnectionKey =
  ck_container_ip :: u32
  ck_container_port :: u32
  ck_protocol :: u8

record UdpFlowKey =
  uk_ip_low :: u32
  uk_ip_high :: u32
  uk_port_low :: u16
  uk_port_high :: u16

record NetworkPayload =
  np_comm :: string
  np_pid :: u32
  np_tgid :: u32
  np_sk_uid :: u32
  np_sk_type :: u16
  np_skc_family :: u16
  np_protocol :: u8
  np_src_ip :: u32
  np_dst_ip :: u32
  np_src_port :: u32
  np_dst_port :: u32
  np_doff_flags :: u16
  np_direction :: Direction

type_synonym NetworkEventRaw = "NetworkPayload EventRaw"

record 's NetMaps =
  NETWORK_EVENT_DEDUP :: "('s, NetworkIdentity, u64) LruOps"
  DOCKER_PROXY_IPS :: "('s, u32, u8) LruOps"
  PROXY_TEMP_MAP :: "('s, u64, RealSource) LruOps"
  REAL_SOURCE_MAP :: "('s, ConnectionKey, RealSource) LruOps"
  INCOMPLETE_PACKETS :: "('s, ConnectionKey, NetworkEventRaw) LruOps"
  UDP_FLOWS :: "('s, UdpFlowKey, u64) LruOps"

section \<open>Deduplication of events\<close>

definition NETWORK_DEDUP_TTL_NS :: u64 where "NETWORK_DEDUP_TTL_NS = 60000000000"
definition UDP_FLOW_TTL_NS :: u64 where "UDP_FLOW_TTL_NS = 5000000000"

text \<open>
  The pattern shared by the two tables of expiry times: whether the key counts as new at \<open>now\<close>, and
  the table afterwards.
\<close>

definition deduplicate_and_send ::
    "'s NetMaps \<Rightarrow> 's \<Rightarrow> u64 \<Rightarrow> NetworkEventRaw \<Rightarrow> NetworkIdentity \<Rightarrow> 's \<times> NetworkEventRaw list" where
  "deduplicate_and_send N s now event identity =
     (let expiry = now + NETWORK_DEDUP_TTL_NS in
      case lru_insert_new (NETWORK_EVENT_DEDUP N) s identity expiry of
        (s, True) \<Rightarrow> (s, [event])
      | (s, False) \<Rightarrow>
          (case lru_get (NETWORK_EVENT_DEDUP N) s identity of
             Some old_expiry \<Rightarrow>
               if now > old_expiry then (lru_insert (NETWORK_EVENT_DEDUP N) s identity expiry, [event])
               else (s, [])
           | None \<Rightarrow> (s, [])))"

definition normalize_udp_key :: "u32 \<Rightarrow> u16 \<Rightarrow> u32 \<Rightarrow> u16 \<Rightarrow> UdpFlowKey" where
  "normalize_udp_key src_ip src_port dst_ip dst_port =
     (if src_ip < dst_ip \<or> (src_ip = dst_ip \<and> src_port \<le> dst_port)
      then \<lparr>uk_ip_low = src_ip, uk_ip_high = dst_ip, uk_port_low = src_port, uk_port_high = dst_port\<rparr>
      else \<lparr>uk_ip_low = dst_ip, uk_ip_high = src_ip, uk_port_low = dst_port, uk_port_high = src_port\<rparr>)"

definition is_new_udp_flow ::
    "'s NetMaps \<Rightarrow> 's \<Rightarrow> u64 \<Rightarrow> u32 \<Rightarrow> u16 \<Rightarrow> u32 \<Rightarrow> u16 \<Rightarrow> 's \<times> bool" where
  "is_new_udp_flow N s now src_ip src_port dst_ip dst_port =
     (let key = normalize_udp_key src_ip src_port dst_ip dst_port;
          expiry = now + UDP_FLOW_TTL_NS
      in case lru_insert_new (UDP_FLOWS N) s key expiry of
           (s, True) \<Rightarrow> (s, True)
         | (s, False) \<Rightarrow>
             (case lru_get (UDP_FLOWS N) s key of
                Some old_expiry \<Rightarrow>
                  if now > old_expiry then (lru_insert (UDP_FLOWS N) s key expiry, True) else (s, False)
              | None \<Rightarrow> (s, False)))"

definition is_valid_event :: "NetworkEventRaw \<Rightarrow> bool" where
  "is_valid_event event =
     (let p = er_payload event in
      if np_src_ip p = 0 \<and> np_dst_ip p = 0 then False
      else if np_src_port p = 0 \<and> np_dst_port p = 0 then False
      else if np_protocol p = 0 then False
      else True)"

section \<open>Packets\<close>

type_synonym Packet = "u8 list"

definition ETH_P_IP :: u32 where "ETH_P_IP = 8"
definition IPPROTO_TCP :: u8 where "IPPROTO_TCP = 6"
definition IPPROTO_UDP :: u8 where "IPPROTO_UDP = 17"
definition TCP_SYN :: u16 where "TCP_SYN = 0x0002"
definition TCP_ACK :: u16 where "TCP_ACK = 0x0010"

text \<open>\<open>ctx.load\<close>: the bytes in memory order, or -EFAULT when they are not all in the packet.\<close>

definition load8 :: "Packet \<Rightarrow> nat \<Rightarrow> int + u8" where
  "load8 pkt off = (if off < length pkt then Inr (pkt ! off) else Inl (-14))"

definition load16 :: "Packet \<Rightarrow> nat \<Rightarrow> int + u16" where
  "load16 pkt off =
     (if off + 2 \<le> length pkt then Inr (ucast (pkt ! off) OR push_bit 8 (ucast (pkt ! (off + 1))))
      else Inl (-14))"

definition load32 :: "Packet \<Rightarrow> nat \<Rightarrow> int + u32" where
  "load32 pkt off =
     (if off + 4 \<le> length pkt
      then Inr (from_le_bytes (pkt ! off) (pkt ! (off + 1)) (pkt ! (off + 2)) (pkt ! (off + 3)))
      else Inl (-14))"

definition ok_or :: "'e \<Rightarrow> 'a option \<Rightarrow> 'e + 'a" where
  "ok_or e x = (case x of None \<Rightarrow> Inl e | Some a \<Rightarrow> Inr a)"

lemma ok_or_simps [simp]: "ok_or e (Some a) = Inr a" "ok_or e None = Inl e"
  by (simp_all add: ok_or_def)

definition parse_tcp :: "Packet \<Rightarrow> nat \<Rightarrow> int + u16 \<times> u16 \<times> u16" where
  "parse_tcp pkt ip_header_len =
     and_then (load16 pkt (ip_header_len + 0)) (\<lambda>sport.
     and_then (load16 pkt (ip_header_len + 2)) (\<lambda>dport.
     and_then (load16 pkt (ip_header_len + 12)) (\<lambda>doff_flags.
       Inr (u16_from_be sport, u16_from_be dport, u16_from_be doff_flags))))"

definition parse_udp_ports :: "Packet \<Rightarrow> nat \<Rightarrow> int + u16 \<times> u16 \<times> u16" where
  "parse_udp_ports pkt ip_header_len =
     and_then (load16 pkt (ip_header_len + 0)) (\<lambda>sport.
     and_then (load16 pkt (ip_header_len + 2)) (\<lambda>dport.
       Inr (u16_from_be sport, u16_from_be dport, 0)))"

definition extract_ports :: "Packet \<Rightarrow> u8 \<Rightarrow> nat \<Rightarrow> int + u16 \<times> u16 \<times> u16" where
  "extract_ports pkt protocol ip_header_len =
     (if ip_header_len < 20 \<or> ip_header_len > 60 then Inl (-1)
      else if protocol = 6 then parse_tcp pkt ip_header_len
      else if protocol = 17 then parse_udp_ports pkt ip_header_len
      else Inr (0, 0, 0))"

definition is_tcp_connection_start :: "u16 \<Rightarrow> bool" where
  "is_tcp_connection_start flags = (flags AND (TCP_SYN OR TCP_ACK) = TCP_SYN)"

section \<open>The verdict on a destination\<close>

definition skb_egress_verdict :: "'s EnforcementMaps \<Rightarrow> 's \<Rightarrow> u32 \<Rightarrow> u32 \<Rightarrow> int" where
  "skb_egress_verdict K s dst_ip dst_port =
     (case mo_get (SKB_ENFORCE_CGID K) s 0 of
        None \<Rightarrow> 1
      | Some cgid \<Rightarrow>
          (case mo_get (POLICY_CGROUPS K) s cgid of
             None \<Rightarrow> 1
           | Some config \<Rightarrow>
               (case mo_get (NET_CONNECT_POLICY K) s
                  \<lparr>nk_cgroup_id = cgid, nk_dst_ip = dst_ip, nk_dst_port = dst_port, nk_protocol = 0\<rparr> of
                  Some v \<Rightarrow> if v = 0 \<and> pc_audit_only config = 0 then 0 else 1
                | None \<Rightarrow>
                    (case mo_get (NET_CONNECT_POLICY K) s
                       \<lparr>nk_cgroup_id = cgid, nk_dst_ip = dst_ip, nk_dst_port = 0, nk_protocol = 0\<rparr> of
                       Some v \<Rightarrow> if v = 0 \<and> pc_audit_only config = 0 then 0 else 1
                     | None \<Rightarrow>
                         if pc_default_action config = 0 \<and> pc_audit_only config = 0 then 0 else 1))))"

section \<open>process_skb\<close>

record SkbTask =
  st_comm :: "string option"
  st_tgid :: "u32 option"
  st_pid :: "u32 option"
  st_start :: "u64 option"
  st_pid_tgid :: u64

text \<open>The three readings of the clock in the course of one packet.\<close>

record Clock =
  at_event :: u64
  at_flow :: u64
  at_dedup :: u64

text \<open>The event that a packet gives rise to, up to the ports and flags.\<close>

definition skb_event :: "Packet \<Rightarrow> Direction \<Rightarrow> SkbTask \<Rightarrow> Clock \<Rightarrow> int + NetworkEventRaw" where
  "skb_event pkt direction ts clock =
     and_then (ok_or 1 (st_comm ts)) (\<lambda>comm.
     and_then (ok_or 1 (st_tgid ts)) (\<lambda>tgid.
     and_then (ok_or 1 (st_pid ts)) (\<lambda>pid.
     and_then (ok_or 1 (st_start ts)) (\<lambda>start_time.
     and_then (load32 pkt 12) (\<lambda>src_ip.
     and_then (load32 pkt 16) (\<lambda>dst_ip.
     and_then (load8 pkt 9) (\<lambda>protocol.
     and_then (case load8 pkt 0 of Inl e \<Rightarrow> Inl 1 | Inr v \<Rightarrow> Inr v) (\<lambda>version_ihl.
       let ihl = unat (version_ihl AND 0x0F);
           ip_header_len = ihl * 4;
           (src_port, dst_port, doff_flags) =
             (case extract_ports pkt protocol ip_header_len of Inr x \<Rightarrow> x | Inl e \<Rightarrow> (0, 0, 0))
       in Inr \<lparr>er_header = zeroed_event_info
                 \<lparr>ei_event_type := (if direction = Ingress then InetIn else InetOut),
                  ei_timestamp := at_event clock,
                  ei_process := default_process_info
                    \<lparr>pi_comm := comm, pi_tgid := tgid, pi_pid := pid, pi_start_time := start_time\<rparr>\<rparr>,
               er_payload = \<lparr>np_comm = comm, np_pid = 0, np_tgid = 0, np_sk_uid = 0, np_sk_type = 0,
                 np_skc_family = 0, np_protocol = protocol,
                 np_src_ip = src_ip, np_dst_ip = dst_ip, np_src_port = ucast src_port,
                 np_dst_port = ucast dst_port, np_doff_flags = doff_flags,
                 np_direction = direction\<rparr>\<rparr>))))))))"

definition set_ids :: "u64 \<Rightarrow> NetworkEventRaw \<Rightarrow> NetworkEventRaw" where
  "set_ids pid_tgid event =
     event\<lparr>er_payload := (er_payload event)\<lparr>np_pid := ucast pid_tgid,
       np_tgid := ucast (drop_bit 32 pid_tgid)\<rparr>\<rparr>"

definition set_source :: "RealSource \<Rightarrow> NetworkEventRaw \<Rightarrow> NetworkEventRaw" where
  "set_source rs event =
     event\<lparr>er_payload := (er_payload event)\<lparr>np_src_ip := rs_real_ip rs, np_src_port := rs_real_port rs\<rparr>\<rparr>"

definition event_identity :: "NetworkEventRaw \<Rightarrow> NetworkIdentity" where
  "event_identity event =
     (let p = er_payload event
      in \<lparr>ni_src_ip = np_src_ip p, ni_dst_ip = np_dst_ip p, ni_dst_port = np_dst_port p,
          ni_direction = np_direction p\<rparr>)"

text \<open>From the point where the source is known: validity, UDP flows, verdict, deduplication.\<close>

definition finish_skb ::
    "'e EnforcementMaps \<Rightarrow> 'e \<Rightarrow> 's NetMaps \<Rightarrow> 's \<Rightarrow> NetworkEventRaw \<Rightarrow> Direction \<Rightarrow> bool \<Rightarrow> SkbTask
      \<Rightarrow> Clock \<Rightarrow> 's \<times> NetworkEventRaw list \<times> int" where
  "finish_skb K es N s event direction enforce ts clock =
     (let event = set_ids (st_pid_tgid ts) event; p = er_payload event in
      if \<not> is_valid_event event then (s, [], 1)
      else
        let (s, new_flow) =
              (if np_protocol p = IPPROTO_UDP
               then is_new_udp_flow N s (at_flow clock) (np_src_ip p) (ucast (np_src_port p))
                      (np_dst_ip p) (ucast (np_dst_port p))
               else (s, True))
        in if \<not> new_flow then (s, [], 1)
           else
             let verdict = (if enforce \<and> direction = Egress
                            then skb_egress_verdict K es (np_dst_ip p) (np_dst_port p) else 1);
                 (s, out) = deduplicate_and_send N s (at_dedup clock) event (event_identity event)
             in (s, out, verdict))"

definition process_skb ::
    "'e EnforcementMaps \<Rightarrow> 'e \<Rightarrow> 's NetMaps \<Rightarrow> 's \<Rightarrow> Heap \<Rightarrow> nat \<Rightarrow> u32 \<Rightarrow> Packet \<Rightarrow> Direction \<Rightarrow> bool
      \<Rightarrow> SkbTask \<Rightarrow> Clock \<Rightarrow> 's \<times> NetworkEventRaw list \<times> (int + int)" where
  "process_skb K es N s h sizeof protocol pkt direction enforce ts clock =
     (case alloc_init h of
        (h, Inl e) \<Rightarrow> (s, [], Inl (int (unat e)))
      | (h, Inr _) \<Rightarrow>
          if protocol \<noteq> ETH_P_IP then (s, [], Inr 1)
          else case alloc_zero h sizeof of
              (h, Inl e) \<Rightarrow> (s, [], Inl 1)
            | (h, Inr _) \<Rightarrow>
                (case skb_event pkt direction ts clock of
                   Inl e \<Rightarrow> (s, [], Inl e)
                 | Inr event \<Rightarrow>
                     (let p = er_payload event in
                      if np_protocol p = IPPROTO_TCP \<and> \<not> is_tcp_connection_start (np_doff_flags p)
                      then (s, [], Inr 1)
                      else if lru_get (DOCKER_PROXY_IPS N) s (np_src_ip p) \<noteq> None then
                        (let key = \<lparr>ck_container_ip = np_dst_ip p, ck_container_port = np_dst_port p,
                               ck_protocol = np_protocol p\<rparr>
                         in case lru_get (REAL_SOURCE_MAP N) s key of
                              Some real_source \<Rightarrow>
                                (case finish_skb K es N s (set_source real_source event) direction
                                        enforce ts clock of (s, out, v) \<Rightarrow> (s, out, Inr v))
                            | None \<Rightarrow>
                                (lru_insert (INCOMPLETE_PACKETS N) s key (set_ids (st_pid_tgid ts) event),
                                 [], Inr 1))
                      else
                        (case finish_skb K es N s event direction enforce ts clock of
                           (s, out, v) \<Rightarrow> (s, out, Inr v)))))"

definition unwrap_or_pass :: "int + int \<Rightarrow> int" where
  "unwrap_or_pass r = (case r of Inl e \<Rightarrow> 1 | Inr v \<Rightarrow> v)"

definition cgroup_skb_egress where
  "cgroup_skb_egress K es N s h sizeof protocol pkt ts clock =
     (case process_skb K es N s h sizeof protocol pkt Egress False ts clock of
        (s, out, r) \<Rightarrow> (s, out, unwrap_or_pass r))"

definition cgroup_skb_ingress where
  "cgroup_skb_ingress K es N s h sizeof protocol pkt ts clock =
     (case process_skb K es N s h sizeof protocol pkt Ingress False ts clock of
        (s, out, r) \<Rightarrow> (s, out, unwrap_or_pass r))"

definition cgroup_skb_egress_enforce where
  "cgroup_skb_egress_enforce K es N s h sizeof protocol pkt ts clock =
     (case process_skb K es N s h sizeof protocol pkt Egress True ts clock of
        (s, out, r) \<Rightarrow> (s, out, unwrap_or_pass r))"

section \<open>The real source behind docker-proxy\<close>

text \<open>What the fexit programs can read: the process name, and the socket of the call.\<close>

record ProxySock =
  ps_rcv_saddr :: "u32 option"
  ps_daddr :: "u32 option"
  ps_dport :: "u32 option"

definition be_port :: "u32 \<Rightarrow> u32" where
  "be_port dport = ucast (u16_from_be (ucast dport))"

text \<open>\<open>socket\<close> is \<open>None\<close> for a null socket, and \<open>Some None\<close> when its \<open>sk\<close> cannot be read.\<close>

definition track_proxy_accept ::
    "'s NetMaps \<Rightarrow> 's \<Rightarrow> string option \<Rightarrow> u64 \<Rightarrow> ProxySock option option \<Rightarrow> 's \<times> (u32 + unit)" where
  "track_proxy_accept N s comm pid_tgid socket =
     (case comm of
        None \<Rightarrow> (s, Inl 1)
      | Some comm \<Rightarrow>
          if \<not> prefix ''docker-proxy'' comm then (s, Inr ())
          else case socket of
              None \<Rightarrow> (s, Inr ())
            | Some None \<Rightarrow> (s, Inl 1)
            | Some (Some sk) \<Rightarrow>
                (case (ps_rcv_saddr sk, ps_dport sk) of
                   (Some real_src_ip, Some dport) \<Rightarrow>
                     (lru_insert (PROXY_TEMP_MAP N) s pid_tgid
                        \<lparr>rs_real_ip = real_src_ip, rs_real_port = be_port dport\<rparr>, Inr ())
                 | _ \<Rightarrow> (s, Inl 1)))"

definition track_proxy_connect ::
    "'s NetMaps \<Rightarrow> 's \<Rightarrow> Heap \<Rightarrow> nat \<Rightarrow> string option \<Rightarrow> u64 \<Rightarrow> ProxySock option \<Rightarrow> Clock
      \<Rightarrow> 's \<times> NetworkEventRaw list \<times> (u32 + u32)" where
  "track_proxy_connect N s h sizeof comm pid_tgid sock clock =
     (case comm of
        None \<Rightarrow> (s, [], Inl 1)
      | Some comm \<Rightarrow>
          if \<not> prefix ''docker-proxy'' comm then (s, [], Inr 0)
          else case sock of
              None \<Rightarrow> (s, [], Inr 0)
            | Some sk \<Rightarrow>
                (case (ps_daddr sk, ps_dport sk) of
                   (Some container_ip, Some dport) \<Rightarrow>
                     (let key = \<lparr>ck_container_ip = container_ip, ck_container_port = be_port dport,
                            ck_protocol = IPPROTO_TCP\<rparr>
                      in case (lru_get (INCOMPLETE_PACKETS N) s key, lru_get (PROXY_TEMP_MAP N) s pid_tgid) of
                           (Some mevent, Some real_source) \<Rightarrow>
                             (let clean = lru_remove (PROXY_TEMP_MAP N)
                                    (lru_remove (INCOMPLETE_PACKETS N) s key) pid_tgid
                              in case alloc_zero h sizeof of
                                   (h, Inl e) \<Rightarrow> (clean, [], Inr 0)
                                 | (h, Inr _) \<Rightarrow>
                                     (let event = set_source real_source mevent;
                                          p = er_payload event;
                                          (s, new_flow) =
                                            (if np_protocol p = IPPROTO_UDP
                                             then is_new_udp_flow N clean (at_flow clock) (np_src_ip p)
                                                    (ucast (np_src_port p)) (np_dst_ip p) (ucast (np_dst_port p))
                                             else (clean, True))
                                      in if \<not> new_flow then (s, [], Inr 0)
                                         else
                                           let (s, out) = deduplicate_and_send N s (at_dedup clock) event
                                                 (event_identity event)
                                           in (s, out, Inr 0)))
                         | (None, Some real_source) \<Rightarrow>
                             (lru_remove (PROXY_TEMP_MAP N)
                                (lru_insert (REAL_SOURCE_MAP N) s key real_source) pid_tgid, [], Inr 1)
                         | (_, None) \<Rightarrow> (s, [], Inr 1))
                 | _ \<Rightarrow> (s, [], Inl 1)))"

section \<open>The monitor passes every packet\<close>

lemma finish_skb_monitor:
  "snd (snd (finish_skb K es N s event direction False ts clock)) = 1"
  by (simp add: finish_skb_def Let_def split: prod.splits)

lemma process_skb_monitor:
  "unwrap_or_pass (snd (snd (process_skb K es N s h sizeof protocol pkt direction False ts clock))) = 1"
proof -
  have fin: "unwrap_or_pass (Inr v) = 1"
    if "finish_skb K es N s e direction False ts clock = (s1, out, v)" for e s1 out v
    using finish_skb_monitor [of K es N s e direction ts clock] that
    by (simp add: unwrap_or_pass_def)
  have err: "unwrap_or_pass (Inl e) = 1" and pass: "unwrap_or_pass (Inr 1) = 1" for e
    by (simp_all add: unwrap_or_pass_def)
  show ?thesis
    unfolding process_skb_def Let_def using fin
    by (auto simp: err pass split: prod.split sum.split option.split)
qed

text \<open>
  The monitoring programs never affect traffic. Whatever the packet, the maps, the clock and the
  failing reads, the ingress program and the egress program of the monitor pass the packet.
\<close>

theorem monitor_passes:
  "snd (snd (cgroup_skb_egress K es N s h sizeof protocol pkt ts clock)) = 1
   \<and> snd (snd (cgroup_skb_ingress K es N s h sizeof protocol pkt ts clock)) = 1"
  using process_skb_monitor [of K es N s h sizeof protocol pkt Egress ts clock]
    process_skb_monitor [of K es N s h sizeof protocol pkt Ingress ts clock]
  by (simp add: cgroup_skb_egress_def cgroup_skb_ingress_def case_prod_unfold)

section \<open>The verdict of the egress program\<close>

lemma egress_twin:
  assumes "t_skb (tables K s) 0 = Some cgid" and "t_cgroups (tables K s) cgid = Some config"
  shows "skb_egress_verdict K s ip port = fst (connect_tiers K s config cgid ip port) + 1"
  using assms
  by (auto simp: skb_egress_verdict_def connect_tiers_def map_simps matched_def unmatched_def
      verdict_to_rc_def split: option.splits)

text \<open>
  The packet program and the socket hook agree. For the cgroup whose id the loader has published,
  the packet program drops a new connection exactly when \<open>enforce_socket_connect\<close> refuses it, and
  it passes everything when the cgroup is not enforced.
\<close>

theorem egress_verdict_twin:
  assumes "t_skb (tables K s) 0 = Some cgid" and "ts_cgroup_id ts = Some cgid"
    and "addr = \<lparr>sa_family = Some AF_INET, sa_s_addr = Some ip, sa_sin_port = Some p\<rparr>"
  shows "skb_egress_verdict K s ip (ucast (u16_from_be p)) = fst (enforce_socket_connect K s ts addr) + 1"
proof (cases "t_cgroups (tables K s) cgid")
  case None
  then show ?thesis
    using assms by (simp add: skb_egress_verdict_def enforce_socket_connect_def map_simps)
next
  case (Some config)
  then show ?thesis
    using egress_twin [OF assms(1) Some] assms by (simp add: enforce_socket_connect_def map_simps)
qed

lemma egress_verdict_twin_witness:
  "let s = empty_maps\<lparr>h_cgroups := [(7, \<lparr>pc_default_action = 0, pc_audit_only = 0\<rparr>)], h_skb := [(0, 7)]\<rparr>;
       addr = \<lparr>sa_family = Some AF_INET, sa_s_addr = Some 5, sa_sin_port = Some 0x5000\<rparr>
   in skb_egress_verdict hash_kernel s 5 80 = 0
      \<and> fst (enforce_socket_connect hash_kernel s \<lparr>ts_cgroup_id = Some 7, ts_ns_tgid = None\<rparr> addr) = -1"
proof -
  let ?s = "empty_maps\<lparr>h_cgroups := [(7, \<lparr>pc_default_action = 0, pc_audit_only = 0\<rparr>)], h_skb := [(0, 7)]\<rparr>"
  let ?addr = "\<lparr>sa_family = Some AF_INET, sa_s_addr = Some 5, sa_sin_port = Some 0x5000\<rparr>"
  let ?ts = "\<lparr>ts_cgroup_id = Some 7, ts_ns_tgid = None\<rparr>"
  have "skb_egress_verdict hash_kernel ?s 5 (ucast (u16_from_be 0x5000))
      = fst (enforce_socket_connect hash_kernel ?s ?ts ?addr) + 1"
    by (rule egress_verdict_twin [where cgid = 7]) (simp_all add: hash_tables array_get_def)
  moreover have "skb_egress_verdict hash_kernel ?s 5 80 = 0"
    by (simp add: skb_egress_verdict_def map_simps hash_tables array_get_def empty_maps_def)
  ultimately show ?thesis by (simp add: u16_from_be_def)
qed

section \<open>UDP flows and deduplication\<close>

lemma normalize_udp_key_sym: "normalize_udp_key b q a p = normalize_udp_key a p b q"
  by (auto simp: normalize_udp_key_def)

lemma lru_new:
  assumes "lru_law others ops" and "lru_insert_new ops s k v = (s', True)"
  shows "lru_get ops s k = None" and "lru_get ops s' k = Some v"
  using assms(1) [unfolded lru_law_def, rule_format, of s k v] assms(2) by simp_all

lemma lru_old:
  assumes "lru_law others ops" and "lru_insert_new ops s k v = (s', False)"
  shows "lru_get ops s' = lru_get ops s" and "lru_get ops s k \<noteq> None"
  using assms(1) [unfolded lru_law_def, rule_format, of s k v] assms(2) by simp_all

lemma lru_put: "lru_law others ops \<Longrightarrow> lru_get ops (lru_insert ops s k v) k = Some v"
  by (simp add: lru_law_def)

text \<open>A flow or an identity that counted as new has an expiry time in the table.\<close>

lemma new_flow_expiry:
  assumes "lru_law others (UDP_FLOWS N)" and "is_new_udp_flow N s now a p b q = (s', True)"
  shows "lru_get (UDP_FLOWS N) s' (normalize_udp_key a p b q) = Some (now + UDP_FLOW_TTL_NS)"
  using assms lru_new [OF assms(1)] lru_put [OF assms(1)]
  by (auto simp: is_new_udp_flow_def Let_def split: prod.splits bool.splits option.splits if_splits)

lemma known_flow:
  assumes "lru_law others (UDP_FLOWS N)"
    and "lru_get (UDP_FLOWS N) s (normalize_udp_key a p b q) = Some e" and "\<not> now > e"
  shows "snd (is_new_udp_flow N s now a p b q) = False"
proof (cases "lru_insert_new (UDP_FLOWS N) s (normalize_udp_key a p b q) (now + UDP_FLOW_TTL_NS)")
  case (Pair s1 ok)
  show ?thesis
  proof (cases ok)
    case True
    then show ?thesis using lru_new(1) [OF assms(1), of s _ _ s1] Pair assms(2) by simp
  next
    case False
    then show ?thesis
      using lru_old(1) [OF assms(1), of s _ _ s1] Pair assms(2,3) by (simp add: is_new_udp_flow_def)
  qed
qed

text \<open>
  A UDP flow counts as new once per five seconds, in whichever direction its next packet goes. After
  a packet that opened the flow, every packet of it or of its reverse that comes before the entry
  expires does not, as long as the entry is not evicted.
\<close>

theorem udp_flow_once:
  assumes "lru_law others (UDP_FLOWS N)" and "is_new_udp_flow N s now a p b q = (s1, True)"
    and "later \<le> now + UDP_FLOW_TTL_NS"
  shows "snd (is_new_udp_flow N s1 later a p b q) = False \<and> snd (is_new_udp_flow N s1 later b q a p) = False"
  using known_flow [OF assms(1)] new_flow_expiry [OF assms(1,2)] assms(3) normalize_udp_key_sym
  by (metis linorder_not_less)

section \<open>A concrete table\<close>

text \<open>Tables with a capacity that forget their oldest entries.\<close>

record NetState =
  n_dedup :: "(NetworkIdentity \<times> u64) list"
  n_proxy_ips :: "(u32 \<times> u8) list"
  n_proxy_temp :: "(u64 \<times> RealSource) list"
  n_real_source :: "(ConnectionKey \<times> RealSource) list"
  n_incomplete :: "(ConnectionKey \<times> NetworkEventRaw) list"
  n_udp :: "(UdpFlowKey \<times> u64) list"

definition lru_net :: "NetState NetMaps" where
  "lru_net =
     \<lparr>NETWORK_EVENT_DEDUP = lru_ops n_dedup n_dedup_update 32768,
      DOCKER_PROXY_IPS = lru_ops n_proxy_ips n_proxy_ips_update 16,
      PROXY_TEMP_MAP = lru_ops n_proxy_temp n_proxy_temp_update 10240,
      REAL_SOURCE_MAP = lru_ops n_real_source n_real_source_update 10240,
      INCOMPLETE_PACKETS = lru_ops n_incomplete n_incomplete_update 1024,
      UDP_FLOWS = lru_ops n_udp n_udp_update 8192\<rparr>"

definition empty_net :: NetState where
  "empty_net = \<lparr>n_dedup = [], n_proxy_ips = [], n_proxy_temp = [], n_real_source = [],
     n_incomplete = [], n_udp = []\<rparr>"

lemma udp_flows_law: "lru_law (\<lambda>s. s\<lparr>n_udp := []\<rparr>) (UDP_FLOWS lru_net)"
  by (simp add: lru_net_def lru_ops_law)

lemma dedup_law: "lru_law (\<lambda>s. s\<lparr>n_dedup := []\<rparr>) (NETWORK_EVENT_DEDUP lru_net)"
  by (simp add: lru_net_def lru_ops_law)

lemma udp_flow_once_witness:
  "\<exists>s1. is_new_udp_flow lru_net empty_net 100 1 53 2 9999 = (s1, True)
     \<and> snd (is_new_udp_flow lru_net s1 200 2 9999 1 53) = False"
proof -
  obtain s1 where s1: "is_new_udp_flow lru_net empty_net 100 1 53 2 9999 = (s1, True)"
    by (simp add: is_new_udp_flow_def lru_net_def lru_ops_def empty_net_def)
  have "(200 :: u64) \<le> 100 + UDP_FLOW_TTL_NS" by (simp add: UDP_FLOW_TTL_NS_def)
  from udp_flow_once [OF udp_flows_law s1 this] s1 show ?thesis by blast
qed

section \<open>Connection attempts\<close>

text \<open>
  An IPv4 packet as it is on the wire: the fields that the program reads, in a header with \<open>opts\<close> and with
  arbitrary bytes elsewhere, followed by the transport header.
\<close>

definition be_bytes :: "u16 \<Rightarrow> u8 list" where
  "be_bytes w = [ucast (drop_bit 8 w), ucast w]"

definition addr_bytes :: "u32 \<Rightarrow> u8 list" where
  "addr_bytes w = (case to_le_bytes w of (a, b, c, d) \<Rightarrow> [a, b, c, d])"

definition ipv4_packet ::
    "u8 list \<Rightarrow> u8 \<Rightarrow> u8 list \<Rightarrow> u32 \<Rightarrow> u32 \<Rightarrow> u8 list \<Rightarrow> u8 list \<Rightarrow> Packet" where
  "ipv4_packet pre proto checksum src dst opts body =
     (0x40 OR of_nat (5 + length opts div 4)) # pre @ proto # checksum @ addr_bytes src @ addr_bytes dst
       @ opts @ body"

definition tcp_header :: "u16 \<Rightarrow> u16 \<Rightarrow> u8 list \<Rightarrow> u16 \<Rightarrow> u8 list \<Rightarrow> u8 list" where
  "tcp_header sport dport seq_ack doff_flags rest =
     be_bytes sport @ be_bytes dport @ seq_ack @ be_bytes doff_flags @ rest"

lemma u16_from_be_bytes:
  "u16_from_be (ucast (ucast (drop_bit 8 w) :: u8) OR push_bit 8 (ucast (ucast w :: u8))) = w"
  for w :: u16
  by (rule bit_word_eqI) (auto simp: u16_from_be_def bit_simps; linarith?)

lemma u16_from_be_bytes_swap:
  "u16_from_be (push_bit 8 (ucast (ucast w :: u8)) OR ucast (ucast (drop_bit 8 w) :: u8)) = w"
  for w :: u16
  using u16_from_be_bytes [of w] by (simp add: or.commute)

lemma widen_nonzero: "(ucast w :: u32) = 0 \<longleftrightarrow> w = 0" for w :: u16
proof
  assume "(ucast w :: u32) = 0"
  then have "\<not> bit (ucast w :: u32) n" for n by simp
  then show "w = 0" by (intro bit_word_eqI) (simp add: bit_simps)
qed simp

lemma load16_at:
  "load16 (xs @ be_bytes w @ ys) (length xs) = Inr (ucast (ucast (drop_bit 8 w) :: u8) OR push_bit 8 (ucast (ucast w :: u8)))"
  by (simp add: load16_def be_bytes_def nth_append)

lemma load32_at: "load32 (xs @ addr_bytes w @ ys) (length xs) = Inr w"
  by (simp add: load32_def addr_bytes_def nth_append from_to_le_bytes split: prod.splits)

lemma ihl_byte:
  assumes "n \<le> 15"
  shows "unat (((0x40 :: u8) OR of_nat n) AND 0x0F) = n"
proof -
  have "n \<in> set [0..<16]" using assms by simp
  moreover have "list_all (\<lambda>n. unat (((0x40 :: u8) OR of_nat n) AND 0x0F) = n) [0..<16]" by code_simp
  ultimately show ?thesis unfolding list_all_iff by blast
qed

text \<open>What the program reads of a well-formed packet.\<close>

lemma ipv4_fields:
  assumes "length pre = 8" and "length checksum = 2" and "length opts = 4 * k" and "k \<le> 10"
  shows "load8 (ipv4_packet pre proto checksum src dst opts body) 0 = Inr (0x40 OR of_nat (5 + k))"
    and "load8 (ipv4_packet pre proto checksum src dst opts body) 9 = Inr proto"
    and "load32 (ipv4_packet pre proto checksum src dst opts body) 12 = Inr src"
    and "load32 (ipv4_packet pre proto checksum src dst opts body) 16 = Inr dst"
proof -
  let ?v = "0x40 OR of_nat (5 + k) :: u8"
  have pkt: "ipv4_packet pre proto checksum src dst opts body
      = (?v # pre @ proto # checksum) @ addr_bytes src @ (addr_bytes dst @ opts @ body)"
    "ipv4_packet pre proto checksum src dst opts body
      = (?v # pre @ proto # checksum @ addr_bytes src) @ addr_bytes dst @ (opts @ body)"
    using assms(3) by (simp_all add: ipv4_packet_def)
  have "length (addr_bytes src) = 4" by (simp add: addr_bytes_def split: prod.splits)
  then show "load32 (ipv4_packet pre proto checksum src dst opts body) 12 = Inr src"
    "load32 (ipv4_packet pre proto checksum src dst opts body) 16 = Inr dst"
    using load32_at [of "?v # pre @ proto # checksum" src "addr_bytes dst @ opts @ body"]
      load32_at [of "?v # pre @ proto # checksum @ addr_bytes src" dst "opts @ body"] assms(1,2)
    unfolding pkt [symmetric] by simp_all
  show "load8 (ipv4_packet pre proto checksum src dst opts body) 0 = Inr (0x40 OR of_nat (5 + k))"
    "load8 (ipv4_packet pre proto checksum src dst opts body) 9 = Inr proto"
    using assms by (simp_all add: load8_def ipv4_packet_def nth_append)
qed

lemma tcp_fields:
  assumes "length pre = 8" and "length checksum = 2" and "length opts = 4 * k" and "k \<le> 10"
    and "length seq_ack = 8"
  shows "extract_ports (ipv4_packet pre 6 checksum src dst opts (tcp_header sport dport seq_ack flags rest))
      6 (4 * (5 + k)) = Inr (sport, dport, flags)"
proof -
  define p where "p = ipv4_packet pre 6 checksum src dst opts (tcp_header sport dport seq_ack flags rest)"
  define hd where "hd = ipv4_packet pre 6 checksum src dst opts []"
  have len: "length hd = 20 + 4 * k"
    using assms by (simp add: hd_def ipv4_packet_def addr_bytes_def split: prod.splits)
  have be: "length (be_bytes w) = 2" for w by (simp add: be_bytes_def)
  have p: "p = hd @ be_bytes sport @ (be_bytes dport @ seq_ack @ be_bytes flags @ rest)"
    "p = (hd @ be_bytes sport) @ be_bytes dport @ (seq_ack @ be_bytes flags @ rest)"
    "p = (hd @ be_bytes sport @ be_bytes dport @ seq_ack) @ be_bytes flags @ rest"
    by (simp_all add: p_def hd_def ipv4_packet_def tcp_header_def)
  note loads = load16_at [of hd sport "be_bytes dport @ seq_ack @ be_bytes flags @ rest", folded p(1)]
    load16_at [of "hd @ be_bytes sport" dport "seq_ack @ be_bytes flags @ rest", folded p(2)]
    load16_at [of "hd @ be_bytes sport @ be_bytes dport @ seq_ack" flags rest, folded p(3)]
  show ?thesis
    unfolding p_def [symmetric]
    using loads assms(4,5) by (simp add: extract_ports_def parse_tcp_def len be u16_from_be_bytes_swap ac_simps)
qed

lemma tcp_event:
  assumes "length pre = 8" and "length checksum = 2" and "length opts = 4 * k" and "k \<le> 10"
    and "length seq_ack = 8" and "st_comm ts = Some comm" and "st_tgid ts = Some tgid"
    and "st_pid ts = Some pid" and "st_start ts = Some start"
  shows "\<exists>event. skb_event (ipv4_packet pre 6 checksum src dst opts (tcp_header sport dport seq_ack flags rest))
      direction ts clock = Inr event
    \<and> np_protocol (er_payload event) = 6 \<and> np_src_ip (er_payload event) = src
    \<and> np_dst_ip (er_payload event) = dst \<and> np_src_port (er_payload event) = ucast sport
    \<and> np_dst_port (er_payload event) = ucast dport \<and> np_doff_flags (er_payload event) = flags
    \<and> np_direction (er_payload event) = direction"
  using tcp_fields [OF assms(1-5)] ihl_byte [of "5 + k"] assms(4)
  by (simp add: skb_event_def assms(6-9) ipv4_fields [OF assms(1-4)] mult.commute)

text \<open>
  C28: denied connections are dropped at their first packet. With the policy loaded, the enforcing egress
  program decides every well-formed TCP packet that opens a connection (SYN without ACK, any IP
  options, not coming through docker-proxy) as the rules say: it passes if the destination is
  allowed, and is dropped if not.
\<close>

theorem syn_enforced:
  assumes "kernel_laws K" and "apply_rules K cgid False rules True e = (es, Inr stats)"
    and "unbound cgid (tables K e)"
    and "length pre = 8" and "length checksum = 2" and "length opts = 4 * k" and "k \<le> 10"
    and "length seq_ack = 8" and "st_comm ts = Some comm" and "st_tgid ts = Some tgid"
    and "st_pid ts = Some pid" and "st_start ts = Some start"
    and "heap_ready h" and "sizeof \<le> HEAP_MAX_ALLOC_SIZE" and "is_tcp_connection_start flags"
    and "lru_get (DOCKER_PROXY_IPS N) s src = None" and "dst \<noteq> 0" and "dport \<noteq> 0"
  shows "snd (snd (cgroup_skb_egress_enforce K es N s h sizeof ETH_P_IP
      (ipv4_packet pre 6 checksum src dst opts (tcp_header sport dport seq_ack flags rest)) ts clock))
    = (if connect_decision rules dst (ucast dport) then 1 else 0)"
proof -
  note t = load_effect [OF assms(1,2)]
  have skb: "t_skb (tables K es) 0 = Some cgid"
    by (simp add: t load_tables_def expand_tables_def rules_tables_def config_tables_def)
  have cfg: "t_cgroups (tables K es) cgid = Some \<lparr>pc_default_action = 0, pc_audit_only = 0\<rparr>"
    by (simp add: t loaded_config)
  have verdict: "skb_egress_verdict K es dst (ucast dport)
      = (if connect_decision rules dst (ucast dport) then 1 else 0)"
    unfolding egress_twin [OF skb cfg] using connect_tiers_loaded [OF assms(3) t] by simp
  obtain h1 where h1: "alloc_init h = (h1, Inr ())" "heap_ready h1" "i_next h1 = Some 0"
    using alloc_init_ready [OF assms(13)] by blast
  have h2: "alloc_zero h1 sizeof = (h1\<lparr>i_next := Some (0 + 1)\<rparr>, Inr 0)"
    using h1(2,3) assms(14) by (intro alloc_zero_ready) (simp_all add: MAX_ALLOCS_def)
  obtain event where ev: "skb_event (ipv4_packet pre 6 checksum src dst opts
        (tcp_header sport dport seq_ack flags rest)) Egress ts clock = Inr event"
    and f: "np_protocol (er_payload event) = 6" "np_src_ip (er_payload event) = src"
      "np_dst_ip (er_payload event) = dst" "np_dst_port (er_payload event) = ucast dport"
      "np_doff_flags (er_payload event) = flags"
    using tcp_event [OF assms(4-12)] by blast
  have port: "(ucast dport :: u32) \<noteq> 0"
    using assms(18) by (simp add: widen_nonzero)
  have fin: "snd (snd (finish_skb K es N s event Egress True ts clock))
      = skb_egress_verdict K es dst (ucast dport)"
    using f assms(17) port
    by (simp add: finish_skb_def Let_def set_ids_def is_valid_event_def IPPROTO_UDP_def case_prod_unfold)
  show ?thesis
    unfolding verdict [symmetric] fin [symmetric]
    using f assms(15,16)
    by (simp add: cgroup_skb_egress_enforce_def process_skb_def h1(1) h2 ev Let_def case_prod_unfold
        unwrap_or_pass_def)
qed

definition sample_skb_task :: SkbTask where
  "sample_skb_task = \<lparr>st_comm = Some ''curl'', st_tgid = Some 5, st_pid = Some 5, st_start = Some 1,
     st_pid_tgid = 5\<rparr>"

definition sample_clock :: Clock where
  "sample_clock = \<lparr>at_event = 10, at_flow = 11, at_dedup = 12\<rparr>"

definition syn_to :: "u16 \<Rightarrow> Packet" where
  "syn_to dport = ipv4_packet (replicate 8 0) 6 [0, 0] 0x02000A0A 0x0100007F []
     (tcp_header 40000 dport (replicate 8 0) 0x5002 [])"

lemma syn_enforced_witness:
  "\<exists>es stats. apply_rules hash_kernel 7 False sample_policy True empty_maps = (es, Inr stats)
     \<and> snd (snd (cgroup_skb_egress_enforce hash_kernel es lru_net empty_net fresh_heap 1000 ETH_P_IP
         (syn_to 443) sample_skb_task sample_clock)) = 1
     \<and> snd (snd (cgroup_skb_egress_enforce hash_kernel es lru_net empty_net fresh_heap 1000 ETH_P_IP
         (syn_to 80) sample_skb_task sample_clock)) = 0"
proof -
  obtain es stats where r: "apply_rules hash_kernel 7 False sample_policy True empty_maps = (es, Inr stats)"
    using small_policy_loads [OF policy_sizes(2)] by blast
  have "snd (snd (cgroup_skb_egress_enforce hash_kernel es lru_net empty_net fresh_heap 1000 ETH_P_IP
      (syn_to dport) sample_skb_task sample_clock))
      = (if connect_decision sample_policy 0x0100007F (ucast dport) then 1 else 0)" if "dport \<noteq> 0" for dport
    unfolding syn_to_def
    by (rule syn_enforced [OF hash_kernel_laws r empty_unbound, where k = 0])
      (use that in \<open>simp_all add: sample_skb_task_def heap_ready_def fresh_heap_def HEAP_MAX_ALLOC_SIZE_def
        is_tcp_connection_start_def TCP_SYN_def TCP_ACK_def lru_net_def lru_ops_def empty_net_def\<close>)
  from this [of 443] this [of 80] r show ?thesis
    by (auto simp: connect_decision_def sample_policy_def sample_file_def granted_rule_def
        connect_to_def wanted_verdict_def)
qed

text \<open>
  For UDP the verdict is only asked for once per flow: after a first datagram to a denied destination
  (dropped, but entered into the table of flows), the following ones within five seconds are passed
  without a verdict.
\<close>

lemma known_udp_flow_passes:
  assumes "lru_law others (UDP_FLOWS N)" and "np_protocol (er_payload event) = IPPROTO_UDP"
    and "lru_get (UDP_FLOWS N) s (normalize_udp_key (np_src_ip (er_payload event))
      (ucast (np_src_port (er_payload event))) (np_dst_ip (er_payload event))
      (ucast (np_dst_port (er_payload event)))) = Some expiry" and "at_flow clock \<le> expiry"
  shows "snd (snd (finish_skb K es N s event Egress True ts clock)) = 1"
  using known_flow [OF assms(1,3), of "at_flow clock"] assms(2,4)
  by (auto simp: finish_skb_def Let_def set_ids_def case_prod_unfold)

end
