(* ===== verification/Friction.thy ===== *)
theory Friction
  imports AppArmorBackend Enforcement "HOL-Library.Product_Lexorder"
begin

text \<open>
  \<open>ebpf-mon-common/src/policy/friction.rs\<close>: the report that says, for each rule and each backend,
  whether the backend expresses the rule, widens it or loses it.

  Two properties make the report true. For AppArmor its verdict on a rule is the fate of the rule's
  line in the printed profile. For BPF-LSM, a rule that it lists as dropped has no
  effect on any decision of the hooks, and a rule that it lists otherwise is written into a map.
\<close>

section \<open>The report\<close>

datatype Fidelity = FExpressed | FApproximated | FDropped

primrec marker :: "Fidelity \<Rightarrow> string" where
  "marker FExpressed = ''OK    ''"
| "marker FApproximated = ''APPROX''"
| "marker FDropped = ''DROP  ''"

record Finding =
  fd_rule_id :: RuleId
  fd_rule_summary :: string
  fd_fidelity :: Fidelity
  fd_detail :: string

record BackendFriction =
  bf_backend :: string
  bf_findings :: "Finding list"

definition friction_count :: "BackendFriction \<Rightarrow> Fidelity \<Rightarrow> nat" where
  "friction_count b f = length (filter (\<lambda>x. fd_fidelity x = f) (bf_findings b))"

record FrictionReport =
  fr_total_rules :: nat
  fr_backends :: "BackendFriction list"

definition rule_summary :: "BehaviorRule \<Rightarrow> string" where
  "rule_summary r =
     (let verdict = (case r_verdict r of Allow \<Rightarrow> ''ALLOW'' | Deny \<Rightarrow> ''DENY '' | Audit \<Rightarrow> ''AUDIT'');
          obj = (case r_object r of
             File f \<Rightarrow>
               (case fo_pattern f of
                  ExactPath p \<Rightarrow> ''file '' @ p
                | Prefix p \<Rightarrow> ''file '' @ p @ ''**''
                | Classified c \<Rightarrow> ''file '' @ as_str c)
           | Process p \<Rightarrow>
               (case po_binary p of Path b \<Rightarrow> ''exec '' @ b | Comm _ \<Rightarrow> ''exec comm=<..>'')
           | Network n \<Rightarrow>
               (let ip = (case no_dst_ip n of Some v \<Rightarrow> ipv4_dotted v | None \<Rightarrow> ''*'');
                    port = (case no_dst_port n of Some p \<Rightarrow> show_nat (unat p) | None \<Rightarrow> ''*'');
                    proto = (case no_protocol n of
                       None \<Rightarrow> ''*''
                     | Some p \<Rightarrow> if p = 6 then ''tcp'' else if p = 17 then ''udp''
                                else ''proto'' @ show_nat (unat p))
                in ''net '' @ ip @ '':'' @ port @ ''/'' @ proto))
      in verdict @ '' '' @ action_name (r_action r) @ '' '' @ obj)"

section \<open>AppArmor\<close>

primrec loss_fidelity :: "LossKind \<Rightarrow> Fidelity" where
  "loss_fidelity Dropped = FDropped"
| "loss_fidelity Approximated = FApproximated"
| "loss_fidelity AbiGated = FApproximated"

definition apparmor_friction :: "(string \<Rightarrow> string) \<Rightarrow> BehaviorRule list \<Rightarrow> BackendFriction" where
  "apparmor_friction dbg rules =
     (let warnings = snd (lower_to_apparmor dbg rules ''friction'');
          findings = map (\<lambda>r.
            case find (\<lambda>w. lw_rule_id w = r_id r) warnings of
              None \<Rightarrow> \<lparr>fd_rule_id = r_id r, fd_rule_summary = rule_summary r,
                        fd_fidelity = FExpressed, fd_detail = ''''\<rparr>
            | Some w \<Rightarrow> \<lparr>fd_rule_id = r_id r, fd_rule_summary = rule_summary r,
                          fd_fidelity = loss_fidelity (lw_kind w), fd_detail = lw_message w\<rparr>) rules
      in \<lparr>bf_backend = ''AppArmor'', bf_findings = findings\<rparr>)"

section \<open>BPF-LSM\<close>

definition bpf_fidelity :: "(string \<Rightarrow> string) \<Rightarrow> BehaviorRule \<Rightarrow> Fidelity \<times> string" where
  "bpf_fidelity dbg r =
     (let unsupported = (FDropped, ''unsupported for BPF-LSM: '' @ dbg_object dbg (r_object r) @ ''/''
            @ action_name (r_action r))
      in case r_object r of
        File f \<Rightarrow>
          if r_action r = FileOpen \<or> r_action r = FileRead \<or> r_action r = FileWrite then
            (case fo_pattern f of
               ExactPath _ \<Rightarrow> (FExpressed, '''')
             | pat \<Rightarrow>
                 if pat = Classified Regular then
                   (FDropped, ''Classified(Regular) has no concrete key; not enforceable'')
                 else if (case pat of Prefix p \<Rightarrow> length p > PREFIX_MAX_LEN | _ \<Rightarrow> False) then
                   (FDropped, ''prefix '' @ [CHR 0x27] @ (case pat of Prefix p \<Rightarrow> p | _ \<Rightarrow> [])
                      @ [CHR 0x27] @ '' exceeds PREFIX_MAX_LEN ('' @ show_nat PREFIX_MAX_LEN @ ''); dropped'')
                 else if r_action r = FileRead \<or> r_action r = FileWrite then
                   (FApproximated, ''pattern/prefix tiers of security_file_open are open-granularity: read/write not distinguished there, so the open (hence both modes) is permitted'')
                 else (FExpressed, ''''))
          else unsupported
      | Process p \<Rightarrow>
          if r_action r = ProcExec then
            (case po_binary p of
               Path _ \<Rightarrow> (FExpressed, '''')
             | Comm _ \<Rightarrow> (FDropped, ''comm-based exec has no path hash; dropped''))
          else unsupported
      | Network n \<Rightarrow>
          if r_action r = NetConnect then
            (if no_dst_ip n = None then
               (FDropped, ''ip-less network rule dropped by loader (key requires a concrete ip)'')
             else
               (FApproximated, ''socket_connect key omits protocol; any protocol to this ip:port matches''))
          else if r_action r = NetBind then (FDropped, ''no bind-enforcement hook; dropped'')
          else unsupported)"

definition bpf_lsm_friction :: "(string \<Rightarrow> string) \<Rightarrow> BehaviorRule list \<Rightarrow> BackendFriction" where
  "bpf_lsm_friction dbg rules =
     (let findings = map (\<lambda>r. case bpf_fidelity dbg r of (fidelity, detail) \<Rightarrow>
            \<lparr>fd_rule_id = r_id r, fd_rule_summary = rule_summary r, fd_fidelity = fidelity,
             fd_detail = detail\<rparr>) rules
      in \<lparr>bf_backend = ''BPF-LSM'', bf_findings = findings\<rparr>)"

section \<open>Computing and rendering\<close>

definition compute :: "(string \<Rightarrow> string) \<Rightarrow> BehaviorRule list \<Rightarrow> FrictionReport" where
  "compute dbg rules =
     \<lparr>fr_total_rules = length rules,
      fr_backends = [bpf_lsm_friction dbg rules, apparmor_friction dbg rules]\<rparr>"

text \<open>\<open>{:<4}\<close>: padded with spaces on the right to four characters.\<close>

definition pad4 :: "string \<Rightarrow> string" where
  "pad4 s = s @ replicate (4 - length s) CHR '' ''"

definition render_finding :: "Finding \<Rightarrow> string" where
  "render_finding f =
     ''  ['' @ marker (fd_fidelity f) @ ''] rule '' @ pad4 (show_nat (unat (fd_rule_id f))) @ '' ''
       @ fd_rule_summary f @ [newline] @ ''           '' @ fd_detail f @ [newline]"

definition lossy_findings :: "BackendFriction \<Rightarrow> Finding list" where
  "lossy_findings b =
     sort_key (\<lambda>f. (fd_fidelity f = FApproximated, fd_rule_id f))
       (filter (\<lambda>f. fd_fidelity f \<noteq> FExpressed) (bf_findings b))"

definition render_backend :: "BackendFriction \<Rightarrow> string" where
  "render_backend b =
     (let lossy = lossy_findings b
      in [newline] @ ''['' @ bf_backend b @ '']  expressed '' @ show_nat (friction_count b FExpressed)
           @ '' / approximated '' @ show_nat (friction_count b FApproximated)
           @ '' / dropped '' @ show_nat (friction_count b FDropped) @ [newline]
         @ (if lossy = [] then ''  (everything expressed exactly)'' @ [newline] else [])
         @ concat (map render_finding lossy))"

definition render :: "FrictionReport \<Rightarrow> string" where
  "render rep =
     ''=== FRICTION REPORT (IR -> each backend) ==='' @ [newline]
     @ ''total IR rules: '' @ show_nat (fr_total_rules rep) @ [newline]
     @ concat (map render_backend (fr_backends rep))"

section \<open>The AppArmor report is the fate of the line\<close>

text \<open>The warning that lowering a rule gives rise to, if any.\<close>

definition rule_loss :: "BehaviorRule \<Rightarrow> LossKind option" where
  "rule_loss r =
     (case r_object r of
        File f \<Rightarrow>
          if r_action r \<in> {FileOpen, FileRead, FileWrite} then
            (case file_glob (fo_pattern f) of Exact _ \<Rightarrow> None | Approx _ \<Rightarrow> Some Approximated
             | Unmappable \<Rightarrow> Some Dropped)
          else Some Dropped
      | Process p \<Rightarrow>
          if r_action r = ProcExec then
            (case po_binary p of Path _ \<Rightarrow> None | Comm _ \<Rightarrow> Some Dropped)
          else Some Dropped
      | Network n \<Rightarrow>
          if r_action r \<in> {NetConnect, NetBind} then
            (if no_dst_ip n = None \<and> no_dst_port n = None then None else Some AbiGated)
          else Some Dropped)"

lemma net_conditional_Nil:
  "net_conditional n b = [] \<longleftrightarrow> no_dst_ip n = None \<and> no_dst_port n = None"
  by (auto simp: net_conditional_def Let_def split: option.splits)

lemma lower_rule_warnings:
  "map (\<lambda>w. (lw_rule_id w, lw_kind w)) (warnings (lower_rule dbg st r)) =
     map (\<lambda>w. (lw_rule_id w, lw_kind w)) (warnings st)
     @ (case rule_loss r of None \<Rightarrow> [] | Some k \<Rightarrow> [(r_id r, k)])"
  by (cases "r_object r")
    (auto simp: lower_rule_def lower_file_def lower_exec_def lower_network_def rule_loss_def Let_def
      warn_def net_conditional_Nil split: GlobMap.splits BinaryRef.splits)

lemma lower_all_warnings:
  "map (\<lambda>w. (lw_rule_id w, lw_kind w)) (warnings (lower_all dbg rules)) =
     List.map_filter (\<lambda>r. map_option (Pair (r_id r)) (rule_loss r)) rules"
proof -
  have "map (\<lambda>w. (lw_rule_id w, lw_kind w)) (warnings (foldl (lower_rule dbg) st rules)) =
      map (\<lambda>w. (lw_rule_id w, lw_kind w)) (warnings st)
      @ List.map_filter (\<lambda>r. map_option (Pair (r_id r)) (rule_loss r)) rules" for st
    by (induction rules arbitrary: st)
      (auto simp: List.map_filter_simps lower_rule_warnings split: option.splits)
  then show ?thesis by (simp add: lower_all_def)
qed

lemma loss_fidelity_dropped: "loss_fidelity k = FDropped \<longleftrightarrow> k = Dropped"
  by (cases k) simp_all

lemma rule_loss_line: "rule_loss r = Some Dropped \<longleftrightarrow> rule_line r = None"
  by (cases "r_object r")
    (auto simp: rule_loss_def rule_line_def Let_def split: GlobMap.splits BinaryRef.splits)

lemma find_rule_loss:
  assumes "distinct (map r_id rules)" and "r \<in> set rules"
  shows "map_option snd (find (\<lambda>(i, k). i = r_id r)
      (List.map_filter (\<lambda>r. map_option (Pair (r_id r)) (rule_loss r)) rules)) = rule_loss r"
  using assms
proof (induction rules)
  case Nil
  then show ?case by simp
next
  case (Cons q rules)
  have none: "find (\<lambda>(i, k). i = r_id q)
      (List.map_filter (\<lambda>r. map_option (Pair (r_id r)) (rule_loss r)) rules) = None"
    using Cons.prems(1) unfolding find_None_iff map_filter_def by (auto simp: image_iff)
  show ?case
  proof (cases "r = q")
    case True
    with none show ?thesis by (cases "rule_loss q") (simp_all add: List.map_filter_simps)
  next
    case False
    with Cons.prems have "r_id q \<noteq> r_id r" "r \<in> set rules" by auto
    with Cons show ?thesis by (cases "rule_loss q") (simp_all add: List.map_filter_simps)
  qed
qed

lemma find_warning:
  assumes "distinct (map r_id rules)" and "r \<in> set rules"
  shows "map_option lw_kind (find (\<lambda>w. lw_rule_id w = r_id r) (warnings (lower_all dbg rules)))
    = rule_loss r"
proof -
  have step: "map_option lw_kind (find (\<lambda>w. lw_rule_id w = r_id r) ws)
      = map_option snd (find (\<lambda>(i, k). i = r_id r) (map (\<lambda>w. (lw_rule_id w, lw_kind w)) ws))" for ws
    by (induction ws) simp_all
  have "map_option lw_kind (find (\<lambda>w. lw_rule_id w = r_id r) (warnings (lower_all dbg rules)))
      = map_option snd (find (\<lambda>(i, k). i = r_id r)
          (List.map_filter (\<lambda>r. map_option (Pair (r_id r)) (rule_loss r)) rules))"
    unfolding step lower_all_warnings ..
  also have "\<dots> = rule_loss r" by (rule find_rule_loss [OF assms])
  finally show ?thesis .
qed

lemma push_section_append:
  "push_section out header lines = out @ (if lines = [] then []
     else ''  '' @ header @ [newline] @ concat (map (\<lambda>l. l @ [newline]) lines))"
proof -
  have "foldl (\<lambda>out l. out @ l @ [newline]) o1 lines = o1 @ concat (map (\<lambda>l. l @ [newline]) lines)" for o1
    by (induction lines arbitrary: o1) simp_all
  then show ?thesis by (simp add: push_section_def)
qed

lemma sublist_concat: "l \<in> set ls \<Longrightarrow> sublist (l @ [newline]) (concat (map (\<lambda>l. l @ [newline]) ls))"
  by (force simp: in_set_conv_decomp sublist_def)

lemma push_section_keeps: "sublist t out \<Longrightarrow> sublist t (push_section out header lines)"
  unfolding push_section_append by (metis append.assoc sublist_def)

lemma sublist_append_left: "sublist t b \<Longrightarrow> sublist t (a @ b)"
  unfolding sublist_def by (metis append.assoc)

lemma sublist_append_right: "sublist t a \<Longrightarrow> sublist t (a @ b)"
  unfolding sublist_def by (metis append.assoc)

lemma push_section_line: "l \<in> set lines \<Longrightarrow> sublist (l @ [newline]) (push_section out header lines)"
proof -
  assume l: "l \<in> set lines"
  then have "push_section out header lines = (out @ ''  '' @ header @ [newline])
      @ concat (map (\<lambda>l. l @ [newline]) lines)"
    by (auto simp: push_section_append)
  then show ?thesis using sublist_append_left [OF sublist_concat [OF l]] by metis
qed

lemma line_printed:
  assumes "r \<in> set rules" and "rule_line r = Some (sec, l)"
  shows "sublist (l @ [newline]) (fst (lower_to_apparmor dbg rules name))"
proof -
  have "l \<in> set (section_lines sec (lower_all dbg rules))"
    using assms by (force simp: lower_all_lines map_filter_def)
  then have "\<exists>a b. fst (lower_to_apparmor dbg rules name) = a @ b \<and> sublist (l @ [newline]) a"
    unfolding lower_to_apparmor_def Let_def fst_conv
    by (cases sec) (fastforce intro: push_section_keeps push_section_line)+
  then show ?thesis using sublist_append_right by metis
qed

text \<open>
  C40: the AppArmor report tells the fate of every rule. For rules with different ids, the finding at
  the position of a rule carries its id, and it says that the rule is dropped exactly when the
  backend has no line for it; any other rule has its line in the printed profile.
\<close>

theorem apparmor_friction_true:
  assumes "distinct (map r_id rules)" and "i < length rules"
  shows "fd_rule_id (bf_findings (apparmor_friction dbg rules) ! i) = r_id (rules ! i)
    \<and> (case rule_line (rules ! i) of
         None \<Rightarrow> fd_fidelity (bf_findings (apparmor_friction dbg rules) ! i) = FDropped
       | Some (sec, l) \<Rightarrow> fd_fidelity (bf_findings (apparmor_friction dbg rules) ! i) \<noteq> FDropped
           \<and> sublist (l @ [newline]) (fst (lower_to_apparmor dbg rules name)))"
proof -
  let ?r = "rules ! i" and ?f = "bf_findings (apparmor_friction dbg rules) ! i"
  have r: "?r \<in> set rules" using assms by simp
  have w: "snd (lower_to_apparmor dbg rules ''friction'') = warnings (lower_all dbg rules)"
    by (simp add: lower_to_apparmor_def Let_def)
  have "fd_fidelity ?f = (case rule_loss ?r of None \<Rightarrow> FExpressed | Some k \<Rightarrow> loss_fidelity k)"
    and id: "fd_rule_id ?f = r_id ?r"
    using assms(2) find_warning [OF assms(1) r, of dbg]
    by (auto simp: apparmor_friction_def w split: option.split)
  then have "fd_fidelity ?f = FDropped \<longleftrightarrow> rule_line ?r = None"
    by (auto simp: rule_loss_line [symmetric] loss_fidelity_dropped split: option.splits)
  with id show ?thesis using line_printed [OF r] by (auto split: option.split)
qed

definition friction_sample :: "BehaviorRule list" where
  "friction_sample =
     [sample_file 1 (ExactPath ''/a'') FileRead, sample_file 7 (Classified Regular) FileRead]"

theorem apparmor_friction_true_witness:
  "fd_fidelity (bf_findings (apparmor_friction id friction_sample) ! 1) = FDropped
   \<and> fd_fidelity (bf_findings (apparmor_friction id friction_sample) ! 0) \<noteq> FDropped
   \<and> sublist ''  /a r,'' (fst (lower_to_apparmor id friction_sample ''p''))"
proof -
  have d: "distinct (map r_id friction_sample)" and n: "0 < length friction_sample" "1 < length friction_sample"
    by (simp_all add: friction_sample_def sample_file_def granted_rule_def)
  have l: "rule_line (friction_sample ! 0) = Some (Sec_file, ''  /a r,'')"
    "rule_line (friction_sample ! 1) = None"
    by code_simp+
  have s: "sublist ''  /a r,'' (''  /a r,'' @ [newline])" by (rule sublist_append_right) simp
  show ?thesis
    using apparmor_friction_true [OF d n(1), of id "''p''"] apparmor_friction_true [OF d n(2), of id "''p''"] s
    unfolding l option.case prod.case by (blast intro: sublist_order.order.trans)
qed

section \<open>The BPF-LSM report is what the hooks see\<close>

lemma bpf_dropped_parts:
  assumes "fst (bpf_fidelity dbg r) = FDropped"
    and "\<And>p. rule_prefix r = Some p \<Longrightarrow> length p \<le> PREFIX_MAX_LEN"
  shows "exact_hash r = None" "rule_class r = None \<or> rule_class r = Some Regular"
    "rule_prefix r = None" "exec_hash r = None" "connect_to r = None"
  using assms
  by (cases "r_object r"; cases "r_action r";
      fastforce simp: bpf_fidelity_def Let_def rule_parts split: FilePattern.splits BinaryRef.splits if_splits)+

lemma no_Regular_group: "has_sibling present c = has_sibling (\<lambda>d. d \<noteq> Regular \<and> present d) c"
  by (simp add: has_sibling_def category_groups_def)

lemma class_verdict_without:
  assumes "rule_class r = None \<or> rule_class r = Some Regular" and "c \<noteq> Regular"
  shows "class_verdict (xs @ r # ys) c = class_verdict (xs @ ys) c"
proof -
  let ?p = "\<lambda>rs d. list_ex (\<lambda>r. rule_class r = Some d) rs"
  have same: "(\<lambda>d. d \<noteq> Regular \<and> ?p (xs @ r # ys) d) = (\<lambda>d. d \<noteq> Regular \<and> ?p (xs @ ys) d)"
    using assms(1) by (intro ext) auto
  have "has_sibling (?p (xs @ r # ys)) c = has_sibling (\<lambda>d. d \<noteq> Regular \<and> ?p (xs @ r # ys) d) c"
    by (rule no_Regular_group)
  also have "\<dots> = has_sibling (?p (xs @ ys)) c"
    unfolding same by (rule no_Regular_group [symmetric])
  finally have "has_sibling (?p (xs @ r # ys)) c = has_sibling (?p (xs @ ys)) c" .
  moreover have "filter (\<lambda>r. rule_class r = Some c) (xs @ r # ys)
      = filter (\<lambda>r. rule_class r = Some c) (xs @ ys)"
    using assms by auto
  ultimately show ?thesis by (simp only: class_verdict_def)
qed

text \<open>
  The BPF-LSM report does not lose enforcement silently. A rule that it lists as dropped, unless
  it is a prefix too long for the kernel, has no effect on any decision of the three
  hooks: they decide every file access, execution and connection as if the rule were not there.
\<close>

theorem bpf_dropped_ineffective:
  assumes "fst (bpf_fidelity dbg r) = FDropped"
    and "\<And>p. rule_prefix r = Some p \<Longrightarrow> length p \<le> PREFIX_MAX_LEN"
  shows "file_decision (xs @ r # ys) path c req = file_decision (xs @ ys) path c req
    \<and> exec_decision (xs @ r # ys) path = exec_decision (xs @ ys) path
    \<and> connect_decision (xs @ r # ys) ip port = connect_decision (xs @ ys) ip port"
proof -
  note parts = bpf_dropped_parts [OF assms]
  have "prefix_verdict (xs @ r # ys) path = prefix_verdict (xs @ ys) path"
    using parts(3) by (simp add: prefix_verdict_def kept_prefixes_def map_filter_def)
  moreover have "(if c \<noteq> Regular then class_verdict (xs @ r # ys) c else None)
      = (if c \<noteq> Regular then class_verdict (xs @ ys) c else None)"
    using class_verdict_without [OF parts(2)] by simp
  moreover have "filter (\<lambda>r. exact_hash r = Some h) (xs @ r # ys)
        = filter (\<lambda>r. exact_hash r = Some h) (xs @ ys)"
    and "filter (\<lambda>r. exec_hash r = Some h) (xs @ r # ys)
        = filter (\<lambda>r. exec_hash r = Some h) (xs @ ys)"
    and "filter (\<lambda>r. connect_to r = Some d) (xs @ r # ys)
        = filter (\<lambda>r. connect_to r = Some d) (xs @ ys)" for h d
    using parts by simp_all
  ultimately show ?thesis
    by (simp only: file_decision_def exec_decision_def connect_decision_def simp_thms)
qed

theorem bpf_dropped_ineffective_witness:
  "fst (bpf_fidelity id (sample_file 7 (Classified Regular) FileRead)) = FDropped
   \<and> file_decision friction_sample ''/a'' Regular ACCESS_READ
     = file_decision [sample_file 1 (ExactPath ''/a'') FileRead] ''/a'' Regular ACCESS_READ"
proof -
  have d: "fst (bpf_fidelity id (sample_file 7 (Classified Regular) FileRead)) = FDropped" by code_simp
  have p: "rule_prefix (sample_file 7 (Classified Regular) FileRead) = None" by code_simp
  show ?thesis
    using d bpf_dropped_ineffective [OF d, of "[sample_file 1 (ExactPath ''/a'') FileRead]" "[]" "''/a''"
        Regular ACCESS_READ 0 0] p
    by (simp add: friction_sample_def)
qed

text \<open>
  The exception is real: the report calls a prefix of more than 128 bytes dropped, but the loader cuts
  it, and the hooks then open what begins with the rest.
\<close>

lemma overlong_prefix_enforced:
  "fst (bpf_fidelity dbg (sample_file 1 (Prefix (''/'' @ replicate 128 CHR ''a'')) FileOpen)) = FDropped
   \<and> file_decision [sample_file 1 (Prefix (''/'' @ replicate 128 CHR ''a'')) FileOpen]
       (''/'' @ replicate 127 CHR ''a'' @ ''b'') Regular ACCESS_READ"
proof -
  have h: "kept_prefixes [sample_file 1 (Prefix (''/'' @ replicate 128 CHR ''a'')) FileOpen]
      = [(''/'' @ replicate 127 CHR ''a'', 1)]"
    by code_simp
  have "prefix_verdict [sample_file 1 (Prefix (''/'' @ replicate 128 CHR ''a'')) FileOpen]
      (''/'' @ replicate 127 CHR ''a'' @ ''b'') = Some 1"
    unfolding prefix_verdict_def h by simp
  then show ?thesis
    by (simp add: file_decision_def bpf_fidelity_def sample_file_def granted_rule_def exact_hash_def
        rule_pattern_def PREFIX_MAX_LEN_def)
qed

text \<open>What the report lists otherwise is written into a map under a key that a hook looks up.\<close>

lemma bpf_kept_written:
  assumes "fst (bpf_fidelity dbg r) \<noteq> FDropped"
  shows "exact_hash r \<noteq> None \<or> (\<exists>c. rule_class r = Some c \<and> c \<noteq> Regular) \<or> rule_prefix r \<noteq> None
    \<or> exec_hash r \<noteq> None \<or> connect_to r \<noteq> None"
  using assms
  by (cases "r_object r"; cases "r_action r";
      auto simp: bpf_fidelity_def Let_def rule_parts split: FilePattern.splits BinaryRef.splits if_splits)

lemma friction_counts:
  "friction_count b FExpressed + friction_count b FApproximated + friction_count b FDropped
     = length (bf_findings b)"
proof -
  have "length (filter (\<lambda>x. fd_fidelity x = FExpressed) fs)
      + length (filter (\<lambda>x. fd_fidelity x = FApproximated) fs)
      + length (filter (\<lambda>x. fd_fidelity x = FDropped) fs) = length fs" for fs :: "Finding list"
  proof (induction fs)
    case (Cons f fs)
    then show ?case by (cases "fd_fidelity f") simp_all
  qed simp
  then show ?thesis by (simp add: friction_count_def)
qed

end
