(* ===== verification/LsmSupport.thy ===== *)
theory LsmSupport
  imports RustStr
begin

text \<open>
  The check for BPF-LSM support of \<open>ebpf-mon/src/enforcement.rs\<close>. Reading a file, testing for one and
  running \<open>uname\<close> are parameters: \<open>rd\<close> answers the text of a file if it can be read, \<open>ex\<close> whether a
  path exists, and \<open>uname\<close> the output of \<open>uname -r\<close>.
\<close>

record LsmCapability =
  config_bpf_lsm :: bool
  lsm_boot_param :: bool
  btf_available :: bool

definition contains :: "string \<Rightarrow> string \<Rightarrow> bool" where
  "contains s pat = (find_sub pat s \<noteq> None)"

definition get_kernel_release :: "string option \<Rightarrow> string option" where
  "get_kernel_release uname = map_option trim uname"

definition check_lsm_support ::
    "(string \<Rightarrow> string option) \<Rightarrow> (string \<Rightarrow> bool) \<Rightarrow> string option \<Rightarrow> string + LsmCapability" where
  "check_lsm_support rd ex uname =
     (let config = (case rd ''/proc/config.gz'' of
            Some t \<Rightarrow> Some t
          | None \<Rightarrow> rd (''/boot/config-'' @ (case get_kernel_release uname of Some r \<Rightarrow> r | None \<Rightarrow> [])))
      in Inr \<lparr>config_bpf_lsm = (case config of Some t \<Rightarrow> contains t ''CONFIG_BPF_LSM=y'' | None \<Rightarrow> False),
             lsm_boot_param = (case rd ''/sys/kernel/security/lsm'' of
                 Some lsm_list \<Rightarrow> contains lsm_list ''bpf'' | None \<Rightarrow> False),
             btf_available = ex ''/sys/kernel/btf/vmlinux''\<rparr>)"

definition is_supported :: "LsmCapability \<Rightarrow> bool" where
  "is_supported cap = (lsm_boot_param cap \<and> btf_available cap)"

definition report :: "LsmCapability \<Rightarrow> string" where
  "report cap =
     join [newline]
       [''CONFIG_BPF_LSM: '' @ (if config_bpf_lsm cap then ''yes'' else ''unknown/no''),
        ''LSM boot param (bpf): '' @ (if lsm_boot_param cap then ''yes'' else ''no''),
        ''BTF available: '' @ (if btf_available cap then ''yes'' else ''no''),
        ''Overall: '' @ (if is_supported cap then ''SUPPORTED'' else ''NOT SUPPORTED'')]"

lemma contains_iff: "contains s pat \<longleftrightarrow> sublist pat s"
proof (induction s)
  case Nil
  then show ?case by (simp add: contains_def)
next
  case (Cons c s)
  have "find_sub pat (c # s) \<noteq> None \<longleftrightarrow> prefix pat (c # s) \<or> find_sub pat s \<noteq> None"
    by simp
  with Cons show ?case by (simp add: contains_def sublist_Cons_right)
qed

text \<open>
  The check never fails, and support is reported exactly when the boot parameter lists \<open>bpf\<close> and the
  type information is there, whatever the kernel configuration says.
\<close>

lemma check_lsm_support_iff:
  "\<exists>cap. check_lsm_support rd ex uname = Inr cap
     \<and> (is_supported cap \<longleftrightarrow> (\<exists>t. rd ''/sys/kernel/security/lsm'' = Some t \<and> sublist ''bpf'' t)
          \<and> ex ''/sys/kernel/btf/vmlinux'')"
  by (auto simp: check_lsm_support_def Let_def is_supported_def contains_iff split: option.split)

end
