(* ===== verification/Capabilities.thy ===== *)
theory Capabilities
  imports RustStr
begin

text \<open>
  The capability sets of \<open>ebpf-mon-common/src/capabilities.rs\<close> and \<open>capabilities/user.rs\<close>: the bits
  of a mask, their names, and the text of a set. A shift by 64 or more panics in Rust's debug build and
  wraps in the release build; the model covers the shifts below 64 (\<open>Display\<close> uses 0 to 40).
\<close>

definition has_cap :: "u64 \<Rightarrow> nat \<Rightarrow> bool" where
  "has_cap caps cap = (caps AND push_bit cap 1 \<noteq> 0)"

definition is_root :: "u64 \<Rightarrow> bool" where
  "is_root caps = (caps = 0x1FFFFFFFFFF)"

definition count_ones :: "u64 \<Rightarrow> nat" where
  "count_ones caps = length (filter (\<lambda>i. bit caps i) [0..<64])"

definition cap_names :: "string list" where
  "cap_names =
     [''CHOWN'', ''DAC_OVERRIDE'', ''DAC_READ_SEARCH'', ''FOWNER'', ''FSETID'', ''KILL'', ''SETGID'',
      ''SETUID'', ''SETPCAP'', ''LINUX_IMMUTABLE'', ''NET_BIND_SERVICE'', ''NET_BROADCAST'',
      ''NET_ADMIN'', ''NET_RAW'', ''IPC_LOCK'', ''IPC_OWNER'', ''SYS_MODULE'', ''SYS_RAWIO'',
      ''SYS_CHROOT'', ''SYS_PTRACE'', ''SYS_PACCT'', ''SYS_ADMIN'', ''SYS_BOOT'', ''SYS_NICE'',
      ''SYS_RESOURCE'', ''SYS_TIME'', ''SYS_TTY_CONFIG'', ''MKNOD'', ''LEASE'', ''AUDIT_WRITE'',
      ''AUDIT_CONTROL'', ''SETFCAP'', ''MAC_OVERRIDE'', ''MAC_ADMIN'', ''SYSLOG'', ''WAKE_ALARM'',
      ''BLOCK_SUSPEND'', ''AUDIT_READ'', ''PERFMON'', ''BPF'', ''CHECKPOINT_RESTORE'']"

text \<open>The constants of \<open>capabilities.rs\<close>, by name and value.\<close>

definition cap_constants :: "(string \<times> nat) list" where
  "cap_constants =
     [(''CHOWN'', 0), (''DAC_OVERRIDE'', 1), (''DAC_READ_SEARCH'', 2), (''FOWNER'', 3),
      (''FSETID'', 4), (''KILL'', 5), (''SETGID'', 6), (''SETUID'', 7), (''SETPCAP'', 8),
      (''LINUX_IMMUTABLE'', 9), (''NET_BIND_SERVICE'', 10), (''NET_BROADCAST'', 11),
      (''NET_ADMIN'', 12), (''NET_RAW'', 13), (''IPC_LOCK'', 14), (''IPC_OWNER'', 15),
      (''SYS_MODULE'', 16), (''SYS_RAWIO'', 17), (''SYS_CHROOT'', 18), (''SYS_PTRACE'', 19),
      (''SYS_PACCT'', 20), (''SYS_ADMIN'', 21), (''SYS_BOOT'', 22), (''SYS_NICE'', 23),
      (''SYS_RESOURCE'', 24), (''SYS_TIME'', 25), (''SYS_TTY_CONFIG'', 26), (''MKNOD'', 27),
      (''LEASE'', 28), (''AUDIT_WRITE'', 29), (''AUDIT_CONTROL'', 30), (''SETFCAP'', 31),
      (''MAC_OVERRIDE'', 32), (''MAC_ADMIN'', 33), (''SYSLOG'', 34), (''WAKE_ALARM'', 35),
      (''BLOCK_SUSPEND'', 36), (''AUDIT_READ'', 37), (''PERFMON'', 38), (''BPF'', 39),
      (''CHECKPOINT_RESTORE'', 40)]"

definition cap_name :: "nat \<Rightarrow> string option" where
  "cap_name cap_num = (if cap_num < length cap_names then Some (cap_names ! cap_num) else None)"

definition show_caps :: "u64 \<Rightarrow> string" where
  "show_caps w =
     (if w = 0 then ''None''
      else if is_root w then ''ALL''
      else
        let caps = List.map_filter (\<lambda>cap_num. if has_cap w cap_num then cap_name cap_num else None) [0..<41]
        in if caps = [] then ''None'' else join '','' caps)"

lemma has_cap_bit: "has_cap w n \<longleftrightarrow> bit w n"
  by (simp add: has_cap_def push_bit_of_1 and_exp_eq_0_iff_not_bit)

lemma length_cap_names: "length cap_names = 41"
  by (simp add: cap_names_def)

text \<open>Outside the two special texts, the names listed are those of the bits that are set.\<close>

lemma listed_caps:
  "List.map_filter (\<lambda>n. if has_cap w n then cap_name n else None) [0..<41]
     = map ((!) cap_names) (filter (bit w) [0..<41])"
proof -
  have "List.map_filter (\<lambda>n. if has_cap w n then cap_name n else None) ns
      = map ((!) cap_names) (filter (bit w) ns)" if "\<forall>n \<in> set ns. n < 41" for ns
    using that
    by (induction ns) (simp_all add: List.map_filter_simps has_cap_bit cap_name_def length_cap_names)
  then show ?thesis by simp
qed

text \<open>
  The table of names agrees with the constants: every constant has its own name, and there is no name without a
  constant.
\<close>

lemma names_of_constants:
  "map (\<lambda>(n, k). cap_name k) cap_constants = map (\<lambda>(n, k). Some n) cap_constants
   \<and> map fst cap_constants = cap_names"
  by code_simp

end
