(* ===== verification/AccessPolicies.thy ===== *)
theory AccessPolicies
  imports Prelude
begin

text \<open>
  The fixed-size policies of \<open>ebpf-mon-common/src/modules/fs/policy.rs\<close> and
  \<open>modules/ipc/policy.rs\<close>, which hold inodes in arrays. The arrays of a file policy end at the
  first entry with inode 0.
\<close>

definition MAX_PATHS :: nat where "MAX_PATHS = 16"
definition MAX_PROCS :: nat where "MAX_PROCS = 4"

datatype FileAccess = AccRead | AccWrite | AccExecute | AccDelete | AccCreate

primrec access_u8 :: "FileAccess \<Rightarrow> u8" where
  "access_u8 AccRead = 0x01"
| "access_u8 AccWrite = 0x02"
| "access_u8 AccExecute = 0x04"
| "access_u8 AccDelete = 0x08"
| "access_u8 AccCreate = 0x10"

record FileSystemPolicyBpf =
  allowed_resource :: "(u64 \<times> u8) list"
  denied_resource :: "(u64 \<times> u8) list"
  audit_resource :: "(u64 \<times> u8) list"
  fsp_default_action :: u8

text \<open>The loop that all three tables are searched with.\<close>

fun scan_resource :: "(u64 \<times> u8) list \<Rightarrow> u64 \<Rightarrow> (u8 \<Rightarrow> bool) \<Rightarrow> bool" where
  "scan_resource [] path_inode hit = False"
| "scan_resource ((inode, amask) # rs) path_inode hit =
     (if inode = 0 then False
      else if inode = path_inode \<and> hit amask then True
      else scan_resource rs path_inode hit)"

definition check_permission :: "FileSystemPolicyBpf \<Rightarrow> u64 \<Rightarrow> u8 \<Rightarrow> bool" where
  "check_permission p path_inode access_mask =
     (if scan_resource (take MAX_PATHS (denied_resource p)) path_inode (\<lambda>amask. access_mask AND amask \<noteq> 0)
      then False
      else if scan_resource (take MAX_PATHS (allowed_resource p)) path_inode
          (\<lambda>amask. access_mask AND amask = access_mask)
      then True
      else fsp_default_action p \<noteq> 0)"

definition should_audit :: "FileSystemPolicyBpf \<Rightarrow> u64 \<Rightarrow> u8 \<Rightarrow> bool" where
  "should_audit p path_inode access_mask =
     scan_resource (take MAX_PATHS (audit_resource p)) path_inode (\<lambda>amask. access_mask AND amask \<noteq> 0)"

record IPCPolicyBpf =
  allowed_procs :: "u64 list"
  denied_procs :: "u64 list"

definition ipc_check_permission :: "IPCPolicyBpf \<Rightarrow> u64 \<Rightarrow> bool" where
  "ipc_check_permission p exe_inode =
     (if exe_inode \<in> set (take (MAX_PROCS - 1) (allowed_procs p)) then True
      else if exe_inode \<in> set (take (MAX_PROCS - 1) (denied_procs p)) then False
      else True)"

section \<open>What the searches find\<close>

lemma scan_resource_iff:
  "scan_resource rs i hit \<longleftrightarrow> (\<exists>m. (i, m) \<in> set (takeWhile (\<lambda>(j, _). j \<noteq> 0) rs) \<and> hit m)"
  by (induction rs i hit rule: scan_resource.induct) auto

text \<open>A denied access is refused whatever the other tables say.\<close>

lemma deny_precedence:
  assumes "(i, m) \<in> set (takeWhile (\<lambda>(j, _). j \<noteq> 0) (take MAX_PATHS (denied_resource p)))"
    and "acc AND m \<noteq> 0"
  shows "\<not> check_permission p i acc"
  using assms by (auto simp: check_permission_def scan_resource_iff)

text \<open>The last of the four slots of an IPC policy is never looked at.\<close>

lemma ipc_last_slot_ignored:
  "length xs = MAX_PROCS - 1 \<Longrightarrow> i \<notin> set xs \<Longrightarrow>
     ipc_check_permission \<lparr>allowed_procs = [], denied_procs = xs @ [i]\<rparr> i"
  by (simp add: ipc_check_permission_def)

end
