(* ===== verification/ProcMon.thy ===== *)
theory ProcMon
  imports KernelMaps Modules Alloc
begin

text \<open>
  The process monitor, \<open>ebpf-mon-ebpf/src/process.rs\<close>: the fork program, the two programs around
  \<open>execve\<close> and \<open>execveat\<close>, and the reading of the arguments, which redacts what follows a flag that
  announces a secret.

  The reads of the task are the parameter \<open>ProcTask\<close>, user memory is \<open>UserMem\<close>, and the two LRU maps
  are the operations of \<open>ProcMaps\<close>.
\<close>

section \<open>Payload and maps\<close>

definition MAX_ARGS :: nat where "MAX_ARGS = 20"
definition MAX_ARG_LEN :: nat where "MAX_ARG_LEN = 128"
definition MAX_FILENAME_LEN :: nat where "MAX_FILENAME_LEN = 256"

datatype ProcessType = Execve | Fork

primrec ps_type_u8 :: "ProcessType \<Rightarrow> u8" where
  "ps_type_u8 Execve = 0"
| "ps_type_u8 Fork = 1"

record ProcessPayload =
  pp_path :: Path
  pp_inode :: u64
  pp_ps_type :: ProcessType
  pp_pid :: u32
  pp_tgid :: u32
  pp_cgroup_id :: u64
  pp_ppid :: u32
  pp_gid :: u32
  pp_filename :: string
  pp_argv :: "string list"
  pp_argc :: u32
  pp_retval :: u32
  pp_freq :: u32
  pp_parent_comm :: string
  pp_is_root :: bool
  pp_capabilities :: u64

type_synonym ProcessEventRaw = "ProcessPayload EventRaw"

definition zeroed_process_event :: ProcessEventRaw where
  "zeroed_process_event = \<lparr>er_header = zeroed_event_info,
     er_payload = \<lparr>pp_path = default_path, pp_inode = 0, pp_ps_type = Execve, pp_pid = 0, pp_tgid = 0,
       pp_cgroup_id = 0, pp_ppid = 0, pp_gid = 0, pp_filename = replicate MAX_FILENAME_LEN nul,
       pp_argv = replicate MAX_ARGS (replicate MAX_ARG_LEN nul), pp_argc = 0, pp_retval = 0,
       pp_freq = 0, pp_parent_comm = replicate 16 nul, pp_is_root = False, pp_capabilities = 0\<rparr>\<rparr>"

record ProcessIdentity =
  pd_ps_type :: u8
  pd_filename :: string
  pd_argv :: "string list"

definition zeroed_identity :: ProcessIdentity where
  "zeroed_identity = \<lparr>pd_ps_type = 0, pd_filename = replicate MAX_FILENAME_LEN nul,
     pd_argv = replicate MAX_ARGS (replicate MAX_ARG_LEN nul)\<rparr>"

record 's ProcMaps =
  PROCESS_EVENT_DEDUP :: "('s, ProcessIdentity, u8) LruOps"
  EXEC_STATE :: "('s, u64, ProcessEventRaw) LruOps"

definition deduplicate_and_send ::
    "'s ProcMaps \<Rightarrow> 's \<Rightarrow> ProcessEventRaw \<Rightarrow> ProcessIdentity \<Rightarrow> 's \<times> ProcessEventRaw list" where
  "deduplicate_and_send M s event identity =
     (case lru_insert_new (PROCESS_EVENT_DEDUP M) s identity 1 of
        (s, ok) \<Rightarrow> (s, if ok then [event] else []))"

definition check_capability :: "u64 \<Rightarrow> nat \<Rightarrow> bool" where
  "check_capability cap_effective cap_num = (cap_effective AND push_bit cap_num 1 \<noteq> 0)"

section \<open>Redaction of arguments\<close>

definition is_long_flag :: "string \<Rightarrow> bool" where
  "is_long_flag arg = (length arg \<ge> 2 \<and> arg ! 0 = CHR ''-'' \<and> arg ! 1 = CHR ''-'')"

definition matches_long_flag :: "string \<Rightarrow> string \<Rightarrow> bool" where
  "matches_long_flag arg pattern =
     (if length arg < length pattern + 2 \<or> \<not> is_long_flag arg then False
      else
        let arg_suffix = drop 2 arg in
        if length arg_suffix < length pattern then False
        else list_all (\<lambda>i. arg_suffix ! i = pattern ! i) [0..<length pattern])"

definition matches_short_flag :: "string \<Rightarrow> char \<Rightarrow> char \<Rightarrow> bool" where
  "matches_short_flag arg c1 c2 =
     (length arg = 2 \<and> arg ! 0 = CHR ''-'' \<and> (arg ! 1 = c1 \<or> arg ! 1 = c2))"

definition is_encrypt_flag :: "string \<Rightarrow> bool" where
  "is_encrypt_flag arg = matches_long_flag arg ''encrypt''"

definition is_password_flag :: "string \<Rightarrow> bool" where
  "is_password_flag arg = matches_long_flag arg ''pass''"

definition is_secret_flag :: "string \<Rightarrow> bool" where
  "is_secret_flag arg = matches_long_flag arg ''secret''"

definition is_key_flag :: "string \<Rightarrow> bool" where
  "is_key_flag arg = matches_long_flag arg ''key''"

definition is_token_flag :: "string \<Rightarrow> bool" where
  "is_token_flag arg = matches_long_flag arg ''token''"

definition is_short_password_flag :: "string \<Rightarrow> bool" where
  "is_short_password_flag arg = matches_short_flag arg CHR ''p'' CHR ''P''"

definition check_sensitive_flag :: "string \<Rightarrow> u8" where
  "check_sensitive_flag arg =
     (if length arg < 2 then 0
      else if is_encrypt_flag arg then 2
      else if is_password_flag arg \<or> is_short_password_flag arg \<or> is_secret_flag arg
          \<or> is_key_flag arg \<or> is_token_flag arg
      then 1
      else 0)"

definition redact_arg :: "string \<Rightarrow> string" where
  "redact_arg arg = write_at 0 (''[REDACTED]'' @ [nul]) arg"

section \<open>Reading the arguments\<close>

record UserMem =
  um_ptr :: "u64 \<Rightarrow> u64 option"
  um_str :: "u64 \<Rightarrow> string option"

definition read_into :: "string option \<Rightarrow> string \<Rightarrow> string" where
  "read_into src buf = (case read_str src (length buf) of None \<Rightarrow> buf | Some t \<Rightarrow> write_at 0 (t @ [nul]) buf)"

text \<open>The loop from argument \<open>i\<close> on, with \<open>n\<close> iterations left.\<close>

fun argv_loop ::
    "UserMem \<Rightarrow> u64 \<Rightarrow> nat \<Rightarrow> nat \<Rightarrow> u8 \<Rightarrow> string list \<times> u32 \<Rightarrow> string list \<times> u32" where
  "argv_loop U argv 0 i redact_count st = st"
| "argv_loop U argv (Suc n) i redact_count (bufs, argc) =
     (case um_ptr U (argv + of_nat (8 * i)) of
        None \<Rightarrow> (bufs, argc)
      | Some arg_ptr \<Rightarrow>
          if arg_ptr = 0 then (bufs, argc)
          else
            let arg = read_into (um_str U arg_ptr) (bufs ! i) in
            if redact_count > 0 then
              argv_loop U argv n (i + 1) (redact_count - 1) (bufs[i := redact_arg arg], argc + 1)
            else
              argv_loop U argv n (i + 1) (check_sensitive_flag arg) (bufs[i := arg], argc + 1))"

definition read_argv :: "UserMem \<Rightarrow> u64 \<Rightarrow> ProcessPayload \<Rightarrow> ProcessPayload" where
  "read_argv U argv_ptr p =
     (let p = p\<lparr>pp_argc := 0\<rparr> in
      if argv_ptr = 0 then p
      else case argv_loop U argv_ptr MAX_ARGS 0 0 (pp_argv p, 0) of
          (bufs, argc) \<Rightarrow> p\<lparr>pp_argv := bufs, pp_argc := argc\<rparr>)"

section \<open>The programs\<close>

record ExeFile =
  xf_path :: "(u64 option \<times> u64 option) option option option"
  xf_ino :: "u64 option option"

record Cred =
  cr_uid :: u32
  cr_gid :: u32
  cr_cap_effective :: "u64 option"

text \<open>
  \<open>pt_parent\<close> is the parent's pid and name, if the parent can be read. \<open>pt_task\<close> and \<open>pt_parent_task\<close>
  are what the header is filled from.
\<close>

record ProcTask =
  pt_cgroup_id :: "u64 option"
  pt_pid_tgid :: u64
  pt_parent :: "(u32 option \<times> string option) option"
  pt_cred :: "Cred option"
  pt_exe :: "ExeFile option"
  pt_task :: "KTask option"
  pt_parent_task :: "KTask option"
  pt_now :: u64

definition SIZE_OF_PROCESS_EVENT :: nat where "SIZE_OF_PROCESS_EVENT = 10432"
definition SIZE_OF_PROCESS_IDENTITY :: nat where "SIZE_OF_PROCESS_IDENTITY = 2817"

text \<open>The path of the executable, written into the payload, and its inode.\<close>

definition resolve_exe :: "World \<Rightarrow> ProcTask \<Rightarrow> Path \<Rightarrow> Path \<times> (u32 + u64)" where
  "resolve_exe W t p =
     (case pt_exe t of
        None \<Rightarrow> (p, Inr 0)
      | Some exe_file \<Rightarrow>
          bind_io (core_resolve_file (w_fs W) p (xf_path exe_file) MAX_PATH_DEPTH) (\<lambda>p _.
          bind_io (or_err 1 p (xf_ino exe_file)) (\<lambda>p inode_ptr. or_err 1 p inode_ptr)))"

definition try_fork_tracepoint ::
    "'s ProcMaps \<Rightarrow> 's \<Rightarrow> World \<Rightarrow> (u64 \<Rightarrow> bool) \<Rightarrow> Heap \<Rightarrow> ProcTask
      \<Rightarrow> 's \<times> ProcessEventRaw list \<times> (u32 + u32)" where
  "try_fork_tracepoint M s W cgroup_exists h t =
     (let fail = (s, [], Inl 1) in
      case pt_cgroup_id t of
        None \<Rightarrow> fail
      | Some cgid \<Rightarrow>
          if \<not> cgroup_exists cgid then (s, [], Inr 0)
          else case alloc_init h of
              (h, Inl e) \<Rightarrow> (s, [], Inl e)
            | (h, Inr _) \<Rightarrow>
                (case alloc_zero h SIZE_OF_PROCESS_EVENT of
                   (h, Inl e) \<Rightarrow> fail
                 | (h, Inr _) \<Rightarrow>
                     (case event_init W zeroed_process_event EvFork (pt_now t) (pt_task t) (pt_parent_task t) of
                        (event, Inl e) \<Rightarrow> fail
                      | (event, Inr _) \<Rightarrow>
                          (case (pt_parent t, pt_cred t) of
                             (Some (Some ppid, parent_comm), Some cred) \<Rightarrow>
                               (case (cr_cap_effective cred, resolve_exe W t (pp_path (er_payload event))) of
                                  (Some capabilities, (path, Inr inode_num)) \<Rightarrow>
                                    (case parent_comm of
                                       None \<Rightarrow> fail
                                     | Some comm \<Rightarrow>
                                         (let event = event\<lparr>er_payload := (er_payload event)
                                                \<lparr>pp_path := path, pp_ps_type := Fork, pp_pid := ucast (pt_pid_tgid t),
                                                 pp_cgroup_id := cgid, pp_inode := inode_num,
                                                 pp_capabilities := capabilities, pp_ppid := ppid,
                                                 pp_gid := cr_gid cred, pp_is_root := (cr_uid cred = 0),
                                                 pp_parent_comm := comm\<rparr>\<rparr>
                                          in case alloc_zero h SIZE_OF_PROCESS_IDENTITY of
                                               (h, Inl e) \<Rightarrow> fail
                                             | (h, Inr _) \<Rightarrow>
                                                 (case deduplicate_and_send M s event
                                                      (zeroed_identity\<lparr>pd_ps_type := ps_type_u8 Fork\<rparr>) of
                                                    (s, out) \<Rightarrow> (s, out, Inr 0))))
                                | _ \<Rightarrow> fail)
                           | _ \<Rightarrow> fail))))"

text \<open>\<open>fork_tracepoint\<close> and the exec programs return the code of either outcome.\<close>

definition either_code :: "'a + 'a \<Rightarrow> 'a" where
  "either_code r = (case r of Inl e \<Rightarrow> e | Inr v \<Rightarrow> v)"

definition fork_tracepoint where
  "fork_tracepoint M s W cgroup_exists h t =
     (case try_fork_tracepoint M s W cgroup_exists h t of (s, out, r) \<Rightarrow> (s, out, either_code r))"

definition exec_event ::
    "World \<Rightarrow> UserMem \<Rightarrow> ProcTask \<Rightarrow> u64 \<Rightarrow> Cred \<Rightarrow> u64 \<Rightarrow> u32 \<Rightarrow> string \<Rightarrow> Path \<Rightarrow> u64 \<Rightarrow> u64 \<Rightarrow> u64
      \<Rightarrow> ProcessEventRaw \<Rightarrow> ProcessEventRaw" where
  "exec_event W U t cgid cred capabilities ppid comm path inode_num filename_ptr argv_ptr event =
     event\<lparr>er_payload := read_argv U argv_ptr ((er_payload event)
       \<lparr>pp_path := path, pp_ps_type := Execve, pp_pid := ucast (pt_pid_tgid t),
        pp_tgid := ucast (drop_bit 32 (pt_pid_tgid t)), pp_cgroup_id := cgid, pp_freq := 0,
        pp_inode := inode_num, pp_capabilities := capabilities, pp_ppid := ppid,
        pp_gid := cr_gid cred, pp_is_root := (cr_uid cred = 0), pp_parent_comm := comm,
        pp_filename := (if filename_ptr \<noteq> 0
           then read_into (um_str U filename_ptr) (pp_filename (er_payload event))
           else pp_filename (er_payload event))\<rparr>)\<rparr>"

definition handle_exec_common ::
    "'s ProcMaps \<Rightarrow> 's \<Rightarrow> World \<Rightarrow> UserMem \<Rightarrow> (u64 \<Rightarrow> bool) \<Rightarrow> Heap \<Rightarrow> ProcTask \<Rightarrow> u64 \<Rightarrow> u64 \<Rightarrow> 's \<times> (int + int)" where
  "handle_exec_common M s W U cgroup_exists h t filename_ptr argv_ptr =
     (let fail = (s, Inl 1) in
      case (pt_cgroup_id t, pt_parent t, pt_cred t) of
        (Some cgid, Some (Some ppid, parent_comm), Some cred) \<Rightarrow>
          (case cr_cap_effective cred of
             None \<Rightarrow> fail
           | Some capabilities \<Rightarrow>
               if \<not> cgroup_exists cgid then (s, Inr 0)
               else case alloc_init h of
                   (h, Inl e) \<Rightarrow> fail
                 | (h, Inr _) \<Rightarrow>
                     (case alloc_zero h SIZE_OF_PROCESS_EVENT of
                        (h, Inl e) \<Rightarrow> fail
                      | (h, Inr _) \<Rightarrow>
                          (case event_init W zeroed_process_event EvExecve (pt_now t) (pt_task t) (pt_parent_task t) of
                             (event, Inl e) \<Rightarrow> fail
                           | (event, Inr _) \<Rightarrow>
                               (case (resolve_exe W t (pp_path (er_payload event)), parent_comm) of
                                  ((path, Inr inode_num), Some comm) \<Rightarrow>
                                    (lru_insert (EXEC_STATE M) s (pt_pid_tgid t)
                                       (exec_event W U t cgid cred capabilities ppid comm path inode_num
                                          filename_ptr argv_ptr event), Inr 0)
                                | _ \<Rightarrow> fail))))
      | _ \<Rightarrow> fail)"

text \<open>\<open>args\<close> are the words at offsets 16 and 24 of the context, if they can be read.\<close>

definition try_execve_tracepoint where
  "try_execve_tracepoint M s W U cgroup_exists h t args =
     (case args of
        (Some filename_ptr, Some argv_ptr) \<Rightarrow>
          handle_exec_common M s W U cgroup_exists h t filename_ptr argv_ptr
      | _ \<Rightarrow> (s, Inl 1))"

definition execve_tracepoint where
  "execve_tracepoint M s W U cgroup_exists h t args =
     (case try_execve_tracepoint M s W U cgroup_exists h t args of (s, r) \<Rightarrow> (s, either_code r))"

text \<open>After a successful exec the path and inode of the new executable replace those of the caller.\<close>

definition exec_outcome :: "World \<Rightarrow> ProcTask \<Rightarrow> u64 option \<Rightarrow> ProcessPayload \<Rightarrow> ProcessPayload" where
  "exec_outcome W t retval p =
     (let retval = (case retval of Some v \<Rightarrow> v | None \<Rightarrow> -1);
          p = p\<lparr>pp_retval := ucast retval\<rparr>
      in if retval = 0 then
           (case pt_exe t of
              None \<Rightarrow> p
            | Some exe_file \<Rightarrow>
                (let p = p\<lparr>pp_path := fst (core_resolve_file (w_fs W) (reset (pp_path p))
                           (xf_path exe_file) MAX_PATH_DEPTH)\<rparr>
                 in case xf_ino exe_file of
                      Some (Some ino) \<Rightarrow> p\<lparr>pp_inode := ino\<rparr>
                    | _ \<Rightarrow> p))
         else p)"

definition handle_exit_exec_common ::
    "'s ProcMaps \<Rightarrow> 's \<Rightarrow> World \<Rightarrow> Heap \<Rightarrow> ProcTask \<Rightarrow> u64 option \<Rightarrow> 's \<times> ProcessEventRaw list \<times> (int + int)" where
  "handle_exit_exec_common M s W h t retval =
     (case lru_get (EXEC_STATE M) s (pt_pid_tgid t) of
        None \<Rightarrow> (s, [], Inr 1)
      | Some pending_exec \<Rightarrow>
          (let pending_exec = pending_exec\<lparr>er_payload := exec_outcome W t retval (er_payload pending_exec)\<rparr>;
               p = er_payload pending_exec;
               s = lru_insert (EXEC_STATE M) s (pt_pid_tgid t) pending_exec
           in case alloc_init h of
                (h, Inl e) \<Rightarrow> (s, [], Inl 1)
              | (h, Inr _) \<Rightarrow>
                  (case alloc_zero h SIZE_OF_PROCESS_IDENTITY of
                     (h, Inl e) \<Rightarrow> (s, [], Inl 1)
                   | (h, Inr _) \<Rightarrow>
                       (case deduplicate_and_send M s pending_exec
                            \<lparr>pd_ps_type = ps_type_u8 (pp_ps_type p), pd_filename = pp_filename p,
                             pd_argv = pp_argv p\<rparr> of
                          (s, out) \<Rightarrow> (lru_remove (EXEC_STATE M) s (pt_pid_tgid t), out, Inr 0)))))"

text \<open>The return value must be readable before anything else happens, and is read again later.\<close>

definition try_exit_execve_tracepoint where
  "try_exit_execve_tracepoint M s W h t retval =
     (case retval of
        None \<Rightarrow> (s, [], Inl 1)
      | Some _ \<Rightarrow> handle_exit_exec_common M s W h t retval)"

definition exit_execve_tracepoint where
  "exit_execve_tracepoint M s W h t retval =
     (case try_exit_execve_tracepoint M s W h t retval of (s, out, r) \<Rightarrow> (s, out, either_code r))"

section \<open>The redaction hides what it should\<close>

text \<open>What a reader of a buffer sees: the bytes before the first NUL.\<close>

definition cstr :: "string \<Rightarrow> string" where
  "cstr bs = takeWhile (\<lambda>c. c \<noteq> nul) bs"

text \<open>
  The specification, on the arguments themselves: how many arguments after a flag are secret, and the
  list that may be reported, where \<open>n\<close> secrets are still to be hidden. Only 127 bytes of an argument
  fit a buffer.
\<close>

definition flag_args :: "string \<Rightarrow> nat" where
  "flag_args a =
     (if prefix ''--encrypt'' a then 2
      else if list_ex (\<lambda>p. prefix p a) [''--pass'', ''--secret'', ''--key'', ''--token''] then 1
      else 0)"

fun redacted :: "nat \<Rightarrow> string list \<Rightarrow> string list" where
  "redacted n [] = []"
| "redacted (Suc n) (a # as) = ''[REDACTED]'' # redacted n as"
| "redacted 0 (a # as) = take (MAX_ARG_LEN - 1) a # redacted (flag_args a) as"

fun args_at :: "UserMem \<Rightarrow> u64 \<Rightarrow> nat \<Rightarrow> string list \<Rightarrow> bool" where
  "args_at U argv i [] =
     (um_ptr U (argv + of_nat (8 * i)) = None \<or> um_ptr U (argv + of_nat (8 * i)) = Some 0)"
| "args_at U argv i (a # as) =
     ((\<exists>p. um_ptr U (argv + of_nat (8 * i)) = Some p \<and> p \<noteq> 0 \<and> um_str U p = Some a)
      \<and> nul \<notin> set a \<and> args_at U argv (i + 1) as)"

lemma cstr_append_nul: "nul \<notin> set t \<Longrightarrow> cstr (t @ nul # xs) = t"
  unfolding cstr_def by (induction t) auto

lemma read_into_length: "buf \<noteq> [] \<Longrightarrow> length (read_into src buf) = length buf"
  by (cases buf) (auto simp: read_into_def read_str_def min_def split: option.split intro!: length_write_at)

lemma read_into_cstr:
  assumes "nul \<notin> set a" and "buf \<noteq> []"
  shows "cstr (read_into (Some a) buf) = take (length buf - 1) a"
proof -
  have tw: "takeWhile (\<lambda>c. c \<noteq> nul) a = a" using assms(1) by (induction a) auto
  have "nul \<notin> set (take (length buf - 1) a)" using assms(1) by (meson in_set_takeD)
  then show ?thesis
    using assms(2) by (simp add: read_into_def read_str_def tw write_at_def cstr_append_nul)
qed

lemma read_into_Some:
  assumes "nul \<notin> set a" and "length buf = MAX_ARG_LEN"
  shows "cstr (read_into (Some a) buf) = take (MAX_ARG_LEN - 1) a"
    "length (read_into (Some a) buf) = MAX_ARG_LEN"
proof -
  have "buf \<noteq> []" using assms(2) by (auto simp: MAX_ARG_LEN_def)
  then show "cstr (read_into (Some a) buf) = take (MAX_ARG_LEN - 1) a" "length (read_into (Some a) buf) = MAX_ARG_LEN"
    using read_into_cstr [OF assms(1)] read_into_length assms(2) by auto
qed

lemma redact_arg_facts:
  "length arg = MAX_ARG_LEN \<Longrightarrow> cstr (redact_arg arg) = ''[REDACTED]'' \<and> length (redact_arg arg) = MAX_ARG_LEN"
  by (simp add: redact_arg_def write_at_def MAX_ARG_LEN_def cstr_def nul_def)

lemma prefix_iff_take: "prefix p s \<longleftrightarrow> take (length p) s = p"
  by (metis append_eq_conv_conj prefix_def take_is_prefix)

lemma prefix_iff_nth:
  assumes "length p \<le> length s"
  shows "list_all (\<lambda>i. s ! i = p ! i) [0..<length p] \<longleftrightarrow> prefix p s"
proof -
  have "take (length p) s = p \<longleftrightarrow> (\<forall>i < length p. s ! i = p ! i)"
    using assms by (subst list_eq_iff_nth_eq) simp
  then show ?thesis by (auto simp: prefix_iff_take list_all_iff)
qed

lemma matches_long_flag_prefix: "matches_long_flag arg pat \<longleftrightarrow> prefix (''--'' @ pat) arg"
proof (cases "length pat + 2 \<le> length arg")
  case True
  then obtain a b cs where arg: "arg = a # b # cs" "length pat \<le> length cs"
    by (cases arg; cases "tl arg") auto
  then show ?thesis
    using prefix_iff_nth [OF arg(2)]
    by (auto simp: matches_long_flag_def is_long_flag_def Let_def)
next
  case False
  then show ?thesis using prefix_length_le [of "''--'' @ pat" arg] by (auto simp: matches_long_flag_def)
qed

lemma prefix_cstr: "nul \<notin> set p \<Longrightarrow> prefix p (cstr s) \<longleftrightarrow> prefix p s"
  unfolding cstr_def
proof (induction p arbitrary: s)
  case (Cons c p)
  then show ?case by (cases s) auto
qed simp

lemma prefix_take: "length p \<le> n \<Longrightarrow> prefix p (take n s) \<longleftrightarrow> prefix p s"
  by (simp add: prefix_iff_take min_def)

lemma check_sensitive_flag_spec:
  assumes "length arg = MAX_ARG_LEN" and "cstr arg = take (MAX_ARG_LEN - 1) a"
  shows "unat (check_sensitive_flag arg) = flag_args a"
proof -
  have p: "prefix (''--'' @ pat) arg \<longleftrightarrow> prefix (''--'' @ pat) a"
    if "nul \<notin> set pat" "length pat \<le> 100" for pat
    using prefix_cstr [of "''--'' @ pat" arg] prefix_take [of "''--'' @ pat" "MAX_ARG_LEN - 1" a] that
    by (simp add: assms(2) MAX_ARG_LEN_def nul_def)
  note flags = p [of "''encrypt''"] p [of "''pass''"] p [of "''secret''"] p [of "''key''"] p [of "''token''"]
  show ?thesis
    using flags assms(1)
    by (simp add: check_sensitive_flag_def is_encrypt_flag_def is_password_flag_def is_secret_flag_def
        is_key_flag_def is_token_flag_def is_short_password_flag_def matches_short_flag_def
        matches_long_flag_prefix flag_args_def MAX_ARG_LEN_def nul_def)
qed

lemma argv_loop_redacts:
  assumes "args_at U argv i args" and "i + n = MAX_ARGS" and "length bufs = MAX_ARGS"
    and "\<forall>b \<in> set bufs. length b = MAX_ARG_LEN"
    and "argv_loop U argv n i rc (bufs, argc) = (bufs', argc')"
  shows "argc' = argc + of_nat (min n (length args)) \<and> take i bufs' = take i bufs
    \<and> map cstr (take (min n (length args)) (drop i bufs')) = take n (redacted (unat rc) args)"
  using assms
proof (induction args arbitrary: n i rc bufs argc)
  case Nil
  then show ?case by (cases n) auto
next
  case (Cons a args)
  show ?case
  proof (cases n)
    case 0
    with Cons.prems show ?thesis by simp
  next
    case (Suc m)
    obtain p where p: "um_ptr U (argv + of_nat (8 * i)) = Some p" "p \<noteq> 0" "um_str U p = Some a"
      and a: "nul \<notin> set a" and rest: "args_at U argv (i + 1) args"
      using Cons.prems(1) by auto
    have i: "i < length bufs" using Suc Cons.prems(2,3) by simp
    define arg where "arg = read_into (Some a) (bufs ! i)"
    define x where "x = (if rc > 0 then redact_arg arg else arg)"
    define rc' where "rc' = (if rc > 0 then rc - 1 else check_sensitive_flag arg)"
    have "length (bufs ! i) = MAX_ARG_LEN" using i Cons.prems(4) by simp
    note arg = read_into_Some [OF a this, folded arg_def]
    have x: "length x = MAX_ARG_LEN" using arg(2) redact_arg_facts by (simp add: x_def)
    have step: "argv_loop U argv m (i + 1) rc' (bufs[i := x], argc + 1) = (bufs', argc')"
      using Cons.prems(5) p by (simp add: Suc Let_def arg_def [symmetric] x_def rc'_def split: if_splits)
    have bufs: "\<forall>b \<in> set (bufs[i := x]). length b = MAX_ARG_LEN"
      using x Cons.prems(4) set_update_subset_insert [of bufs i x] by auto
    have IH: "argc' = argc + 1 + of_nat (min m (length args))"
      "take (i + 1) bufs' = take (i + 1) (bufs[i := x])"
      "map cstr (take (min m (length args)) (drop (i + 1) bufs')) = take m (redacted (unat rc') args)"
      using Cons.IH [OF rest _ _ bufs step] Suc Cons.prems(2,3) by auto
    have eq: "take (i + 1) bufs' = take i bufs @ [x]"
      unfolding IH(2) using i by (simp add: take_Suc_conv_app_nth)
    have "length (take (i + 1) bufs') = i + 1" unfolding eq using i by simp
    then have i': "i < length bufs'" by simp
    have nth: "bufs' ! i = x"
    proof -
      have "bufs' ! i = take (i + 1) bufs' ! i" by simp
      also have "\<dots> = x" unfolding eq using i by (simp add: nth_append)
      finally show ?thesis .
    qed
    have tk: "take i bufs' = take i bufs"
    proof -
      have "take i bufs' = take i (take (i + 1) bufs')" by (simp add: min_def)
      also have "\<dots> = take i bufs" unfolding eq using i by simp
      finally show ?thesis .
    qed
    have rc: "redacted (unat rc) (a # args) = cstr x # redacted (unat rc') args"
    proof (cases "rc > 0")
      case True
      then obtain k where k: "unat rc = Suc k"
        by (metis gr0_conv_Suc unat_gt_0 word_neq_0_conv)
      have "rc \<noteq> 0" using True by auto
      then have "unat (rc - 1) = k" using k by (simp add: unat_minus_one)
      then show ?thesis using True k arg(2) redact_arg_facts by (simp add: x_def rc'_def)
    next
      case False
      then have "rc = 0" using word_neq_0_conv by blast
      then show ?thesis using arg check_sensitive_flag_spec [OF arg(2,1)] by (simp add: x_def rc'_def)
    qed
    have "drop i bufs' = x # drop (i + 1) bufs'"
      using i' nth by (metis Cons_nth_drop_Suc Suc_eq_plus1)
    then show ?thesis using IH(1,3) tk rc by (simp add: Suc)
  qed
qed

lemma read_argv_redacts:
  assumes "args_at U argv_ptr 0 args" and "argv_ptr \<noteq> 0"
    and "pp_argv p = replicate MAX_ARGS (replicate MAX_ARG_LEN nul)"
  shows "map cstr (take (unat (pp_argc (read_argv U argv_ptr p))) (pp_argv (read_argv U argv_ptr p)))
      = take MAX_ARGS (redacted 0 args)
    \<and> unat (pp_argc (read_argv U argv_ptr p)) = min MAX_ARGS (length args)"
proof -
  obtain bufs argc where l: "argv_loop U argv_ptr MAX_ARGS 0 0 (pp_argv p, 0) = (bufs, argc)"
    by (cases "argv_loop U argv_ptr MAX_ARGS 0 0 (pp_argv p, 0)")
  have "argc = of_nat (min MAX_ARGS (length args))"
    "map cstr (take (min MAX_ARGS (length args)) bufs) = take MAX_ARGS (redacted 0 args)"
    using argv_loop_redacts [OF assms(1) _ _ _ l] assms(3) by auto
  moreover from this(1) have "unat argc = min MAX_ARGS (length args)"
    by (simp add: unat_of_nat MAX_ARGS_def min_def take_bit_nat_eq_self)
  ultimately show ?thesis using l assms(2) by (simp add: read_argv_def Let_def)
qed


definition sample_args :: "string list" where
  "sample_args = [''qpdf'', ''--password=x'', ''hunter2'', ''in.pdf'']"

definition sample_user_mem :: UserMem where
  "sample_user_mem = \<lparr>um_ptr = (\<lambda>a. Some (if a = 64 then 1 else if a = 72 then 2 else if a = 80 then 3
       else if a = 88 then 4 else 0)),
     um_str = (\<lambda>p. Some (if p = 1 then ''qpdf'' else if p = 2 then ''--password=x''
       else if p = 3 then ''hunter2'' else ''in.pdf''))\<rparr>"


text \<open>
  Hidden from a reader, but not gone: the bytes of a secret from the twelfth on stay in the raw event
  and in the key of the deduplication.
\<close>

lemma redact_arg_leaves_tail: "drop 11 (redact_arg arg) = drop 11 arg"
  by (simp add: redact_arg_def write_at_def numeral_eq_Suc)

text \<open>The short flags are never recognized, because the whole buffer is compared.\<close>

lemma short_flag_never: "length arg = MAX_ARG_LEN \<Longrightarrow> \<not> is_short_password_flag arg"
  by (simp add: is_short_password_flag_def matches_short_flag_def MAX_ARG_LEN_def)

section \<open>Deduplication of process events\<close>

text \<open>The identity of a fork event is the same for all forks, so only the first one is reported.\<close>

lemma fork_after_fork:
  assumes "lru_law others (PROCESS_EVENT_DEDUP M)"
    and "lru_get (PROCESS_EVENT_DEDUP M) s (zeroed_identity\<lparr>pd_ps_type := ps_type_u8 Fork\<rparr>) \<noteq> None"
  shows "fst (snd (try_fork_tracepoint M s W cgroup_exists h t)) = []"
proof -
  have "snd (deduplicate_and_send M s e (zeroed_identity\<lparr>pd_ps_type := ps_type_u8 Fork\<rparr>)) = []" for e
    using lru_insert_new_ok(1) [OF assms(1)] assms(2)
    by (simp add: deduplicate_and_send_def case_prod_unfold)
  then show ?thesis
    by (simp add: try_fork_tracepoint_def Let_def case_prod_unfold split: option.splits sum.splits)
qed

end
