(* ===== verification/FsMon.thy ===== *)
theory FsMon
  imports KernelMaps Modules Alloc Classify
begin

text \<open>
  The file monitor, \<open>ebpf-mon-ebpf/src/filesystem.rs\<close> with the payload of \<open>ebpf-mon-common/src/fs.rs\<close>: the
  program at the exit of \<open>vfs_open\<close>, the pairs of programs around the read and write functions, and the
  one that notes a followed symbolic link.

  The kernel's files and inodes are reached through CO-RE reads by their addresses: the parameter
  \<open>FsKernel\<close>, with \<open>None\<close> for a read that fails. The maps are the operations of \<open>FsMaps\<close> over an abstract
  state; the locale \<open>fs_maps\<close> states their laws, and \<open>lru_fs\<close>, tables with the capacities of the source,
  interprets it.
\<close>

section \<open>Payload and maps\<close>

record FsPayload =
  fp_path :: Path
  fp_pid :: u32
  fp_tgid :: u32
  fp_sym_path :: Path
  fp_inode :: u64
  fp_owner_uid :: u32
  fp_r_w :: u8
  fp_is_symlink :: u8
  fp_path_pattern :: PathPattern
  fp_is_sensitive :: u8
  fp_is_cross_process :: u8
  fp_freq :: u32

type_synonym FsEventRaw = "FsPayload EventRaw"

definition zeroed_fs_event :: FsEventRaw where
  "zeroed_fs_event = \<lparr>er_header = zeroed_event_info,
     er_payload = \<lparr>fp_path = default_path, fp_pid = 0, fp_tgid = 0, fp_sym_path = default_path,
       fp_inode = 0, fp_owner_uid = 0, fp_r_w = 0, fp_is_symlink = 0, fp_path_pattern = Regular,
       fp_is_sensitive = 0, fp_is_cross_process = 0, fp_freq = 0\<rparr>\<rparr>"

record FsIdentity =
  fi_path :: string
  fi_r_w :: u8
  fi_is_symlink :: u8
  fi_path_pattern :: PathPattern

record FsPatternIdentity =
  fq_path_pattern :: PathPattern
  fq_r_w :: u8
  fq_is_cross_process :: u8

record InodeDedupKey =
  ik_inode :: u64
  ik_r_w :: u8

record 's FsMaps =
  FS_EVENT_DEDUP :: "('s, FsIdentity, u8) LruOps"
  FS_PATTERN_DEDUP :: "('s, FsPatternIdentity, u8) LruOps"
  INODE_DEDUP :: "('s, InodeDedupKey, u8) LruOps"
  VFS_STATE :: "('s, u64, u64) MapOps"
  SYMLINK_MAP :: "('s, u64, u64) MapOps"

definition deduplicate_and_send ::
    "'s FsMaps \<Rightarrow> 's \<Rightarrow> FsEventRaw \<Rightarrow> FsIdentity \<Rightarrow> bool \<Rightarrow> 's \<times> FsEventRaw list" where
  "deduplicate_and_send M s event identity is_sensitive =
     (if fi_path_pattern identity \<noteq> Regular \<and> \<not> is_sensitive then
        (case lru_insert_new (FS_PATTERN_DEDUP M) s
             \<lparr>fq_path_pattern = fi_path_pattern identity, fq_r_w = fp_r_w (er_payload event),
              fq_is_cross_process = 0\<rparr> 1 of
           (s, ok) \<Rightarrow> (s, if ok then [event] else []))
      else
        (case lru_insert_new (FS_EVENT_DEDUP M) s identity 1 of
           (s, ok) \<Rightarrow> (s, if ok then [event] else [])))"

section \<open>Files and inodes\<close>

definition S_IFMT :: u16 where "S_IFMT = 0xF000"
definition S_IFREG :: u16 where "S_IFREG = 0x8000"
definition S_IFSOCK :: u16 where "S_IFSOCK = 0xC000"
definition S_IFBLK :: u16 where "S_IFBLK = 0x6000"
definition S_IFIFO :: u16 where "S_IFIFO = 0x1000"
definition S_IFLNK :: u16 where "S_IFLNK = 0xA000"

text \<open>
  \<open>fk_f_path\<close>: the path of a file, if the read succeeds and the pointer is not null, with dentry and
  mount.
\<close>

record FsKernel =
  fk_world :: World
  fk_i_mode :: "u64 \<Rightarrow> u16 option"
  fk_i_ino :: "u64 \<Rightarrow> u64 option"
  fk_f_inode :: "u64 \<Rightarrow> u64 option"
  fk_f_path :: "u64 \<Rightarrow> (u64 option \<times> u64 option) option option"

definition inode_is :: "FsKernel \<Rightarrow> u16 \<Rightarrow> u64 \<Rightarrow> bool option" where
  "inode_is F fmt i = map_option (\<lambda>m. m AND S_IFMT = fmt) (fk_i_mode F i)"

definition inode_is_symlink :: "FsKernel \<Rightarrow> u64 \<Rightarrow> bool option" where
  "inode_is_symlink F i = inode_is F S_IFLNK i"

text \<open>Of a file: \<open>is_file\<close>, \<open>is_sock\<close>, \<open>is_blk\<close> and \<open>is_pipe\<close>, and the default \<open>false\<close> of the callers.\<close>

definition file_is :: "FsKernel \<Rightarrow> u16 \<Rightarrow> u64 \<Rightarrow> bool option" where
  "file_is F fmt f = Option.bind (fk_f_inode F f) (inode_is F fmt)"

definition is_file :: "FsKernel \<Rightarrow> u64 \<Rightarrow> bool option" where "is_file F f = file_is F S_IFREG f"
definition is_sock :: "FsKernel \<Rightarrow> u64 \<Rightarrow> bool option" where "is_sock F f = file_is F S_IFSOCK f"
definition is_blk :: "FsKernel \<Rightarrow> u64 \<Rightarrow> bool option" where "is_blk F f = file_is F S_IFBLK f"
definition is_pipe :: "FsKernel \<Rightarrow> u64 \<Rightarrow> bool option" where "is_pipe F f = file_is F S_IFIFO f"

text \<open>The file as \<open>core_resolve_file\<close> sees it.\<close>

definition file_at :: "FsKernel \<Rightarrow> u64 \<Rightarrow> (u64 option \<times> u64 option) option option option" where
  "file_at F f = (if f = 0 then None else Some (fk_f_path F f))"

section \<open>The programs\<close>

text \<open>\<open>ft_cred\<close> is the user id in the credentials, \<open>ft_root_mnt\<close> the mount of the task's root.\<close>

record FsTask =
  ft_cgroup_id :: "u64 option"
  ft_pid_tgid :: u64
  ft_cred :: "u32 option"
  ft_ns_tgid :: "u32 option"
  ft_task :: "KTask option"
  ft_parent_task :: "KTask option"
  ft_root_mnt :: "u64 option"
  ft_now :: u64

definition task_pid :: "FsTask \<Rightarrow> u32" where "task_pid t = ucast (ft_pid_tgid t)"
definition task_tgid :: "FsTask \<Rightarrow> u32" where "task_tgid t = ucast (drop_bit 32 (ft_pid_tgid t))"

definition SIZE_OF_FS_EVENT :: nat where "SIZE_OF_FS_EVENT = 8704"
definition SIZE_OF_FS_IDENTITY :: nat where "SIZE_OF_FS_IDENTITY = 1027"

type_synonym 's FsResult = "'s \<times> FsEventRaw list \<times> (u32 + u32)"

text \<open>A dentry of a followed link; a file that is no link is only logged.\<close>

definition check_security_inode_follow_link ::
    "'s FsMaps \<Rightarrow> 's \<Rightarrow> FsKernel \<Rightarrow> (u64 \<Rightarrow> bool) \<Rightarrow> FsTask \<Rightarrow> u64 \<Rightarrow> 's \<times> (u32 + u32)" where
  "check_security_inode_follow_link M s F cgroup_exists t dentry =
     (case ft_cgroup_id t of
        None \<Rightarrow> (s, Inl 1)
      | Some cgid \<Rightarrow>
          if \<not> cgroup_exists cgid then (s, Inr 0)
          else case k_d_inode (w_fs (fk_world F)) dentry of
              None \<Rightarrow> (s, Inl 1)
            | Some inode \<Rightarrow>
                (case inode_is_symlink F inode of
                   None \<Rightarrow> (s, Inl 1)
                 | Some True \<Rightarrow> (fst (mo_insert (SYMLINK_MAP M) s (ft_pid_tgid t) dentry), Inr 0)
                 | Some False \<Rightarrow> (s, Inr 0)))"

text \<open>The end of both event programs: the identity, the class of the path, and the deduplication.\<close>

definition classify_and_send :: "'s FsMaps \<Rightarrow> 's \<Rightarrow> Heap \<Rightarrow> FsTask \<Rightarrow> FsEventRaw \<Rightarrow> 's FsResult" where
  "classify_and_send M s h t event =
     (case ft_cred t of
        None \<Rightarrow> (s, [], Inl 1)
      | Some uid \<Rightarrow>
          (case alloc_zero h SIZE_OF_FS_IDENTITY of
             (h, Inl e) \<Rightarrow> (s, [], Inl 1)
           | (h, Inr _) \<Rightarrow>
               (let p = er_payload event;
                    ns_tgid = (case ft_ns_tgid t of Some n \<Rightarrow> n | None \<Rightarrow> task_tgid t)
                in case classify_path (to_classify_buffer (fp_path p)) ns_tgid of
                     (pattern, sensitive, cross_process) \<Rightarrow>
                       (let event = event\<lparr>er_payload := p\<lparr>fp_owner_uid := uid, fp_path_pattern := pattern,
                              fp_is_sensitive := (if sensitive then 1 else 0),
                              fp_is_cross_process := (if cross_process then 1 else 0)\<rparr>\<rparr>;
                            identity = \<lparr>fi_path = p_buffer (fp_path p), fi_r_w = fp_r_w p,
                              fi_is_symlink = fp_is_symlink p, fi_path_pattern = pattern\<rparr>
                        in case deduplicate_and_send M s event identity sensitive of
                             (s, out) \<Rightarrow> (s, out, Inr 0)))))"

text \<open>The event with the fields that need no further reads, and the path of the file.\<close>

definition access_event :: "FsKernel \<Rightarrow> FsTask \<Rightarrow> u64 \<Rightarrow> u8 \<Rightarrow> FsEventRaw \<Rightarrow> FsEventRaw" where
  "access_event F t f r_w event =
     event\<lparr>er_payload := (er_payload event)\<lparr>fp_pid := task_pid t, fp_tgid := task_tgid t,
       fp_r_w := r_w, fp_freq := 1,
       fp_path := fst (core_resolve_file (w_fs (fk_world F)) (fp_path (er_payload event)) (file_at F f)
         MAX_PATH_DEPTH)\<rparr>\<rparr>"

definition process_vfs_open ::
    "'s FsMaps \<Rightarrow> 's \<Rightarrow> FsKernel \<Rightarrow> (u64 \<Rightarrow> bool) \<Rightarrow> Heap \<Rightarrow> FsTask \<Rightarrow> u32 \<Rightarrow> u64 \<Rightarrow> 's FsResult" where
  "process_vfs_open M s F cgroup_exists h t retval f =
     (if retval \<noteq> 0 then (s, [], Inr 0)
      else case ft_cgroup_id t of
        None \<Rightarrow> (s, [], Inl 1)
      | Some cgid \<Rightarrow>
          if \<not> cgroup_exists cgid then (s, [], Inr 0)
          else if is_sock F f = Some True \<or> is_pipe F f = Some True then (s, [], Inr 0)
          else case alloc_init h of
              (h, Inl e) \<Rightarrow> (s, [], Inl e)
            | (h, Inr _) \<Rightarrow>
                (case alloc_zero h SIZE_OF_FS_EVENT of
                   (h, Inl e) \<Rightarrow> (s, [], Inl 1)
                 | (h, Inr _) \<Rightarrow>
                     (case event_init (fk_world F) zeroed_fs_event EvFileRead (ft_now t) (ft_task t)
                             (ft_parent_task t) of
                        (event, Inl e) \<Rightarrow> (s, [], Inl 1)
                      | (event, Inr _) \<Rightarrow>
                          (case Option.bind (fk_f_inode F f) (fk_i_ino F) of
                             None \<Rightarrow> (s, [], Inl 1)
                           | Some ino \<Rightarrow>
                               (let event = access_event F t f 0 event
                                in classify_and_send M s h t
                                     (event\<lparr>er_payload := (er_payload event)\<lparr>fp_inode := ino\<rparr>\<rparr>))))))"

definition process_vfs_fentry ::
    "'s FsMaps \<Rightarrow> 's \<Rightarrow> FsKernel \<Rightarrow> (u64 \<Rightarrow> bool) \<Rightarrow> FsTask \<Rightarrow> u64 \<Rightarrow> 's \<times> (u32 + u32)" where
  "process_vfs_fentry M s F cgroup_exists t f =
     (case ft_cgroup_id t of
        None \<Rightarrow> (s, Inl 1)
      | Some cgid \<Rightarrow>
          if \<not> cgroup_exists cgid then (s, Inr 0)
          else if is_pipe F f = Some True \<or> (is_file F f \<noteq> Some True \<and> is_blk F f \<noteq> Some True)
              \<or> is_sock F f = Some True
          then (s, Inr 0)
          else (fst (mo_insert (VFS_STATE M) s (ft_pid_tgid t) f), Inr 0))"

text \<open>Whether an access goes on to the slow path: a repeated one of an inode does not.\<close>

definition first_sighting :: "'s FsMaps \<Rightarrow> 's \<Rightarrow> FsKernel \<Rightarrow> u64 \<Rightarrow> u64 \<Rightarrow> u8 \<Rightarrow> 's \<times> bool" where
  "first_sighting M s F pid_tgid f r_w =
     (if mo_get (SYMLINK_MAP M) s pid_tgid \<noteq> None then (s, True)
      else case fk_f_inode F f of
          None \<Rightarrow> (s, True)
        | Some inode \<Rightarrow> lru_insert_new (INODE_DEDUP M) s \<lparr>ik_inode = inode, ik_r_w = r_w\<rparr> 1)"

text \<open>The followed link, if there is one, and the inode number.\<close>

definition link_and_inode ::
    "FsKernel \<Rightarrow> FsTask \<Rightarrow> u64 option \<Rightarrow> u64 \<Rightarrow> FsPayload \<Rightarrow> FsPayload option" where
  "link_and_inode F t symlink f p =
     (case symlink of
        Some dentry \<Rightarrow>
          map_option (\<lambda>ino. p\<lparr>fp_is_symlink := 1, fp_inode := ino,
              fp_sym_path := fst (resolve_from_dentry (w_fs (fk_world F)) (fp_sym_path p) dentry
                (ft_root_mnt t) MAX_PATH_DEPTH)\<rparr>)
            (Option.bind (k_d_inode (w_fs (fk_world F)) dentry) (fk_i_ino F))
      | None \<Rightarrow>
          map_option (\<lambda>ino. p\<lparr>fp_is_symlink := 0, fp_inode := ino\<rparr>)
            (Option.bind (fk_f_inode F f) (fk_i_ino F)))"

definition process_vfs_fexit ::
    "'s FsMaps \<Rightarrow> 's \<Rightarrow> FsKernel \<Rightarrow> Heap \<Rightarrow> FsTask \<Rightarrow> FileOperation \<Rightarrow> 's FsResult" where
  "process_vfs_fexit M s F h t f_op =
     (case mo_get (VFS_STATE M) s (ft_pid_tgid t) of
        None \<Rightarrow> (s, [], Inl 1)
      | Some f \<Rightarrow>
          if f = 0 then (s, [], Inr 1)
          else
            let s = fst (mo_remove (VFS_STATE M) s (ft_pid_tgid t));
                r_w = (if f_op = WRITE then 1 else 0)
            in case first_sighting M s F (ft_pid_tgid t) f r_w of
                 (s, False) \<Rightarrow> (s, [], Inr 0)
               | (s, True) \<Rightarrow>
                   (case fk_f_path F f of
                      None \<Rightarrow> (s, [], Inl 1)
                    | Some None \<Rightarrow> (s, [], Inr 1)
                    | Some (Some _) \<Rightarrow>
                        (case alloc_init h of
                           (h, Inl e) \<Rightarrow> (s, [], Inl e)
                         | (h, Inr _) \<Rightarrow>
                             (case alloc_zero h SIZE_OF_FS_EVENT of
                                (h, Inl e) \<Rightarrow> (s, [], Inl 1)
                              | (h, Inr _) \<Rightarrow>
                                  (case event_init (fk_world F) zeroed_fs_event
                                          (if f_op = WRITE then EvFileWrite else EvFileRead) (ft_now t)
                                          (ft_task t) (ft_parent_task t) of
                                     (event, Inl e) \<Rightarrow> (s, [], Inl 1)
                                   | (event, Inr _) \<Rightarrow>
                                       (let event = access_event F t f r_w event in
                                        case link_and_inode F t (mo_get (SYMLINK_MAP M) s (ft_pid_tgid t)) f
                                               (er_payload event) of
                                          None \<Rightarrow> (s, [], Inl 1)
                                        | Some p \<Rightarrow>
                                            classify_and_send M (fst (mo_remove (SYMLINK_MAP M) s (ft_pid_tgid t)))
                                              h t (event\<lparr>er_payload := p\<rparr>)))))))"

text \<open>\<open>unwrap_or(0)\<close>, with which the programs without a result of their own end.\<close>

definition or_zero :: "u32 + u32 \<Rightarrow> u32" where
  "or_zero r = (case r of Inl e \<Rightarrow> 0 | Inr v \<Rightarrow> v)"

definition check_symlink where
  "check_symlink M s F cgroup_exists t dentry =
     (case check_security_inode_follow_link M s F cgroup_exists t dentry of (s, r) \<Rightarrow> (s, or_zero r))"

definition vfs_open_fexit where
  "vfs_open_fexit M s F cgroup_exists h t retval f =
     (case process_vfs_open M s F cgroup_exists h t retval f of (s, out, r) \<Rightarrow> (s, out, or_zero r))"

definition vfs_fentry where
  "vfs_fentry M s F cgroup_exists t f =
     (case process_vfs_fentry M s F cgroup_exists t f of (s, r) \<Rightarrow> (s, or_zero r))"

definition vfs_read_fexit where
  "vfs_read_fexit M s F h t = process_vfs_fexit M s F h t READ"

definition vfs_write_fexit where
  "vfs_write_fexit M s F h t = process_vfs_fexit M s F h t WRITE"

section \<open>The laws of the maps\<close>

record FsView =
  v_events :: "FsIdentity \<Rightarrow> u8 option"
  v_patterns :: "FsPatternIdentity \<Rightarrow> u8 option"
  v_inodes :: "InodeDedupKey \<Rightarrow> u8 option"
  v_vfs :: "u64 \<Rightarrow> u64 option"
  v_symlinks :: "u64 \<Rightarrow> u64 option"

definition fs_view :: "'s FsMaps \<Rightarrow> 's \<Rightarrow> FsView" where
  "fs_view M s = \<lparr>v_events = lru_get (FS_EVENT_DEDUP M) s, v_patterns = lru_get (FS_PATTERN_DEDUP M) s,
     v_inodes = lru_get (INODE_DEDUP M) s, v_vfs = mo_get (VFS_STATE M) s,
     v_symlinks = mo_get (SYMLINK_MAP M) s\<rparr>"

lemma fs_view_get [map_simps]:
  "lru_get (FS_EVENT_DEDUP M) s k1 = v_events (fs_view M s) k1"
  "lru_get (FS_PATTERN_DEDUP M) s k2 = v_patterns (fs_view M s) k2"
  "lru_get (INODE_DEDUP M) s k3 = v_inodes (fs_view M s) k3"
  "mo_get (VFS_STATE M) s k4 = v_vfs (fs_view M s) k4"
  "mo_get (SYMLINK_MAP M) s k5 = v_symlinks (fs_view M s) k5"
  by (simp_all add: fs_view_def)

definition fs_laws :: "'s FsMaps \<Rightarrow> bool" where
  "fs_laws M =
     (lru_law (\<lambda>s. (fs_view M s)\<lparr>v_events := Map.empty\<rparr>) (FS_EVENT_DEDUP M)
      \<and> lru_law (\<lambda>s. (fs_view M s)\<lparr>v_patterns := Map.empty\<rparr>) (FS_PATTERN_DEDUP M)
      \<and> lru_law (\<lambda>s. (fs_view M s)\<lparr>v_inodes := Map.empty\<rparr>) (INODE_DEDUP M)
      \<and> map_law (fs_view M) v_vfs_update (VFS_STATE M)
      \<and> map_law (fs_view M) v_symlinks_update (SYMLINK_MAP M))"

text \<open>What the deduplication of events keeps apart: whether an event counts as reported.\<close>

definition event_seen :: "FsView \<Rightarrow> FsEventRaw \<Rightarrow> bool" where
  "event_seen V event =
     (let p = er_payload event in
      if fp_path_pattern p \<noteq> Regular \<and> fp_is_sensitive p = 0 then
        v_patterns V \<lparr>fq_path_pattern = fp_path_pattern p, fq_r_w = fp_r_w p, fq_is_cross_process = 0\<rparr> \<noteq> None
      else
        v_events V \<lparr>fi_path = p_buffer (fp_path p), fi_r_w = fp_r_w p, fi_is_symlink = fp_is_symlink p,
          fi_path_pattern = fp_path_pattern p\<rparr> \<noteq> None)"

lemma FsView_rest:
  assumes "(V :: FsView)\<lparr>v_events := Map.empty\<rparr> = W\<lparr>v_events := Map.empty\<rparr>
    \<or> V\<lparr>v_patterns := Map.empty\<rparr> = W\<lparr>v_patterns := Map.empty\<rparr>"
  shows "v_inodes V = v_inodes W" "v_vfs V = v_vfs W" "v_symlinks V = v_symlinks W"
  using assms by (cases V; cases W; auto)+

locale fs_maps =
  fixes M :: "'s FsMaps"
  assumes laws: "fs_laws M"
begin

lemma events_new:
  assumes "lru_insert_new (FS_EVENT_DEDUP M) s k v = (s', ok)"
  shows "ok \<longleftrightarrow> v_events (fs_view M s) k = None" "v_events (fs_view M s') k \<noteq> None"
    "v_inodes (fs_view M s') = v_inodes (fs_view M s)" "v_symlinks (fs_view M s') = v_symlinks (fs_view M s)"
proof -
  have l: "lru_law (\<lambda>s. (fs_view M s)\<lparr>v_events := Map.empty\<rparr>) (FS_EVENT_DEDUP M)"
    using laws by (simp add: fs_laws_def)
  note ok = lru_insert_new_ok [OF l, of s k v, unfolded assms fst_conv snd_conv map_simps]
  show "ok \<longleftrightarrow> v_events (fs_view M s) k = None" by (rule ok(1))
  show "v_events (fs_view M s') k \<noteq> None" using ok(3,4) by (metis fs_view_get(1) option.distinct(1))
  show "v_inodes (fs_view M s') = v_inodes (fs_view M s)" "v_symlinks (fs_view M s') = v_symlinks (fs_view M s)"
    using FsView_rest [OF disjI1 [OF ok(2)]] by blast+
qed

lemma patterns_new:
  assumes "lru_insert_new (FS_PATTERN_DEDUP M) s k v = (s', ok)"
  shows "ok \<longleftrightarrow> v_patterns (fs_view M s) k = None" "v_patterns (fs_view M s') k \<noteq> None"
    "v_inodes (fs_view M s') = v_inodes (fs_view M s)" "v_symlinks (fs_view M s') = v_symlinks (fs_view M s)"
proof -
  have l: "lru_law (\<lambda>s. (fs_view M s)\<lparr>v_patterns := Map.empty\<rparr>) (FS_PATTERN_DEDUP M)"
    using laws by (simp add: fs_laws_def)
  note ok = lru_insert_new_ok [OF l, of s k v, unfolded assms fst_conv snd_conv map_simps]
  show "ok \<longleftrightarrow> v_patterns (fs_view M s) k = None" by (rule ok(1))
  show "v_patterns (fs_view M s') k \<noteq> None" using ok(3,4) by (metis fs_view_get(2) option.distinct(1))
  show "v_inodes (fs_view M s') = v_inodes (fs_view M s)" "v_symlinks (fs_view M s') = v_symlinks (fs_view M s)"
    using FsView_rest [OF disjI2 [OF ok(2)]] by blast+
qed

lemma inode_new:
  assumes "lru_insert_new (INODE_DEDUP M) s k v = (s', ok)"
  shows "ok \<longleftrightarrow> v_inodes (fs_view M s) k = None" "v_inodes (fs_view M s') k \<noteq> None"
    "v_events (fs_view M s') = v_events (fs_view M s)" "v_patterns (fs_view M s') = v_patterns (fs_view M s)"
    "v_vfs (fs_view M s') = v_vfs (fs_view M s)" "v_symlinks (fs_view M s') = v_symlinks (fs_view M s)"
proof -
  have l: "lru_law (\<lambda>s. (fs_view M s)\<lparr>v_inodes := Map.empty\<rparr>) (INODE_DEDUP M)"
    using laws by (simp add: fs_laws_def)
  note ok = lru_insert_new_ok [OF l, of s k v, unfolded assms fst_conv snd_conv map_simps]
  show "ok \<longleftrightarrow> v_inodes (fs_view M s) k = None" by (rule ok(1))
  show "v_inodes (fs_view M s') k \<noteq> None" using ok(3,4) by (metis fs_view_get(3) option.distinct(1))
  show "v_events (fs_view M s') = v_events (fs_view M s)" "v_patterns (fs_view M s') = v_patterns (fs_view M s)"
    "v_vfs (fs_view M s') = v_vfs (fs_view M s)" "v_symlinks (fs_view M s') = v_symlinks (fs_view M s)"
    using ok(2) by (cases "fs_view M s'"; cases "fs_view M s"; simp)+
qed

lemma vfs_inserted:
  "snd (mo_insert (VFS_STATE M) s k v) = Inr () \<Longrightarrow>
   fs_view M (fst (mo_insert (VFS_STATE M) s k v)) = (fs_view M s)\<lparr>v_vfs := (v_vfs (fs_view M s))(k \<mapsto> v)\<rparr>"
  using laws by (cases "mo_insert (VFS_STATE M) s k v") (fastforce simp: fs_laws_def map_law_def)

lemma vfs_removed:
  "\<exists>m. fs_view M (fst (mo_remove (VFS_STATE M) s k)) = (fs_view M s)\<lparr>v_vfs := m\<rparr>"
proof -
  obtain s' r where r: "mo_remove (VFS_STATE M) s k = (s', r)" by fastforce
  have "fs_view M s' = (case r of Inr u \<Rightarrow> v_vfs_update (\<lambda>m. m(k := None)) (fs_view M s) | Inl e \<Rightarrow> fs_view M s)"
    using laws r unfolding fs_laws_def map_law_def by blast
  then show ?thesis unfolding r by (cases r; cases "fs_view M s") (auto intro: exI)
qed

lemma symlink_removed:
  assumes "v_symlinks (fs_view M s) k = None"
  shows "fs_view M (fst (mo_remove (SYMLINK_MAP M) s k)) = fs_view M s"
proof -
  obtain s' r where r: "mo_remove (SYMLINK_MAP M) s k = (s', r)" by fastforce
  have "fs_view M s' = (case r of Inr u \<Rightarrow> v_symlinks_update (\<lambda>m. m(k := None)) (fs_view M s) | Inl e \<Rightarrow> fs_view M s)"
    using laws r unfolding fs_laws_def map_law_def by blast
  moreover have "(v_symlinks (fs_view M s))(k := None) = v_symlinks (fs_view M s)"
    using assms by (rule fun_upd_idem)
  ultimately show ?thesis unfolding r by (cases r; cases "fs_view M s") auto
qed

text \<open>The deduplication reports an event exactly if it was not reported before, and remembers it.\<close>

lemma dedup_reports:
  assumes "fi_path_pattern ident = fp_path_pattern p" and "fi_r_w ident = fp_r_w p"
    and "fi_path ident = p_buffer (fp_path p)" and "fi_is_symlink ident = fp_is_symlink p"
    and "p = er_payload ev" and "sens \<longleftrightarrow> fp_is_sensitive p \<noteq> 0"
  shows "\<exists>s'. deduplicate_and_send M s ev ident sens = (s', if event_seen (fs_view M s) ev then [] else [ev])
    \<and> event_seen (fs_view M s') ev \<and> v_inodes (fs_view M s') = v_inodes (fs_view M s)
    \<and> v_symlinks (fs_view M s') = v_symlinks (fs_view M s)"
proof (cases "fp_path_pattern p \<noteq> Regular \<and> \<not> sens")
  case True
  let ?q = "\<lparr>fq_path_pattern = fp_path_pattern p, fq_r_w = fp_r_w p, fq_is_cross_process = 0\<rparr>"
  obtain s' ok where n: "lru_insert_new (FS_PATTERN_DEDUP M) s ?q 1 = (s', ok)" by fastforce
  show ?thesis
    using patterns_new [OF n] True assms n
    by (auto simp: deduplicate_and_send_def event_seen_def Let_def)
next
  case False
  have i: "ident = \<lparr>fi_path = p_buffer (fp_path p), fi_r_w = fp_r_w p, fi_is_symlink = fp_is_symlink p,
      fi_path_pattern = fp_path_pattern p\<rparr>"
    using assms by (cases ident) simp
  obtain s' ok where n: "lru_insert_new (FS_EVENT_DEDUP M) s ident 1 = (s', ok)" by fastforce
  then show ?thesis
    using events_new [OF n] False assms(5,6) i
    by (auto simp: deduplicate_and_send_def event_seen_def Let_def)
qed

end

section \<open>An access is reported once\<close>

lemma regular_not_special:
  assumes "is_file F f = Some True \<or> is_blk F f = Some True"
  shows "is_pipe F f \<noteq> Some True" "is_sock F f \<noteq> Some True"
  using assms
  by (auto simp: is_file_def is_blk_def is_pipe_def is_sock_def file_is_def inode_is_def S_IFREG_def
      S_IFBLK_def S_IFIFO_def S_IFSOCK_def split: bind_splits)

lemma event_init_ready:
  assumes "task \<noteq> None \<longrightarrow> par \<noteq> None"
  shows "\<exists>hdr. event_init W e ty now task par = (e\<lparr>er_header := hdr\<rparr>, Inr ())"
  using assms by (auto simp: event_init_def event_info_new_def Let_def split: option.splits prod.splits)

text \<open>A file that a watched task may access, and the path that its dentry and mount have.\<close>

definition watched_file :: "FsKernel \<Rightarrow> (u64 \<Rightarrow> bool) \<Rightarrow> FsTask \<Rightarrow> u64 \<Rightarrow> bool" where
  "watched_file F cgroup_exists t f =
     ((\<exists>cgid. ft_cgroup_id t = Some cgid \<and> cgroup_exists cgid) \<and> f \<noteq> 0
      \<and> (is_file F f = Some True \<or> is_blk F f = Some True) \<and> ft_cred t \<noteq> None
      \<and> (ft_task t \<noteq> None \<longrightarrow> ft_parent_task t \<noteq> None))"

definition path_located :: "KernelFs \<Rightarrow> (u64 option \<times> u64 option) option option \<Rightarrow> string \<Rightarrow> bool" where
  "path_located k f_path path =
     (\<exists>e mnt i md mp mr comps n. f_path = Some (Some (Some e, Some mnt))
        \<and> k_d_inode k e = Some i \<and> k_metadata k i = Some md \<and> k_mnt_parent k (k_mount k mnt) = Some mp
        \<and> k_vfs_root k mnt = Some mr \<and> located k e (k_mount k mnt) mp mr comps n
        \<and> n \<le> MAX_PATH_DEPTH \<and> comps_size comps < MAX_PATH_LEN \<and> path = ''/'' @ join ''/'' comps)"

definition file_located :: "FsKernel \<Rightarrow> u64 \<Rightarrow> string \<Rightarrow> bool" where
  "file_located F f path = path_located (w_fs (fk_world F)) (fk_f_path F f) path"

lemma path_located_resolves:
  assumes "path_located k f_path path" and "path_ok p" and "path_len p = 0"
  shows "\<exists>q. core_resolve_file k p (Some f_path) MAX_PATH_DEPTH = (q, Inr ())
    \<and> path_ok q \<and> p_mode q = Prepend \<and> path_bytes q = path"
proof -
  obtain e mnt i md mp mr comps n where l: "f_path = Some (Some (Some e, Some mnt))"
    "k_d_inode k e = Some i" "k_metadata k i = Some md" "k_mnt_parent k (k_mount k mnt) = Some mp"
    "k_vfs_root k mnt = Some mr" "located k e (k_mount k mnt) mp mr comps n"
    "n \<le> MAX_PATH_DEPTH" "comps_size comps < MAX_PATH_LEN" "path = ''/'' @ join ''/'' comps"
    using assms(1) by (auto simp: path_located_def)
  have "core_resolve_file k p (Some f_path) MAX_PATH_DEPTH
      = resolve_at k (p\<lparr>p_mode := Prepend, p_metadata := Some md\<rparr>) e mnt MAX_PATH_DEPTH"
    using l(1) core_resolve_at(1) [OF l(2,3)] by (simp add: core_resolve_file_def)
  then show ?thesis
    using resolve_at_located [OF assms(2,3) l(4,5,6,7,8), of md] l(9) by auto
qed

lemma located_path:
  "file_located F f path \<Longrightarrow> f \<noteq> 0 \<Longrightarrow> path_ok p \<Longrightarrow> path_len p = 0 \<Longrightarrow>
     \<exists>q. core_resolve_file (w_fs (fk_world F)) p (file_at F f) MAX_PATH_DEPTH = (q, Inr ())
       \<and> path_ok q \<and> p_mode q = Prepend \<and> path_bytes q = path"
  by (simp add: file_located_def file_at_def path_located_resolves)

text \<open>The whole access: the program at the entry, then the one at the exit.\<close>

definition file_access ::
    "'s FsMaps \<Rightarrow> 's \<Rightarrow> FsKernel \<Rightarrow> (u64 \<Rightarrow> bool) \<Rightarrow> Heap \<Rightarrow> FsTask \<Rightarrow> u64 \<Rightarrow> FileOperation \<Rightarrow> 's FsResult" where
  "file_access M s F cgroup_exists h t f op =
     (case process_vfs_fentry M s F cgroup_exists t f of
        (s, r) \<Rightarrow> process_vfs_fexit M s F h t op)"

context fs_maps
begin

lemma fentry_notes:
  assumes "watched_file F ce t f" and "snd (mo_insert (VFS_STATE M) s (ft_pid_tgid t) f) = Inr ()"
  shows "\<exists>s'. process_vfs_fentry M s F ce t f = (s', Inr 0)
    \<and> fs_view M s' = (fs_view M s)\<lparr>v_vfs := (v_vfs (fs_view M s))(ft_pid_tgid t \<mapsto> f)\<rparr>"
  using assms regular_not_special [of F f] vfs_inserted [OF assms(2)]
  by (fastforce simp: watched_file_def process_vfs_fentry_def)

lemma repeat_dropped:
  assumes "watched_file F ce t f" and "snd (mo_insert (VFS_STATE M) s (ft_pid_tgid t) f) = Inr ()"
    and "v_symlinks (fs_view M s) (ft_pid_tgid t) = None" and "fk_f_inode F f = Some i"
    and "v_inodes (fs_view M s) \<lparr>ik_inode = i, ik_r_w = (if op = WRITE then 1 else 0)\<rparr> \<noteq> None"
  shows "fst (snd (file_access M s F ce h t f op)) = []"
proof -
  obtain s1 where s1: "process_vfs_fentry M s F ce t f = (s1, Inr 0)"
    "fs_view M s1 = (fs_view M s)\<lparr>v_vfs := (v_vfs (fs_view M s))(ft_pid_tgid t \<mapsto> f)\<rparr>"
    using fentry_notes [OF assms(1,2)] by blast
  let ?s2 = "fst (mo_remove (VFS_STATE M) s1 (ft_pid_tgid t))"
  let ?k = "\<lparr>ik_inode = i, ik_r_w = (if op = WRITE then 1 else 0)\<rparr> :: InodeDedupKey"
  obtain m where m: "fs_view M ?s2 = (fs_view M s1)\<lparr>v_vfs := m\<rparr>" using vfs_removed by blast
  obtain s3 ok where n: "lru_insert_new (INODE_DEDUP M) ?s2 ?k 1 = (s3, ok)" by fastforce
  have "\<not> ok" using inode_new(1) [OF n] assms(5) m s1(2) by simp
  then have "first_sighting M ?s2 F (ft_pid_tgid t) f (if op = WRITE then 1 else 0) = (s3, False)"
    using assms(3,4) m s1(2) n by (simp add: first_sighting_def map_simps)
  moreover have "mo_get (VFS_STATE M) s1 (ft_pid_tgid t) = Some f" "f \<noteq> 0"
    using assms(1) s1(2) by (auto simp: map_simps watched_file_def)
  ultimately show ?thesis by (simp add: file_access_def s1(1) process_vfs_fexit_def Let_def)
qed

end

text \<open>The thread group that a path in \<open>/proc\<close> is compared with, and what an event of an access says.\<close>

definition classifying_tgid :: "FsTask \<Rightarrow> u32" where
  "classifying_tgid t = (case ft_ns_tgid t of Some n \<Rightarrow> n | None \<Rightarrow> task_tgid t)"

definition reports_access :: "FsKernel \<Rightarrow> FsTask \<Rightarrow> u64 \<Rightarrow> u8 \<Rightarrow> string \<Rightarrow> FsPayload \<Rightarrow> bool" where
  "reports_access F t f r_w path p =
     (path_bytes (fp_path p) = path \<and> fp_r_w p = r_w \<and> fp_is_symlink p = 0
      \<and> Option.bind (fk_f_inode F f) (fk_i_ino F) = Some (fp_inode p)
      \<and> ft_cred t = Some (fp_owner_uid p) \<and> fp_pid p = task_pid t \<and> fp_tgid p = task_tgid t
      \<and> (fp_path_pattern p, fp_is_sensitive p \<noteq> 0, fp_is_cross_process p \<noteq> 0)
          = classify_path (classify_bytes path) (classifying_tgid t))"

lemma default_path_facts: "path_ok default_path" "path_len default_path = 0"
  by (simp_all add: path_ok_def path_len_def default_path_def)

lemma access_event_fields [simp]:
  "er_payload (access_event F t f r_w (zeroed_fs_event\<lparr>er_header := hdr\<rparr>)) =
     (er_payload zeroed_fs_event)\<lparr>fp_pid := task_pid t, fp_tgid := task_tgid t, fp_r_w := r_w, fp_freq := 1,
       fp_path := fst (core_resolve_file (w_fs (fk_world F)) default_path (file_at F f) MAX_PATH_DEPTH)\<rparr>"
  by (simp add: access_event_def zeroed_fs_event_def)

context fs_maps
begin

lemma sends_once:
  assumes "ft_cred t \<noteq> None" and "heap_ready h" and "i_next h = Some 1"
    and "file_located F f path" and "f \<noteq> 0"
    and "er_payload event = (er_payload zeroed_fs_event)\<lparr>fp_pid := task_pid t, fp_tgid := task_tgid t,
      fp_r_w := r_w, fp_freq := 1, fp_is_symlink := 0, fp_inode := ino,
      fp_path := fst (core_resolve_file (w_fs (fk_world F)) default_path (file_at F f) MAX_PATH_DEPTH)\<rparr>"
    and "Option.bind (fk_f_inode F f) (fk_i_ino F) = Some ino"
  shows "\<exists>s' ev. classify_and_send M s h t event = (s', if event_seen (fs_view M s) ev then [] else [ev], Inr 0)
    \<and> reports_access F t f r_w path (er_payload ev) \<and> event_seen (fs_view M s') ev
    \<and> v_inodes (fs_view M s') = v_inodes (fs_view M s) \<and> v_symlinks (fs_view M s') = v_symlinks (fs_view M s)"
proof -
  obtain q where q: "core_resolve_file (w_fs (fk_world F)) default_path (file_at F f) MAX_PATH_DEPTH = (q, Inr ())"
    "path_ok q" "p_mode q = Prepend" "path_bytes q = path"
    using located_path [OF assms(4,5) default_path_facts] by blast
  obtain uid where uid: "ft_cred t = Some uid" using assms(1) by blast
  obtain pat sens cross where c: "classify_path (classify_bytes path) (classifying_tgid t) = (pat, sens, cross)"
    by (cases "classify_path (classify_bytes path) (classifying_tgid t)")
  have buf: "to_classify_buffer q = classify_bytes path" using to_classify_buffer_prepend [OF q(2,3)] q(4) by simp
  obtain h' k where al: "alloc_zero h SIZE_OF_FS_IDENTITY = (h', Inr k)"
    using alloc_zero_ready [OF assms(2,3), of SIZE_OF_FS_IDENTITY]
    by (auto simp: MAX_ALLOCS_def SIZE_OF_FS_IDENTITY_def HEAP_MAX_ALLOC_SIZE_def)
  define ev where "ev = event\<lparr>er_payload := (er_payload event)\<lparr>fp_owner_uid := uid, fp_path_pattern := pat,
    fp_is_sensitive := (if sens then 1 else 0), fp_is_cross_process := (if cross then 1 else 0)\<rparr>\<rparr>"
  define ident where "ident = \<lparr>fi_path = p_buffer q, fi_r_w = r_w, fi_is_symlink = 0, fi_path_pattern = pat\<rparr>"
  have send: "classify_and_send M s h t event
      = (case deduplicate_and_send M s ev ident sens of (s, out) \<Rightarrow> (s, out, Inr 0))"
    using uid al c buf assms(6) q(1)
    by (simp add: classify_and_send_def ev_def ident_def classifying_tgid_def Let_def)
  have fields: "fi_path_pattern ident = fp_path_pattern (er_payload ev)" "fi_r_w ident = fp_r_w (er_payload ev)"
    "fi_path ident = p_buffer (fp_path (er_payload ev))" "fi_is_symlink ident = fp_is_symlink (er_payload ev)"
    "sens \<longleftrightarrow> fp_is_sensitive (er_payload ev) \<noteq> 0"
    using assms(6) q(1) by (simp_all add: ident_def ev_def)
  obtain s' where s': "deduplicate_and_send M s ev ident sens = (s', if event_seen (fs_view M s) ev then [] else [ev])"
    "event_seen (fs_view M s') ev" "v_inodes (fs_view M s') = v_inodes (fs_view M s)"
    "v_symlinks (fs_view M s') = v_symlinks (fs_view M s)"
    using dedup_reports [OF fields(1-4) refl fields(5)] by blast
  have "reports_access F t f r_w path (er_payload ev)"
    using uid c q assms(6,7) by (simp add: reports_access_def ev_def)
  moreover have "classify_and_send M s h t event = (s', if event_seen (fs_view M s) ev then [] else [ev], Inr 0)"
    unfolding send s'(1) by simp
  ultimately show ?thesis using s'(2-4) by blast
qed

lemma first_reported:
  assumes "watched_file F ce t f" and "file_located F f path" and "heap_ready h"
    and "snd (mo_insert (VFS_STATE M) s (ft_pid_tgid t) f) = Inr ()"
    and "v_symlinks (fs_view M s) (ft_pid_tgid t) = None"
    and "fk_f_inode F f = Some i" and "fk_i_ino F i = Some ino"
    and "v_inodes (fs_view M s) \<lparr>ik_inode = i, ik_r_w = (if op = WRITE then 1 else 0)\<rparr> = None"
  shows "\<exists>s' ev. file_access M s F ce h t f op = (s', if event_seen (fs_view M s) ev then [] else [ev], Inr 0)
    \<and> reports_access F t f (if op = WRITE then 1 else 0) path (er_payload ev) \<and> event_seen (fs_view M s') ev
    \<and> v_inodes (fs_view M s') \<lparr>ik_inode = i, ik_r_w = (if op = WRITE then 1 else 0)\<rparr> \<noteq> None"
proof -
  let ?rw = "if op = WRITE then 1 else 0 :: u8"
  obtain s1 where s1: "process_vfs_fentry M s F ce t f = (s1, Inr 0)"
    "fs_view M s1 = (fs_view M s)\<lparr>v_vfs := (v_vfs (fs_view M s))(ft_pid_tgid t \<mapsto> f)\<rparr>"
    using fentry_notes [OF assms(1,4)] by blast
  let ?s2 = "fst (mo_remove (VFS_STATE M) s1 (ft_pid_tgid t))"
  obtain m where m: "fs_view M ?s2 = (fs_view M s1)\<lparr>v_vfs := m\<rparr>" using vfs_removed by blast
  obtain s3 ok where n: "lru_insert_new (INODE_DEDUP M) ?s2 \<lparr>ik_inode = i, ik_r_w = ?rw\<rparr> 1 = (s3, ok)" by fastforce
  note new = inode_new [OF n]
  have ok: "ok" using new(1) assms(8) m s1(2) by simp
  have sym: "v_symlinks (fs_view M s3) (ft_pid_tgid t) = None" using new(6) m s1(2) assms(5) by simp
  let ?s4 = "fst (mo_remove (SYMLINK_MAP M) s3 (ft_pid_tgid t))"
  have first: "first_sighting M ?s2 F (ft_pid_tgid t) f ?rw = (s3, True)"
    using assms(5,6) m s1(2) n ok by (simp add: first_sighting_def map_simps)
  have vfs: "mo_get (VFS_STATE M) s1 (ft_pid_tgid t) = Some f" and f: "f \<noteq> 0" and cred: "ft_cred t \<noteq> None"
    and par: "ft_task t \<noteq> None \<longrightarrow> ft_parent_task t \<noteq> None"
    using assms(1) s1(2) by (auto simp: map_simps watched_file_def)
  obtain h0 where h0: "alloc_init h = (h0, Inr ())" "heap_ready h0" "i_next h0 = Some 0"
    using alloc_init_ready [OF assms(3)] by blast
  define h1 where "h1 = h0\<lparr>i_next := Some 1\<rparr>"
  have al: "alloc_zero h0 SIZE_OF_FS_EVENT = (h1, Inr 0)"
    using alloc_zero_ready [OF h0(2,3), of SIZE_OF_FS_EVENT]
    by (simp add: MAX_ALLOCS_def SIZE_OF_FS_EVENT_def HEAP_MAX_ALLOC_SIZE_def h1_def)
  have h1: "heap_ready h1" "i_next h1 = Some 1" using h0(2) by (simp_all add: h1_def heap_ready_def)
  obtain hdr where hdr: "event_init (fk_world F) zeroed_fs_event (if op = WRITE then EvFileWrite else EvFileRead)
      (ft_now t) (ft_task t) (ft_parent_task t) = (zeroed_fs_event\<lparr>er_header := hdr\<rparr>, Inr ())"
    using event_init_ready [OF par] by blast
  let ?e = "access_event F t f ?rw (zeroed_fs_event\<lparr>er_header := hdr\<rparr>)"
  let ?p = "(er_payload ?e)\<lparr>fp_is_symlink := 0, fp_inode := ino\<rparr>"
  obtain e mnt where fp: "fk_f_path F f = Some (Some (Some e, Some mnt))"
    using assms(2) by (auto simp: file_located_def path_located_def)
  have ino: "Option.bind (fk_f_inode F f) (fk_i_ino F) = Some ino" using assms(6,7) by simp
  have "file_access M s F ce h t f op = classify_and_send M ?s4 h1 t (?e\<lparr>er_payload := ?p\<rparr>)"
    unfolding file_access_def s1(1)
    using vfs f first fp h0(1) al hdr sym ino
    by (simp add: process_vfs_fexit_def Let_def link_and_inode_def map_simps)
  moreover have same: "event_seen (fs_view M ?s4) = event_seen (fs_view M s)"
    using symlink_removed [OF sym] new(3,4) m s1(2) by (simp add: fun_eq_iff event_seen_def Let_def)
  moreover have "v_inodes (fs_view M ?s4) \<lparr>ik_inode = i, ik_r_w = ?rw\<rparr> \<noteq> None"
    using symlink_removed [OF sym] new(2) by simp
  ultimately show ?thesis
    using sends_once [OF cred h1 assms(2) f _ ino, of "?e\<lparr>er_payload := ?p\<rparr>" ?rw ?s4] by fastforce
qed

end

text \<open>
  C15: the file monitor reports an access once. When a task of a watched container reads or writes a
  regular file or block device whose inode is new to the monitor, the pair of programs sends exactly one
  event, unless the deduplication of events already holds it; the event has the file's absolute path,
  inode number, operation, owner, task and the class of the path. After that, while the inode's entry
  is kept, no access to the same inode by the same operation sends an event, whichever task and open file
  it comes from, unless that task has just followed a symbolic link.
\<close>

theorem access_reported_once:
  assumes "fs_laws M" and "watched_file F ce t f" and "file_located F f path" and "heap_ready h"
    and "snd (mo_insert (VFS_STATE M) s (ft_pid_tgid t) f) = Inr ()"
    and "v_symlinks (fs_view M s) (ft_pid_tgid t) = None"
    and "fk_f_inode F f = Some i" and "fk_i_ino F i = Some ino"
    and "v_inodes (fs_view M s) \<lparr>ik_inode = i, ik_r_w = (if op = WRITE then 1 else 0)\<rparr> = None"
  shows "\<exists>s1 ev. file_access M s F ce h t f op = (s1, if event_seen (fs_view M s) ev then [] else [ev], Inr 0)
    \<and> reports_access F t f (if op = WRITE then 1 else 0) path (er_payload ev)
    \<and> event_seen (fs_view M s1) ev
    \<and> v_inodes (fs_view M s1) \<lparr>ik_inode = i, ik_r_w = (if op = WRITE then 1 else 0)\<rparr> \<noteq> None
    \<and> (\<forall>s2 t2 f2 h2. v_inodes (fs_view M s2) \<lparr>ik_inode = i, ik_r_w = (if op = WRITE then 1 else 0)\<rparr> \<noteq> None
        \<and> watched_file F ce t2 f2 \<and> fk_f_inode F f2 = Some i
        \<and> v_symlinks (fs_view M s2) (ft_pid_tgid t2) = None
        \<and> snd (mo_insert (VFS_STATE M) s2 (ft_pid_tgid t2) f2) = Inr ()
        \<longrightarrow> fst (snd (file_access M s2 F ce h2 t2 f2 op)) = [])"
proof -
  note M = fs_maps.intro [OF assms(1)]
  show ?thesis
    using fs_maps.first_reported [OF M assms(2-9)] fs_maps.repeat_dropped [OF M] by blast
qed

section \<open>Tables with the capacities of the source\<close>

record FsTables =
  hs_events :: "(FsIdentity \<times> u8) list"
  hs_patterns :: "(FsPatternIdentity \<times> u8) list"
  hs_inodes :: "(InodeDedupKey \<times> u8) list"
  hs_vfs :: "(u64 \<times> u64) list"
  hs_symlinks :: "(u64 \<times> u64) list"

definition lru_fs :: "FsTables FsMaps" where
  "lru_fs =
     \<lparr>FS_EVENT_DEDUP = lru_ops hs_events hs_events_update 65536,
      FS_PATTERN_DEDUP = lru_ops hs_patterns hs_patterns_update 1024,
      INODE_DEDUP = lru_ops hs_inodes hs_inodes_update 65536,
      VFS_STATE = hash_ops hs_vfs hs_vfs_update 1024,
      SYMLINK_MAP = hash_ops hs_symlinks hs_symlinks_update 1024\<rparr>"

definition empty_fs :: FsTables where
  "empty_fs = \<lparr>hs_events = [], hs_patterns = [], hs_inodes = [], hs_vfs = [], hs_symlinks = []\<rparr>"

lemma lru_fs_view:
  "fs_view lru_fs s = \<lparr>v_events = map_of (hs_events s), v_patterns = map_of (hs_patterns s),
     v_inodes = map_of (hs_inodes s), v_vfs = map_of (hs_vfs s), v_symlinks = map_of (hs_symlinks s)\<rparr>"
  by (simp add: fs_view_def lru_fs_def lru_ops_def hash_ops_def)

lemma lru_fs_laws: "fs_laws lru_fs"
  unfolding fs_laws_def lru_fs_view
  by (simp add: lru_fs_def lru_ops_law, intro conjI hash_map_law) (simp_all add: lru_fs_view)

interpretation lru: fs_maps lru_fs
  by unfold_locales (rule lru_fs_laws)

definition sample_fs_kernel :: FsKernel where
  "sample_fs_kernel = \<lparr>fk_world = \<lparr>w_fs = sample_fs, w_kernfs = \<lparr>kn_of = (\<lambda>_. None), kn_name = (\<lambda>_. None),
       kn_id = (\<lambda>_. None), kn_parent = (\<lambda>_. None)\<rparr>,
       w_user = (\<lambda>_ _. None)\<rparr>,
     fk_i_mode = (\<lambda>_. Some 0x81A4), fk_i_ino = (\<lambda>i. Some i), fk_f_inode = (\<lambda>_. Some 3),
     fk_f_path = (\<lambda>_. Some (Some (Some 3, Some 5)))\<rparr>"

definition sample_fs_task :: FsTask where
  "sample_fs_task = \<lparr>ft_cgroup_id = Some 7, ft_pid_tgid = 42, ft_cred = Some 0, ft_ns_tgid = None,
     ft_task = None, ft_parent_task = None, ft_root_mnt = None, ft_now = 0\<rparr>"

theorem access_reported_once_witness:
  "\<exists>s1 ev. file_access lru_fs empty_fs sample_fs_kernel (\<lambda>c. c = 7) fresh_heap sample_fs_task 9 READ = (s1, [ev], Inr 0)
     \<and> path_bytes (fp_path (er_payload ev)) = ''/etc/hosts'' \<and> fp_r_w (er_payload ev) = 0"
proof -
  have w: "watched_file sample_fs_kernel (\<lambda>c. c = 7) sample_fs_task 9"
    by (simp add: watched_file_def sample_fs_kernel_def sample_fs_task_def is_file_def file_is_def
        inode_is_def S_IFMT_def S_IFREG_def)
  have l: "file_located sample_fs_kernel 9 ''/etc/hosts''"
    unfolding file_located_def path_located_def
    by (intro exI [of _ 3] exI [of _ 5] exI [of _ sample_metadata] exI [of _ 7] exI [of _ 1]
        exI [of _ "[''etc'', ''hosts'']"] exI [of _ "Suc (Suc 1)"])
      (use sample_located in \<open>simp add: sample_fs_kernel_def sample_fs_def comps_size_def MAX_PATH_DEPTH_def
        MAX_PATH_LEN_def\<close>)
  have h: "heap_ready fresh_heap" by (simp add: heap_ready_def fresh_heap_def)
  have v: "snd (mo_insert (VFS_STATE lru_fs) empty_fs (ft_pid_tgid sample_fs_task) 9) = Inr ()"
    by (simp add: lru_fs_def hash_ops_def bounded_insert_def empty_fs_def)
  have seen: "\<not> event_seen (fs_view lru_fs empty_fs) ev" for ev
    by (simp add: event_seen_def lru_fs_view empty_fs_def Let_def)
  have i: "fk_f_inode sample_fs_kernel 9 = Some 3" "fk_i_ino sample_fs_kernel 3 = Some 3"
    by (simp_all add: sample_fs_kernel_def)
  show ?thesis
    using access_reported_once [OF lru_fs_laws w l h v _ i, of READ] seen
    by (simp add: lru_fs_view empty_fs_def reports_access_def) blast
qed

section \<open>A followed link outlives the access\<close>

text \<open>
  The note of a followed link is only taken by the next read or write of the thread: an open in between
  leaves it, and the next access is reported with the link and its inode, whatever file it is for.
\<close>

context fs_maps
begin

lemma classify_keeps_links:
  "v_symlinks (fs_view M (fst (classify_and_send M s h t event))) = v_symlinks (fs_view M s)"
proof -
  have d: "v_symlinks (fs_view M (fst (deduplicate_and_send M s e ident sens))) = v_symlinks (fs_view M s)"
    for e ident sens
    using events_new(4) patterns_new(4)
    by (auto simp: deduplicate_and_send_def split: prod.split)
  then show ?thesis
    by (simp add: classify_and_send_def Let_def case_prod_beta d split: option.split sum.split)
qed

lemma open_keeps_link:
  "v_symlinks (fs_view M (fst (process_vfs_open M s F ce h t retval f))) = v_symlinks (fs_view M s)"
  by (simp add: process_vfs_open_def Let_def classify_keeps_links split: option.split sum.split prod.split)

end

lemma pending_link_reported:
  "link_and_inode F t (Some dentry) f p = Some q \<Longrightarrow>
     fp_is_symlink q = 1 \<and> Option.bind (k_d_inode (w_fs (fk_world F)) dentry) (fk_i_ino F) = Some (fp_inode q)"
  by (auto simp: link_and_inode_def)

end
