(* ===== verification/Events.thy ===== *)
theory Events
  imports Network ProcMon FsMon ProfileRoundTrip Capabilities
begin

text \<open>
  The user-space records of events, \<open>ebpf-mon/src/events.rs\<close>, the decoding and counting of raw events
  and the export of the profile in \<open>ebpf-mon/src/manager.rs\<close>, and the display of paths in
  \<open>ebpf-mon-common/src/path/user.rs\<close>.

  The reinterpretation of raw bytes is the parameter \<open>Layouts\<close>. \<open>serde_json\<close>'s printer is a parameter; the
  values that the derived \<open>Serialize\<close> instances produce are modelled.
\<close>

section \<open>Text of buffers and paths\<close>

definition bytes_to_string :: "string \<Rightarrow> string" where
  "bytes_to_string bytes =
     (let stop = (case find_idx (\<lambda>b. b = nul) bytes of Some i \<Rightarrow> i | None \<Rightarrow> length bytes)
      in from_utf8_lossy (take stop bytes))"

definition to_path_buf :: "Path \<Rightarrow> string" where
  "to_path_buf p = as_slice p"

definition path_to_string :: "Path \<Rightarrow> string" where
  "path_to_string p = from_utf8_lossy (to_path_buf p)"

definition path_try_from :: "string \<Rightarrow> u32 + Path" where
  "path_try_from s =
     (let out = default_path; bytes = from_utf8_lossy s; path_buf_len = length bytes in
      if path_buf_len > length (p_buffer out) then Inl 1
      else
        let len = min path_buf_len (length (p_buffer out))
        in Inr (out\<lparr>p_buffer := write_at 0 (take len bytes) (p_buffer out), p_mode := Append,
             p_len := of_nat len\<rparr>))"

definition try_from_realpath :: "string \<Rightarrow> u32 + Path" where
  "try_from_realpath p = (case path_try_from p of Inl e \<Rightarrow> Inl e | Inr q \<Rightarrow> Inr (q\<lparr>p_real := True\<rparr>))"

section \<open>Events\<close>

record ProcessContext =
  pc_executable :: string
  pc_comm :: string
  pc_uid :: u32
  pc_gid :: u32
  pc_tgid :: u32
  pc_cgroup_id :: u64

definition from_header :: "EventInfo \<Rightarrow> ProcessContext" where
  "from_header hdr =
     (let p = ei_process hdr in
      \<lparr>pc_executable = path_to_string (pi_executable p), pc_comm = bytes_to_string (pi_comm p),
       pc_uid = pi_uid p, pc_gid = pi_gid p, pc_tgid = pi_tgid p, pc_cgroup_id = cg_cgrp_id (pi_cgroup p)\<rparr>)"

record NetworkEvent =
  ne_process_ctx :: ProcessContext
  ne_comm :: string
  ne_sk_type :: u16
  ne_skc_family :: u16
  ne_protocol :: u8
  ne_doff_flags :: u16
  ne_src_ip :: u32
  ne_src_port :: u32
  ne_dst_ip :: u32
  ne_dst_port :: u32
  ne_direction :: Direction
  ne_freq :: u32

definition network_event_from_raw :: "NetworkEventRaw \<Rightarrow> NetworkEvent" where
  "network_event_from_raw raw =
     (let p = er_payload raw in
      \<lparr>ne_process_ctx = from_header (er_header raw), ne_comm = bytes_to_string (np_comm p),
       ne_sk_type = np_sk_type p, ne_skc_family = np_skc_family p, ne_protocol = np_protocol p,
       ne_doff_flags = np_doff_flags p, ne_src_ip = np_src_ip p, ne_src_port = np_src_port p,
       ne_dst_ip = np_dst_ip p, ne_dst_port = np_dst_port p, ne_direction = np_direction p, ne_freq = 0\<rparr>)"

definition network_event_eq :: "NetworkEvent \<Rightarrow> NetworkEvent \<Rightarrow> bool" where
  "network_event_eq a b =
     (ne_dst_ip a = ne_dst_ip b \<and> ne_dst_port a = ne_dst_port b \<and> ne_direction a = ne_direction b)"

record FsEvent =
  fe_process_ctx :: ProcessContext
  fe_path :: string
  fe_sym_path :: string
  fe_inode :: u64
  fe_owner_uid :: u32
  fe_r_w :: u8
  fe_is_symlink :: u8
  fe_path_pattern :: PathPattern
  fe_is_sensitive :: u8
  fe_is_cross_process :: u8
  fe_freq :: u32

definition fs_event_from_raw :: "FsEventRaw \<Rightarrow> FsEvent" where
  "fs_event_from_raw raw =
     (let p = er_payload raw in
      \<lparr>fe_process_ctx = from_header (er_header raw), fe_path = path_to_string (fp_path p),
       fe_sym_path = path_to_string (fp_sym_path p), fe_inode = fp_inode p,
       fe_owner_uid = fp_owner_uid p, fe_r_w = fp_r_w p, fe_is_symlink = fp_is_symlink p,
       fe_path_pattern = fp_path_pattern p, fe_is_sensitive = fp_is_sensitive p,
       fe_is_cross_process = fp_is_cross_process p, fe_freq = 1\<rparr>)"

definition fs_event_eq :: "FsEvent \<Rightarrow> FsEvent \<Rightarrow> bool" where
  "fs_event_eq a b = (fe_path a = fe_path b \<and> fe_inode a = fe_inode b \<and> fe_r_w a = fe_r_w b)"

record ProcessEvent =
  pe_process_ctx :: ProcessContext
  pe_exec_path :: string
  pe_inode :: u64
  pe_ps_type :: ProcessType
  pe_pid :: u32
  pe_tgid :: u32
  pe_cgroup_id :: u64
  pe_ppid :: u32
  pe_gid :: u32
  pe_filename :: string
  pe_argv :: "string list"
  pe_argc :: u32
  pe_retval :: u32
  pe_freq :: u32
  pe_parent_comm :: string
  pe_is_root :: bool
  pe_capabilities :: u64

definition process_event_from_raw :: "ProcessEventRaw \<Rightarrow> ProcessEvent" where
  "process_event_from_raw raw =
     (let p = er_payload raw in
      \<lparr>pe_process_ctx = from_header (er_header raw), pe_exec_path = path_to_string (pp_path p),
       pe_inode = pp_inode p, pe_ps_type = pp_ps_type p, pe_pid = pp_pid p, pe_tgid = pp_tgid p,
       pe_cgroup_id = pp_cgroup_id p, pe_ppid = pp_ppid p, pe_gid = pp_gid p,
       pe_filename = bytes_to_string (pp_filename p),
       pe_argv = map bytes_to_string (take (unat (pp_argc p)) (pp_argv p)), pe_argc = pp_argc p,
       pe_retval = pp_retval p, pe_freq = 1, pe_parent_comm = bytes_to_string (pp_parent_comm p),
       pe_is_root = pp_is_root p, pe_capabilities = pp_capabilities p\<rparr>)"

definition process_event_eq :: "ProcessEvent \<Rightarrow> ProcessEvent \<Rightarrow> bool" where
  "process_event_eq a b =
     (pe_inode a = pe_inode b \<and> pe_ps_type a = pe_ps_type b \<and> pe_cgroup_id a = pe_cgroup_id b)"

datatype Event = NetworkEv NetworkEvent | FsEv FsEvent | ProcessEv ProcessEvent

fun event_eq :: "Event \<Rightarrow> Event \<Rightarrow> bool" where
  "event_eq (NetworkEv a) (NetworkEv b) = network_event_eq a b"
| "event_eq (FsEv a) (FsEv b) = fs_event_eq a b"
| "event_eq (ProcessEv a) (ProcessEv b) = process_event_eq a b"
| "event_eq _ _ = False"

text \<open>What the three \<open>Hash\<close> instances feed to the hasher, after the name of the variant.\<close>

datatype Hashed =
  HashedNetwork u32 u32 u32 | HashedFs string u64 u8
  | HashedProcess u64 ProcessType u64 "string list"

definition network_event_hash :: "NetworkEvent \<Rightarrow> Hashed" where
  "network_event_hash e = HashedNetwork (ne_src_ip e) (ne_dst_ip e) (ne_dst_port e)"

definition fs_event_hash :: "FsEvent \<Rightarrow> Hashed" where
  "fs_event_hash e = HashedFs (fe_path e) (fe_inode e) (fe_r_w e)"

definition process_event_hash :: "ProcessEvent \<Rightarrow> Hashed" where
  "process_event_hash e =
     HashedProcess (pe_inode e) (pe_ps_type e) (pe_cgroup_id e) (pe_argv e)"

fun event_hash :: "Event \<Rightarrow> Hashed" where
  "event_hash (NetworkEv e) = network_event_hash e"
| "event_hash (FsEv e) = fs_event_hash e"
| "event_hash (ProcessEv e) = process_event_hash e"

section \<open>Decoding and counting\<close>

record Layouts =
  ly_info :: "EventInfo Layout"
  ly_network :: "NetworkPayload EventRaw Layout"
  ly_fs :: "FsPayload EventRaw Layout"
  ly_process :: "ProcessPayload EventRaw Layout"

definition transform_event :: "Layouts \<Rightarrow> EncodedEvent \<Rightarrow> DecoderError + Event" where
  "transform_event L event =
     (case event_info (ly_info L) event of
        Inl e \<Rightarrow> Inl e
      | Inr info \<Rightarrow>
          (let network = map_sum id (NetworkEv \<circ> network_event_from_raw) (as_event_with_data (ly_network L) event);
               fs = map_sum id (FsEv \<circ> fs_event_from_raw) (as_event_with_data (ly_fs L) event);
               process = map_sum id (ProcessEv \<circ> process_event_from_raw) (as_event_with_data (ly_process L) event)
           in case ei_event_type info of
                InetOut \<Rightarrow> network
              | InetIn \<Rightarrow> network
              | EvFileRead \<Rightarrow> fs
              | EvFileWrite \<Rightarrow> fs
              | EvExecve \<Rightarrow> process
              | EvFork \<Rightarrow> process
              | EvUnknown \<Rightarrow> Inl UnknownType))"

text \<open>
  The map of counts, in the order of insertion. A hash map finds the entry of an equal key if their
  hashes agree. Where \<open>Eq\<close> equates events with different hashes, the library leaves open whether the
  entry is found: \<open>reach\<close> says so.
\<close>

type_synonym EventMap = "(Event \<times> u32) list"

definition finds_entry :: "(Event \<Rightarrow> Event \<Rightarrow> bool) \<Rightarrow> Event \<Rightarrow> Event \<Rightarrow> bool" where
  "finds_entry reach k e = ((event_hash k = event_hash e \<or> reach k e) \<and> event_eq k e)"

definition count_event :: "(Event \<Rightarrow> Event \<Rightarrow> bool) \<Rightarrow> EventMap \<Rightarrow> Event \<Rightarrow> EventMap" where
  "count_event reach m e =
     (case find_idx (\<lambda>(k, n). finds_entry reach k e) m of
        Some i \<Rightarrow> m[i := (fst (m ! i), snd (m ! i) + 1)]
      | None \<Rightarrow> m @ [(e, 1)])"

definition read_event ::
    "Layouts \<Rightarrow> (Event \<Rightarrow> Event \<Rightarrow> bool) \<Rightarrow> EventMap \<Rightarrow> EncodedEvent \<Rightarrow> EventMap" where
  "read_event L reach m e =
     (case transform_event L e of Inl err \<Rightarrow> m | Inr event \<Rightarrow> count_event reach m event)"

definition simple_event_reader ::
    "Layouts \<Rightarrow> (Event \<Rightarrow> Event \<Rightarrow> bool) \<Rightarrow> EventMap \<Rightarrow> EncodedEvent list \<Rightarrow> EventMap" where
  "simple_event_reader L reach m es = foldl (read_event L reach) m es"

section \<open>The exported profile\<close>

definition format_ip :: "u32 \<Rightarrow> string" where
  "format_ip ip =
     show_nat (unat (ip AND 0xFF)) @ ''.'' @ show_nat (unat (drop_bit 8 ip AND 0xFF)) @ ''.''
     @ show_nat (unat (drop_bit 16 ip AND 0xFF)) @ ''.'' @ show_nat (unat (drop_bit 24 ip AND 0xFF))"

definition serialize_ip :: "u32 \<Rightarrow> string" where
  "serialize_ip ip = format_ip ip"

definition serialize_direction :: "Direction \<Rightarrow> string" where
  "serialize_direction d = (if d = Egress then ''outgoing'' else ''incoming'')"

definition serialize_r_w :: "u8 \<Rightarrow> string" where
  "serialize_r_w r_w = (if r_w = 1 then ''write'' else ''read'')"

definition serialize_protocol :: "u8 \<Rightarrow> string" where
  "serialize_protocol n =
     (if n = 1 then ''DHCP'' else if n = 6 then ''TCP'' else if n = 17 then ''UDP''
      else show_nat (unat n))"

definition serialize_ps_type :: "ProcessType \<Rightarrow> string" where
  "serialize_ps_type t = (if t = Execve then ''execve'' else ''fork'')"

definition j_u64 :: "u64 \<Rightarrow> Value" where "j_u64 w = JNumber (PosInt w)"
definition j_u32 :: "u32 \<Rightarrow> Value" where "j_u32 w = j_u64 (ucast w)"
definition j_u16 :: "u16 \<Rightarrow> Value" where "j_u16 w = j_u64 (ucast w)"
definition j_u8 :: "u8 \<Rightarrow> Value" where "j_u8 w = j_u64 (ucast w)"

definition j_i32 :: "u32 \<Rightarrow> Value" where
  "j_i32 w = JNumber (if sint w < 0 then NegInt (sint w) else PosInt (ucast w))"

definition process_ctx_value :: "ProcessContext \<Rightarrow> Value" where
  "process_ctx_value c = JObject
     [(''executable'', JString (pc_executable c)), (''comm'', JString (pc_comm c)),
      (''uid'', j_u32 (pc_uid c)), (''gid'', j_u32 (pc_gid c)), (''tgid'', j_i32 (pc_tgid c)),
      (''cgroup_id'', j_u64 (pc_cgroup_id c))]"

definition network_event_value :: "NetworkEvent \<Rightarrow> Value" where
  "network_event_value e = JObject
     [(''process_ctx'', process_ctx_value (ne_process_ctx e)), (''comm'', JString (ne_comm e)),
      (''sk_type'', j_u16 (ne_sk_type e)), (''skc_family'', j_u16 (ne_skc_family e)),
      (''protocol'', JString (serialize_protocol (ne_protocol e))), (''doff_flags'', j_u16 (ne_doff_flags e)),
      (''src_ip'', JString (serialize_ip (ne_src_ip e))), (''src_port'', j_u32 (ne_src_port e)),
      (''dst_ip'', JString (serialize_ip (ne_dst_ip e))), (''dst_port'', j_u32 (ne_dst_port e)),
      (''direction'', JString (serialize_direction (ne_direction e))), (''freq'', j_u32 (ne_freq e))]"

definition fs_event_value :: "FsEvent \<Rightarrow> Value" where
  "fs_event_value e = JObject
     [(''process_ctx'', process_ctx_value (fe_process_ctx e)), (''path'', JString (fe_path e)),
      (''sym_path'', JString (fe_sym_path e)), (''inode'', j_u64 (fe_inode e)),
      (''owner_uid'', j_u32 (fe_owner_uid e)), (''r_w'', JString (serialize_r_w (fe_r_w e))),
      (''is_symlink'', j_u8 (fe_is_symlink e)), (''path_pattern'', JString (variant_name (fe_path_pattern e))),
      (''is_sensitive'', j_u8 (fe_is_sensitive e)), (''is_cross_process'', j_u8 (fe_is_cross_process e)),
      (''freq'', j_u32 (fe_freq e))]"

definition process_event_value :: "ProcessEvent \<Rightarrow> Value" where
  "process_event_value e = JObject
     [(''process_ctx'', process_ctx_value (pe_process_ctx e)), (''exec_path'', JString (pe_exec_path e)),
      (''inode'', j_u64 (pe_inode e)), (''ps_type'', JString (serialize_ps_type (pe_ps_type e))),
      (''pid'', j_u32 (pe_pid e)), (''tgid'', j_u32 (pe_tgid e)), (''cgroup_id'', j_u64 (pe_cgroup_id e)),
      (''ppid'', j_i32 (pe_ppid e)), (''gid'', j_u32 (pe_gid e)), (''filename'', JString (pe_filename e)),
      (''argv'', JArray (map JString (pe_argv e))), (''argc'', j_u32 (pe_argc e)),
      (''retval'', j_i32 (pe_retval e)), (''freq'', j_u32 (pe_freq e)),
      (''parent_comm'', JString (pe_parent_comm e)), (''is_root'', JBool (pe_is_root e)),
      (''capabilities'', j_u64 (pe_capabilities e))]"

record AllEvents =
  ae_cgroup :: string
  ae_network :: "NetworkEvent list"
  ae_fs :: "FsEvent list"
  ae_process :: "ProcessEvent list"

definition all_events_value :: "AllEvents \<Rightarrow> Value" where
  "all_events_value a = JObject
     [(''cgroup'', JString (ae_cgroup a)), (''network'', JArray (map network_event_value (ae_network a))),
      (''fs'', JArray (map fs_event_value (ae_fs a))),
      (''process'', JArray (map process_event_value (ae_process a)))]"

text \<open>The three lists, with the counts. The entries come in the iteration order \<open>ord\<close> of the map.\<close>

fun add_exported :: "AllEvents \<Rightarrow> Event \<times> u32 \<Rightarrow> AllEvents" where
  "add_exported a (NetworkEv net, freq) = a\<lparr>ae_network := ae_network a @ [net\<lparr>ne_freq := freq\<rparr>]\<rparr>"
| "add_exported a (FsEv fs, freq) = a\<lparr>ae_fs := ae_fs a @ [fs\<lparr>fe_freq := freq\<rparr>]\<rparr>"
| "add_exported a (ProcessEv pr, freq) = a\<lparr>ae_process := ae_process a @ [pr\<lparr>pe_freq := freq\<rparr>]\<rparr>"

definition exported_events :: "EventMap \<Rightarrow> u64 \<Rightarrow> AllEvents" where
  "exported_events m cgroup =
     foldl add_exported
       \<lparr>ae_cgroup = show_nat (unat cgroup), ae_network = [], ae_fs = [], ae_process = []\<rparr> m"

text \<open>\<open>m\<close> is the list of entries as the map yields them.\<close>

definition export_events_to_json :: "(Value \<Rightarrow> string) \<Rightarrow> EventMap \<Rightarrow> u64 \<Rightarrow> string" where
  "export_events_to_json to_string_pretty m cgroup =
     to_string_pretty (all_events_value (exported_events m cgroup))"

definition translate_retval :: "u32 \<Rightarrow> string" where
  "translate_retval retval =
     (let v = sint retval in
      if v = 0 then ''success''
      else if v = -1 then ''EPERM (operation not permitted)''
      else if v = -2 then ''ENOENT (file not found)''
      else if v = -8 then ''ENOEXEC (exec format error)''
      else if v = -12 then ''ENOMEM (out of memory)''
      else if v = -13 then ''EACCES (permission denied)''
      else if v = -14 then ''EFAULT (bad address)''
      else if v = -22 then ''EINVAL (invalid argument)''
      else show_int v)"

section \<open>Counting events\<close>

lemma event_eq_equivalence:
  "event_eq e e" "event_eq a b \<Longrightarrow> event_eq b a" "event_eq a b \<Longrightarrow> event_eq b c \<Longrightarrow> event_eq a c"
  by (cases e; simp add: network_event_eq_def fs_event_eq_def process_event_eq_def)
    (cases a; cases b; cases c; simp add: network_event_eq_def fs_event_eq_def process_event_eq_def)+

text \<open>For file events, what is hashed is what is compared.\<close>

lemma finds_fs_entry: "finds_entry reach k (FsEv f) \<longleftrightarrow> event_eq k (FsEv f)"
  by (cases k) (auto simp: finds_entry_def fs_event_hash_def fs_event_eq_def)

lemma finds_entry_eq: "finds_entry reach k e \<Longrightarrow> event_eq k e"
  by (simp add: finds_entry_def)

text \<open>The counts of the entries for an event.\<close>

definition counts_of :: "Event \<Rightarrow> EventMap \<Rightarrow> u32 list" where
  "counts_of e m = map snd (filter (\<lambda>(k, n). event_eq k e) m)"

lemma counts_of_update:
  assumes "i < length m" and "counts_of e m = [n]" and "event_eq (fst (m ! i)) e"
  shows "counts_of e (m[i := (fst (m ! i), snd (m ! i) + 1)]) = [n + 1]"
proof -
  let ?a = "counts_of e (take i m)" and ?b = "counts_of e (drop (Suc i) m)"
  have "counts_of e m = counts_of e (take i m @ (m ! i) # drop (Suc i) m)"
    using id_take_nth_drop [OF assms(1)] by simp
  also have "\<dots> = ?a @ snd (m ! i) # ?b"
    using assms(3) by (simp add: counts_of_def case_prod_beta)
  finally have "?a = [] \<and> ?b = [] \<and> snd (m ! i) = n"
    using assms(2) by (cases ?a) auto
  then show ?thesis
    using assms(1,3) by (simp add: upd_conv_take_nth_drop counts_of_def case_prod_beta)
qed

lemma counts_of_update_other:
  assumes "i < length m" and "\<not> event_eq (fst (m ! i)) e"
  shows "counts_of e (m[i := (fst (m ! i), x)]) = counts_of e m"
proof -
  have "counts_of e m = counts_of e (take i m @ (m ! i) # drop (Suc i) m)"
    using id_take_nth_drop [OF assms(1)] by simp
  then show ?thesis
    using assms by (simp add: upd_conv_take_nth_drop counts_of_def case_prod_beta)
qed

text \<open>Counting an event changes the entry of its own key.\<close>

lemma counts_of_count_event:
  assumes "counts_of (FsEv f) m = (if c = 0 then [] else [of_nat c])"
  shows "counts_of (FsEv f) (count_event reach m e) =
    (if event_eq e (FsEv f) then [of_nat (Suc c)] else counts_of (FsEv f) m)"
proof (cases "find_idx (\<lambda>(k, n). finds_entry reach k e) m")
  case None
  then have none: "\<forall>x \<in> set m. \<not> finds_entry reach (fst x) e"
    by (auto simp: find_idx_None)
  have "c = 0" if eq: "event_eq e (FsEv f)"
  proof -
    obtain g where e: "e = FsEv g" by (cases e) (use eq in auto)
    have "filter (\<lambda>(k, n). event_eq k (FsEv f)) m = []"
      using none eq event_eq_equivalence(2,3) unfolding e filter_empty_conv finds_fs_entry
      by (metis case_prod_beta)
    then show "c = 0" using assms by (auto simp: counts_of_def split: if_splits)
  qed
  then show ?thesis using None assms by (auto simp: count_event_def counts_of_def)
next
  case (Some i)
  then have i: "i < length m" "finds_entry reach (fst (m ! i)) e"
    using find_idx_Some [of "\<lambda>(k, n). finds_entry reach k e" m i] by (auto simp: case_prod_beta)
  have upd: "count_event reach m e = m[i := (fst (m ! i), snd (m ! i) + 1)]"
    using Some by (simp add: count_event_def)
  have k: "event_eq (fst (m ! i)) (FsEv f) \<longleftrightarrow> event_eq e (FsEv f)"
    using finds_entry_eq [OF i(2)] event_eq_equivalence(2,3) by metis
  show ?thesis
  proof (cases "event_eq e (FsEv f)")
    case True
    have "m ! i \<in> set (filter (\<lambda>(k, n). event_eq k (FsEv f)) m)"
      using i(1) True k by (simp add: case_prod_beta)
    then have "counts_of (FsEv f) m \<noteq> []"
      by (metis counts_of_def empty_iff list.map_disc_iff list.set(1))
    then have "counts_of (FsEv f) m = [of_nat c]" using assms by (simp split: if_splits)
    then show ?thesis
      unfolding upd using counts_of_update [OF i(1)] True k by (simp add: add.commute)
  next
    case False
    then show ?thesis unfolding upd using counts_of_update_other [OF i(1)] k by simp
  qed
qed

text \<open>The decoded events of a stream of raw ones.\<close>

definition decoded :: "Layouts \<Rightarrow> EncodedEvent list \<Rightarrow> Event list" where
  "decoded L raws = List.map_filter (\<lambda>r. case transform_event L r of Inr e \<Rightarrow> Some e | Inl _ \<Rightarrow> None) raws"

lemma counted_fs_events:
  "counts_of (FsEv f) (simple_event_reader L reach [] raws) =
     (let c = length (filter (\<lambda>e. event_eq e (FsEv f)) (decoded L raws))
      in if c = 0 then [] else [of_nat c])"
proof (induction raws rule: rev_induct)
  case Nil
  show ?case by (simp add: simple_event_reader_def counts_of_def decoded_def List.map_filter_simps)
next
  case (snoc raw raws)
  let ?m = "simple_event_reader L reach [] raws"
  have step: "simple_event_reader L reach [] (raws @ [raw]) = read_event L reach ?m raw"
    by (simp add: simple_event_reader_def)
  show ?case
  proof (cases "transform_event L raw")
    case (Inl err)
    then show ?thesis
      using snoc.IH unfolding step by (simp add: read_event_def decoded_def List.map_filter_def)
  next
    case (Inr e)
    then have "decoded L (raws @ [raw]) = decoded L raws @ [e]"
      by (simp add: decoded_def List.map_filter_def)
    then show ?thesis
      using counts_of_count_event [OF snoc.IH [unfolded Let_def], of reach e] Inr snoc.IH
      unfolding step by (simp add: read_event_def Let_def)
  qed
qed


section \<open>A profile that is exported is translated\<close>

text \<open>The rule for each exported event.\<close>

definition fs_rule :: "FsEvent \<Rightarrow> RuleId \<Rightarrow> BehaviorRule" where
  "fs_rule e i =
     \<lparr>r_id = i,
      r_subject = \<lparr>sub_container = event_container (pc_cgroup_id (fe_process_ctx e)),
        sub_binary = event_binary (pc_executable (fe_process_ctx e)), sub_uid = Some (pc_uid (fe_process_ctx e))\<rparr>,
      r_object = File \<lparr>fo_pattern = (if fe_path_pattern e = Regular then ExactPath (fe_path e)
          else Classified (fe_path_pattern e)), fo_is_sensitive = (fe_is_sensitive e \<noteq> 0)\<rparr>,
      r_action = (if fe_r_w e = 1 then FileWrite else FileRead), r_verdict = Allow,
      r_metadata = event_metadata Fs (ucast (fe_freq e))\<rparr>"

definition network_rule :: "NetworkEvent \<Rightarrow> RuleId \<Rightarrow> BehaviorRule" where
  "network_rule e i =
     \<lparr>r_id = i,
      r_subject = \<lparr>sub_container = event_container (pc_cgroup_id (ne_process_ctx e)),
        sub_binary = event_binary (pc_executable (ne_process_ctx e)), sub_uid = Some (pc_uid (ne_process_ctx e))\<rparr>,
      r_object = Network \<lparr>no_dst_ip = Some (ne_dst_ip e), no_dst_port = Some (ne_dst_port e),
        no_protocol = Some (if ne_protocol e = 6 \<or> ne_protocol e = 17 then ne_protocol e else 0),
        no_direction = Some (if ne_direction e = Egress then 1 else 0)\<rparr>,
      r_action = (if ne_direction e = Egress then NetConnect else NetBind), r_verdict = Allow,
      r_metadata = event_metadata Net (ucast (ne_freq e))\<rparr>"

definition process_rule :: "ProcessEvent \<Rightarrow> RuleId \<Rightarrow> BehaviorRule" where
  "process_rule e i =
     \<lparr>r_id = i,
      r_subject = \<lparr>sub_container = event_container (pe_cgroup_id e), sub_binary = None,
        sub_uid = Some (pc_uid (pe_process_ctx e))\<rparr>,
      r_object = Process \<lparr>po_binary = Path (pe_exec_path e)\<rparr>,
      r_action = (if pe_ps_type e = Execve then ProcExec else ProcFork), r_verdict = Allow,
      r_metadata = event_metadata Proc (ucast (pe_freq e))\<rparr>"

text \<open>The events of a map by kind, with their counts.\<close>

definition fs_of :: "EventMap \<Rightarrow> FsEvent list" where
  "fs_of m = List.map_filter (\<lambda>(k, n). case k of FsEv e \<Rightarrow> Some (e\<lparr>fe_freq := n\<rparr>) | _ \<Rightarrow> None) m"

definition network_of :: "EventMap \<Rightarrow> NetworkEvent list" where
  "network_of m = List.map_filter (\<lambda>(k, n). case k of NetworkEv e \<Rightarrow> Some (e\<lparr>ne_freq := n\<rparr>) | _ \<Rightarrow> None) m"

definition process_of :: "EventMap \<Rightarrow> ProcessEvent list" where
  "process_of m = List.map_filter (\<lambda>(k, n). case k of ProcessEv e \<Rightarrow> Some (e\<lparr>pe_freq := n\<rparr>) | _ \<Rightarrow> None) m"

lemma exported_lists:
  "foldl add_exported a m = a\<lparr>ae_network := ae_network a @ network_of m, ae_fs := ae_fs a @ fs_of m,
     ae_process := ae_process a @ process_of m\<rparr>"
proof (induction m arbitrary: a)
  case (Cons x m)
  obtain k n where "x = (k, n)" by (cases x)
  then show ?case
    by (cases k) (simp_all add: Cons.IH network_of_def fs_of_def process_of_def List.map_filter_simps)
qed (simp add: network_of_def fs_of_def process_of_def List.map_filter_simps)

lemma octet_of: "unat (ip AND 0xFF :: u32) = unat (ucast ip :: u8)"
proof -
  have "ip AND 0xFF = take_bit 8 ip" by (simp add: take_bit_eq_mask mask_eq_exp_minus_1)
  then show ?thesis by (simp add: unsigned_take_bit_eq unsigned_ucast_eq)
qed

lemma serialize_ip_dotted: "serialize_ip ip = ipv4_dotted ip"
  by (simp add: serialize_ip_def format_ip_def ipv4_dotted_def to_le_bytes_def octet_of)

lemma parse_ip_serialize: "parse_ip_str (serialize_ip ip) = ip"
proof -
  obtain a b c d where abcd: "to_le_bytes ip = (a, b, c, d)" by (metis prod_cases4)
  show ?thesis
    using from_to_le_bytes [OF abcd]
    by (simp add: serialize_ip_dotted parse_ip_str_def split_ipv4 [OF abcd] List.map_filter_simps)
qed

lemma json_get_simps [simp]:
  "json_get key (JObject ((k, v) # kvs)) = (if key = k then Some v else json_get key (JObject kvs))"
  "as_json_str (JString s) = Some s" "as_u64 (j_u64 w) = Some w"
  by (auto simp: json_get_def as_json_str_def as_u64_def j_u64_def)

text \<open>\<open>started n\<close>: the translator after \<open>n\<close> events.\<close>

definition started :: "nat \<Rightarrow> ProfileTranslator" where
  "started n = \<lparr>t_next_id = of_nat (Suc n), t_default_verdict = Allow\<rparr>"

lemma show_nat_not_name: "show_nat n \<noteq> CHR ''T'' # s" "show_nat n \<noteq> CHR ''U'' # s"
  using show_nat_digits [of "CHR ''T''" n] show_nat_digits [of "CHR ''U''" n]
  by (auto simp: is_digit_def less_eq_char_def)

lemma widen_back [simp]:
  "ucast (ucast (w :: u32) :: u64) = w" "(ucast (b :: u8) :: u64) = 0 \<longleftrightarrow> b = 0"
proof -
  have "(ucast (ucast b :: u64) :: u8) = b" by (simp add: ucast_down_ucast_id is_down)
  then show "(ucast b :: u64) = 0 \<longleftrightarrow> b = 0" by (metis unsigned_0)
qed (simp add: ucast_down_ucast_id is_down)

lemma translate_exported:
  "(\<And>p. pfv (JString (variant_name p)) = Some p) \<Longrightarrow>
     translate_fs_json pfv (rules, started n) (fs_event_value f)
       = (rules @ [fs_rule f (of_nat (Suc n))], started (Suc n))"
  "translate_network_json (rules, started n) (network_event_value w)
     = (rules @ [network_rule w (of_nat (Suc n))], started (Suc n))"
  "translate_process_json (rules, started n) (process_event_value p)
     = (rules @ [process_rule p (of_nat (Suc n))], started (Suc n))"
  by (simp_all add: translate_fs_json_def translate_fs_event_def fs_event_value_def translate_network_json_def
      translate_network_event_def network_event_value_def translate_process_json_def
      translate_process_event_def process_event_value_def process_ctx_value_def alloc_id_def started_def
      get_str_def get_u64_def ctx_str_def ctx_u64_def unwrap_or_def fs_rule_def network_rule_def
      process_rule_def serialize_r_w_def serialize_direction_def serialize_ps_type_def
      serialize_protocol_def parse_ip_serialize show_nat_not_name j_u32_def j_u8_def Let_def)

text \<open>A translation step per event numbers the rules on.\<close>

lemma translate_fold:
  assumes "\<And>rules n x. f (rules, started n) (g x) = (rules @ [rule x (of_nat (Suc n))], started (Suc n))"
  shows "foldl f (rules, started n) (map g xs)
    = (rules @ map (\<lambda>(i, r). r (of_nat (Suc i))) (enumerate n (map rule xs)), started (n + length xs))"
proof (induction xs arbitrary: rules n)
  case (Cons x xs)
  then show ?case by (simp add: assms)
qed simp

lemma enumerate_append: "enumerate n (xs @ ys) = enumerate n xs @ enumerate (n + length xs) ys"
  by (induction xs arbitrary: n) simp_all

lemma translate_document:
  assumes "from_str json_str = Inr (all_events_value (exported_events m cgroup))"
    and "\<And>p. pattern_from_value (JString (variant_name p)) = Some p"
  shows "translate_all_events_json from_str pattern_from_value json_str
    = Inr (map (\<lambda>(i, r). r (of_nat (Suc i)))
        (enumerate 0 (map fs_rule (fs_of m) @ map network_rule (network_of m) @ map process_rule (process_of m))))"
proof -
  let ?a = "exported_events m cgroup"
  have lists: "ae_fs ?a = fs_of m" "ae_network ?a = network_of m" "ae_process ?a = process_of m"
    by (simp_all add: exported_events_def exported_lists)
  have evs: "events_of ''fs'' (all_events_value ?a) = map fs_event_value (fs_of m)"
    "events_of ''network'' (all_events_value ?a) = map network_event_value (network_of m)"
    "events_of ''process'' (all_events_value ?a) = map process_event_value (process_of m)"
    by (simp_all add: events_of_def all_events_value_def as_array_def unwrap_or_def lists)
  have start: "with_default_verdict new_translator Allow = started 0"
    by (simp add: with_default_verdict_def new_translator_def started_def)
  note folds = translate_fold [where f = "translate_fs_json pattern_from_value", OF translate_exported(1) [OF assms(2)]]
    translate_fold [where f = translate_network_json, OF translate_exported(2)]
    translate_fold [where f = translate_process_json, OF translate_exported(3)]
  show ?thesis
    unfolding translate_all_events_json_def assms(1) sum.case evs start Let_def folds
    by (simp add: enumerate_append)
qed

text \<open>
  C8: exporting and translating a profile gives the rules of its events. If the JSON parser reads
  back the document that the JSON printer wrote, then translating the exported file yields, numbered from 1, the file
  rules, the network rules and the process rules of the entries of the map, each with the path or class,
  the address, port and direction, the owner, executable and control group, and the count that the event
  had; no event is lost and none is added.
\<close>

theorem exported_profile_translates:
  assumes "from_str (export_events_to_json to_string_pretty m cgroup)
      = Inr (all_events_value (exported_events m cgroup))"
    and "\<And>p. pattern_from_value (JString (variant_name p)) = Some p"
  shows "translate_all_events_json from_str pattern_from_value (export_events_to_json to_string_pretty m cgroup)
    = Inr (map (\<lambda>(i, r). r (of_nat (Suc i)))
        (enumerate 0 (map fs_rule (fs_of m) @ map network_rule (network_of m) @ map process_rule (process_of m))))"
  by (rule translate_document) (rule assms)+

definition sample_ctx :: ProcessContext where
  "sample_ctx = \<lparr>pc_executable = ''/bin/cat'', pc_comm = ''cat'', pc_uid = 0, pc_gid = 0, pc_tgid = 9,
     pc_cgroup_id = 7\<rparr>"

definition sample_counts :: EventMap where
  "sample_counts =
     [(NetworkEv \<lparr>ne_process_ctx = sample_ctx, ne_comm = ''cat'', ne_sk_type = 0, ne_skc_family = 0,
        ne_protocol = 6, ne_doff_flags = 2, ne_src_ip = 1, ne_src_port = 40000, ne_dst_ip = 0x0100007F,
        ne_dst_port = 443, ne_direction = Egress, ne_freq = 0\<rparr>, 3),
      (FsEv \<lparr>fe_process_ctx = sample_ctx, fe_path = ''/etc/hosts'', fe_sym_path = '''', fe_inode = 3,
        fe_owner_uid = 0, fe_r_w = 0, fe_is_symlink = 0, fe_path_pattern = Regular, fe_is_sensitive = 0,
        fe_is_cross_process = 0, fe_freq = 1\<rparr>, 5)]"

definition sample_pattern_from_value :: "Value \<Rightarrow> PathPattern option" where
  "sample_pattern_from_value v = (case v of JString s \<Rightarrow> pattern_of_name s | _ \<Rightarrow> None)"

theorem exported_profile_translates_witness:
  "\<exists>r1 r2. translate_all_events_json (\<lambda>_. Inr (all_events_value (exported_events sample_counts 7)))
       sample_pattern_from_value (export_events_to_json (\<lambda>v. ''profile'') sample_counts 7) = Inr [r1, r2]
     \<and> r_object r1 = File \<lparr>fo_pattern = ExactPath ''/etc/hosts'', fo_is_sensitive = False\<rparr>
     \<and> r_action r1 = FileRead \<and> r_action r2 = NetConnect"
proof -
  have p: "sample_pattern_from_value (JString (variant_name p)) = Some p" for p
    by (simp add: sample_pattern_from_value_def)
  show ?thesis
    using exported_profile_translates [where pattern_from_value = sample_pattern_from_value
        and from_str = "\<lambda>_. Inr (all_events_value (exported_events sample_counts 7))"
        and to_string_pretty = "\<lambda>v. ''profile''" and m = sample_counts and cgroup = 7, OF refl p]
    by (simp add: sample_counts_def fs_of_def network_of_def process_of_def List.map_filter_simps
        fs_rule_def network_rule_def)
qed

end
