(* ===== verification/Container.thy ===== *)
theory Container
  imports RustStr
begin

text \<open>
  Resolving and watching a container, \<open>ebpf-mon/src/container.rs\<close>.

  The docker command and the file system are the parameter \<open>Host\<close>: what a command prints, the inode number
  of a path, the text of a file. They may answer differently at every call of the watcher. The regular
  expression for the scope of a cgroup path is a parameter too.
\<close>

section \<open>The host\<close>

datatype ErrorKind = NotFound | InvalidData | OtherKind

record IoError =
  ie_kind :: ErrorKind
  ie_message :: string

record Output =
  out_success :: bool
  out_stdout :: string
  out_stderr :: string

record Host =
  hw_docker :: "string list \<Rightarrow> IoError + Output"
  hw_metadata :: "string \<Rightarrow> IoError + u64"
  hw_read_to_string :: "string \<Rightarrow> IoError + string"

text \<open>
  \<open>docker inspect\<close> with a format, as four of the functions call it: a failing command is an error with
  the name and the trimmed error output.
\<close>

definition not_found :: "string \<Rightarrow> string \<Rightarrow> IoError" where
  "not_found name stderr =
     \<lparr>ie_kind = NotFound, ie_message =
        ''Container '' @ [CHR 0x27] @ name @ [CHR 0x27] @ '' not found: '' @ trim (from_utf8_lossy stderr)\<rparr>"

definition inspect_text :: "Host \<Rightarrow> string \<Rightarrow> string \<Rightarrow> IoError + string" where
  "inspect_text H fmt name =
     (case hw_docker H [''inspect'', ''--format'', fmt, name] of
        Inl e \<Rightarrow> Inl e
      | Inr output \<Rightarrow>
          if \<not> out_success output then Inl (not_found name (out_stderr output))
          else Inr (from_utf8_lossy (out_stdout output)))"

definition get_container_id_by_name :: "Host \<Rightarrow> string \<Rightarrow> IoError + string" where
  "get_container_id_by_name H name = map_sum id trim (inspect_text H ''{{.Id}}'' name)"

definition get_container_name :: "Host \<Rightarrow> string \<Rightarrow> IoError + string" where
  "get_container_name H container_id =
     map_sum id (\<lambda>t. dropWhile (\<lambda>c. c = CHR ''/'') (trim t)) (inspect_text H ''{{.Name}}'' container_id)"

definition get_full_container_id :: "Host \<Rightarrow> string \<Rightarrow> IoError + string" where
  "get_full_container_id H short_id = map_sum id trim (inspect_text H ''{{.Id}}'' short_id)"

definition get_container_state :: "Host \<Rightarrow> string \<Rightarrow> IoError + string \<times> bool" where
  "get_container_state H name =
     (case inspect_text H ''{{.Id}} {{.State.Running}}'' name of
        Inl e \<Rightarrow> Inl e
      | Inr output_str \<Rightarrow>
          (let parts = split_whitespace (trim output_str) in
           if length parts \<noteq> 2 then
             Inl \<lparr>ie_kind = InvalidData, ie_message = ''Unexpected docker inspect output: '' @ output_str\<rparr>
           else Inr (parts ! 0, parts ! 1 = ''true'')))"

text \<open>The text of \<open>ParseIntError\<close>.\<close>

definition parse_int_error :: "string \<Rightarrow> string" where
  "parse_int_error s =
     (if s = [] then ''cannot parse integer from empty string''
      else
        let ds = (if hd s = CHR ''+'' \<and> tl s \<noteq> [] then tl s else s)
        in if list_all is_digit ds then ''number too large to fit in target type''
           else ''invalid digit found in string'')"

definition get_container_pid :: "Host \<Rightarrow> string \<Rightarrow> IoError + u32" where
  "get_container_pid H container_id =
     (case hw_docker H [''inspect'', ''--format'', ''{{.State.Pid}}'', container_id] of
        Inl e \<Rightarrow> Inl e
      | Inr output \<Rightarrow>
          if \<not> out_success output then Inl \<lparr>ie_kind = OtherKind, ie_message = ''docker inspect failed''\<rparr>
          else
            let pid_str = trim (from_utf8_lossy (out_stdout output))
            in case parse_u32 pid_str of
                 Some pid \<Rightarrow> Inr pid
               | None \<Rightarrow> Inl \<lparr>ie_kind = InvalidData,
                             ie_message = ''Invalid PID: '' @ parse_int_error pid_str\<rparr>)"

text \<open>\<open>splitn(3, ':').nth(2)\<close>: what follows the second colon.\<close>

definition third_field :: "string \<Rightarrow> string option" where
  "third_field line =
     (case find_idx (\<lambda>c. c = CHR '':'') line of
        None \<Rightarrow> None
      | Some i \<Rightarrow>
          (let rest = drop (Suc i) line
           in map_option (\<lambda>j. drop (Suc j) rest) (find_idx (\<lambda>c. c = CHR '':'') rest)))"

definition get_cgroup_rel_path :: "Host \<Rightarrow> u32 \<Rightarrow> IoError + string" where
  "get_cgroup_rel_path H pid =
     (case hw_read_to_string H (''/proc/'' @ show_nat (unat pid) @ ''/cgroup'') of
        Inl e \<Rightarrow> Inl e
      | Inr content \<Rightarrow>
          (case List.map_filter third_field (rust_lines content) of
             [] \<Rightarrow> Inl \<lparr>ie_kind = NotFound, ie_message = ''Cgroup path not found''\<rparr>
           | path # _ \<Rightarrow> Inr (trim path)))"

definition container_id_to_cgroup_path :: "Host \<Rightarrow> string \<Rightarrow> IoError + string" where
  "container_id_to_cgroup_path H container_id =
     (let cgroup_v2_path = ''/sys/fs/cgroup/system.slice/docker-'' @ container_id @ ''.scope'';
          cgroup_v1_path = ''/sys/fs/cgroup/memory/docker/'' @ container_id
      in if \<not> isl (hw_metadata H cgroup_v2_path) then Inr cgroup_v2_path
         else if \<not> isl (hw_metadata H cgroup_v1_path) then Inr cgroup_v1_path
         else case get_container_pid H container_id of
             Inl e \<Rightarrow> Inl e
           | Inr pid \<Rightarrow>
               (case get_cgroup_rel_path H pid of
                  Inl e \<Rightarrow> Inl e
                | Inr rel_path \<Rightarrow> Inr (''/sys/fs/cgroup'' @ rel_path)))"

definition get_cgroup_id_from_path :: "Host \<Rightarrow> string \<Rightarrow> IoError + u64" where
  "get_cgroup_id_from_path H cgroup_path = hw_metadata H cgroup_path"

text \<open>\<open>docker_scope\<close>: the group that \<open>docker-([a-f0-9]{64})\.scope\<close> captures.\<close>

definition is_ascii_hexdigit :: "char \<Rightarrow> bool" where
  "is_ascii_hexdigit c =
     (is_digit c \<or> (CHR ''a'' \<le> c \<and> c \<le> CHR ''f'') \<or> (CHR ''A'' \<le> c \<and> c \<le> CHR ''F''))"

definition extract_container_id_from_cgroup_path :: "(string \<Rightarrow> string option) \<Rightarrow> string \<Rightarrow> string option" where
  "extract_container_id_from_cgroup_path docker_scope cgroup_path =
     (case docker_scope cgroup_path of
        Some i \<Rightarrow> Some i
      | None \<Rightarrow>
          if find_sub ''/docker/'' cgroup_path \<noteq> None then
            (let i = last (split_on CHR ''/'' cgroup_path)
             in if length i = 64 \<and> list_all is_ascii_hexdigit i then Some i else None)
          else None)"

section \<open>The container to track\<close>

datatype ContainerIdentifier = Name string | ContainerId string | CgroupPath string

record TrackedContainer =
  tc_name :: "string option"
  tc_current_id :: string
  tc_current_cgroup_id :: u64
  tc_current_cgroup_path :: string
  tc_restart_tracking_enabled :: bool

fun from_identifier :: "Host \<Rightarrow> (string \<Rightarrow> string option) \<Rightarrow> ContainerIdentifier \<Rightarrow> IoError + TrackedContainer" where
  "from_identifier H docker_scope (Name name) =
     and_then (get_container_id_by_name H name) (\<lambda>container_id.
     and_then (container_id_to_cgroup_path H container_id) (\<lambda>cgroup_path.
     and_then (get_cgroup_id_from_path H cgroup_path) (\<lambda>cgroup_id.
     Inr \<lparr>tc_name = Some name, tc_current_id = container_id, tc_current_cgroup_id = cgroup_id,
          tc_current_cgroup_path = cgroup_path, tc_restart_tracking_enabled = True\<rparr>)))"
| "from_identifier H docker_scope (ContainerId i) =
     and_then (get_full_container_id H i) (\<lambda>full_id.
     and_then (container_id_to_cgroup_path H full_id) (\<lambda>cgroup_path.
     and_then (get_cgroup_id_from_path H cgroup_path) (\<lambda>cgroup_id.
     let (name, enabled) =
       (case get_container_name H full_id of Inr name \<Rightarrow> (Some name, True) | Inl e \<Rightarrow> (None, False))
     in Inr \<lparr>tc_name = name, tc_current_id = full_id, tc_current_cgroup_id = cgroup_id,
          tc_current_cgroup_path = cgroup_path, tc_restart_tracking_enabled = enabled\<rparr>)))"
| "from_identifier H docker_scope (CgroupPath path) =
     and_then (get_cgroup_id_from_path H path) (\<lambda>cgroup_id.
     Inr \<lparr>tc_name = None,
          tc_current_id = (case extract_container_id_from_cgroup_path docker_scope path of
            Some i \<Rightarrow> i | None \<Rightarrow> ''unknown''),
          tc_current_cgroup_id = cgroup_id, tc_current_cgroup_path = path,
          tc_restart_tracking_enabled = False\<rparr>)"

text \<open>The lines that \<open>log_startup_info\<close> logs; \<open>{:.12}\<close> are the first twelve characters.\<close>

definition startup_info :: "TrackedContainer \<Rightarrow> string list" where
  "startup_info tc =
     [''=== Container Tracking Configuration ===''] @
     (case tc_name tc of Some name \<Rightarrow> [''  Name: '' @ name] | None \<Rightarrow> []) @
     [''  Container ID: '' @ concat (take 12 (rust_chars (tc_current_id tc))) @ ''...'',
      ''  Cgroup ID: '' @ show_nat (unat (tc_current_cgroup_id tc)),
      ''  Cgroup Path: '' @ tc_current_cgroup_path tc,
      ''  Restart Tracking: '' @ (if tc_restart_tracking_enabled tc then ''ENABLED'' else ''DISABLED''),
      ''========================================'']"

text \<open>Restarts are followed exactly when the container has a name to find it by.\<close>

lemma tracking_needs_name:
  "from_identifier H docker_scope ident = Inr tc \<Longrightarrow>
    tc_restart_tracking_enabled tc = (tc_name tc \<noteq> None)"
  by (cases ident) (auto simp: and_then_def Let_def split: sum.splits prod.splits)

section \<open>The watcher\<close>

datatype ContainerStateChange = Stopped | Started string u64 string | Error string

text \<open>The variables of the watcher's loop; the interval is in milliseconds.\<close>

record Watcher =
  wt_current_id :: string
  wt_current_cgroup_id :: u64
  wt_was_running :: bool
  wt_poll_interval :: nat

definition watcher_start :: "string \<Rightarrow> u64 \<Rightarrow> Watcher" where
  "watcher_start initial_id initial_cgroup_id =
     \<lparr>wt_current_id = initial_id, wt_current_cgroup_id = initial_cgroup_id, wt_was_running = True,
      wt_poll_interval = 2000\<rparr>"

definition send_cgroup_update :: "Host \<Rightarrow> string \<Rightarrow> Watcher \<Rightarrow> Watcher \<times> ContainerStateChange list" where
  "send_cgroup_update H container_id w =
     (let w = w\<lparr>wt_current_id := container_id\<rparr> in
      case container_id_to_cgroup_path H container_id of
        Inl e \<Rightarrow> (w, [Error (''Failed to resolve cgroup path: '' @ ie_message e)])
      | Inr cgroup_path \<Rightarrow>
          (case get_cgroup_id_from_path H cgroup_path of
             Inl e \<Rightarrow> (w, [Error (''Failed to get cgroup ID: '' @ ie_message e)])
           | Inr new_cgroup_id \<Rightarrow>
               (w\<lparr>wt_current_cgroup_id := new_cgroup_id\<rparr>, [Started container_id new_cgroup_id cgroup_path])))"

text \<open>A running container whose cgroup has changed between two polls.\<close>

definition check_running :: "Host \<Rightarrow> string \<Rightarrow> Watcher \<Rightarrow> Watcher \<times> ContainerStateChange list" where
  "check_running H container_id w =
     (case container_id_to_cgroup_path H container_id of
        Inl e \<Rightarrow> (w, [])
      | Inr cgroup_path \<Rightarrow>
          (case get_cgroup_id_from_path H cgroup_path of
             Inl e \<Rightarrow> (w, [])
           | Inr new_cgroup_id \<Rightarrow>
               if new_cgroup_id \<noteq> wt_current_cgroup_id w then
                 (w\<lparr>wt_current_id := container_id, wt_current_cgroup_id := new_cgroup_id\<rparr>,
                  [Started container_id new_cgroup_id cgroup_path])
               else (w, [])))"

text \<open>One iteration: the state after it, the changes sent, and whether the loop goes on.\<close>

definition poll :: "Host \<Rightarrow> string \<Rightarrow> Watcher \<Rightarrow> Watcher \<times> ContainerStateChange list \<times> bool" where
  "poll H container_name w =
     (case get_container_state H container_name of
        Inr (container_id, is_running) \<Rightarrow>
          if \<not> is_running \<and> wt_was_running w then
            (w\<lparr>wt_was_running := False, wt_poll_interval := 100\<rparr>, [Stopped], True)
          else if is_running \<and> \<not> wt_was_running w then
            (case send_cgroup_update H container_id (w\<lparr>wt_was_running := True, wt_poll_interval := 2000\<rparr>) of
               (w, sent) \<Rightarrow> (w, sent, True))
          else if is_running then
            (case check_running H container_id w of (w, sent) \<Rightarrow> (w, sent, True))
          else (w, [], True)
      | Inl e \<Rightarrow>
          if ie_kind e = NotFound then
            (if wt_was_running w then
               (w, [Error (''Container '' @ [CHR 0x27] @ container_name @ [CHR 0x27] @ '' was removed'')], False)
             else (w\<lparr>wt_poll_interval := 5000\<rparr>, [], True))
          else (w, [Error (ie_message e)], True))"

section \<open>What the watcher reports\<close>

text \<open>The cgroup that a reader of the changes believes in.\<close>

fun believed :: "u64 \<Rightarrow> ContainerStateChange list \<Rightarrow> u64" where
  "believed c [] = c"
| "believed c (Started i c' p # ms) = believed c' ms"
| "believed c (m # ms) = believed c ms"

lemma believed_append [simp]: "believed c (ms @ ns) = believed (believed c ms) ns"
  by (induction c ms rule: believed.induct) simp_all

lemma poll_believed:
  "poll H name w = (w', sent, go) \<Longrightarrow> believed (wt_current_cgroup_id w) sent = wt_current_cgroup_id w'"
  by (auto simp: poll_def send_cgroup_update_def check_running_def Let_def
      split: sum.splits prod.splits if_splits)

text \<open>The loop ends by itself only after reporting that the container was removed.\<close>

lemma poll_ends:
  "poll H name w = (w', sent, False) \<Longrightarrow>
     sent = [Error (''Container '' @ [CHR 0x27] @ name @ [CHR 0x27] @ '' was removed'')]"
  by (auto simp: poll_def split: sum.splits prod.splits if_splits)

text \<open>Restarts are tracked exactly for containers with a known name.\<close>

lemma tracked_by_name:
  "from_identifier H sc ident = Inr t \<Longrightarrow> tc_restart_tracking_enabled t \<longleftrightarrow> tc_name t \<noteq> None"
  by (cases ident) (auto simp: and_then_def Let_def split: sum.splits)

section \<open>How the loop ends\<close>

text \<open>
  The loop over the hosts that the polls find, while the stop flag is not set: the state after the last
  poll, the changes sent, and whether the loop still runs.
\<close>

fun watch :: "Host list \<Rightarrow> string \<Rightarrow> Watcher \<Rightarrow> Watcher \<times> ContainerStateChange list \<times> bool" where
  "watch [] name w = (w, [], True)"
| "watch (H # hs) name w =
     (case poll H name w of
        (w, sent, go) \<Rightarrow>
          if go then (case watch hs name w of (w, later, go) \<Rightarrow> (w, sent @ later, go)) else (w, sent, False))"

lemma watch_append:
  "watch (hs @ hs') name w =
     (case watch hs name w of
        (w, sent, go) \<Rightarrow>
          if go then (case watch hs' name w of (w, later, go) \<Rightarrow> (w, sent @ later, go)) else (w, sent, False))"
  by (induction hs arbitrary: w) (simp_all split: prod.split)

lemma watch_stopped: "watch hs name w = (w', sent, False) \<Longrightarrow> sent \<noteq> []"
  by (induction hs arbitrary: w sent) (auto split: prod.splits if_splits dest: poll_ends)

definition gone :: "string \<Rightarrow> Host \<Rightarrow> bool" where
  "gone name H = (case get_container_state H name of Inl e \<Rightarrow> ie_kind e = NotFound | Inr st \<Rightarrow> False)"

lemma watch_gone:
  assumes "list_all (gone name) hs" and "hs \<noteq> []"
  shows "watch hs name w =
    (if wt_was_running w then (w, [Error (''Container '' @ [CHR 0x27] @ name @ [CHR 0x27] @ '' was removed'')], False)
     else (w\<lparr>wt_poll_interval := 5000\<rparr>, [], True))"
  using assms
proof (induction hs arbitrary: w)
  case (Cons H hs)
  then show ?case by (cases "hs = []") (auto simp: poll_def gone_def split: sum.splits)
qed simp

text \<open>
  C12: the watcher ends when its container is gone. Whatever the polls before found, once every poll finds
  no container of the name, a watcher that had seen it running reports the removal and ends with the first
  such poll; one that had seen it stop waits for it to come back, reports nothing, and polls every five seconds.
\<close>

theorem watcher_ends:
  assumes "list_all (gone name) hs" and "hs \<noteq> []" and "watch before name w = (v, sent, True)"
  shows "watch (before @ hs) name w =
    (if wt_was_running v
     then (v, sent @ [Error (''Container '' @ [CHR 0x27] @ name @ [CHR 0x27] @ '' was removed'')], False)
     else (v\<lparr>wt_poll_interval := 5000\<rparr>, sent, True))"
  by (simp add: watch_append assms(3) watch_gone [OF assms(1,2)])

text \<open>A host without containers, and one on which every container is stopped.\<close>

definition empty_host :: Host where
  "empty_host = \<lparr>hw_docker = (\<lambda>args. Inr \<lparr>out_success = False, out_stdout = '''', out_stderr = ''''\<rparr>),
     hw_metadata = (\<lambda>p. Inr 9), hw_read_to_string = (\<lambda>p. Inl \<lparr>ie_kind = NotFound, ie_message = ''''\<rparr>)\<rparr>"

definition stopped_host :: Host where
  "stopped_host = empty_host\<lparr>hw_docker := (\<lambda>args. Inr \<lparr>out_success = True, out_stdout = ''a1 false'', out_stderr = ''''\<rparr>)\<rparr>"

theorem watcher_ends_witness:
  "snd (snd (watch [empty_host] ''web'' (watcher_start ''a1'' 7))) = False
   \<and> snd (snd (watch [stopped_host, empty_host, empty_host] ''web'' (watcher_start ''a1'' 7))) = True"
proof -
  have gone: "list_all (gone ''web'') [empty_host]" "list_all (gone ''web'') [empty_host, empty_host]" by code_simp+
  have stopped: "watch [stopped_host] ''web'' (watcher_start ''a1'' 7)
      = (watcher_start ''a1'' 7\<lparr>wt_was_running := False, wt_poll_interval := 100\<rparr>, [Stopped], True)"
    by code_simp
  show ?thesis
    using watcher_ends [OF gone(1) _ watch.simps(1), of "watcher_start ''a1'' 7"]
      watcher_ends [OF gone(2) _ stopped]
    by (simp add: watcher_start_def)
qed

end
