(* ===== verification/Restart.thy ===== *)
theory Restart
  imports Container Enforcement
begin

text \<open>
  What happens when the tracked container restarts: the task in \<open>ebpf-mon/src/main.rs\<close> that receives the
  watcher's changes and moves the filter of the monitor and the enforced policy to the new control group.

  The map \<open>CGROUPS\<close> that the monitoring programs filter by is a parameter with the laws of a hash map
  (locale \<open>cgroup_filter\<close>); it is an object of its own, with a state apart from that of the enforcement maps.
  Watcher, channel and receiving task run concurrently: \<open>restart_step\<close> interleaves them.
\<close>

section \<open>The filter of the monitor\<close>

definition CGROUPS_MAX :: nat where "CGROUPS_MAX = 32"

definition filter_laws :: "('c, u64, u32) MapOps \<Rightarrow> bool" where
  "filter_laws C = (map_law (mo_get C) (\<lambda>f. f) C \<and> room_law (mo_get C) CGROUPS_MAX C)"

definition cgroup_exists :: "('c, u64, u32) MapOps \<Rightarrow> 'c \<Rightarrow> u64 \<Rightarrow> bool" where
  "cgroup_exists C c cgroup = (mo_get C c cgroup \<noteq> None)"

locale cgroup_filter =
  fixes C :: "('c, u64, u32) MapOps"
  assumes laws: "filter_laws C"
begin

lemma filter_insert:
  assumes "card (dom (mo_get C c)) < CGROUPS_MAX"
  shows "mo_get C (fst (mo_insert C c k v)) = (mo_get C c)(k \<mapsto> v)"
proof -
  have "snd (mo_insert C c k v) = Inr ()" using laws assms by (auto simp: filter_laws_def room_law_def)
  then show ?thesis
    using laws by (cases "mo_insert C c k v") (fastforce simp: filter_laws_def map_law_def)
qed

lemma filter_remove:
  assumes "mo_get C c k \<noteq> None"
  shows "mo_get C (fst (mo_remove C c k)) = (mo_get C c)(k := None)"
proof -
  have "snd (mo_remove C c k) = Inr ()" using laws assms by (auto simp: filter_laws_def room_law_def)
  then show ?thesis
    using laws by (cases "mo_remove C c k") (fastforce simp: filter_laws_def map_law_def)
qed

end

definition list_filter :: "((u64 \<times> u32) list, u64, u32) MapOps" where
  "list_filter = hash_ops id id CGROUPS_MAX"

lemma list_filter_laws: "filter_laws list_filter"
  unfolding filter_laws_def list_filter_def
  by (intro conjI hash_room hash_map_law) (simp_all add: hash_ops_def)

interpretation listed: cgroup_filter list_filter
  by unfold_locales (rule list_filter_laws)

section \<open>The receiving task\<close>

text \<open>
  \<open>rt_cgid\<close> is the shared id of the current control group, \<open>rt_policy\<close> the retained policy in
  enforcement mode, and \<open>rt_listening\<close> says whether the loop still runs.
\<close>

record ('c, 's) Receiver =
  rt_cgid :: u64
  rt_cgroups :: 'c
  rt_policy :: "LoadedPolicy option"
  rt_kernel :: 's
  rt_listening :: bool

text \<open>The failures of the two updates of the filter and of \<open>rebind\<close> are only logged.\<close>

definition rebind_policy ::
    "'s EnforcementMaps \<Rightarrow> u64 \<Rightarrow> ('c, 's) Receiver \<Rightarrow> ('c, 's) Receiver" where
  "rebind_policy K cgroup_id r =
     (case rt_policy r of
        None \<Rightarrow> r
      | Some pol \<Rightarrow>
          (case rebind K pol (rt_cgid r) cgroup_id (rt_kernel r) of
             (pol, s, res) \<Rightarrow> r\<lparr>rt_policy := Some pol, rt_kernel := s\<rparr>))"

definition container_started ::
    "('c, u64, u32) MapOps \<Rightarrow> 's EnforcementMaps \<Rightarrow> u64 \<Rightarrow> ('c, 's) Receiver \<Rightarrow> ('c, 's) Receiver" where
  "container_started C K cgroup_id r =
     (if cgroup_id \<noteq> rt_cgid r then
        let c = fst (mo_remove C (rt_cgroups r) (rt_cgid r));
            c = fst (mo_insert C c cgroup_id 1);
            r = rebind_policy K cgroup_id (r\<lparr>rt_cgroups := c\<rparr>)
        in r\<lparr>rt_cgid := cgroup_id\<rparr>
      else r)"

fun receive ::
    "('c, u64, u32) MapOps \<Rightarrow> 's EnforcementMaps \<Rightarrow> ContainerStateChange \<Rightarrow> ('c, 's) Receiver
      \<Rightarrow> ('c, 's) Receiver" where
  "receive C K Stopped r = r"
| "receive C K (Started container_id cgroup_id cgroup_path) r = container_started C K cgroup_id r"
| "receive C K (Error msg) r = r\<lparr>rt_listening := False\<rparr>"

text \<open>How the program sets the filter up.\<close>

definition receiver_start ::
    "('c, u64, u32) MapOps \<Rightarrow> 'c \<Rightarrow> LoadedPolicy option \<Rightarrow> 's \<Rightarrow> u64 \<Rightarrow> 'c \<times> (MapError + ('c, 's) Receiver)" where
  "receiver_start C c pol s cgid =
     (case mo_insert C c cgid 1 of
        (c, Inl e) \<Rightarrow> (c, Inl e)
      | (c, Inr _) \<Rightarrow> (c, Inr \<lparr>rt_cgid = cgid, rt_cgroups = c, rt_policy = pol, rt_kernel = s, rt_listening = True\<rparr>))"

section \<open>Watcher and receiver together\<close>

record ('c, 's) System =
  sy_watcher :: Watcher
  sy_watching :: bool
  sy_queue :: "ContainerStateChange list"
  sy_receiver :: "('c, 's) Receiver"

definition system_start :: "string \<Rightarrow> u64 \<Rightarrow> ('c, 's) Receiver \<Rightarrow> ('c, 's) System" where
  "system_start container_id cgid r =
     \<lparr>sy_watcher = watcher_start container_id cgid, sy_watching = True, sy_queue = [], sy_receiver = r\<rparr>"

text \<open>
  The watcher polls a host that may have changed in any way, or sees the stop flag. The receiver takes the
  oldest change.
\<close>

inductive restart_step ::
    "('c, u64, u32) MapOps \<Rightarrow> 's EnforcementMaps \<Rightarrow> string \<Rightarrow> ('c, 's) System \<Rightarrow> ('c, 's) System \<Rightarrow> bool"
  for C K name where
  poll_step: "sy_watching y \<Longrightarrow> poll H name (sy_watcher y) = (w, sent, go) \<Longrightarrow>
    restart_step C K name y (y\<lparr>sy_watcher := w, sy_watching := go, sy_queue := sy_queue y @ sent\<rparr>)"
| stop_step: "restart_step C K name y (y\<lparr>sy_watching := False\<rparr>)"
| receive_step: "rt_listening (sy_receiver y) \<Longrightarrow> sy_queue y = m # ms \<Longrightarrow>
    restart_step C K name y (y\<lparr>sy_queue := ms, sy_receiver := receive C K m (sy_receiver y)\<rparr>)"

inductive restart_reachable ::
    "('c, u64, u32) MapOps \<Rightarrow> 's EnforcementMaps \<Rightarrow> string \<Rightarrow> ('c, 's) System \<Rightarrow> ('c, 's) System \<Rightarrow> bool"
  for C K name y0 where
  start: "restart_reachable C K name y0 y0"
| step: "restart_reachable C K name y0 y \<Longrightarrow> restart_step C K name y y' \<Longrightarrow> restart_reachable C K name y0 y'"

inductive_cases receive_stepE: "restart_step C K name y y'"

section \<open>The filter follows the container\<close>

lemma rebind_policy_fields [simp]:
  "rt_cgid (rebind_policy K g r) = rt_cgid r" "rt_cgroups (rebind_policy K g r) = rt_cgroups r"
  "rt_listening (rebind_policy K g r) = rt_listening r"
  by (simp_all add: rebind_policy_def split: option.split prod.split)

context cgroup_filter
begin

lemma started_moves_filter:
  assumes "mo_get C (rt_cgroups r) = [rt_cgid r \<mapsto> 1]"
  shows "mo_get C (rt_cgroups (container_started C K g r)) = [g \<mapsto> 1] \<and> rt_cgid (container_started C K g r) = g"
proof (cases "g = rt_cgid r")
  case False
  let ?c = "fst (mo_remove C (rt_cgroups r) (rt_cgid r))"
  have empty: "mo_get C ?c = Map.empty"
    using filter_remove [of "rt_cgroups r" "rt_cgid r"] assms by simp
  have "mo_get C (fst (mo_insert C ?c g 1)) = [g \<mapsto> 1]"
    using filter_insert [of ?c g 1] by (simp add: empty CGROUPS_MAX_def)
  then show ?thesis using False by (simp add: container_started_def Let_def)
qed (simp add: container_started_def assms)

lemma receive_moves_filter:
  assumes "mo_get C (rt_cgroups r) = [rt_cgid r \<mapsto> 1]"
  shows "mo_get C (rt_cgroups (receive C K m r)) = [rt_cgid (receive C K m r) \<mapsto> 1]"
  using started_moves_filter [OF assms] by (cases m) (simp_all add: assms)

lemma receive_believed:
  assumes "mo_get C (rt_cgroups r) = [rt_cgid r \<mapsto> 1]"
  shows "rt_cgid (receive C K m r) = believed (rt_cgid r) [m]"
  using started_moves_filter [OF assms] by (cases m) simp_all

text \<open>
  The invariant: the filter has exactly the id that the receiver holds, and what is still in the channel
  leads from it to the watcher's.
\<close>

definition in_step :: "('c, 's) System \<Rightarrow> bool" where
  "in_step y =
     (mo_get C (rt_cgroups (sy_receiver y)) = [rt_cgid (sy_receiver y) \<mapsto> 1]
      \<and> believed (rt_cgid (sy_receiver y)) (sy_queue y) = wt_current_cgroup_id (sy_watcher y))"

lemma in_step_restart_step: "restart_step C K name y y' \<Longrightarrow> in_step y \<Longrightarrow> in_step y'"
proof (induction rule: restart_step.induct)
  case (receive_step y m ms)
  then have "believed (rt_cgid (receive C K m (sy_receiver y))) ms
      = believed (believed (rt_cgid (sy_receiver y)) [m]) ms"
    using receive_believed [of "sy_receiver y" K m] by (simp add: in_step_def del: believed.simps)
  also have "\<dots> = believed (rt_cgid (sy_receiver y)) (m # ms)"
    using believed_append [of _ "[m]" ms] by (simp del: believed_append)
  finally show ?case
    using receive_step receive_moves_filter [of "sy_receiver y" K m] by (simp add: in_step_def)
qed (auto simp: in_step_def poll_believed)

lemma in_step_reachable: "restart_reachable C K name y0 y \<Longrightarrow> in_step y0 \<Longrightarrow> in_step y"
  by (induction rule: restart_reachable.induct) (auto intro: in_step_restart_step)

lemma in_step_start:
  assumes "mo_get C c = Map.empty" and "receiver_start C c pol s cgid = (c', Inr r)"
  shows "in_step (system_start i cgid r)"
proof -
  have "mo_get C (fst (mo_insert C c cgid 1)) = [cgid \<mapsto> 1]"
    using filter_insert [of c cgid 1] assms(1) by (simp add: CGROUPS_MAX_def)
  then show ?thesis
    using assms(2)
    by (auto simp: in_step_def system_start_def watcher_start_def receiver_start_def
        split: prod.splits sum.splits)
qed

end


definition sample_receiver :: "((u64 \<times> u32) list, HashMaps) Receiver" where
  "sample_receiver = \<lparr>rt_cgid = 7, rt_cgroups = [(7, 1)], rt_policy = None, rt_kernel = empty_maps,
     rt_listening = True\<rparr>"

text \<open>A host on which the container has restarted with the control group 9.\<close>

definition restarted_host :: Host where
  "restarted_host = \<lparr>hw_docker = (\<lambda>args. Inr \<lparr>out_success = True, out_stdout = ''a1 true'', out_stderr = ''''\<rparr>),
     hw_metadata = (\<lambda>p. Inr 9), hw_read_to_string = (\<lambda>p. Inl \<lparr>ie_kind = NotFound, ie_message = ''''\<rparr>)\<rparr>"

lemma restarted_poll:
  "poll restarted_host ''web'' (watcher_start ''a1'' 7)
     = (watcher_start ''a1'' 9, [Started ''a1'' 9 ''/sys/fs/cgroup/system.slice/docker-a1.scope''], True)"
  by code_simp


section \<open>Enforcement follows the container\<close>

text \<open>
  C4: enforcement moves with the container. When the receiver learns of a new control group and the
  rebinding of the policy succeeds, the file hook decides by the rules of the retained policy for tasks in
  the new control group, tasks left in the old one are no longer restricted, and the policy is retained
  for the next restart.
\<close>

theorem restart_enforces:
  assumes "kernel_laws K" and "kernel_room K" and "rt_policy r = Some pol" and "\<not> lp_audit_only pol"
    and "g \<noteq> rt_cgid r" and "rebind K pol (rt_cgid r) g (rt_kernel r) = (pol', s', Inr u)"
    and "unbound g (tables K (rt_kernel r))"
    and "ts_cgroup_id ts = Some g" and "resolves_to k h f path" and "ts_cgroup_id old_ts = Some (rt_cgid r)"
  shows "let r' = receive C K (Started i g p) r in
    rt_cgid r' = g
    \<and> fst (enforce_file_open K (rt_kernel r') k h ts f)
        = (if file_decision (lp_rules pol) path (kernel_class path) (requested_access f) then 0 else -1)
    \<and> enforce_file_open K (rt_kernel r') k h old_ts f = (0, [])
    \<and> map_option lp_rules (rt_policy r') = Some (lp_rules pol)"
proof -
  obtain s1 stats res where 1: "apply_rules K g False (lp_rules pol) (lp_skb_cgid pol) (rt_kernel r) = (s1, Inr stats)"
    and 2: "mo_remove (POLICY_CGROUPS K) s1 (rt_cgid r) = (s', res)" and pol': "lp_rules pol' = lp_rules pol"
    using assms(4,6) by (auto simp: rebind_def bind_policy_def split: prod.splits sum.splits)
  have room: "bpf_kernel_room K" using assms(1,2) kernel_intro by blast
  note t = load_effect [OF assms(1) 1] and t' = bpf_kernel_room.remove_cgroup_tables [OF room 2]
  have kernel: "rt_kernel (receive C K (Started i g p) r) = s'"
    "rt_policy (receive C K (Started i g p) r) = Some pol'" "rt_cgid (receive C K (Started i g p) r) = g"
    using assms(3,5,6) by (simp_all add: container_started_def rebind_policy_def Let_def)
  have new: "fst (enforce_file_open K s' k h ts f)
      = (if file_decision (lp_rules pol) path (kernel_class path) (requested_access f) then 0 else -1)"
    by (rule file_open_loaded [OF t assms(7-9)]) (use assms(5) in \<open>simp_all add: t'\<close>)
  have "enforce_file_open K s' k h old_ts f = (0, [])"
    using assms(10) by (simp add: enforce_file_open_def map_simps t')
  then show ?thesis using new kernel pol' by simp
qed

theorem restart_enforces_witness:
  "\<exists>r'. receive list_filter hash_kernel (Started ''a1'' 8 '''')
       (sample_receiver\<lparr>rt_policy := Some \<lparr>lp_audit_only = False, lp_rules = hosts_policy, lp_stats = default_stats,
          lp_skb_cgid = True\<rparr>\<rparr>) = r'
     \<and> fst (enforce_file_open hash_kernel (rt_kernel r') sample_fs fresh_heap
          \<lparr>ts_cgroup_id = Some 8, ts_ns_tgid = Some 1\<rparr> (hosts_file 0)) = 0"
proof -
  let ?pol = "\<lparr>lp_audit_only = False, lp_rules = hosts_policy, lp_stats = default_stats, lp_skb_cgid = True\<rparr>"
  let ?r = "sample_receiver\<lparr>rt_policy := Some ?pol\<rparr>"
  obtain s1 stats where 1: "apply_rules hash_kernel 8 False hosts_policy True empty_maps = (s1, Inr stats)"
    using small_policy_loads [OF policy_sizes(1)] by blast
  obtain s2 res where 2: "mo_remove (POLICY_CGROUPS hash_kernel) s1 7 = (s2, res)" by fastforce
  have rb: "rebind hash_kernel ?pol (rt_cgid ?r) 8 (rt_kernel ?r)
      = (?pol\<lparr>lp_stats := default_stats\<lparr>cgroups_configured := 1\<rparr>\<rparr>, s2, Inr ())"
    by (simp add: rebind_def bind_policy_def sample_receiver_def 1 2)
  have "unbound 8 (tables hash_kernel (rt_kernel ?r))" using empty_unbound by (simp add: sample_receiver_def)
  from restart_enforces [OF hash_kernel_laws hash_kernel_room _ _ _ rb this _ hosts_resolves [of 0],
      where ts = "\<lparr>ts_cgroup_id = Some 8, ts_ns_tgid = Some 1\<rparr>" and old_ts = sample_task and C = list_filter
        and i = "''a1''" and p = "''''"]
  show ?thesis
    using hosts_decision
    by (simp add: Let_def sample_receiver_def sample_task_def hosts_file_def requested_access_def)
qed

end
