(* ===== verification/Driver.thy ===== *)
theory Driver
  imports Pipeline Linker Friction Container Events
begin

text \<open>
  The command line program, \<open>ebpf-mon/src/main.rs\<close>: the checks of the flags, the compilation of a profile
  and its outputs, the tables that the program prints, the choice of the container, the gateways of
  docker-proxy, and the decoding of audit events.

  \<open>Tools\<close> are the parameters: the file system, \<open>serde_json\<close>, the derived \<open>Debug\<close> and the order in which the
  hash maps of the pipeline are iterated.
\<close>

section \<open>Arguments\<close>

record Args =
  ar_name :: "string option"
  ar_container :: "string option"
  ar_cgroup :: "string option"
  ar_enforce :: "string option"
  ar_compile :: "string option"
  ar_audit_only :: bool
  ar_no_optimize :: bool
  ar_emit_apparmor :: "string option"
  ar_emit_json :: "string option"
  ar_pass_config :: "string option"
  ar_friction_report :: bool
  ar_dump_policy :: bool

record Tools =
  tl_read :: "string \<Rightarrow> string + string"
  tl_write :: "string \<Rightarrow> string \<Rightarrow> string + unit"
  tl_from_str :: "string \<Rightarrow> string + Value"
  tl_pattern_from_value :: "Value \<Rightarrow> PathPattern option"
  tl_config_from_str :: "string \<Rightarrow> string + PassConfig"
  tl_rules_to_json :: "BehaviorRule list \<Rightarrow> string + string"
  tl_debug :: "string \<Rightarrow> string"
  tl_orders :: "nat list \<times> nat list \<times> nat list"

text \<open>The flags that need the pipeline: the message of the first one that is misused.\<close>

definition check_flags :: "Args \<Rightarrow> string option" where
  "check_flags args =
     (if ar_enforce args = None \<and> ar_compile args = None then
        if ar_no_optimize args then Some ''--no-optimize requires --enforce or --compile''
        else if ar_emit_apparmor args \<noteq> None \<or> ar_emit_json args \<noteq> None
        then Some ''--emit-apparmor/--emit-json require --enforce or --compile''
        else if ar_pass_config args \<noteq> None then Some ''--pass-config requires --enforce or --compile''
        else if ar_friction_report args then Some ''--friction-report requires --enforce or --compile''
        else if ar_dump_policy args then Some ''--dump-policy requires --enforce or --compile''
        else None
      else None)"

definition load_pass_config :: "Tools \<Rightarrow> Args \<Rightarrow> string + PassConfig" where
  "load_pass_config T args =
     (case ar_pass_config args of
        Some path \<Rightarrow> from_json_file (tl_read T) (tl_config_from_str T) path
      | None \<Rightarrow> Inr default_config)"

section \<open>Compiling a profile\<close>

definition compile_profile ::
    "Tools \<Rightarrow> string \<Rightarrow> bool \<Rightarrow> PassConfig \<Rightarrow> string + BehaviorRule list" where
  "compile_profile T profile_json no_optimize pass_config =
     (case translate_all_events_json (tl_from_str T) (tl_pattern_from_value T) profile_json of
        Inl e \<Rightarrow> Inl (''Failed to translate profile: '' @ e)
      | Inr raw_rules \<Rightarrow>
          (let optimized =
             (if no_optimize then canonicalization_run raw_rules
              else case tl_orders T of
                (k1, kg, k2) \<Rightarrow> fst (run_pipeline_reported_with k1 kg k2 raw_rules pass_config))
           in Inr (link_cross_category optimized)))"

text \<open>The files written, and the error that stopped the writing.\<close>

definition write_file :: "Tools \<Rightarrow> (string \<Rightarrow> string) \<Rightarrow> string \<Rightarrow> string \<Rightarrow> (string \<times> string) list \<times> (string + unit)" where
  "write_file T msg path body =
     (case tl_write T path body of Inl e \<Rightarrow> ([], Inl (msg path @ e)) | Inr _ \<Rightarrow> ([(path, body)], Inr ()))"

definition quoted_path :: "string \<Rightarrow> string \<Rightarrow> string" where
  "quoted_path what path = what @ '' '' @ [CHR 0x27] @ path @ [CHR 0x27] @ '': ''"

definition emit_outputs ::
    "Tools \<Rightarrow> BehaviorRule list \<Rightarrow> string option \<Rightarrow> string option \<Rightarrow> string
      \<Rightarrow> (string \<times> string) list \<times> (string + unit)" where
  "emit_outputs T ir emit_apparmor emit_json profile_name =
     (case (case emit_apparmor of
              None \<Rightarrow> ([], Inr ())
            | Some path \<Rightarrow>
                write_file T (quoted_path ''Failed to write AppArmor profile'') path
                  (fst (lower_to_apparmor (tl_debug T) ir profile_name))) of
        (fs, Inl e) \<Rightarrow> (fs, Inl e)
      | (fs, Inr _) \<Rightarrow>
          (case emit_json of
             None \<Rightarrow> (fs, Inr ())
           | Some path \<Rightarrow>
               (case tl_rules_to_json T ir of
                  Inl e \<Rightarrow> (fs, Inl (''Failed to serialize IR: '' @ e))
                | Inr json \<Rightarrow>
                    (case write_file T (quoted_path ''Failed to write JSON'') path json of
                       (gs, r) \<Rightarrow> (fs @ gs, r)))))"

section \<open>Printed tables\<close>

text \<open>The category of a rule in the breakdown.\<close>

datatype Category = FileExact | FileClassified | FilePrefix | ExecRules | NetRules

fun breakdown_category :: "BehaviorRule \<Rightarrow> Category option" where
  "breakdown_category r =
     (case r_object r of
        File f \<Rightarrow> Some (case fo_pattern f of ExactPath _ \<Rightarrow> FileExact | Classified _ \<Rightarrow> FileClassified
                        | Prefix _ \<Rightarrow> FilePrefix)
      | Process _ \<Rightarrow> if r_action r = ProcExec then Some ExecRules else None
      | Network _ \<Rightarrow> Some NetRules)"

definition category_count :: "BehaviorRule list \<Rightarrow> Category \<Rightarrow> nat" where
  "category_count rules c = length (filter (\<lambda>r. breakdown_category r = Some c) rules)"

definition print_rule_breakdown :: "BehaviorRule list \<Rightarrow> bool \<Rightarrow> string list" where
  "print_rule_breakdown rules no_optimize =
     (let num = (\<lambda>c. show_nat (category_count rules c)) in
      ['''', ''=== COMPILE (dry run)'' @ (if no_optimize then '' [--no-optimize]'' else '''') @ '' ==='',
       ''emitted rules: '' @ show_nat (length rules),
       ''  file (exact path): '' @ num FileExact,
       ''  file (classified): '' @ num FileClassified,
       ''  file (prefix):     '' @ num FilePrefix,
       ''  exec:              '' @ num ExecRules,
       ''  network:           '' @ num NetRules,
       ''(per-pass reduction is in the logs above; run with RUST_LOG=info)''])"

text \<open>The dump only lists file rules of the three actions that the loader loads.\<close>

fun dump_category :: "BehaviorRule \<Rightarrow> Category option" where
  "dump_category r =
     (case r_object r of
        File f \<Rightarrow> if r_action r = FileOpen \<or> r_action r = FileRead \<or> r_action r = FileWrite
                  then breakdown_category r else None
      | _ \<Rightarrow> breakdown_category r)"

definition dump_section :: "string \<Rightarrow> string list \<Rightarrow> string list" where
  "dump_section title lines =
     (if lines = [] then [] else ['''', title @ '' ('' @ show_nat (length lines) @ ''):''] @ lines)"

definition dump_policy_rules :: "BehaviorRule list \<Rightarrow> string list" where
  "dump_policy_rules rules =
     (let lines = (\<lambda>c. map (\<lambda>r. ''  '' @ rule_summary r) (filter (\<lambda>r. dump_category r = Some c) rules));
          dash = map char_of [0xE2 :: nat, 0x80, 0x94]
      in ['''', ''=== COMPILED RULES (what each map entry is built from) ==='']
         @ dump_section (''file '' @ dash @ '' exact path (FILE_PATH_POLICY, r/w-aware)'') (lines FileExact)
         @ dump_section (''file '' @ dash @ '' classified pattern (open-granularity)'') (lines FileClassified)
         @ dump_section (''file '' @ dash @ '' prefix (open-granularity)'') (lines FilePrefix)
         @ dump_section ''exec (EXEC_PATH_POLICY)'' (lines ExecRules)
         @ dump_section ''network (NET_CONNECT_POLICY)'' (lines NetRules))"

text \<open>The dry run: the files written, the lines printed, and the result.\<close>

definition run_compile ::
    "Tools \<Rightarrow> Args \<Rightarrow> PassConfig \<Rightarrow> string \<Rightarrow> (string \<times> string) list \<times> string list \<times> (string + unit)" where
  "run_compile T args pass_config profile_path =
     (case tl_read T profile_path of
        Inl e \<Rightarrow> ([], [], Inl (quoted_path ''Failed to read profile'' profile_path @ e))
      | Inr profile_json \<Rightarrow>
          (case compile_profile T profile_json (ar_no_optimize args) pass_config of
             Inl e \<Rightarrow> ([], [], Inl e)
           | Inr ir \<Rightarrow>
               (case emit_outputs T ir (ar_emit_apparmor args) (ar_emit_json args)
                       (case ar_name args of Some n \<Rightarrow> n | None \<Rightarrow> ''ebpf-mon'') of
                  (fs, Inl e) \<Rightarrow> (fs, [], Inl e)
                | (fs, Inr _) \<Rightarrow>
                    (fs, print_rule_breakdown ir (ar_no_optimize args)
                       @ (if ar_dump_policy args then dump_policy_rules ir else [])
                       @ (if ar_friction_report args then ['''', render (compute (tl_debug T) ir)] else []),
                     Inr ()))))"

section \<open>The container and its gateways\<close>

definition container_identifier :: "Args \<Rightarrow> ContainerIdentifier" where
  "container_identifier args =
     (case ar_name args of
        Some name \<Rightarrow> Name name
      | None \<Rightarrow>
          (case ar_container args of
             Some container_id \<Rightarrow> ContainerId container_id
           | None \<Rightarrow>
               (case ar_cgroup args of
                  Some cgroup_path \<Rightarrow> CgroupPath cgroup_path
                | None \<Rightarrow> CgroupPath ''/sys/fs/cgroup/user.slice'')))"

text \<open>Indexing a JSON value yields null where there is nothing.\<close>

definition json_index :: "Value \<Rightarrow> string \<Rightarrow> Value" where
  "json_index v key = (case json_get key v of Some w \<Rightarrow> w | None \<Rightarrow> JNull)"

definition json_nth :: "Value \<Rightarrow> nat \<Rightarrow> Value" where
  "json_nth v i = (case v of JArray vs \<Rightarrow> if i < length vs then vs ! i else JNull | _ \<Rightarrow> JNull)"

definition container_networks :: "Value \<Rightarrow> (string \<times> Value) list" where
  "container_networks json =
     (case json_index (json_index (json_nth json 0) ''NetworkSettings'') ''Networks'' of
        JObject networks \<Rightarrow> networks
      | _ \<Rightarrow> [])"

definition get_all_container_gateways ::
    "Host \<Rightarrow> (string \<Rightarrow> string + Value) \<Rightarrow> string \<Rightarrow> string + string list" where
  "get_all_container_gateways H from_slice container_id =
     (case hw_docker H [''inspect'', container_id] of
        Inl e \<Rightarrow> Inl (ie_message e)
      | Inr inspect_output \<Rightarrow>
          (case from_slice (out_stdout inspect_output) of
             Inl e \<Rightarrow> Inl e
           | Inr json \<Rightarrow>
               Inr (List.map_filter (\<lambda>(network_name, network_info).
                 as_json_str (json_index network_info ''Gateway'')) (container_networks json))))"

definition get_container_gateway_ip ::
    "Host \<Rightarrow> (string \<Rightarrow> string + Value) \<Rightarrow> string \<Rightarrow> string + string" where
  "get_container_gateway_ip H from_slice container_id =
     and_then (get_all_container_gateways H from_slice container_id) (\<lambda>gateways.
       case gateways of [] \<Rightarrow> Inl ''No gateway found for container'' | g # _ \<Rightarrow> Inr g)"

text \<open>\<open>None\<close> is the panic of an index out of range.\<close>

definition ipv4_to_u32 :: "string \<Rightarrow> u32 option" where
  "ipv4_to_u32 ip =
     (case List.map_filter parse_u8 (split_on CHR ''.'' ip) of
        a # b # c # d # _ \<Rightarrow> Some (from_le_bytes a b c d)
      | _ \<Rightarrow> None)"

section \<open>Audit events\<close>

text \<open>The bytes of an audit record, as a little-endian machine lays them out.\<close>

definition u64_from_le :: "u8 list \<Rightarrow> u64" where
  "u64_from_le bs = foldr (\<lambda>b acc. ucast b OR push_bit 8 acc) bs 0"

fun show_hex :: "nat \<Rightarrow> string" where
  "show_hex n =
     (let d = (\<lambda>k. if k < 10 then digit_char k else char_of (87 + k))
      in if n < 16 then [d n] else show_hex (n div 16) @ [d (n mod 16)])"

declare show_hex.simps [simp del]

definition verdict_str :: "u8 \<Rightarrow> string" where
  "verdict_str v =
     (if v = 0 then ''DENY'' else if v = 1 then ''ALLOW'' else if v = 2 then ''AUDIT'' else ''UNKNOWN'')"

definition action_str :: "u8 \<Rightarrow> string" where
  "action_str a =
     (if a = 0 then ''file_open'' else if a = 3 then ''net_connect'' else if a = 5 then ''proc_exec''
      else ''unknown'')"

definition audit_line :: "u8 list \<Rightarrow> string option" where
  "audit_line data =
     (if length data \<ge> 20 then
        let cgroup_id = u64_from_le (take 8 data);
            path_hash = u64_from_le (take 8 (drop 8 data));
            pattern = data ! 16; action = data ! 17; verdict = data ! 18
        in Some (''ENFORCEMENT '' @ verdict_str verdict @ '': '' @ action_str action @ '' path_hash=0x''
             @ show_hex (unat path_hash) @ '' pattern='' @ show_nat (unat pattern) @ '' cgroup=''
             @ show_nat (unat cgroup_id))
      else None)"

section \<open>What the tables count\<close>

text \<open>Every rule that the breakdown counts but the dump does not list is a file rule that no map takes.\<close>

lemma dump_skips:
  "dump_category r = None \<Longrightarrow> breakdown_category r = Some c \<Longrightarrow>
     \<exists>f. r_object r = File f \<and> r_action r \<notin> {FileOpen, FileRead, FileWrite}"
  by (cases "r_object r") (auto split: if_splits)

lemma breakdown_total:
  "(\<Sum>c \<leftarrow> [FileExact, FileClassified, FilePrefix, ExecRules, NetRules]. category_count rules c) \<le> length rules"
proof (induction rules)
  case (Cons r rules)
  then show ?case by (cases "breakdown_category r"; cases "the (breakdown_category r)") (auto simp: category_count_def)
qed (simp add: category_count_def)

text \<open>A gateway address without four octets ends the program.\<close>

lemma ipv4_to_u32_panics: "ipv4_to_u32 '''' = None" "ipv4_to_u32 ''fd00::1'' = None"
  by code_simp+

lemma ipv4_to_u32_serialized: "ipv4_to_u32 (serialize_ip ip) = Some ip"
proof -
  obtain a b c d where abcd: "to_le_bytes ip = (a, b, c, d)" by (metis prod_cases4)
  show ?thesis
    using from_to_le_bytes [OF abcd]
    by (simp add: serialize_ip_dotted ipv4_to_u32_def split_ipv4 [OF abcd] List.map_filter_simps)
qed

end
