(* ===== verification/EndToEnd.thy ===== *)
theory EndToEnd
  imports Driver Restart
begin

text \<open>
  The way of an observation through the whole program: counted and exported by the monitor, compiled
  without the optimization passes, loaded, and enforced by the three hooks.
\<close>

section \<open>Policies that only allow\<close>

lemma allow_only_iff: "allow_only rules \<longleftrightarrow> (\<forall>r \<in> set rules. r_verdict r = Allow)"
  by (simp add: allow_only_def list_all_iff)

text \<open>A rule of the linked policy was there before, or is a file rule with the verdict of one that was.\<close>

lemma link_action_from:
  "s \<in> set (fst (link_action rules rule ob st a)) \<Longrightarrow>
     s \<in> set (fst st) \<or> r_verdict s = r_verdict rule \<and> r_object s = ob"
  by (cases st) (auto simp: link_action_cases split: if_splits)

lemma link_rule_from:
  "s \<in> set (fst (link_rule rules st rule)) \<Longrightarrow>
     s \<in> set (fst st) \<or> r_verdict s = r_verdict rule \<and> (\<exists>path. r_object s = linked_object path)"
  by (auto simp: link_rule_def split: option.splits dest!: link_action_from)

lemma link_fold_from:
  "s \<in> set (fst (foldl (link_rule rules) st rs)) \<Longrightarrow>
     s \<in> set (fst st) \<or> (\<exists>r \<in> set rs. r_verdict s = r_verdict r) \<and> (\<exists>path. r_object s = linked_object path)"
proof (induction rs arbitrary: st)
  case (Cons r rs)
  then have "s \<in> set (fst (link_rule rules st r)) \<or> (\<exists>r \<in> set rs. r_verdict s = r_verdict r)
      \<and> (\<exists>path. r_object s = linked_object path)"
    by simp
  then show ?case using link_rule_from [of s rules st r] by auto
qed simp

lemma link_from:
  "s \<in> set (link_cross_category rules) \<Longrightarrow>
     s \<in> set rules \<or> (\<exists>r \<in> set rules. r_verdict s = r_verdict r) \<and> (\<exists>path. r_object s = linked_object path)"
  using link_fold_from [of s rules "([], max_id rules + 1)" rules] by (auto simp: link_cross_category_append)

lemma allow_only_link: "allow_only rules \<Longrightarrow> allow_only (link_cross_category rules)"
  by (auto simp: allow_only_iff dest!: link_from)

text \<open>The tiers of the hooks for such a policy.\<close>

lemma foldl_mask:
  "allow_only rs \<Longrightarrow> foldl mask_step m rs = foldl (\<lambda>m r. m OR access_bit (r_action r)) m rs"
  by (induction rs arbitrary: m) (simp_all add: allow_only_iff mask_step_def)

lemma foldl_or_keeps: "m AND b = b \<Longrightarrow> foldl (\<lambda>m r. m OR access_bit (r_action r)) m rs AND b = b"
  by (induction rs arbitrary: m) (simp_all add: bit.conj_disj_distrib2)

lemma foldl_or_has:
  "r \<in> set rs \<Longrightarrow> foldl (\<lambda>m r. m OR access_bit (r_action r)) m rs AND access_bit (r_action r) = access_bit (r_action r)"
  by (induction rs arbitrary: m) (auto simp: foldl_or_keeps bit.conj_disj_distrib2)

lemma allowed_mask:
  assumes "allow_only rules" and "r \<in> set (filter P rules)"
  shows "\<exists>m. mask_of None (filter P rules) = Some m \<and> m \<noteq> 0
    \<and> m AND access_bit (r_action r) = access_bit (r_action r)"
proof -
  let ?m = "foldl mask_step 0 (filter P rules)"
  have "allow_only (filter P rules)" using assms(1) by (simp add: allow_only_iff)
  then have "?m AND access_bit (r_action r) = access_bit (r_action r)"
    using foldl_or_has [OF assms(2), of 0] by (simp add: foldl_mask)
  moreover from this have "?m \<noteq> 0"
    by (auto simp: access_bit_def ACCESS_READ_def ACCESS_WRITE_def split: Action.splits)
  moreover have "filter P rules \<noteq> []" using assms(2) by (metis empty_iff empty_set)
  ultimately show ?thesis by (simp add: mask_of_def)
qed

lemma allowed_verdict:
  assumes "allow_only rules" and "r \<in> set (filter P rules)"
  shows "wanted_verdict None (filter P rules) = Some 1"
proof -
  have ne: "filter P rules \<noteq> []" using assms(2) by (metis empty_iff empty_set)
  then have "last (filter P rules) \<in> set rules" using last_in_set by fastforce
  then show ?thesis using ne assms(1) by (simp add: wanted_verdict_def allow_only_iff verdict_to_u8_def)
qed

lemma file_allowed_exact:
  assumes "allow_only rules" and "r \<in> set rules" and "exact_hash r = Some (fnv1a_hash_bytes path)"
  shows "file_decision rules path c (access_bit (r_action r))"
  using allowed_mask [OF assms(1), of r "\<lambda>r. exact_hash r = Some (fnv1a_hash_bytes path)"] assms(2,3)
  by (auto simp: file_decision_def)

lemma file_allowed_class:
  assumes "allow_only rules" and "r \<in> set rules" and "rule_class r = Some c" and "c \<noteq> Regular"
    and "\<forall>r \<in> set rules. exact_hash r \<noteq> Some (fnv1a_hash_bytes path)"
  shows "file_decision rules path c req"
proof -
  have "filter (\<lambda>r. exact_hash r = Some (fnv1a_hash_bytes path)) rules = []"
    using assms(5) by (simp add: filter_empty_conv)
  then have "mask_of None (filter (\<lambda>r. exact_hash r = Some (fnv1a_hash_bytes path)) rules) = None"
    by (simp add: mask_of_def)
  moreover have "class_verdict rules c = Some 1"
    using allowed_verdict [OF assms(1), of r "\<lambda>r. rule_class r = Some c"] assms(2,3)
    by (simp add: class_verdict_def)
  ultimately show ?thesis using assms(4) by (simp add: file_decision_def)
qed

lemma exec_allowed:
  assumes "allow_only rules" and "r \<in> set rules" and "exec_hash r = Some (fnv1a_hash_bytes path)"
  shows "exec_decision rules path"
  using allowed_verdict [OF assms(1), of r "\<lambda>r. exec_hash r = Some (fnv1a_hash_bytes path)"] assms(2,3)
  by (simp add: exec_decision_def)

lemma connect_allowed:
  assumes "allow_only rules" and "r \<in> set rules" and "connect_to r = Some (ip, port)"
  shows "connect_decision rules ip port"
  using allowed_verdict [OF assms(1), of r "\<lambda>r. connect_to r = Some (ip, port)"] assms(2,3)
  by (simp add: connect_decision_def)

section \<open>From the profile to the rules\<close>

text \<open>The rules of the exported events, with their numbers.\<close>

definition profile_rules :: "EventMap \<Rightarrow> BehaviorRule list" where
  "profile_rules m =
     map (\<lambda>(i, r). r (of_nat (Suc i)))
       (enumerate 0 (map fs_rule (fs_of m) @ map network_rule (network_of m) @ map process_rule (process_of m)))"

lemma numbered_in:
  assumes "g \<in> set gs"
  shows "\<exists>i. g i \<in> set (map (\<lambda>(i, r). r (of_nat (Suc i))) (enumerate 0 gs))"
proof -
  obtain k where k: "k < length gs" "gs ! k = g" using assms by (auto simp: in_set_conv_nth)
  then have "(k, g) \<in> set (enumerate 0 gs)" by (auto simp: in_set_enumerate_eq)
  then show ?thesis by force
qed

lemma profile_rules_in:
  "(FsEv e, n) \<in> set m \<Longrightarrow> \<exists>i. fs_rule (e\<lparr>fe_freq := n\<rparr>) i \<in> set (profile_rules m)"
  "(NetworkEv w, n) \<in> set m \<Longrightarrow> \<exists>i. network_rule (w\<lparr>ne_freq := n\<rparr>) i \<in> set (profile_rules m)"
  "(ProcessEv p, n) \<in> set m \<Longrightarrow> \<exists>i. process_rule (p\<lparr>pe_freq := n\<rparr>) i \<in> set (profile_rules m)"
proof -
  have "fs_rule (e\<lparr>fe_freq := n\<rparr>) \<in> set (map fs_rule (fs_of m))" if "(FsEv e, n) \<in> set m"
    using that unfolding fs_of_def set_map by (intro imageI) (force simp: set_map_filter)
  then show "\<exists>i. fs_rule (e\<lparr>fe_freq := n\<rparr>) i \<in> set (profile_rules m)" if "(FsEv e, n) \<in> set m"
    unfolding profile_rules_def using that by (intro numbered_in) simp
  have "network_rule (w\<lparr>ne_freq := n\<rparr>) \<in> set (map network_rule (network_of m))" if "(NetworkEv w, n) \<in> set m"
    using that unfolding network_of_def set_map by (intro imageI) (force simp: set_map_filter)
  then show "\<exists>i. network_rule (w\<lparr>ne_freq := n\<rparr>) i \<in> set (profile_rules m)" if "(NetworkEv w, n) \<in> set m"
    unfolding profile_rules_def using that by (intro numbered_in) simp
  have "process_rule (p\<lparr>pe_freq := n\<rparr>) \<in> set (map process_rule (process_of m))" if "(ProcessEv p, n) \<in> set m"
    using that unfolding process_of_def set_map by (intro imageI) (force simp: set_map_filter)
  then show "\<exists>i. process_rule (p\<lparr>pe_freq := n\<rparr>) i \<in> set (profile_rules m)" if "(ProcessEv p, n) \<in> set m"
    unfolding profile_rules_def using that by (intro numbered_in) simp
qed

lemma profile_rules_allow: "allow_only (profile_rules m)"
  unfolding allow_only_iff profile_rules_def
  by (auto simp: in_set_enumerate_eq nth_append fs_rule_def network_rule_def process_rule_def)

lemma compiled:
  assumes "tl_from_str T profile_json = Inr (all_events_value (exported_events m cgroup))"
    and "\<And>p. tl_pattern_from_value T (JString (variant_name p)) = Some p"
    and "compile_profile T profile_json True cfg = Inr rules"
  shows "allow_only rules" and "r \<in> set (profile_rules m) \<Longrightarrow> canonicalize_rule r \<in> set rules"
proof -
  have rules: "rules = link_cross_category (canonicalization_run (profile_rules m))"
    using assms(3) translate_document [where from_str = "tl_from_str T" and
        pattern_from_value = "tl_pattern_from_value T", OF assms(1,2)]
    by (simp add: compile_profile_def profile_rules_def)
  show "allow_only rules"
    unfolding rules by (simp add: allow_only_link profile_rules_allow)
  show "canonicalize_rule r \<in> set rules" if "r \<in> set (profile_rules m)"
    using that unfolding rules by (simp add: link_cross_category_append canonicalization_run_def)
qed

section \<open>What was observed is allowed\<close>

text \<open>
  C1: what was observed is allowed. Let the profile that the monitor exported be compiled without the
  optimization passes and loaded for a control group that had no entries. Then the hooks let the
  group repeat what it was observed to do: open a file for the access that was counted, if the event has
  the class that the kernel gives its path and, for a path with a class, no exact entry has the same
  hash; execute a program that was executed; and connect to an address and port it had connected to.
\<close>

theorem observed_behaviour_allowed:
  assumes "tl_from_str T profile_json = Inr (all_events_value (exported_events m cgroup))"
    and "\<And>p. tl_pattern_from_value T (JString (variant_name p)) = Some p"
    and "compile_profile T profile_json True cfg = Inr rules"
    and "kernel_laws K" and "apply_rules K cgid False rules skb s = (s', Inr stats)"
    and "unbound cgid (tables K s)" and "ts_cgroup_id ts = Some cgid"
  shows "(\<forall>e n k h f. (FsEv e, n) \<in> set m \<and> resolves_to k h f (fe_path e) \<and> canonical_path (fe_path e)
        \<and> fe_path_pattern e = kernel_class (fe_path e)
        \<and> requested_access f = (if fe_r_w e = 1 then ACCESS_WRITE else ACCESS_READ)
        \<and> (fe_path_pattern e = Regular \<or> (\<forall>r \<in> set rules. exact_hash r \<noteq> Some (fnv1a_hash_bytes (fe_path e))))
        \<longrightarrow> fst (enforce_file_open K s' k h ts f) = 0)
    \<and> (\<forall>e n k h f. (ProcessEv e, n) \<in> set m \<and> pe_ps_type e = Execve \<and> resolves_to k h f (pe_exec_path e)
        \<longrightarrow> fst (enforce_bprm_check K s' k h ts (Some f)) = 0)
    \<and> (\<forall>e n be_port. (NetworkEv e, n) \<in> set m \<and> ne_direction e = Egress
          \<and> ne_dst_port e = ucast (u16_from_be be_port)
        \<longrightarrow> fst (enforce_socket_connect K s' ts \<lparr>sa_family = Some AF_INET, sa_s_addr = Some (ne_dst_ip e),
              sa_sin_port = Some be_port\<rparr>) = 0)"
proof (intro conjI allI impI; elim conjE)
  note loaded = load_effect [OF assms(4,5)] and only = compiled(1) [OF assms(1-3)]
    and kept = compiled(2) [OF assms(1-3)]
  {
    fix e n k h f
    assume e: "(FsEv e, n) \<in> set m" and res: "resolves_to k h f (fe_path e)"
      and canon: "canonical_path (fe_path e)" and cls: "fe_path_pattern e = kernel_class (fe_path e)"
      and req: "requested_access f = (if fe_r_w e = 1 then ACCESS_WRITE else ACCESS_READ)"
      and free: "fe_path_pattern e = Regular \<or> (\<forall>r \<in> set rules. exact_hash r \<noteq> Some (fnv1a_hash_bytes (fe_path e)))"
    obtain i where i: "canonicalize_rule (fs_rule (e\<lparr>fe_freq := n\<rparr>) i) \<in> set rules"
      using profile_rules_in(1) [OF e] kept by blast
    have "file_decision rules (fe_path e) (kernel_class (fe_path e)) (requested_access f)"
    proof (cases "fe_path_pattern e = Regular")
      case True
      then have "exact_hash (canonicalize_rule (fs_rule (e\<lparr>fe_freq := n\<rparr>) i)) = Some (fnv1a_hash_bytes (fe_path e))"
        and "access_bit (r_action (canonicalize_rule (fs_rule (e\<lparr>fe_freq := n\<rparr>) i))) = requested_access f"
        using canon req canonicalize_canonical
        by (auto simp: canonicalize_rule_def fs_rule_def canonicalize_pattern_def exact_hash_def
            rule_pattern_def access_bit_def)
      from file_allowed_exact [OF only i this(1)] this(2) show ?thesis by simp
    next
      case False
      then have "rule_class (canonicalize_rule (fs_rule (e\<lparr>fe_freq := n\<rparr>) i)) = Some (fe_path_pattern e)"
        by (auto simp: canonicalize_rule_def fs_rule_def canonicalize_pattern_def rule_class_def rule_pattern_def)
      from file_allowed_class [OF only i this False] False free show ?thesis by (simp add: cls)
    qed
    then show "fst (enforce_file_open K s' k h ts f) = 0"
      using file_open_loaded [OF loaded assms(6,7) res refl refl refl refl] by simp
  next
    fix e n k h f
    assume e: "(ProcessEv e, n) \<in> set m" and ty: "pe_ps_type e = Execve" and res: "resolves_to k h f (pe_exec_path e)"
    obtain i where i: "canonicalize_rule (process_rule (e\<lparr>pe_freq := n\<rparr>) i) \<in> set rules"
      using profile_rules_in(3) [OF e] kept by blast
    have "exec_hash (canonicalize_rule (process_rule (e\<lparr>pe_freq := n\<rparr>) i)) = Some (fnv1a_hash_bytes (pe_exec_path e))"
      using ty by (simp add: canonicalize_rule_def process_rule_def exec_hash_def)
    from exec_allowed [OF only i this] show "fst (enforce_bprm_check K s' k h ts (Some f)) = 0"
      using bprm_check_loaded [OF loaded assms(6,7) res] by simp
  next
    fix e n be_port
    assume e: "(NetworkEv e, n) \<in> set m" and dir: "ne_direction e = Egress"
      and port: "ne_dst_port e = ucast (u16_from_be be_port)"
    obtain i where i: "canonicalize_rule (network_rule (e\<lparr>ne_freq := n\<rparr>) i) \<in> set rules"
      using profile_rules_in(2) [OF e] kept by blast
    have "connect_to (canonicalize_rule (network_rule (e\<lparr>ne_freq := n\<rparr>) i)) = Some (ne_dst_ip e, ne_dst_port e)"
      using dir by (simp add: canonicalize_rule_def network_rule_def connect_to_def)
    from connect_allowed [OF only i this] port
    show "fst (enforce_socket_connect K s' ts \<lparr>sa_family = Some AF_INET, sa_s_addr = Some (ne_dst_ip e),
        sa_sin_port = Some be_port\<rparr>) = 0"
      using socket_connect_loaded [OF loaded assms(6,7) refl] by simp
  }
qed

definition sample_tools :: Tools where
  "sample_tools = \<lparr>tl_read = (\<lambda>p. Inr ''profile''), tl_write = (\<lambda>p t. Inr ()),
     tl_from_str = (\<lambda>t. Inr (all_events_value (exported_events sample_counts 7))),
     tl_pattern_from_value = sample_pattern_from_value, tl_config_from_str = (\<lambda>t. Inr default_config),
     tl_rules_to_json = (\<lambda>rules. Inr ''rules''), tl_debug = id, tl_orders = ([], [], [])\<rparr>"

lemma sample_profile_rules: "length (profile_rules sample_counts) = 2"
  by (simp add: profile_rules_def sample_counts_def fs_of_def network_of_def process_of_def
      List.map_filter_simps)

lemma sample_no_exec: "r \<in> set (canonicalization_run (profile_rules sample_counts)) \<Longrightarrow> exec_binary_path r = None"
  by (auto simp: profile_rules_def sample_counts_def fs_of_def network_of_def process_of_def
      List.map_filter_simps canonicalization_run_def canonicalize_rule_def fs_rule_def network_rule_def
      exec_binary_path_def)

lemma link_nothing: "\<forall>r \<in> set rs. exec_binary_path r = None \<Longrightarrow> foldl (link_rule rules) st rs = st"
  by (induction rs arbitrary: st) (auto simp: link_rule_def)

lemma hosts_class: "kernel_class ''/etc/hosts'' = Regular"
  by (simp add: kernel_class_def classify_path_def classify_bytes_def bytes_at_def MAX_PATH_DEPTH_def
      MAX_IDX_def upt_rec)

lemma hosts_canonical: "canonical_path ''/etc/hosts''"
proof -
  have "canonicalize_path ''/etc/hosts'' = ''/etc/hosts''" by code_simp
  then show ?thesis using canonicalize_is_canonical [of "''/etc/hosts''"] by simp
qed

theorem observed_behaviour_allowed_witness:
  "\<exists>rules s' stats. compile_profile sample_tools ''profile'' True default_config = Inr rules
     \<and> apply_rules hash_kernel 7 False rules True empty_maps = (s', Inr stats)
     \<and> fst (enforce_file_open hash_kernel s' sample_fs fresh_heap sample_task (hosts_file 0)) = 0
     \<and> fst (enforce_socket_connect hash_kernel s' sample_task
         \<lparr>sa_family = Some AF_INET, sa_s_addr = Some 0x0100007F, sa_sin_port = Some 0xBB01\<rparr>) = 0"
proof -
  let ?rules = "canonicalization_run (profile_rules sample_counts)"
  have doc: "tl_from_str sample_tools ''profile'' = Inr (all_events_value (exported_events sample_counts 7))"
    and pat: "\<And>p. tl_pattern_from_value sample_tools (JString (variant_name p)) = Some p"
    by (simp_all add: sample_tools_def sample_pattern_from_value_def)
  have "link_cross_category ?rules = ?rules"
    using link_nothing sample_no_exec by (simp add: link_cross_category_append)
  then have rules: "compile_profile sample_tools ''profile'' True default_config = Inr ?rules"
    using translate_document [where from_str = "tl_from_str sample_tools" and
        pattern_from_value = "tl_pattern_from_value sample_tools", OF doc pat]
    by (simp add: compile_profile_def profile_rules_def)
  have "length ?rules \<le> 1000" by (simp add: canonicalization_run_def sample_profile_rules)
  then obtain s' stats where r: "apply_rules hash_kernel 7 False ?rules True empty_maps = (s', Inr stats)"
    using small_policy_loads by blast
  have task: "ts_cgroup_id sample_task = Some 7" by (simp add: sample_task_def)
  note all = observed_behaviour_allowed [OF doc pat rules hash_kernel_laws r empty_unbound task]
  obtain e w where e: "(FsEv e, 5) \<in> set sample_counts" "fe_path e = ''/etc/hosts''" "fe_r_w e = 0"
      "fe_path_pattern e = Regular"
    and w: "(NetworkEv w, 3) \<in> set sample_counts" "ne_direction w = Egress" "ne_dst_ip w = 0x0100007F"
      "ne_dst_port w = 443"
    by (simp add: sample_counts_def)
  have req: "requested_access (hosts_file 0) = ACCESS_READ" by (simp add: hosts_file_def requested_access_def)
  have "fst (enforce_file_open hash_kernel s' sample_fs fresh_heap sample_task (hosts_file 0)) = 0"
    by (rule conjunct1 [OF all, rule_format, of e 5])
      (simp add: e req hosts_resolves hosts_canonical hosts_class)
  moreover have "fst (enforce_socket_connect hash_kernel s' sample_task
         \<lparr>sa_family = Some AF_INET, sa_s_addr = Some (ne_dst_ip w), sa_sin_port = Some 0xBB01\<rparr>) = 0"
    by (rule conjunct2 [OF conjunct2 [OF all], rule_format, of w 3]) (simp add: w u16_from_be_def)
  ultimately show ?thesis using rules r w(3) by auto
qed

end
