(* ===== verification/Optimized.thy ===== *)
theory Optimized
  imports EndToEnd
begin

text \<open>
  The way of an observation through the whole program with the optimization passes: each rule of the
  profile has a successor in the optimized policy, and the hooks let the observed behaviour through on
  account of it.
\<close>

section \<open>The successor of a rule\<close>

text \<open>\<open>survives r t\<close>: \<open>t\<close> decides the same access as \<open>r\<close>, for the same object or one that covers it.\<close>

definition survives :: "BehaviorRule \<Rightarrow> BehaviorRule \<Rightarrow> bool" where
  "survives r t =
     (r_subject t = r_subject r \<and> r_action t = r_action r \<and> r_verdict t = r_verdict r
      \<and> (r_object t = r_object r \<or> object_subsumed (r_object r) (r_object t)))"

lemma survives_refl: "survives r r"
  by (simp add: survives_def)

lemma object_subsumed_trans:
  "object_subsumed a b \<Longrightarrow> object_subsumed b c \<Longrightarrow> object_subsumed a c"
  by (auto simp: object_subsumed_def split: Object.splits dest: relation_to_trans)

lemma survives_trans: "survives r s \<Longrightarrow> survives s t \<Longrightarrow> survives r t"
  by (auto simp: survives_def dest: object_subsumed_trans)

lemma survives_signature:
  "signature t = signature t' \<Longrightarrow> r_verdict t = r_verdict t' \<Longrightarrow> survives r t = survives r t'"
  by (simp add: survives_def signature_def)

lemma survives_covered: "rule_covered r t \<Longrightarrow> survives r t"
  by (simp add: survives_def rule_covered_def)

lemma generalize_signature:
  "signature r = signature r' \<Longrightarrow> signature (generalize_rule r) = signature (generalize_rule r')"
  by (auto simp: signature_def generalize_rule_def split: Object.splits FilePattern.splits option.splits)

lemma dedup_survives:
  "allow_only rules \<Longrightarrow> r \<in> set rules \<Longrightarrow> \<exists>t \<in> set (dedup_run ks rules). survives r t"
  using dedup_ex [OF allow_only_agree, of rules "survives r" ks] survives_signature survives_refl by metis

lemma dedup_generalize_survives:
  assumes "allow_only rules" and "r \<in> set rules"
  shows "\<exists>t \<in> set (generalization_run (dedup_run ks rules)). survives (generalize_rule r) t"
proof -
  have "\<exists>t \<in> set (dedup_run ks rules). survives (generalize_rule r) (generalize_rule t)"
  proof (subst dedup_ex [OF allow_only_agree [OF assms(1)], where Q = "\<lambda>t. survives (generalize_rule r) (generalize_rule t)"])
    show "survives (generalize_rule r) (generalize_rule t) = survives (generalize_rule r) (generalize_rule t')"
      if "signature t = signature t'" "r_verdict t = r_verdict t'" for t t'
      using that by (intro survives_signature generalize_signature) simp_all
  qed (use assms(2) survives_refl in blast)
  then show ?thesis by (simp add: generalization_run_map)
qed

lemma synthesize_survives:
  assumes "((s, a, v, dir), idxs) \<in> set (groups rules)" and "i \<in> set idxs"
  shows "survives (rules ! i) (synthesize rules ((s, a, v, dir), idxs))"
proof -
  have "candidate_key (rules ! i) = Some (s, a, v, dir)" using in_group [OF assms(1)] assms(2) by blast
  then obtain p where p: "r_object (rules ! i) = File \<lparr>fo_pattern = ExactPath p, fo_is_sensitive = False\<rparr>"
      "parent_dir p = Some dir" "r_subject (rules ! i) = s" "r_action (rules ! i) = a" "r_verdict (rules ! i) = v"
    by (auto simp: candidate_key_Some)
  moreover have "prefix dir p" using parent_dir_Some [OF p(2)] by (auto simp: prefix_def)
  ultimately show ?thesis
    by (simp add: survives_def synthesize_def Let_def object_subsumed_def relation_to_Superset)
qed

lemma prefix_generalization_survives:
  assumes "r \<in> set rules"
  shows "\<exists>t \<in> set (prefix_generalization_run ks pass rules). survives r t"
proof -
  obtain i where i: "i < length rules" "rules ! i = r" using assms by (auto simp: in_set_conv_nth)
  show ?thesis
  proof (cases "i \<in> set (concat (map snd (collapsing ks pass rules)))")
    case True
    then obtain s a v dir idxs where g: "((s, a, v, dir), idxs) \<in> set (collapsing ks pass rules)" "i \<in> set idxs"
      by auto
    then have "survives r (synthesize rules ((s, a, v, dir), idxs))"
      using synthesize_survives i by (auto simp: collapsing_groups)
    then show ?thesis using g(1) by (auto simp: prefix_run_set)
  next
    case False
    then have "r \<in> set (prefix_generalization_run ks pass rules)" using i unfolding prefix_run_set by blast
    then show ?thesis using survives_refl by blast
  qed
qed

lemma subsumption_survives: "r \<in> set rules \<Longrightarrow> \<exists>t \<in> set (subsumption_run rules). survives r t"
  using subsumption_survivor survives_refl survives_covered by metis

text \<open>No rule is lost by the pipeline.\<close>

lemma optimize_survives:
  assumes "allow_only rules" and "r \<in> set rules"
  shows "\<exists>t \<in> set (optimize k1 kg k2 config rules). survives (generalize_rule (canonicalize_rule r)) t"
proof -
  let ?u = "generalize_rule (canonicalize_rule r)"
  let ?gen = "generalization_run (dedup_run k1 (canonicalization_run rules))"
  let ?wide = "prefix_generalization_run kg (from_config config) ?gen"
  have "canonicalize_rule r \<in> set (canonicalization_run rules)"
    using assms(2) by (simp add: canonicalization_run_map)
  then obtain t1 where t1: "t1 \<in> set ?gen" "survives ?u t1"
    using dedup_generalize_survives [of "canonicalization_run rules"] assms(1) by auto
  then obtain t2 where t2: "t2 \<in> set ?wide" "survives ?u t2"
    using prefix_generalization_survives survives_trans by meson
  then obtain t3 where t3: "t3 \<in> set (subsumption_run ?wide)" "survives ?u t3"
    using subsumption_survives survives_trans by meson
  have "allow_only (subsumption_run ?wide)"
    using assms(1) by (intro allow_only_subsumption allow_only_prefix) (simp add: allow_only_dedup)
  then show ?thesis
    using dedup_survives t3 survives_trans unfolding optimize_def by meson
qed

lemma optimize_allow_only: "allow_only rules \<Longrightarrow> allow_only (optimize k1 kg k2 config rules)"
  unfolding optimize_def by (intro allow_only_dedup allow_only_subsumption allow_only_prefix) (simp add: allow_only_dedup)

section \<open>What the hooks decide\<close>

lemma class_verdict_allows: "allow_only rules \<Longrightarrow> class_verdict rules c = None \<or> class_verdict rules c = Some 1"
proof -
  assume allow: "allow_only rules"
  show ?thesis
  proof (cases "filter (\<lambda>r. rule_class r = Some c) rules = []")
    case True
    then show ?thesis by (simp add: class_verdict_def wanted_verdict_def)
  next
    case False
    then have "wanted_verdict None (filter (\<lambda>r. rule_class r = Some c) rules) = Some 1"
      using allowed_verdict [OF allow hd_in_set [OF False]] by blast
    then show ?thesis by (simp add: class_verdict_def)
  qed
qed

lemma prefix_allowed:
  assumes "allow_only rules" and "r \<in> set rules" and "rule_prefix r = Some pre" and "pre \<noteq> []"
    and "prefix pre path" and "length (List.map_filter rule_prefix rules) \<le> 64"
  shows "prefix_verdict rules path = Some 1"
proof -
  let ?f = "\<lambda>r. map_option (\<lambda>p. (take PREFIX_MAX_LEN p, verdict_to_u8 (r_verdict r))) (rule_prefix r)"
  let ?P = "\<lambda>(pre, v). pre \<noteq> [] \<and> prefix pre path"
  have "length (List.map_filter ?f rules) = length (List.map_filter rule_prefix rules)"
    by (simp add: List.map_filter_def comp_def)
  then have kept: "kept_prefixes rules = List.map_filter ?f rules" using assms(6) by (simp add: kept_prefixes_def)
  have "(take PREFIX_MAX_LEN pre, 1) \<in> set (kept_prefixes rules)"
    using assms(1-3) by (force simp: kept set_map_filter allow_only_iff verdict_to_u8_def)
  moreover have "prefix (take PREFIX_MAX_LEN pre) path"
    using assms(5) take_is_prefix prefix_order.trans by blast
  moreover have "take PREFIX_MAX_LEN pre \<noteq> []" using assms(4) by (simp add: PREFIX_MAX_LEN_def)
  ultimately have "find ?P (kept_prefixes rules) \<noteq> None" by (auto simp: find_None_iff)
  then obtain pv where pv: "find ?P (kept_prefixes rules) = Some pv" by blast
  then have "pv \<in> set (kept_prefixes rules)" by (metis find_Some_iff nth_mem)
  then have "snd pv = 1" using assms(1) by (auto simp: kept set_map_filter allow_only_iff verdict_to_u8_def)
  then show ?thesis using pv by (simp add: prefix_verdict_def)
qed

text \<open>
  \<open>exact_entry_agrees\<close>: the table of exact paths, which is asked first, has no entry for the path or one
  that grants the access.
\<close>

definition exact_entry_agrees :: "BehaviorRule list \<Rightarrow> string \<Rightarrow> Action \<Rightarrow> bool" where
  "exact_entry_agrees rules path a =
     (let of_path = filter (\<lambda>r. exact_hash r = Some (fnv1a_hash_bytes path)) rules
      in of_path = [] \<or> list_ex (\<lambda>r. r_action r = a) of_path)"

lemma file_allowed_below:
  assumes "allow_only rules" and "exact_entry_agrees rules path a"
    and "(\<exists>r \<in> set rules. exact_hash r = Some (fnv1a_hash_bytes path))
      \<or> c \<noteq> Regular \<and> class_verdict rules c = Some 1 \<or> prefix_verdict rules path = Some 1"
  shows "file_decision rules path c (access_bit a)"
proof (cases "\<exists>r \<in> set rules. exact_hash r = Some (fnv1a_hash_bytes path)")
  case True
  then obtain r where "r \<in> set rules" "exact_hash r = Some (fnv1a_hash_bytes path)" "r_action r = a"
    using assms(2) by (auto simp: exact_entry_agrees_def filter_empty_conv list_ex_iff)
  then show ?thesis using file_allowed_exact [OF assms(1)] by blast
next
  case False
  then have "mask_of None (filter (\<lambda>r. exact_hash r = Some (fnv1a_hash_bytes path)) rules) = None"
    by (metis (mono_tags, lifting) filter_False mask_of_def)
  then show ?thesis
    using assms(3) False class_verdict_allows [OF assms(1), of c] by (auto simp: file_decision_def)
qed

text \<open>A rule for the path itself, or for its class, has a successor that lets the path through.\<close>

lemma successor_decides:
  assumes "allow_only rules" and "t \<in> set rules" and "survives u t" and "r_object u = File fo"
    and "r_action u = FileRead \<or> r_action u = FileWrite"
    and "fo_pattern fo = ExactPath path
      \<or> kernel_class path \<noteq> Regular \<and> root_safe (kernel_class path) \<and> fo_pattern fo = Classified (kernel_class path)"
    and "length (List.map_filter rule_prefix rules) \<le> 64" and "list_all (\<lambda>r. rule_prefix r \<noteq> Some []) rules"
  shows "(\<exists>r \<in> set rules. exact_hash r = Some (fnv1a_hash_bytes path))
    \<or> kernel_class path \<noteq> Regular \<and> class_verdict rules (kernel_class path) = Some 1
    \<or> prefix_verdict rules path = Some 1"
proof -
  have a: "r_action t = FileRead \<or> r_action t = FileWrite" using assms(3,5) by (auto simp: survives_def)
  from assms(3) consider "r_object t = File fo" | "object_subsumed (File fo) (r_object t)"
    by (auto simp: survives_def assms(4))
  then show ?thesis
  proof cases
    case 1
    then have pat: "rule_pattern t = Some (fo_pattern fo)" using a by (auto simp: rule_pattern_def)
    then have "exact_hash t = Some (fnv1a_hash_bytes path) \<or> kernel_class path \<noteq> Regular
        \<and> rule_class t = Some (kernel_class path)"
      using assms(6) by (auto simp: exact_hash_def rule_class_def)
    then show ?thesis
      using assms(2) allowed_verdict [OF assms(1), of t "\<lambda>r. rule_class r = Some (kernel_class path)"]
      by (auto simp: class_verdict_def)
  next
    case 2
    then obtain go pre where t: "r_object t = File go" "fo_pattern go = Prefix pre"
        and sup: "relation_to (Prefix pre) (fo_pattern fo) = Superset"
      by (auto simp: object_subsumed_def relation_to_Superset split: Object.splits)
    have "rule_prefix t = Some pre" using t a by (auto simp: rule_prefix_def rule_pattern_def)
    moreover have "pre \<noteq> []" using calculation assms(2,8) by (auto simp: list_all_iff)
    moreover have "pattern_matches kernel_match (Prefix pre) path"
      by (rule kernel.superset_sound [OF sup])
        (use assms(6) in \<open>auto simp: kernel_match_def kernel_class_def\<close>)
    ultimately have "prefix_verdict rules path = Some 1"
      using prefix_allowed [OF assms(1,2) _ _ _ assms(7)] by simp
    then show ?thesis by blast
  qed
qed

text \<open>What the kernel calls \<open>Regular\<close> is not under \<open>/proc\<close>, so the classification pass leaves it alone.\<close>

lemma bytes_at_prefix:
  assumes "prefix lit s" and "length lit \<le> 32"
  shows "bytes_at (classify_bytes s) 0 lit"
proof -
  obtain rest where s: "s = lit @ rest" using assms(1) by (auto simp: prefix_def)
  have "classify_bytes s ! j = lit ! j" if "j < length lit" for j
    using that assms(2) by (auto simp: s classify_bytes_def MAX_PATH_DEPTH_def nth_append min_def)
  then show ?thesis using assms(2) by (simp add: bytes_at_iff MAX_IDX_def MAX_PATH_DEPTH_def)
qed

lemma suffix_not_regular: "fst (classify_proc_suffix p n) \<noteq> Regular"
  by (simp add: classify_proc_suffix_def classify_proc_suffix_c_def classify_proc_suffix_e_def
      classify_proc_suffix_f_def classify_proc_suffix_m_def classify_proc_suffix_n_def
      classify_proc_suffix_r_def classify_proc_suffix_s_def classify_proc_suffix_t_def Let_def)

lemma regular_unclassified: "kernel_class path = Regular \<Longrightarrow> try_classify path = None"
proof (rule ccontr)
  assume reg: "kernel_class path = Regular" and "try_classify path \<noteq> None"
  then have "prefix ''/proc/'' path" by (auto simp: try_classify_def split: if_splits)
  then have "bytes_at (classify_bytes path) 0 ''/proc/''" by (rule bytes_at_prefix) simp
  then have "fst (classify_proc (classify_bytes path) 6 0) = Regular"
    using reg by (simp add: kernel_class_def classify_path_def)
  moreover have "fst (classify_proc p n i) \<noteq> Regular" for p n i
    using suffix_not_regular [of p]
    by (auto simp: classify_proc_def classify_proc_global_def Let_def split: prod.splits) (metis fst_conv)+
  ultimately show False by blast
qed

section \<open>No empty prefix\<close>

definition prefix_named :: "BehaviorRule \<Rightarrow> bool" where
  "prefix_named r = (case r_object r of File fo \<Rightarrow> fo_pattern fo \<noteq> Prefix [] | _ \<Rightarrow> True)"

lemma prefix_named_pipeline:
  assumes "list_all prefix_named (canonicalization_run rules)" and "allow_only rules"
  shows "list_all prefix_named (optimize k1 kg k2 config rules)"
proof -
  have dedup: "list_all prefix_named (dedup_run ks rs)" if "list_all prefix_named rs" "allow_only rs" for ks rs
    using dedup_ex [OF allow_only_agree [OF that(2)], of "\<lambda>r. \<not> prefix_named r" ks] that(1)
    by (simp add: list_all_iff prefix_named_def signature_def)
  have gen: "list_all prefix_named (generalization_run rs)" if "list_all prefix_named rs" for rs
    using that by (auto simp: generalization_run_map list_all_iff prefix_named_def generalize_rule_def
        split: Object.splits FilePattern.splits option.splits)
  have syn: "prefix_named (synthesize rs g)" if g: "g \<in> set (collapsing kg (from_config config) rs)" for rs g
  proof -
    obtain s a v dir idxs where k: "g = ((s, a, v, dir), idxs)" by (metis prod.exhaust)
    have mem: "((s, a, v, dir), idxs) \<in> set (groups rs)" using g by (simp add: k collapsing_groups)
    then obtain i where "i \<in> set idxs" using group_not_Nil [OF mem] by (cases idxs) auto
    then have "candidate_key (rs ! i) = Some (s, a, v, dir)" using in_group [OF mem] by blast
    then obtain p where "parent_dir p = Some dir" by (auto simp: candidate_key_Some)
    then show ?thesis using parent_dir_Some by (fastforce simp: k prefix_named_def synthesize_def Let_def)
  qed
  have wide: "list_all prefix_named (prefix_generalization_run kg (from_config config) rs)"
    if "list_all prefix_named rs" for rs
    using that syn [of _ rs] by (auto simp: list_all_iff prefix_run_set)
  have sub: "list_all prefix_named (subsumption_run rs)" if "list_all prefix_named rs" for rs
    using that by (simp add: list_all_iff subsumption_run_filter)
  show ?thesis
    unfolding optimize_def using assms
    by (intro dedup sub wide gen allow_only_subsumption allow_only_prefix) (simp_all add: allow_only_dedup dedup)
qed

lemma prefix_named_link: "list_all prefix_named rules \<Longrightarrow> list_all prefix_named (link_cross_category rules)"
  by (auto simp: list_all_iff prefix_named_def linked_object_def dest!: link_from split: Object.splits)

lemma prefix_named_profile: "list_all prefix_named (canonicalization_run (profile_rules m))"
  unfolding canonicalization_run_map profile_rules_def
  by (auto simp: list_all_iff in_set_enumerate_eq nth_append fs_rule_def network_rule_def process_rule_def
      prefix_named_def canonicalize_rule_def canonicalize_pattern_def)

lemma compiled_optimized:
  assumes "tl_from_str T profile_json = Inr (all_events_value (exported_events m cgroup))"
    and "\<And>p. tl_pattern_from_value T (JString (variant_name p)) = Some p"
    and "compile_profile T profile_json False cfg = Inr rules"
  shows "allow_only rules" and "list_all prefix_named rules"
    and "r \<in> set (profile_rules m) \<Longrightarrow> \<exists>t \<in> set rules. survives (generalize_rule (canonicalize_rule r)) t"
proof -
  obtain k1 kg k2 where "tl_orders T = (k1, kg, k2)" by (metis prod.exhaust)
  then have rules: "rules = link_cross_category (optimize k1 kg k2 cfg (profile_rules m))"
    using assms(3) translate_document [where from_str = "tl_from_str T" and
        pattern_from_value = "tl_pattern_from_value T", OF assms(1,2)]
    by (simp add: compile_profile_def profile_rules_def)
  show "allow_only rules" unfolding rules by (intro allow_only_link optimize_allow_only profile_rules_allow)
  show "list_all prefix_named rules"
    unfolding rules by (intro prefix_named_link prefix_named_pipeline prefix_named_profile profile_rules_allow)
  show "\<exists>t \<in> set rules. survives (generalize_rule (canonicalize_rule r)) t" if "r \<in> set (profile_rules m)"
    using optimize_survives [OF profile_rules_allow that] unfolding rules link_cross_category_append set_append
    by blast
qed

section \<open>What was observed stays allowed\<close>

text \<open>The rule of a file event after canonicalization and classification.\<close>

lemma classified_fs_rule:
  assumes "fe_path_pattern e = kernel_class (fe_path e)" and "canonical_path (fe_path e)"
  shows "generalize_rule (canonicalize_rule (fs_rule e i)) = fs_rule e i"
  using assms regular_unclassified canonicalize_canonical
  by (auto simp: generalize_rule_def canonicalize_rule_def fs_rule_def canonicalize_pattern_def)

definition file_action :: "FsEvent \<Rightarrow> Action" where
  "file_action e = (if fe_r_w e = 1 then FileWrite else FileRead)"

lemma observed_file_decided:
  assumes "allow_only rules" and "list_all prefix_named rules"
    and "t \<in> set rules" and "survives (fs_rule e i) t"
    and "fe_path_pattern e = kernel_class (fe_path e)"
    and "root_safe (fe_path_pattern e)" and "exact_entry_agrees rules (fe_path e) (file_action e)"
    and "length (List.map_filter rule_prefix rules) \<le> 64"
  shows "file_decision rules (fe_path e) (kernel_class (fe_path e)) (access_bit (file_action e))"
proof (rule file_allowed_below [OF assms(1,7) successor_decides [OF assms(1,3,4) _ _ _ assms(8)]])
  show "list_all (\<lambda>r. rule_prefix r \<noteq> Some []) rules"
    using assms(2) by (auto simp: list_all_iff prefix_named_def rule_prefix_def rule_pattern_def
        split: Object.splits if_splits FilePattern.splits)
qed (use assms(5,6) in \<open>auto simp: fs_rule_def\<close>)

text \<open>
  C3: optimization keeps what was observed. Let the profile that the monitor exported be compiled with
  the optimization passes, for any configuration and any order of the hash maps, and loaded for a control group that
  had no entries. Then the hooks let the group repeat what it was observed to do: open a file for the
  access that was counted, unless the table of exact paths, asked first, has an entry for the path
  without that access; execute a program that was executed; and connect to an address and port it had
  connected to. The policy must fit the 64 slots for prefixes.
\<close>

theorem optimized_behaviour_allowed:
  assumes "tl_from_str T profile_json = Inr (all_events_value (exported_events m cgroup))"
    and "\<And>p. tl_pattern_from_value T (JString (variant_name p)) = Some p"
    and "compile_profile T profile_json False cfg = Inr rules"
    and "kernel_laws K" and "apply_rules K cgid False rules skb s = (s', Inr stats)"
    and "unbound cgid (tables K s)" and "ts_cgroup_id ts = Some cgid"
    and "length (List.map_filter rule_prefix rules) \<le> 64"
  shows "(\<forall>e n k h f. (FsEv e, n) \<in> set m \<and> resolves_to k h f (fe_path e) \<and> canonical_path (fe_path e)
        \<and> fe_path_pattern e = kernel_class (fe_path e) \<and> root_safe (fe_path_pattern e)
        \<and> requested_access f = access_bit (file_action e)
        \<and> exact_entry_agrees rules (fe_path e) (file_action e)
        \<longrightarrow> fst (enforce_file_open K s' k h ts f) = 0)
    \<and> (\<forall>e n k h f. (ProcessEv e, n) \<in> set m \<and> pe_ps_type e = Execve \<and> resolves_to k h f (pe_exec_path e)
        \<longrightarrow> fst (enforce_bprm_check K s' k h ts (Some f)) = 0)
    \<and> (\<forall>e n be_port. (NetworkEv e, n) \<in> set m \<and> ne_direction e = Egress
          \<and> ne_dst_port e = ucast (u16_from_be be_port)
        \<longrightarrow> fst (enforce_socket_connect K s' ts \<lparr>sa_family = Some AF_INET, sa_s_addr = Some (ne_dst_ip e),
              sa_sin_port = Some be_port\<rparr>) = 0)"
proof (intro conjI allI impI; elim conjE)
  note loaded = load_effect [OF assms(4,5)] and only = compiled_optimized(1) [OF assms(1-3)]
    and named = compiled_optimized(2) [OF assms(1-3)] and kept = compiled_optimized(3) [OF assms(1-3)]
  {
    fix e n k h f
    assume e: "(FsEv e, n) \<in> set m" and res: "resolves_to k h f (fe_path e)"
      and canon: "canonical_path (fe_path e)" and cls: "fe_path_pattern e = kernel_class (fe_path e)"
      and safe: "root_safe (fe_path_pattern e)" and req: "requested_access f = access_bit (file_action e)"
      and agrees: "exact_entry_agrees rules (fe_path e) (file_action e)"
    let ?e = "e\<lparr>fe_freq := n\<rparr>"
    obtain i t where "t \<in> set rules" "survives (generalize_rule (canonicalize_rule (fs_rule ?e i))) t"
      using profile_rules_in(1) [OF e] kept by blast
    then have t: "t \<in> set rules" "survives (fs_rule ?e i) t"
      using cls canon by (simp_all add: classified_fs_rule)
    have "file_decision rules (fe_path e) (kernel_class (fe_path e)) (requested_access f)"
      using observed_file_decided [OF only named t _ _ _ assms(8)] cls safe agrees req
      by (simp add: file_action_def)
    then show "fst (enforce_file_open K s' k h ts f) = 0"
      using file_open_loaded [OF loaded assms(6,7) res refl refl refl refl] by simp
  next
    fix e n k h f
    assume e: "(ProcessEv e, n) \<in> set m" and ty: "pe_ps_type e = Execve" and res: "resolves_to k h f (pe_exec_path e)"
    obtain i t where t: "t \<in> set rules"
        "survives (generalize_rule (canonicalize_rule (process_rule (e\<lparr>pe_freq := n\<rparr>) i))) t"
      using profile_rules_in(3) [OF e] kept by blast
    have "exec_hash t = Some (fnv1a_hash_bytes (pe_exec_path e))"
      using t(2) ty by (simp add: survives_def generalize_rule_def canonicalize_rule_def process_rule_def
          object_subsumed_def exec_hash_def)
    from exec_allowed [OF only t(1) this] show "fst (enforce_bprm_check K s' k h ts (Some f)) = 0"
      using bprm_check_loaded [OF loaded assms(6,7) res] by simp
  next
    fix e n be_port
    assume e: "(NetworkEv e, n) \<in> set m" and dir: "ne_direction e = Egress"
      and port: "ne_dst_port e = ucast (u16_from_be be_port)"
    obtain i t where t: "t \<in> set rules"
        "survives (generalize_rule (canonicalize_rule (network_rule (e\<lparr>ne_freq := n\<rparr>) i))) t"
      using profile_rules_in(2) [OF e] kept by blast
    have "connect_to t = Some (ne_dst_ip e, ne_dst_port e)"
      using t(2) dir by (simp add: survives_def generalize_rule_def canonicalize_rule_def network_rule_def
          object_subsumed_def connect_to_def)
    from connect_allowed [OF only t(1) this] port
    show "fst (enforce_socket_connect K s' ts \<lparr>sa_family = Some AF_INET, sa_s_addr = Some (ne_dst_ip e),
        sa_sin_port = Some be_port\<rparr>) = 0"
      using socket_connect_loaded [OF loaded assms(6,7) refl] by simp
  }
qed

section \<open>A profile to which it applies\<close>

lemma sample_optimized:
  "optimize [] [] [] default_config (profile_rules sample_counts) = profile_rules sample_counts"
proof -
  let ?P = "profile_rules sample_counts"
  have "canonicalization_run ?P = ?P" "dedup_run [] ?P = ?P" "generalization_run ?P = ?P"
    "collapsing [] (from_config default_config) ?P = []" "subsumption_run ?P = ?P"
    by code_simp+
  then show ?thesis by (simp add: optimize_def prefix_generalization_run_def)
qed

lemma sample_compiled:
  "compile_profile sample_tools ''profile'' False default_config = Inr (profile_rules sample_counts)"
proof -
  let ?rules = "profile_rules sample_counts"
  have doc: "tl_from_str sample_tools ''profile'' = Inr (all_events_value (exported_events sample_counts 7))"
    and pat: "\<And>p. tl_pattern_from_value sample_tools (JString (variant_name p)) = Some p"
    by (simp_all add: sample_tools_def sample_pattern_from_value_def)
  have "canonicalization_run ?rules = ?rules" by code_simp
  then have "link_cross_category ?rules = ?rules"
    using link_nothing [of ?rules] sample_no_exec by (simp add: link_cross_category_append)
  then show ?thesis
    using translate_document [where from_str = "tl_from_str sample_tools" and
        pattern_from_value = "tl_pattern_from_value sample_tools", OF doc pat] sample_optimized
    by (simp add: compile_profile_def profile_rules_def sample_tools_def)
qed

theorem optimized_behaviour_allowed_witness:
  "\<exists>rules s' stats. compile_profile sample_tools ''profile'' False default_config = Inr rules
     \<and> apply_rules hash_kernel 7 False rules True empty_maps = (s', Inr stats)
     \<and> fst (enforce_file_open hash_kernel s' sample_fs fresh_heap sample_task (hosts_file 0)) = 0
     \<and> fst (enforce_socket_connect hash_kernel s' sample_task
         \<lparr>sa_family = Some AF_INET, sa_s_addr = Some 0x0100007F, sa_sin_port = Some 0xBB01\<rparr>) = 0"
proof -
  let ?rules = "profile_rules sample_counts"
  have doc: "tl_from_str sample_tools ''profile'' = Inr (all_events_value (exported_events sample_counts 7))"
    and pat: "\<And>p. tl_pattern_from_value sample_tools (JString (variant_name p)) = Some p"
    by (simp_all add: sample_tools_def sample_pattern_from_value_def)
  note rules = sample_compiled
  have "length ?rules \<le> 1000" by (simp add: sample_profile_rules)
  then obtain s' stats where r: "apply_rules hash_kernel 7 False ?rules True empty_maps = (s', Inr stats)"
    using small_policy_loads by blast
  have task: "ts_cgroup_id sample_task = Some 7" by (simp add: sample_task_def)
  have "List.map_filter rule_prefix ?rules = []" by code_simp
  then have slots: "length (List.map_filter rule_prefix ?rules) \<le> 64" by simp
  note all = optimized_behaviour_allowed [OF doc pat rules hash_kernel_laws r empty_unbound task slots]
  obtain e w where e: "(FsEv e, 5) \<in> set sample_counts" "fe_path e = ''/etc/hosts''" "file_action e = FileRead"
      "fe_path_pattern e = Regular"
    and w: "(NetworkEv w, 3) \<in> set sample_counts" "ne_direction w = Egress" "ne_dst_ip w = 0x0100007F"
      "ne_dst_port w = 443"
    by (simp add: sample_counts_def file_action_def)
  have req: "requested_access (hosts_file 0) = access_bit FileRead"
    by (simp add: hosts_file_def requested_access_def access_bit_def)
  obtain i where "fs_rule (e\<lparr>fe_freq := 5\<rparr>) i \<in> set ?rules" using profile_rules_in(1) [OF e(1)] by blast
  then have "exact_entry_agrees ?rules ''/etc/hosts'' FileRead"
    using e by (force simp: exact_entry_agrees_def list_ex_iff exact_hash_def rule_pattern_def fs_rule_def
        file_action_def)
  then have "fst (enforce_file_open hash_kernel s' sample_fs fresh_heap sample_task (hosts_file 0)) = 0"
    by (intro conjunct1 [OF all, rule_format, of e 5])
      (simp add: e req hosts_resolves hosts_canonical hosts_class root_safe_def)
  moreover have "fst (enforce_socket_connect hash_kernel s' sample_task
         \<lparr>sa_family = Some AF_INET, sa_s_addr = Some (ne_dst_ip w), sa_sin_port = Some 0xBB01\<rparr>) = 0"
    by (rule conjunct2 [OF conjunct2 [OF all], rule_format, of w 3]) (simp add: w u16_from_be_def)
  ultimately show ?thesis using rules r w(3) by auto
qed

section \<open>What optimization takes away\<close>

text \<open>
  The condition on the exact entry is needed. Four files of a directory were read, and one of them was
  also written. The reads become a prefix rule, the write stays an exact one, and the exact entry then
  denies the read that the unoptimized policy allows.
\<close>

definition seg_rule :: "RuleId \<Rightarrow> char \<Rightarrow> Action \<Rightarrow> BehaviorRule" where
  "seg_rule n c a = sample_file n (ExactPath (''/v/app/seg'' @ [c])) a"

definition read_and_written :: "BehaviorRule list" where
  "read_and_written =
     [seg_rule 1 CHR ''1'' FileRead, seg_rule 2 CHR ''2'' FileRead, seg_rule 3 CHR ''3'' FileRead,
      seg_rule 4 CHR ''4'' FileRead, seg_rule 5 CHR ''1'' FileWrite]"

lemmas seg_simps = seg_rule_def sample_file_def granted_rule_def

lemma optimization_denies_observed:
  "file_decision read_and_written ''/v/app/seg1'' Regular ACCESS_READ
   \<and> \<not> file_decision (optimize [] [] [] default_config read_and_written) ''/v/app/seg1'' Regular ACCESS_READ"
proof
  have "seg_rule 1 CHR ''1'' FileRead \<in> set read_and_written" "allow_only read_and_written"
    "exact_hash (seg_rule 1 CHR ''1'' FileRead) = Some (fnv1a_hash_bytes ''/v/app/seg1'')"
    "access_bit (r_action (seg_rule 1 CHR ''1'' FileRead)) = ACCESS_READ"
    by (simp_all add: read_and_written_def allow_only_def seg_simps exact_hash_def rule_pattern_def access_bit_def)
  then show "file_decision read_and_written ''/v/app/seg1'' Regular ACCESS_READ"
    using file_allowed_exact by metis
next
  let ?s = "\<lparr>sub_container = None, sub_binary = None, sub_uid = None\<rparr>"
  let ?g = "((?s, FileRead, Allow, ''/v/app/''), [0, 1, 2, 3])"
  let ?w = "seg_rule 5 CHR ''1'' FileWrite"
  define p where "p = synthesize read_and_written ?g"
  have p: "r_object p = File \<lparr>fo_pattern = Prefix ''/v/app/'', fo_is_sensitive = False\<rparr>" "r_action p = FileRead"
    "r_subject p = ?s" "r_verdict p = Allow"
    by (simp_all add: p_def synthesize_def Let_def)
  have "collapsing [] (from_config default_config) read_and_written = [?g]" by code_simp
  then have wide: "prefix_generalization_run [] (from_config default_config) read_and_written = [?w, p]"
    by (simp add: prefix_generalization_run_def p_def read_and_written_def upt_rec)
  have sub: "subsumption_run [?w, p] = [?w, p]"
    by (simp add: subsumption_run_def is_subsumed_def upt_rec p seg_simps)
  have dedup: "dedup_run [] [?w, p] = [?w, p]"
    by (simp add: dedup_run_def dedup_seen_def collect_by_def signature_def p seg_simps)
  have "canonicalization_run read_and_written = read_and_written" "dedup_run [] read_and_written = read_and_written"
    "generalization_run read_and_written = read_and_written"
    by code_simp+
  then have "optimize [] [] [] default_config read_and_written = [?w, p]"
    by (simp add: optimize_def wide sub dedup)
  then show "\<not> file_decision (optimize [] [] [] default_config read_and_written) ''/v/app/seg1'' Regular ACCESS_READ"
    by (simp add: file_decision_def p seg_simps exact_hash_def rule_pattern_def mask_of_def mask_step_def
        access_bit_def ACCESS_READ_def ACCESS_WRITE_def)
qed

end
