(* ===== verification/Startup.thy ===== *)
theory Startup
  imports Optimized LsmSupport
begin

text \<open>
  The start of the program, \<open>main\<close> in \<open>ebpf-mon/src/main.rs\<close> with \<open>attach_lsm\<close> of
  \<open>ebpf-mon/src/enforcement.rs\<close>: the order in which the maps are taken, the programs are loaded and attached,
  the policy is loaded and the readers are opened, up to the line that says READY.

  The calls of the loading library are \<open>Step\<close>s; whether a step succeeds is a parameter that may look at
  all steps done before. The maps themselves are operations over abstract states, as in the loader.
\<close>

section \<open>Steps and stages\<close>

text \<open>
  Programs are named; the second argument of a load or attachment is its target. \<open>TakePolicyMaps\<close> only marks
  the call of \<open>load_policy\<close>, and \<open>OpenReaders\<close> the wait until all readers are installed.
\<close>

datatype Step =
  LoadObject | InitLogger | ReadBtf | OpenCgroupFile string | FindProgram string
  | LoadProgram string string | AttachProgram string string | TakePolicyMaps | OpenReaders | AuditReader

text \<open>\<open>Missing\<close> is the \<open>None\<close> of a lookup by name.\<close>

datatype StepResult = Done | Refused string | Missing

datatype Failure = Failed string | Panicked

datatype Ending = Running | Compiled | Ended Failure

record ('c, 'd, 's) Run =
  rn_trace :: "Step list"
  rn_maps :: "string list"
  rn_cgroups :: 'c
  rn_proxies :: 'd
  rn_kernel :: 's
  rn_policy :: "LoadedPolicy option"
  rn_files :: "(string \<times> string) list"
  rn_printed :: "string list"

record ('c, 'd, 's) Surroundings =
  su_step :: "Step list \<Rightarrow> Step \<Rightarrow> StepResult"
  su_cgroups :: "('c, u64, u32) MapOps"
  su_proxies :: "('d, u32, u8) MapOps"
  su_kernel :: "'s EnforcementMaps"
  su_tools :: Tools
  su_host :: Host
  su_docker_scope :: "string \<Rightarrow> string option"
  su_from_slice :: "string \<Rightarrow> string + Value"
  su_read_file :: "string \<Rightarrow> string option"
  su_exists :: "string \<Rightarrow> bool"
  su_uname :: "string option"
  su_map_error :: "MapError \<Rightarrow> string"
  su_out_dir :: string

type_synonym ('c, 'd, 's, 'a) Stage = "('c, 'd, 's) Run \<Rightarrow> ('c, 'd, 's) Run \<times> (Failure + 'a)"

definition and_next :: "('c, 'd, 's, 'a) Stage \<Rightarrow> ('a \<Rightarrow> ('c, 'd, 's, 'b) Stage) \<Rightarrow> ('c, 'd, 's, 'b) Stage" where
  "and_next m f r = (case m r of (r, Inl e) \<Rightarrow> (r, Inl e) | (r, Inr x) \<Rightarrow> f x r)"

primrec in_order :: "('c, 'd, 's, unit) Stage list \<Rightarrow> ('c, 'd, 's, unit) Stage" where
  "in_order [] = (\<lambda>r. (r, Inr ()))"
| "in_order (m # ms) = and_next m (\<lambda>u. in_order ms)"

text \<open>A step whose failure is passed on by \<open>?\<close> with a context, or a panic where a lookup was unwrapped.\<close>

definition perform :: "('c, 'd, 's) Surroundings \<Rightarrow> Step \<Rightarrow> ('c, 'd, 's) Run \<Rightarrow> ('c, 'd, 's) Run \<times> StepResult" where
  "perform W st r =
     (case su_step W (rn_trace r) st of
        Done \<Rightarrow> (r\<lparr>rn_trace := rn_trace r @ [st]\<rparr>, Done)
      | res \<Rightarrow> (r, res))"

definition must :: "('c, 'd, 's) Surroundings \<Rightarrow> (string \<Rightarrow> string) \<Rightarrow> Step \<Rightarrow> ('c, 'd, 's, unit) Stage" where
  "must W msg st r =
     (case perform W st r of
        (r, Done) \<Rightarrow> (r, Inr ())
      | (r, Refused e) \<Rightarrow> (r, Inl (Failed (msg e)))
      | (r, Missing) \<Rightarrow> (r, Inl Panicked))"

text \<open>A step whose failure is only logged: whether it succeeded.\<close>

definition may :: "('c, 'd, 's) Surroundings \<Rightarrow> Step \<Rightarrow> ('c, 'd, 's, bool) Stage" where
  "may W st r = (case perform W st r of (r, res) \<Rightarrow> (r, Inr (res = Done)))"

definition fail_with :: "string \<Rightarrow> ('c, 'd, 's, 'a) Stage" where
  "fail_with e r = (r, Inl (Failed e))"

definition say :: "string list \<Rightarrow> ('c, 'd, 's, unit) Stage" where
  "say lines r = (r\<lparr>rn_printed := rn_printed r @ lines\<rparr>, Inr ())"

definition take_map :: "string \<Rightarrow> ('c, 'd, 's, unit) Stage" where
  "take_map n r =
     (if n \<in> set (rn_maps r) then (r\<lparr>rn_maps := removeAll n (rn_maps r)\<rparr>, Inr ()) else (r, Inl Panicked))"

section \<open>Loading and attaching programs\<close>

definition attach_program :: "('c, 'd, 's) Surroundings \<Rightarrow> string \<times> string \<times> string \<Rightarrow> ('c, 'd, 's, unit) Stage" where
  "attach_program W p =
     (case p of (name, target, point) \<Rightarrow>
        in_order [must W id (FindProgram name), must W id (LoadProgram name target),
          must W id (AttachProgram name point)])"

definition find_lsm :: "('c, 'd, 's) Surroundings \<Rightarrow> string \<Rightarrow> ('c, 'd, 's, unit) Stage" where
  "find_lsm W name r =
     (case perform W (FindProgram name) r of
        (r, Done) \<Rightarrow> (r, Inr ())
      | (r, Refused e) \<Rightarrow> (r, Inl (Failed (''Failed to attach LSM: '' @ e)))
      | (r, Missing) \<Rightarrow> (r, Inl (Failed (''Failed to attach LSM: '' @ name @ '' LSM program not found''))))"

definition lsm_programs :: "(string \<times> string) list" where
  "lsm_programs =
     [(''enforce_file_open'', ''file_open''), (''enforce_bprm_check'', ''bprm_check_security''),
      (''enforce_socket_connect'', ''socket_connect'')]"

definition attach_lsm :: "('c, 'd, 's) Surroundings \<Rightarrow> ('c, 'd, 's, unit) Stage" where
  "attach_lsm W =
     in_order (concat (map (\<lambda>(name, hook).
       [find_lsm W name, must W (\<lambda>e. ''Failed to attach LSM: '' @ e) (LoadProgram name hook),
        must W (\<lambda>e. ''Failed to attach LSM: '' @ e) (AttachProgram name '''')]) lsm_programs))"

text \<open>The probes of the file monitor, those of docker-proxy and those of the process monitor.\<close>

definition file_probes :: "(string \<times> string \<times> string) list" where
  "file_probes =
     [(''vfs_open_fexit'', ''vfs_open'', ''''), (''vfs_write_fentry'', ''vfs_write'', ''''),
      (''vfs_write_fexit'', ''vfs_write'', ''''), (''vfs_read_fentry'', ''vfs_read'', ''''),
      (''vfs_read_fexit'', ''vfs_read'', ''''), (''check_symlink'', ''security_inode_follow_link'', ''''),
      (''vfs_iter_write_fentry'', ''vfs_iter_write'', ''''), (''vfs_iter_write_fexit'', ''vfs_iter_write'', ''''),
      (''vfs_iter_read_fentry'', ''vfs_iter_read'', ''''), (''vfs_iter_read_fexit'', ''vfs_iter_read'', '''')]"

definition other_probes :: "(string \<times> string \<times> string) list" where
  "other_probes =
     [(''docker_proxy_accept'', ''inet_accept'', ''''), (''docker_proxy_connect'', ''tcp_v4_connect'', ''''),
      (''execve_tracepoint'', '''', ''syscalls/sys_enter_execve''),
      (''execveat_tracepoint'', '''', ''syscalls/sys_enter_execveat''),
      (''exit_execve_tracepoint'', '''', ''syscalls/sys_exit_execve''),
      (''exit_execveat_tracepoint'', '''', ''syscalls/sys_exit_execveat''),
      (''fork_tracepoint'', ''sched_process_fork'', '''')]"

text \<open>The attachment of a packet program may fail.\<close>

definition attach_packet :: "('c, 'd, 's) Surroundings \<Rightarrow> string \<Rightarrow> string \<Rightarrow> ('c, 'd, 's, unit) Stage" where
  "attach_packet W name direction = and_next (may W (AttachProgram name direction)) (\<lambda>ok r. (r, Inr ()))"

definition packet_programs :: "('c, 'd, 's) Surroundings \<Rightarrow> bool \<Rightarrow> ('c, 'd, 's, unit) Stage" where
  "packet_programs W enforcing =
     in_order
       ((if enforcing then
           [must W id (FindProgram ''cgroup_skb_egress_enforce''), attach_packet W ''cgroup_skb_egress_enforce'' ''egress'']
         else
           [must W id (FindProgram ''cgroup_skb_egress''), must W id (LoadProgram ''cgroup_skb_egress'' ''''),
            attach_packet W ''cgroup_skb_egress'' ''egress''])
        @ [must W id (FindProgram ''cgroup_skb_ingress''), must W id (LoadProgram ''cgroup_skb_ingress'' ''''),
           attach_packet W ''cgroup_skb_ingress'' ''ingress''])"

section \<open>Setting up the monitor\<close>

definition shown_id :: "string \<Rightarrow> string" where
  "shown_id i = take 12 i @ ''...''"

definition startup_lines :: "TrackedContainer \<Rightarrow> string list" where
  "startup_lines tc =
     (case tc_name tc of Some name \<Rightarrow> [''Container Name: '' @ name] | None \<Rightarrow> [])
     @ [''Container ID: '' @ shown_id (tc_current_id tc),
        ''Cgroup ID: '' @ show_nat (unat (tc_current_cgroup_id tc)),
        ''Restart Tracking: '' @ (if tc_restart_tracking_enabled tc then ''ENABLED'' else ''DISABLED'')]"

text \<open>The gateways of docker-proxy; a failure of docker means none.\<close>

definition startup_gateways :: "('c, 'd, 's) Surroundings \<Rightarrow> TrackedContainer \<Rightarrow> string list" where
  "startup_gateways W tc =
     (let c_id = (if tc_current_id tc \<noteq> '''' \<and> tc_current_id tc \<noteq> ''unknown'' then Some (tc_current_id tc)
          else extract_container_id_from_cgroup_path (su_docker_scope W) (tc_current_cgroup_path tc))
      in case get_all_container_gateways (su_host W) (su_from_slice W)
                (case c_id of Some i \<Rightarrow> i | None \<Rightarrow> '''') of
           Inl e \<Rightarrow> [] | Inr gateways \<Rightarrow> gateways)"

definition track_gateway :: "('c, 'd, 's) Surroundings \<Rightarrow> string \<Rightarrow> ('c, 'd, 's, unit) Stage" where
  "track_gateway W gateway r =
     (case ipv4_to_u32 gateway of
        None \<Rightarrow> (r, Inl Panicked)
      | Some ip \<Rightarrow>
          (case mo_insert (su_proxies W) (rn_proxies r) ip 1 of
             (d, Inl e) \<Rightarrow> (r\<lparr>rn_proxies := d\<rparr>, Inl (Failed (su_map_error W e)))
           | (d, Inr u) \<Rightarrow> (r\<lparr>rn_proxies := d\<rparr>, Inr ())))"

definition insert_cgroup :: "('c, 'd, 's) Surroundings \<Rightarrow> u64 \<Rightarrow> ('c, 'd, 's, unit) Stage" where
  "insert_cgroup W cgid r =
     (case receiver_start (su_cgroups W) (rn_cgroups r) None () cgid of
        (c, Inl e) \<Rightarrow> (r\<lparr>rn_cgroups := c\<rparr>, Inl (Failed (su_map_error W e)))
      | (c, Inr rcv) \<Rightarrow> (r\<lparr>rn_cgroups := rt_cgroups rcv\<rparr>, Inr ()))"

definition set_up :: "('c, 'd, 's) Surroundings \<Rightarrow> TrackedContainer \<Rightarrow> ('c, 'd, 's, unit) Stage" where
  "set_up W tc =
     in_order
       ([say (startup_lines tc), must W id LoadObject, take_map ''DOCKER_PROXY_IPS'']
        @ map (track_gateway W) (startup_gateways W tc)
        @ [must W id ReadBtf, say [''out_dir: '' @ su_out_dir W],
           must W (\<lambda>e. quoted_path ''Failed to open cgroup'' (tc_current_cgroup_path tc) @ e)
             (OpenCgroupFile (tc_current_cgroup_path tc)),
           take_map ''CGROUPS'', insert_cgroup W (tc_current_cgroup_id tc),
           and_next (may W InitLogger) (\<lambda>ok r. (r, Inr ()))])"

section \<open>Enforcement mode\<close>

definition load_error_text :: "('c, 'd, 's) Surroundings \<Rightarrow> LoadError \<Rightarrow> string" where
  "load_error_text W e = (case e of MapNotFound n \<Rightarrow> n @ '' map not found'' | MapFailure m \<Rightarrow> su_map_error W m)"

definition compile_for_enforcement ::
    "('c, 'd, 's) Surroundings \<Rightarrow> Args \<Rightarrow> PassConfig \<Rightarrow> TrackedContainer \<Rightarrow> string
      \<Rightarrow> ('c, 'd, 's, BehaviorRule list) Stage" where
  "compile_for_enforcement W args cfg tc profile_path r =
     (case tl_read (su_tools W) profile_path of
        Inl e \<Rightarrow> (r, Inl (Failed (quoted_path ''Failed to read profile'' profile_path @ e)))
      | Inr profile_json \<Rightarrow>
          (case compile_profile (su_tools W) profile_json (ar_no_optimize args) cfg of
             Inl e \<Rightarrow> (r, Inl (Failed e))
           | Inr ir \<Rightarrow>
               (case emit_outputs (su_tools W) ir (ar_emit_apparmor args) (ar_emit_json args)
                       (case tc_name tc of Some n \<Rightarrow> n | None \<Rightarrow> ''ebpf-mon'') of
                  (fs, Inl e) \<Rightarrow> (r\<lparr>rn_files := rn_files r @ fs\<rparr>, Inl (Failed e))
                | (fs, Inr u) \<Rightarrow>
                    (r\<lparr>rn_files := rn_files r @ fs,
                       rn_printed := rn_printed r
                         @ (if ar_dump_policy args then dump_policy_rules ir else [])
                         @ (if ar_friction_report args then [render (compute (tl_debug (su_tools W)) ir)] else [])\<rparr>,
                     Inr ir))))"

definition enforcement_line :: "bool \<Rightarrow> PolicyStats \<Rightarrow> string" where
  "enforcement_line audit_only stats =
     ''Enforcement: '' @ (if audit_only then ''AUDIT-ONLY'' else ''ENFORCING'') @ '' (''
     @ show_nat (path_rules stats) @ '' path rules, '' @ show_nat (pattern_rules stats) @ '' pattern rules, ''
     @ show_nat (exec_path_rules stats) @ '' exec rules, '' @ show_nat (net_rules stats) @ '' net rules)''"

definition load_for_enforcement ::
    "('c, 'd, 's) Surroundings \<Rightarrow> bool \<Rightarrow> BehaviorRule list \<Rightarrow> u64 \<Rightarrow> ('c, 'd, 's, unit) Stage" where
  "load_for_enforcement W audit_only ir cgid r =
     (let r = r\<lparr>rn_trace := rn_trace r @ [TakePolicyMaps]\<rparr>
      in case load_policy (su_kernel W) audit_only (rn_maps r) ir cgid (rn_kernel r) of
        (maps, s, Inl e) \<Rightarrow>
          (r\<lparr>rn_maps := maps, rn_kernel := s\<rparr>, Inl (Failed (''Failed to load policy: '' @ load_error_text W e)))
      | (maps, s, Inr loaded) \<Rightarrow>
          (r\<lparr>rn_maps := maps, rn_kernel := s, rn_policy := Some loaded,
             rn_printed := rn_printed r @ [enforcement_line audit_only (lp_stats loaded)]\<rparr>, Inr ()))"

text \<open>The reader of audit events is started if the map is there.\<close>

definition start_audit_reader :: "('c, 'd, 's) Surroundings \<Rightarrow> ('c, 'd, 's, unit) Stage" where
  "start_audit_reader W r =
     (if ''AUDIT_EVENTS'' \<in> set (rn_maps r) then
        and_next (may W AuditReader) (\<lambda>ok r. (r, Inr ())) (r\<lparr>rn_maps := removeAll ''AUDIT_EVENTS'' (rn_maps r)\<rparr>)
      else (r, Inr ()))"

text \<open>Whether the enforcing packet program was loaded.\<close>

definition enforcement_stage ::
    "('c, 'd, 's) Surroundings \<Rightarrow> Args \<Rightarrow> PassConfig \<Rightarrow> TrackedContainer \<Rightarrow> string \<Rightarrow> ('c, 'd, 's, bool) Stage" where
  "enforcement_stage W args cfg tc profile_path =
     (case check_lsm_support (su_read_file W) (su_exists W) (su_uname W) of
        Inl e \<Rightarrow> fail_with (''LSM support check failed: '' @ e)
      | Inr cap \<Rightarrow>
          if \<not> is_supported cap
          then fail_with (''BPF-LSM is not supported on this kernel:'' @ [newline] @ report cap)
          else
            and_next (compile_for_enforcement W args cfg tc profile_path) (\<lambda>ir.
            and_next (attach_lsm W) (\<lambda>u.
            and_next (must W id (FindProgram ''cgroup_skb_egress_enforce'')) (\<lambda>u.
            and_next (may W (LoadProgram ''cgroup_skb_egress_enforce'' '''')) (\<lambda>enforce_egress_loaded.
            and_next (load_for_enforcement W (ar_audit_only args) ir (tc_current_cgroup_id tc)) (\<lambda>u.
            and_next (start_audit_reader W) (\<lambda>u r. (r, Inr enforce_egress_loaded))))))))"

section \<open>Readers and probes\<close>

text \<open>The readers of all processors are installed before any probe is attached.\<close>

definition attach_probes :: "('c, 'd, 's) Surroundings \<Rightarrow> bool \<Rightarrow> ('c, 'd, 's, unit) Stage" where
  "attach_probes W enforcing =
     in_order
       ([take_map ''EVENTS'', must W id OpenReaders]
        @ map (attach_program W) file_probes
        @ [packet_programs W enforcing]
        @ map (attach_program W) other_probes
        @ [say [''READY: all eBPF programs attached; monitoring/enforcement active'']])"

definition monitor_stage ::
    "('c, 'd, 's) Surroundings \<Rightarrow> Args \<Rightarrow> PassConfig \<Rightarrow> TrackedContainer \<Rightarrow> ('c, 'd, 's, unit) Stage" where
  "monitor_stage W args cfg tc =
     and_next (set_up W tc) (\<lambda>u.
     and_next (case ar_enforce args of
         Some profile_path \<Rightarrow> enforcement_stage W args cfg tc profile_path
       | None \<Rightarrow> (\<lambda>r. (r, Inr False))) (\<lambda>enforcing.
     attach_probes W enforcing))"

text \<open>The whole of \<open>main\<close> up to the point where it waits to be stopped.\<close>

definition start_up ::
    "('c, 'd, 's) Surroundings \<Rightarrow> Args \<Rightarrow> ('c, 'd, 's) Run \<Rightarrow> ('c, 'd, 's) Run \<times> Ending" where
  "start_up W args r =
     (case check_flags args of
        Some e \<Rightarrow> (r, Ended (Failed e))
      | None \<Rightarrow>
          (case load_pass_config (su_tools W) args of
             Inl e \<Rightarrow> (r, Ended (Failed e))
           | Inr cfg \<Rightarrow>
               (case ar_compile args of
                  Some profile_path \<Rightarrow>
                    (case run_compile (su_tools W) args cfg profile_path of
                       (fs, lines, res) \<Rightarrow>
                         (r\<lparr>rn_files := rn_files r @ fs, rn_printed := rn_printed r @ lines\<rparr>,
                          case res of Inl e \<Rightarrow> Ended (Failed e) | Inr u \<Rightarrow> Compiled))
                | None \<Rightarrow>
                    (case from_identifier (su_host W) (su_docker_scope W) (container_identifier args) of
                       Inl e \<Rightarrow> (r, Ended (Failed (''Failed to initialize container tracking: '' @ ie_message e)))
                     | Inr tc \<Rightarrow>
                         (case monitor_stage W args cfg tc r of
                            (r, Inl e) \<Rightarrow> (r, Ended e)
                          | (r, Inr u) \<Rightarrow> (r, Running))))))"

text \<open>What runs afterwards: the watcher's container, and whether the profile is written at the end.\<close>

definition watched_container :: "TrackedContainer \<Rightarrow> string option" where
  "watched_container tc = (if tc_restart_tracking_enabled tc then tc_name tc else None)"

definition profile_written :: "Args \<Rightarrow> bool" where
  "profile_written args = (ar_enforce args = None)"

section \<open>What every stage keeps\<close>

text \<open>
  A relation between the runs before and after a stage. Sequences keep it if their parts do.
\<close>

locale stage_relation =
  fixes R :: "('c, 'd, 's) Run \<Rightarrow> ('c, 'd, 's) Run \<Rightarrow> bool"
  assumes refl: "R r r" and trans: "R r r' \<Longrightarrow> R r' r'' \<Longrightarrow> R r r''"
begin

definition keeps :: "('c, 'd, 's, 'a) Stage \<Rightarrow> bool" where
  "keeps m = (\<forall>r. R r (fst (m r)))"

lemma keeps_next: "keeps m \<Longrightarrow> (\<And>x. keeps (f x)) \<Longrightarrow> keeps (and_next m f)"
  unfolding keeps_def and_next_def
proof
  fix r assume m: "\<forall>r. R r (fst (m r))" and f: "\<And>x. \<forall>r. R r (fst (f x r))"
  show "R r (fst (case m r of (r, Inl e) \<Rightarrow> (r, Inl e) | (r, Inr x) \<Rightarrow> f x r))"
    using m [rule_format, of r] f trans by (cases "m r") (auto split: sum.split)
qed

lemma keeps_done: "keeps (\<lambda>r. (r, x))"
  by (simp add: keeps_def refl)

lemma keeps_in_order: "list_all keeps ms \<Longrightarrow> keeps (in_order ms)"
  by (induction ms) (auto intro: keeps_next keeps_done)

end

text \<open>The state of the policy and of the filter, which most stages leave alone.\<close>

definition policy_part :: "('c, 'd, 's) Run \<Rightarrow> 's \<times> LoadedPolicy option" where
  "policy_part r = (rn_kernel r, rn_policy r)"

interpretation policy_kept: stage_relation "\<lambda>r r' :: ('c, 'd, 's) Run. policy_part r' = policy_part r"
  by unfold_locales auto

interpretation filter_kept: stage_relation "\<lambda>r r' :: ('c, 'd, 's) Run. rn_cgroups r' = rn_cgroups r"
  by unfold_locales auto

named_theorems stage_defs

lemmas [stage_defs] = must_def may_def perform_def say_def take_map_def fail_with_def find_lsm_def

lemma must_keeps:
  "policy_kept.keeps (must W msg st)" "policy_kept.keeps (may W st)" "policy_kept.keeps (say ls)"
  "policy_kept.keeps (take_map n)" "policy_kept.keeps (find_lsm W p)" "policy_kept.keeps (track_gateway W g)"
  "policy_kept.keeps (insert_cgroup W i)" "policy_kept.keeps (start_audit_reader W)"
  "filter_kept.keeps (must W msg st)" "filter_kept.keeps (may W st)" "filter_kept.keeps (say ls)"
  "filter_kept.keeps (take_map n)" "filter_kept.keeps (find_lsm W p)" "filter_kept.keeps (track_gateway W g)"
  "filter_kept.keeps (compile_for_enforcement W args cfg tc p)" "filter_kept.keeps (load_for_enforcement W a ir i)"
  "filter_kept.keeps (start_audit_reader W)" "policy_kept.keeps (compile_for_enforcement W args cfg tc p)"
  unfolding policy_kept.keeps_def filter_kept.keeps_def
  by (auto simp: policy_part_def stage_defs track_gateway_def
      insert_cgroup_def start_audit_reader_def compile_for_enforcement_def load_for_enforcement_def
      and_next_def Let_def split: prod.split sum.split StepResult.split option.split)

lemma policy_programs_keep:
  "policy_kept.keeps (attach_program W p)" "policy_kept.keeps (attach_lsm W)"
  "policy_kept.keeps (packet_programs W b)" "policy_kept.keeps (set_up W tc)" "policy_kept.keeps (attach_probes W b)"
  unfolding attach_program_def attach_lsm_def lsm_programs_def packet_programs_def attach_packet_def set_up_def
    attach_probes_def
  by (auto simp: list_all_iff must_keeps attach_program_def packet_programs_def attach_packet_def
      intro!: policy_kept.keeps_in_order policy_kept.keeps_next policy_kept.keeps_done split: prod.split)

lemma filter_programs_keep:
  "filter_kept.keeps (attach_program W p)" "filter_kept.keeps (attach_lsm W)"
  "filter_kept.keeps (packet_programs W b)" "filter_kept.keeps (attach_probes W b)"
  unfolding attach_program_def attach_lsm_def lsm_programs_def packet_programs_def attach_packet_def attach_probes_def
  by (auto simp: list_all_iff must_keeps attach_program_def packet_programs_def attach_packet_def
      intro!: filter_kept.keeps_in_order filter_kept.keeps_next filter_kept.keeps_done split: prod.split)

lemma filter_fail_keeps: "filter_kept.keeps (fail_with e)"
  unfolding filter_kept.keeps_def by (simp add: fail_with_def)

lemma filter_enforcement_keeps: "filter_kept.keeps (enforcement_stage W args cfg tc p)"
  unfolding enforcement_stage_def
  by (auto simp: must_keeps filter_programs_keep filter_fail_keeps
      intro!: filter_kept.keeps_next filter_kept.keeps_done split: sum.split)

section \<open>The order of the steps\<close>

text \<open>
  What must have been done before a step: a program is loaded before it is attached, the readers are
  installed before a monitoring program is attached, and the programs that use the maps of the policy are
  loaded while the maps are still in the object.
\<close>

definition policy_programs :: "string set" where
  "policy_programs = insert ''cgroup_skb_egress_enforce'' (fst ` set lsm_programs)"

definition allowed_after :: "Step set \<Rightarrow> Step \<Rightarrow> bool" where
  "allowed_after S st =
     (case st of
        LoadProgram n t \<Rightarrow> LoadObject \<in> S \<and> FindProgram n \<in> S \<and> (n \<in> policy_programs \<longrightarrow> TakePolicyMaps \<notin> S)
      | AttachProgram n p \<Rightarrow> (\<exists>t. LoadProgram n t \<in> S) \<and> (n \<in> fst ` set lsm_programs \<or> OpenReaders \<in> S)
      | TakePolicyMaps \<Rightarrow> (\<forall>(n, t) \<in> set lsm_programs. AttachProgram n '''' \<in> S)
      | _ \<Rightarrow> True)"

definition trace_ordered :: "Step list \<Rightarrow> bool" where
  "trace_ordered tr = (\<forall>xs st ys. tr = xs @ st # ys \<longrightarrow> allowed_after (set xs) st)"

lemma trace_ordered_snoc:
  "trace_ordered (tr @ [st]) \<longleftrightarrow> trace_ordered tr \<and> allowed_after (set tr) st"
proof
  show "trace_ordered (tr @ [st])" if "trace_ordered tr \<and> allowed_after (set tr) st"
    unfolding trace_ordered_def
  proof (intro allI impI)
    fix xs s ys assume "tr @ [st] = xs @ s # ys"
    then show "allowed_after (set xs) s"
      using that by (cases ys rule: rev_cases) (auto simp: trace_ordered_def)
  qed
qed (auto simp: trace_ordered_def)

lemma trace_ordered_Nil: "trace_ordered []"
  by (simp add: trace_ordered_def)

text \<open>Stages under a condition on the steps done: the trace stays ordered, and success gives more.\<close>

definition triple :: "(Step set \<Rightarrow> bool) \<Rightarrow> ('c, 'd, 's, 'a) Stage \<Rightarrow> ('a \<Rightarrow> Step set \<Rightarrow> bool) \<Rightarrow> bool" where
  "triple P m Q =
     (\<forall>r. trace_ordered (rn_trace r) \<and> P (set (rn_trace r)) \<longrightarrow>
        (case m r of (r', res) \<Rightarrow>
           trace_ordered (rn_trace r') \<and> (case res of Inl e \<Rightarrow> True | Inr x \<Rightarrow> Q x (set (rn_trace r')))))"

lemma tripleI:
  assumes "\<And>r r' res. trace_ordered (rn_trace r) \<Longrightarrow> P (set (rn_trace r)) \<Longrightarrow> m r = (r', res) \<Longrightarrow>
    trace_ordered (rn_trace r') \<and> (\<forall>x. res = Inr x \<longrightarrow> Q x (set (rn_trace r')))"
  shows "triple P m Q"
  using assms unfolding triple_def by (fastforce split: sum.split)

lemma tripleD:
  assumes "triple P m Q" and "trace_ordered (rn_trace r)" and "P (set (rn_trace r))" and "m r = (r', res)"
  shows "trace_ordered (rn_trace r')" "res = Inr x \<Longrightarrow> Q x (set (rn_trace r'))"
  using assms unfolding triple_def by fastforce+

lemma triple_next:
  assumes "triple P m Q" and "\<And>x. triple (Q x) (f x) T"
  shows "triple P (and_next m f) T"
proof (rule tripleI)
  fix r r' res
  assume r: "trace_ordered (rn_trace r)" "P (set (rn_trace r))" and run: "and_next m f r = (r', res)"
  obtain r1 res1 where m: "m r = (r1, res1)" by fastforce
  note one = tripleD [OF assms(1) r m]
  show "trace_ordered (rn_trace r') \<and> (\<forall>x. res = Inr x \<longrightarrow> T x (set (rn_trace r')))"
  proof (cases res1)
    case (Inl e)
    then have "res = Inl e" "r' = r1" using run m by (simp_all add: and_next_def)
    then show ?thesis using one(1) by simp
  next
    case (Inr x)
    then have "f x r1 = (r', res)" using run m by (simp add: and_next_def)
    then show ?thesis using tripleD [OF assms(2) one(1) one(2) [OF Inr]] by blast
  qed
qed

lemma triple_weaken:
  assumes "triple P m Q" and "\<And>S. P' S \<Longrightarrow> P S" and "\<And>x S. Q x S \<Longrightarrow> Q' x S"
  shows "triple P' m Q'"
  by (rule tripleI) (use tripleD [OF assms(1)] assms(2,3) in blast)

lemma triple_done: "(\<And>S. P S \<Longrightarrow> Q x S) \<Longrightarrow> triple P (\<lambda>r. (r, Inr x)) Q"
  by (simp add: triple_def)

lemma triple_must:
  assumes "\<And>S. P S \<Longrightarrow> allowed_after S st" and "\<And>S. P S \<Longrightarrow> Q () (insert st S)"
  shows "triple P (must W msg st) Q"
  using assms by (auto simp: triple_def must_def perform_def trace_ordered_snoc split: StepResult.split)

lemma triple_find_lsm:
  assumes "\<And>S. P S \<Longrightarrow> Q () (insert (FindProgram n) S)"
  shows "triple P (find_lsm W n) Q"
  using assms
  by (auto simp: triple_def find_lsm_def perform_def trace_ordered_snoc allowed_after_def split: StepResult.split)

lemma triple_may:
  assumes "\<And>S. P S \<Longrightarrow> allowed_after S st" and "\<And>S. P S \<Longrightarrow> Q True (insert st S)" and "\<And>S. P S \<Longrightarrow> Q False S"
  shows "triple P (may W st) Q"
  using assms by (auto simp: triple_def may_def perform_def trace_ordered_snoc split: StepResult.split)

text \<open>Stages that take no step.\<close>

lemma triple_no_step:
  assumes "\<And>r. rn_trace (fst (m r)) = rn_trace r"
  shows "triple P m (\<lambda>x. P)"
  by (rule tripleI) (metis assms fst_conv)

lemma triple_list:
  assumes "\<And>m. m \<in> set ms \<Longrightarrow> triple P m (\<lambda>u. P)"
  shows "triple P (in_order ms) (\<lambda>u. P)"
  using assms by (induction ms) (auto intro: triple_done triple_next)

lemma triple_map:
  assumes "\<And>x D. x \<in> set xs \<Longrightarrow> triple (\<lambda>S. P S \<and> D \<subseteq> S) (f x) (\<lambda>u S. P S \<and> insert (g x) D \<subseteq> S)"
  shows "triple (\<lambda>S. P S \<and> D \<subseteq> S) (in_order (map f xs)) (\<lambda>u S. P S \<and> g ` set xs \<union> D \<subseteq> S)"
  using assms
proof (induction xs arbitrary: D)
  case (Cons x xs)
  have "triple (\<lambda>S. P S \<and> insert (g x) D \<subseteq> S) (in_order (map f xs)) (\<lambda>u S. P S \<and> g ` set xs \<union> insert (g x) D \<subseteq> S)"
    by (rule Cons.IH) (rule Cons.prems, simp)
  then show ?case using Cons.prems [of x D] by (auto intro!: triple_next)
qed (auto intro: triple_done)

lemma in_order_append: "in_order (ms @ ns) = and_next (in_order ms) (\<lambda>u. in_order ns)"
  by (induction ms) (auto simp: and_next_def fun_eq_iff split: prod.splits sum.splits)

lemma triple_append:
  "triple P (in_order ms) (\<lambda>u. Q) \<Longrightarrow> triple Q (in_order ns) T \<Longrightarrow> triple P (in_order (ms @ ns)) T"
  unfolding in_order_append by (rule triple_next)

lemma triple_single: "triple P m (\<lambda>u. Q) \<Longrightarrow> triple P (in_order [m]) (\<lambda>u. Q)"
  unfolding in_order.simps by (rule triple_next) (auto intro: triple_done)

text \<open>The state of the trace once the readers are there.\<close>

definition readers_there :: "Step set \<Rightarrow> bool" where
  "readers_there S = (LoadObject \<in> S \<and> OpenReaders \<in> S)"

lemma triple_attach_program:
  assumes "n \<notin> policy_programs"
  shows "triple (\<lambda>S. readers_there S \<and> D \<subseteq> S) (attach_program W (n, t, p))
    (\<lambda>u S. readers_there S \<and> insert (AttachProgram n p) D \<subseteq> S)"
proof -
  let ?found = "\<lambda>S. readers_there S \<and> insert (FindProgram n) D \<subseteq> S"
  let ?loaded = "\<lambda>S. readers_there S \<and> insert (LoadProgram n t) D \<subseteq> S"
  have 1: "triple (\<lambda>S. readers_there S \<and> D \<subseteq> S) (must W id (FindProgram n)) (\<lambda>u. ?found)"
    by (rule triple_must) (auto simp: allowed_after_def readers_there_def)
  have 2: "triple ?found (must W id (LoadProgram n t)) (\<lambda>u. ?loaded)"
    by (rule triple_must) (use assms in \<open>auto simp: allowed_after_def readers_there_def\<close>)
  have 3: "triple ?loaded (must W id (AttachProgram n p)) (\<lambda>u S. readers_there S \<and> insert (AttachProgram n p) D \<subseteq> S)"
    by (rule triple_must) (auto simp: allowed_after_def readers_there_def)
  show ?thesis
    unfolding attach_program_def prod.case in_order.simps
    by (intro triple_next [OF 1] triple_next [OF 2] triple_next [OF 3] triple_done)
qed

definition attached :: "(string \<times> string \<times> string) list \<Rightarrow> Step set" where
  "attached probes = (\<lambda>(n, t, p). AttachProgram n p) ` set probes"

lemma triple_probes:
  assumes "\<forall>(n, t, p) \<in> set probes. n \<notin> policy_programs"
  shows "triple (\<lambda>S. readers_there S \<and> D \<subseteq> S) (in_order (map (attach_program W) probes))
    (\<lambda>u S. readers_there S \<and> attached probes \<union> D \<subseteq> S)"
  unfolding attached_def
proof (rule triple_map)
  fix x and E :: "Step set" assume "x \<in> set probes"
  then show "triple (\<lambda>S. readers_there S \<and> E \<subseteq> S) (attach_program W x)
      (\<lambda>u S. readers_there S \<and> insert ((\<lambda>(n, t, p). AttachProgram n p) x) E \<subseteq> S)"
    using assms triple_attach_program [of "fst x" E W "fst (snd x)" "snd (snd x)"] by (auto split: prod.split)
qed

lemma probes_not_policy:
  "\<forall>(n, t, p) \<in> set file_probes. n \<notin> policy_programs" "\<forall>(n, t, p) \<in> set other_probes. n \<notin> policy_programs"
  "''cgroup_skb_egress'' \<notin> policy_programs" "''cgroup_skb_ingress'' \<notin> policy_programs"
  by (simp_all add: file_probes_def other_probes_def policy_programs_def lsm_programs_def)

lemma triple_attach_packet:
  assumes "\<And>S. P S \<Longrightarrow> readers_there S \<and> (\<exists>t. LoadProgram n t \<in> S)" and "\<And>S. P S \<Longrightarrow> P (insert (AttachProgram n d) S)"
  shows "triple P (attach_packet W n d) (\<lambda>u. P)"
  unfolding attach_packet_def
proof (rule triple_next [where Q = "\<lambda>ok. P"])
  show "triple P (may W (AttachProgram n d)) (\<lambda>ok. P)"
    by (rule triple_may) (use assms in \<open>auto simp: allowed_after_def readers_there_def\<close>)
qed (auto intro: triple_done)

lemma triple_packet:
  assumes "n \<notin> policy_programs"
  shows "triple (\<lambda>S. readers_there S \<and> D \<subseteq> S)
    (in_order [must W id (FindProgram n), must W id (LoadProgram n ''''), attach_packet W n d])
    (\<lambda>u S. readers_there S \<and> D \<subseteq> S)"
proof -
  let ?found = "\<lambda>S. readers_there S \<and> insert (FindProgram n) D \<subseteq> S"
  let ?loaded = "\<lambda>S. readers_there S \<and> insert (LoadProgram n '''') D \<subseteq> S"
  have 1: "triple (\<lambda>S. readers_there S \<and> D \<subseteq> S) (must W id (FindProgram n)) (\<lambda>u. ?found)"
    by (rule triple_must) (auto simp: allowed_after_def readers_there_def)
  have 2: "triple ?found (must W id (LoadProgram n '''')) (\<lambda>u. ?loaded)"
    by (rule triple_must) (use assms in \<open>auto simp: allowed_after_def readers_there_def\<close>)
  have 3: "triple ?loaded (attach_packet W n d) (\<lambda>u. ?loaded)"
    by (rule triple_attach_packet) (auto simp: readers_there_def)
  show ?thesis
    unfolding in_order.simps
    by (intro triple_next [OF 1] triple_next [OF 2] triple_next [OF 3] triple_done) auto
qed

lemma triple_packets:
  assumes "enforcing \<longrightarrow> LoadProgram ''cgroup_skb_egress_enforce'' '''' \<in> D"
  shows "triple (\<lambda>S. readers_there S \<and> D \<subseteq> S) (packet_programs W enforcing) (\<lambda>u S. readers_there S \<and> D \<subseteq> S)"
proof -
  let ?P = "\<lambda>S. readers_there S \<and> D \<subseteq> S" and ?twin = "''cgroup_skb_egress_enforce''"
  have twin: "triple ?P (in_order [must W id (FindProgram ?twin), attach_packet W ?twin ''egress'']) (\<lambda>u. ?P)"
    if enforcing
  proof -
    have 1: "triple ?P (must W id (FindProgram ?twin)) (\<lambda>u. ?P)"
      by (rule triple_must) (auto simp: allowed_after_def readers_there_def)
    have 2: "triple ?P (attach_packet W ?twin ''egress'') (\<lambda>u. ?P)"
      by (rule triple_attach_packet) (use that assms in \<open>auto simp: readers_there_def\<close>)
    show ?thesis unfolding in_order.simps by (intro triple_next [OF 1] triple_next [OF 2] triple_done)
  qed
  show ?thesis
    unfolding packet_programs_def
    by (rule triple_append [OF _ triple_packet [OF probes_not_policy(4)]])
      (simp add: twin triple_packet [OF probes_not_policy(3)] del: in_order.simps)
qed

lemma triple_attach_probes:
  assumes "enforcing \<longrightarrow> LoadProgram ''cgroup_skb_egress_enforce'' '''' \<in> D"
  shows "triple (\<lambda>S. LoadObject \<in> S \<and> D \<subseteq> S) (attach_probes W enforcing)
    (\<lambda>u S. readers_there S \<and> attached other_probes \<union> (attached file_probes \<union> D) \<subseteq> S)"
proof -
  have readers: "triple (\<lambda>S. LoadObject \<in> S \<and> D \<subseteq> S) (in_order [take_map ''EVENTS'', must W id OpenReaders])
      (\<lambda>u S. readers_there S \<and> D \<subseteq> S)"
    unfolding in_order.simps
  proof (intro triple_next)
    show "triple (\<lambda>S. LoadObject \<in> S \<and> D \<subseteq> S) (take_map ''EVENTS'') (\<lambda>u S. LoadObject \<in> S \<and> D \<subseteq> S)"
      by (rule triple_no_step) (simp add: take_map_def)
    show "triple (\<lambda>S. LoadObject \<in> S \<and> D \<subseteq> S) (must W id OpenReaders) (\<lambda>u S. readers_there S \<and> D \<subseteq> S)"
      by (rule triple_must) (auto simp: allowed_after_def readers_there_def)
  qed (auto intro: triple_done)
  have ready: "triple P (in_order [say ls]) (\<lambda>u. P)" for P ls
    by (rule triple_single, rule triple_no_step) (simp add: say_def)
  have packets: "triple (\<lambda>S. readers_there S \<and> attached file_probes \<union> D \<subseteq> S) (packet_programs W enforcing)
      (\<lambda>u S. readers_there S \<and> attached file_probes \<union> D \<subseteq> S)"
    by (rule triple_packets) (use assms in auto)
  show ?thesis
    unfolding attach_probes_def
    by (rule triple_append [OF readers triple_append [OF triple_probes [OF probes_not_policy(1)]
        triple_append [OF triple_single [OF packets] triple_append [OF triple_probes [OF probes_not_policy(2)]
          ready]]]])
qed

lemma triple_set_up:
  "triple (\<lambda>S. TakePolicyMaps \<notin> S) (set_up W tc) (\<lambda>u S. LoadObject \<in> S \<and> TakePolicyMaps \<notin> S)"
proof -
  let ?P = "\<lambda>S. TakePolicyMaps \<notin> S" and ?Q = "\<lambda>S. LoadObject \<in> S \<and> TakePolicyMaps \<notin> S"
  have 1: "triple ?P (in_order [say (startup_lines tc), must W id LoadObject, take_map ''DOCKER_PROXY_IPS'']) (\<lambda>u. ?Q)"
    unfolding in_order.simps
  proof (intro triple_next)
    show "triple ?P (say (startup_lines tc)) (\<lambda>u. ?P)" by (rule triple_no_step) (simp add: say_def)
    show "triple ?P (must W id LoadObject) (\<lambda>u. ?Q)" by (rule triple_must) (auto simp: allowed_after_def)
    show "triple ?Q (take_map ''DOCKER_PROXY_IPS'') (\<lambda>u. ?Q)" by (rule triple_no_step) (simp add: take_map_def)
  qed (auto intro: triple_done)
  have 2: "triple ?Q (in_order (map (track_gateway W) gs)) (\<lambda>u. ?Q)" for gs
  proof (rule triple_list)
    fix m assume "m \<in> set (map (track_gateway W) gs)"
    then show "triple ?Q m (\<lambda>u. ?Q)"
      by (auto intro!: triple_no_step simp: track_gateway_def split: option.split prod.split sum.split)
  qed
  have must: "triple ?Q (must W id ReadBtf) (\<lambda>u. ?Q)" "triple ?Q (must W msg (OpenCgroupFile p)) (\<lambda>u. ?Q)" for msg p
    by (auto intro!: triple_must simp: allowed_after_def)
  have quiet: "triple ?Q (say ls) (\<lambda>u. ?Q)" "triple ?Q (take_map n) (\<lambda>u. ?Q)" "triple ?Q (insert_cgroup W i) (\<lambda>u. ?Q)"
    for ls n i
    by (auto intro!: triple_no_step simp: say_def take_map_def insert_cgroup_def split: prod.split sum.split)
  have "triple ?Q (may W InitLogger) (\<lambda>ok. ?Q)" by (rule triple_may) (auto simp: allowed_after_def)
  then have logger: "triple ?Q (and_next (may W InitLogger) (\<lambda>ok r. (r, Inr ()))) (\<lambda>u. ?Q)"
    by (rule triple_next) (auto intro: triple_done)
  show ?thesis
    unfolding set_up_def
  proof (rule triple_append [OF 1 triple_append [OF 2 triple_list]])
    fix m
    assume "m \<in> set [must W id ReadBtf, say [''out_dir: '' @ su_out_dir W],
        must W (\<lambda>e. quoted_path ''Failed to open cgroup'' (tc_current_cgroup_path tc) @ e)
          (OpenCgroupFile (tc_current_cgroup_path tc)),
        take_map ''CGROUPS'', insert_cgroup W (tc_current_cgroup_id tc),
        and_next (may W InitLogger) (\<lambda>ok r. (r, Inr ()))]"
    then show "triple ?Q m (\<lambda>u. ?Q)" unfolding list.set using must quiet logger by blast
  qed
qed

definition lsm_attached :: "Step set \<Rightarrow> bool" where
  "lsm_attached S = (\<forall>(n, t) \<in> set lsm_programs. AttachProgram n '''' \<in> S)"

lemma triple_attach_lsm:
  "triple (\<lambda>S. LoadObject \<in> S \<and> TakePolicyMaps \<notin> S) (attach_lsm W)
     (\<lambda>u S. LoadObject \<in> S \<and> TakePolicyMaps \<notin> S \<and> lsm_attached S)"
proof -
  let ?P = "\<lambda>D S. LoadObject \<in> S \<and> TakePolicyMaps \<notin> S \<and> D \<subseteq> S"
  let ?att = "\<lambda>n. AttachProgram n ''''"
  have one: "triple (?P D) (in_order [find_lsm W n, must W msg (LoadProgram n t), must W msg (?att n)])
      (\<lambda>u. ?P (insert (?att n) D))" if "(n, t) \<in> set lsm_programs" for n t msg D
  proof -
    have 1: "triple (?P D) (find_lsm W n) (\<lambda>u. ?P (insert (FindProgram n) D))"
      by (rule triple_find_lsm) auto
    have 2: "triple (?P (insert (FindProgram n) D)) (must W msg (LoadProgram n t)) (\<lambda>u. ?P (insert (LoadProgram n t) D))"
      by (rule triple_must) (auto simp: allowed_after_def)
    have 3: "triple (?P (insert (LoadProgram n t) D)) (must W msg (?att n)) (\<lambda>u. ?P (insert (?att n) D))"
      by (rule triple_must) (use that in \<open>force simp: allowed_after_def\<close>)+
    show ?thesis unfolding in_order.simps by (intro triple_next [OF 1] triple_next [OF 2] triple_next [OF 3] triple_done)
  qed
  have all: "triple (?P D) (in_order (concat (map (\<lambda>(n, t). [find_lsm W n, must W msg (LoadProgram n t),
      must W msg (?att n)]) ps))) (\<lambda>u. ?P (?att ` fst ` set ps \<union> D))" if "set ps \<subseteq> set lsm_programs" for ps D msg
    using that
  proof (induction ps arbitrary: D)
    case (Cons p ps)
    obtain n t where p: "p = (n, t)" by (cases p)
    have eq: "?att ` fst ` set (p # ps) \<union> D = ?att ` fst ` set ps \<union> insert (?att n) D" by (simp add: p)
    have in_lsm: "(n, t) \<in> set lsm_programs" "set ps \<subseteq> set lsm_programs" using Cons.prems p by simp_all
    show ?case
      unfolding eq unfolding p list.map concat.simps prod.case
      by (rule triple_append [OF one [OF in_lsm(1)] Cons.IH [OF in_lsm(2)]])
  qed (simp add: triple_done)
  show ?thesis
    unfolding attach_lsm_def
    by (rule triple_weaken [OF all [of lsm_programs "{}"]]) (force simp: lsm_attached_def)+
qed

lemma triple_compile: "triple P (compile_for_enforcement W args cfg tc p) (\<lambda>ir. P)"
  by (rule triple_no_step)
    (simp add: compile_for_enforcement_def split: sum.split prod.split)

lemma triple_load:
  assumes "\<And>S. P S \<Longrightarrow> lsm_attached S" and "\<And>S. P S \<Longrightarrow> Q (insert TakePolicyMaps S)"
  shows "triple P (load_for_enforcement W a ir i) (\<lambda>u. Q)"
  using assms
  by (auto simp: triple_def load_for_enforcement_def trace_ordered_snoc allowed_after_def lsm_attached_def Let_def
      split: prod.split sum.split)

text \<open>After the enforcement stage the hooks are attached, and the twin was loaded if it is to be used.\<close>

definition enforcement_ready :: "bool \<Rightarrow> Step set \<Rightarrow> bool" where
  "enforcement_ready enforcing S =
     (LoadObject \<in> S \<and> lsm_attached S \<and> (enforcing \<longrightarrow> LoadProgram ''cgroup_skb_egress_enforce'' '''' \<in> S))"

lemma triple_enforcement:
  "triple (\<lambda>S. LoadObject \<in> S \<and> TakePolicyMaps \<notin> S) (enforcement_stage W args cfg tc p) enforcement_ready"
proof -
  let ?Q = "\<lambda>S. LoadObject \<in> S \<and> TakePolicyMaps \<notin> S" and ?twin = "''cgroup_skb_egress_enforce''"
  have find: "triple (\<lambda>S. LoadObject \<in> S \<and> TakePolicyMaps \<notin> S \<and> lsm_attached S) (must W id (FindProgram ?twin))
      (\<lambda>u S. LoadObject \<in> S \<and> TakePolicyMaps \<notin> S \<and> lsm_attached S \<and> FindProgram ?twin \<in> S)"
    by (rule triple_must) (auto simp: allowed_after_def lsm_attached_def)
  have load: "triple (\<lambda>S. LoadObject \<in> S \<and> TakePolicyMaps \<notin> S \<and> lsm_attached S \<and> FindProgram ?twin \<in> S) (may W (LoadProgram ?twin ''''))
      (\<lambda>ok. enforcement_ready ok)"
    by (rule triple_may) (auto simp: allowed_after_def enforcement_ready_def lsm_attached_def)
  have policy: "triple (enforcement_ready ok) (load_for_enforcement W a ir i) (\<lambda>u. enforcement_ready ok)" for ok a ir i
    by (rule triple_load) (auto simp: enforcement_ready_def lsm_attached_def)
  have audit: "triple (enforcement_ready ok) (start_audit_reader W) (\<lambda>u. enforcement_ready ok)" for ok
    by (auto simp: triple_def start_audit_reader_def and_next_def may_def perform_def trace_ordered_snoc
        allowed_after_def enforcement_ready_def lsm_attached_def split: StepResult.split)
  have fail: "triple P (fail_with e) Q" for P e and Q :: "bool \<Rightarrow> Step set \<Rightarrow> bool"
    by (simp add: triple_def fail_with_def)
  show ?thesis
    unfolding enforcement_stage_def
    by (auto intro!: fail triple_next [OF triple_compile] triple_next [OF triple_attach_lsm]
        triple_next [OF find] triple_next [OF load] triple_next [OF policy] triple_next [OF audit] triple_done
        split: sum.split)
qed

lemma triple_monitor:
  "triple (\<lambda>S. TakePolicyMaps \<notin> S) (monitor_stage W args cfg tc)
     (\<lambda>u S. readers_there S \<and> attached other_probes \<union> attached file_probes \<subseteq> S
        \<and> (ar_enforce args \<noteq> None \<longrightarrow> lsm_attached S))"
proof -
  let ?Q = "\<lambda>S. LoadObject \<in> S \<and> TakePolicyMaps \<notin> S"
  let ?twin = "LoadProgram ''cgroup_skb_egress_enforce'' ''''"
  let ?lsm = "(\<lambda>(n, t). AttachProgram n '''') ` set lsm_programs"
  let ?D = "\<lambda>e. (if e then {?twin} else {}) \<union> (if ar_enforce args = None then {} else ?lsm)"
  have enf: "triple ?Q (case ar_enforce args of
         Some profile_path \<Rightarrow> enforcement_stage W args cfg tc profile_path
       | None \<Rightarrow> (\<lambda>r. (r, Inr False))) (\<lambda>e S. LoadObject \<in> S \<and> ?D e \<subseteq> S)"
  proof (cases "ar_enforce args")
    case None
    then show ?thesis by (auto intro: triple_done)
  next
    case (Some p)
    then show ?thesis
      by (auto intro!: triple_weaken [OF triple_enforcement] simp: enforcement_ready_def lsm_attached_def
          split: if_splits)
  qed
  have probes: "triple (\<lambda>S. LoadObject \<in> S \<and> ?D e \<subseteq> S) (attach_probes W e)
      (\<lambda>u S. readers_there S \<and> attached other_probes \<union> (attached file_probes \<union> ?D e) \<subseteq> S)" for e
    by (rule triple_attach_probes) simp
  show ?thesis
    unfolding monitor_stage_def
    by (rule triple_next [OF triple_set_up triple_next [OF enf triple_weaken [OF probes]]])
      (auto simp: lsm_attached_def split: if_splits)
qed

text \<open>A run in which nothing has been done yet.\<close>

definition fresh_run :: "string list \<Rightarrow> 'c \<Rightarrow> 'd \<Rightarrow> 's \<Rightarrow> ('c, 'd, 's) Run" where
  "fresh_run maps c d s = \<lparr>rn_trace = [], rn_maps = maps, rn_cgroups = c, rn_proxies = d, rn_kernel = s,
     rn_policy = None, rn_files = [], rn_printed = []\<rparr>"

lemma fresh_run_fields [simp]:
  "rn_trace (fresh_run maps c d s) = []" "rn_cgroups (fresh_run maps c d s) = c"
  "rn_kernel (fresh_run maps c d s) = s" "rn_policy (fresh_run maps c d s) = None"
  by (simp_all add: fresh_run_def)

lemma start_up_cases:
  assumes "start_up W args r = (r', ending)"
  obtains (stopped) "rn_trace r' = rn_trace r" "ending \<noteq> Running"
  | (monitored) cfg tc where "ar_compile args = None"
      "load_pass_config (su_tools W) args = Inr cfg"
      "from_identifier (su_host W) (su_docker_scope W) (container_identifier args) = Inr tc"
      "fst (monitor_stage W args cfg tc r) = r'"
      "ending = Running \<longleftrightarrow> snd (monitor_stage W args cfg tc r) = Inr ()"
  using assms unfolding start_up_def
  by (auto split: option.splits sum.splits prod.splits)


section \<open>What is enforced when the program is ready\<close>

lemma and_next_Inr:
  "and_next m f r = (r', Inr y) \<longleftrightarrow> (\<exists>r1 x. m r = (r1, Inr x) \<and> f x r1 = (r', Inr y))"
  by (auto simp: and_next_def split: prod.splits sum.splits)

lemma filter_keptD: "filter_kept.keeps m \<Longrightarrow> m r = (r', res) \<Longrightarrow> rn_cgroups r' = rn_cgroups r"
  unfolding filter_kept.keeps_def by (metis fst_conv)

lemma policy_keptD: "policy_kept.keeps m \<Longrightarrow> m r = (r', res) \<Longrightarrow> policy_part r' = policy_part r"
  unfolding policy_kept.keeps_def by (metis fst_conv)

lemma set_up_filter:
  assumes "filter_laws (su_cgroups W)" and "mo_get (su_cgroups W) (rn_cgroups r) = Map.empty"
    and "set_up W tc r = (r', Inr ())"
  shows "mo_get (su_cgroups W) (rn_cgroups r') = [tc_current_cgroup_id tc \<mapsto> 1]"
proof -
  let ?i = "tc_current_cgroup_id tc"
  let ?before = "[say (startup_lines tc), must W id LoadObject, take_map ''DOCKER_PROXY_IPS'']
      @ map (track_gateway W) (startup_gateways W tc)
      @ [must W id ReadBtf, say [''out_dir: '' @ su_out_dir W],
         must W (\<lambda>e. quoted_path ''Failed to open cgroup'' (tc_current_cgroup_path tc) @ e)
           (OpenCgroupFile (tc_current_cgroup_path tc)), take_map ''CGROUPS'']"
  let ?after = "[and_next (may W InitLogger) (\<lambda>ok r. (r, Inr ()))]"
  have "set_up W tc = in_order (?before @ [insert_cgroup W ?i] @ ?after)"
    unfolding set_up_def by (simp only: append_assoc append_Cons append_Nil)
  then have run: "in_order (?before @ [insert_cgroup W ?i] @ ?after) r = (r', Inr ())" using assms(3) by metis
  have keep: "filter_kept.keeps (in_order ?before)" "filter_kept.keeps (in_order ?after)"
    by (rule filter_kept.keeps_in_order,
        auto simp: list_all_iff must_keeps intro!: filter_kept.keeps_next filter_kept.keeps_done)+
  obtain r1 r2 where r1: "in_order ?before r = (r1, Inr ())" and r2: "insert_cgroup W ?i r1 = (r2, Inr ())"
    and r3: "in_order ?after r2 = (r', Inr ())"
    using run unfolding in_order_append in_order.simps(2) [of "insert_cgroup W ?i" "[]"] and_next_Inr by auto
  have "rn_cgroups r2 = fst (mo_insert (su_cgroups W) (rn_cgroups r) ?i 1)"
    using r2 filter_keptD [OF keep(1) r1]
    by (auto simp: insert_cgroup_def receiver_start_def split: prod.splits sum.splits)
  moreover have "mo_get (su_cgroups W) (fst (mo_insert (su_cgroups W) (rn_cgroups r) ?i 1)) = [?i \<mapsto> 1]"
    using cgroup_filter.filter_insert [OF cgroup_filter.intro [OF assms(1)], of "rn_cgroups r" ?i 1] assms(2)
    by (simp add: CGROUPS_MAX_def)
  ultimately show ?thesis using filter_keptD [OF keep(2) r3] by simp
qed

text \<open>What the enforcement stage leaves behind.\<close>

lemma load_policy_success:
  "load_policy K audit_only ebpf ir cgid s = (ebpf', s', Inr lp) \<Longrightarrow>
     \<exists>skb stats. apply_rules K cgid audit_only ir skb s = (s', Inr stats) \<and> lp_rules lp = ir
       \<and> lp_audit_only lp = audit_only"
  by (auto simp: load_policy_def bind_policy_def Let_def simp del: take_maps.simps
      split: prod.splits sum.splits option.splits)

lemma load_for_enforcement_success:
  assumes "load_for_enforcement W audit_only ir cgid r = (r', Inr ())"
  shows "\<exists>skb stats loaded. apply_rules (su_kernel W) cgid audit_only ir skb (rn_kernel r) = (rn_kernel r', Inr stats)
    \<and> rn_policy r' = Some loaded \<and> lp_rules loaded = ir \<and> lp_audit_only loaded = audit_only"
  using assms
  by (auto simp: load_for_enforcement_def Let_def split: prod.splits sum.splits dest!: load_policy_success; blast)

lemma compile_for_enforcement_success:
  assumes "compile_for_enforcement W args cfg tc path r = (r', Inr ir)"
  shows "\<exists>json. tl_read (su_tools W) path = Inr json
    \<and> compile_profile (su_tools W) json (ar_no_optimize args) cfg = Inr ir"
  using assms by (auto simp: compile_for_enforcement_def split: sum.splits prod.splits)

lemma enforcement_stage_success:
  assumes "enforcement_stage W args cfg tc path r = (r', Inr e)"
  shows "\<exists>json ir skb stats loaded. tl_read (su_tools W) path = Inr json
    \<and> compile_profile (su_tools W) json (ar_no_optimize args) cfg = Inr ir
    \<and> apply_rules (su_kernel W) (tc_current_cgroup_id tc) (ar_audit_only args) ir skb (rn_kernel r)
        = (rn_kernel r', Inr stats)
    \<and> rn_policy r' = Some loaded \<and> lp_rules loaded = ir \<and> lp_audit_only loaded = ar_audit_only args"
proof -
  let ?twin = "''cgroup_skb_egress_enforce''"
  obtain ir r1 r2 r3 r4 r5 ok where c: "compile_for_enforcement W args cfg tc path r = (r1, Inr ir)"
    and l: "attach_lsm W r1 = (r2, Inr ())" and f: "must W id (FindProgram ?twin) r2 = (r3, Inr ())"
    and t: "may W (LoadProgram ?twin '''') r3 = (r4, Inr ok)"
    and p: "load_for_enforcement W (ar_audit_only args) ir (tc_current_cgroup_id tc) r4 = (r5, Inr ())"
    and a: "start_audit_reader W r5 = (r', Inr ())"
    using assms by (auto simp: enforcement_stage_def fail_with_def and_next_Inr split: sum.splits if_splits)
  have "policy_part r4 = policy_part r"
    using policy_keptD [OF must_keeps(18) c] policy_keptD [OF policy_programs_keep(2) l]
      policy_keptD [OF must_keeps(1) f] policy_keptD [OF must_keeps(2) t] by simp
  moreover have "policy_part r' = policy_part r5" by (rule policy_keptD [OF must_keeps(8) a])
  ultimately show ?thesis
    using load_for_enforcement_success [OF p] compile_for_enforcement_success [OF c]
    by (auto simp: policy_part_def)
qed

text \<open>
  C5: when the program says that it is ready in enforcement mode, it enforces the profile. The rules
  compiled from the given file are retained, the file hook decides every open of a task in the container's
  control group by them, and the filter of the monitoring programs holds exactly that control group.
\<close>

theorem start_up_enforces:
  assumes "start_up W args (fresh_run maps c d s) = (r, Running)"
    and "ar_enforce args = Some path" and "\<not> ar_audit_only args"
    and "from_identifier (su_host W) (su_docker_scope W) (container_identifier args) = Inr tc"
    and "kernel_laws (su_kernel W)" and "unbound (tc_current_cgroup_id tc) (tables (su_kernel W) s)"
    and "filter_laws (su_cgroups W)" and "mo_get (su_cgroups W) c = Map.empty"
  shows "\<exists>json cfg rules. tl_read (su_tools W) path = Inr json \<and> load_pass_config (su_tools W) args = Inr cfg
    \<and> compile_profile (su_tools W) json (ar_no_optimize args) cfg = Inr rules
    \<and> map_option lp_rules (rn_policy r) = Some rules
    \<and> (\<forall>ts k h f p. ts_cgroup_id ts = Some (tc_current_cgroup_id tc) \<and> resolves_to k h f p \<longrightarrow>
        fst (enforce_file_open (su_kernel W) (rn_kernel r) k h ts f)
          = (if file_decision rules p (kernel_class p) (requested_access f) then 0 else -1))
    \<and> (\<forall>g. cgroup_exists (su_cgroups W) (rn_cgroups r) g \<longleftrightarrow> g = tc_current_cgroup_id tc)"
  using assms(1)
proof (cases rule: start_up_cases)
  case (monitored cfg tc')
  then have tc: "tc' = tc" using assms(4) by simp
  have "monitor_stage W args cfg tc (fresh_run maps c d s) = (r, Inr ())"
    using monitored(4,5) by (metis prod.collapse tc)
  then obtain r1 r2 e where r1: "set_up W tc (fresh_run maps c d s) = (r1, Inr ())"
    and r2: "enforcement_stage W args cfg tc path r1 = (r2, Inr e)" and r3: "attach_probes W e r2 = (r, Inr ())"
    using assms(2) by (auto simp: monitor_stage_def and_next_Inr)
  have part: "policy_part r1 = (s, None)" "policy_part r = policy_part r2"
    using policy_keptD [OF policy_programs_keep(4) r1] policy_keptD [OF policy_programs_keep(5) r3]
    by (simp_all add: policy_part_def)
  then obtain json ir skb stats loaded where ir: "tl_read (su_tools W) path = Inr json"
      "compile_profile (su_tools W) json (ar_no_optimize args) cfg = Inr ir"
      "apply_rules (su_kernel W) (tc_current_cgroup_id tc) False ir skb s = (rn_kernel r, Inr stats)"
      "rn_policy r = Some loaded" "lp_rules loaded = ir"
    using enforcement_stage_success [OF r2] assms(3) by (auto simp: policy_part_def)
  have "mo_get (su_cgroups W) (rn_cgroups r1) = [tc_current_cgroup_id tc \<mapsto> 1]"
    using set_up_filter [OF assms(7) _ r1] assms(8) by simp
  then have filter: "mo_get (su_cgroups W) (rn_cgroups r) = [tc_current_cgroup_id tc \<mapsto> 1]"
    using filter_keptD [OF filter_enforcement_keeps r2] filter_keptD [OF filter_programs_keep(4) r3] by simp
  have hook: "fst (enforce_file_open (su_kernel W) (rn_kernel r) k h ts f)
      = (if file_decision ir p (kernel_class p) (requested_access f) then 0 else -1)"
    if "ts_cgroup_id ts = Some (tc_current_cgroup_id tc)" "resolves_to k h f p" for ts k h f p
    using file_open_loaded [OF load_effect [OF assms(5) ir(3)] assms(6) that refl refl refl refl] .
  show ?thesis using ir monitored(2) hook filter by (auto simp: cgroup_exists_def)
qed auto

section \<open>A start that succeeds\<close>

definition quiet_host :: Host where
  "quiet_host = \<lparr>hw_docker = (\<lambda>args. Inl \<lparr>ie_kind = NotFound, ie_message = ''no docker''\<rparr>),
     hw_metadata = (\<lambda>p. Inr 7), hw_read_to_string = (\<lambda>p. Inl \<lparr>ie_kind = NotFound, ie_message = ''''\<rparr>)\<rparr>"

definition sample_surroundings :: "((u64 \<times> u32) list, (u32 \<times> u8) list, HashMaps) Surroundings" where
  "sample_surroundings = \<lparr>su_step = (\<lambda>tr st. Done), su_cgroups = list_filter, su_proxies = hash_ops id id 16,
     su_kernel = hash_kernel, su_tools = sample_tools, su_host = quiet_host, su_docker_scope = (\<lambda>p. None),
     su_from_slice = (\<lambda>t. Inl ''''), su_read_file = (\<lambda>p. Some ''bpf''), su_exists = (\<lambda>p. True),
     su_uname = None, su_map_error = (\<lambda>e. ''error''), su_out_dir = ''/out''\<rparr>"

definition enforce_args :: Args where
  "enforce_args = \<lparr>ar_name = None, ar_container = None, ar_cgroup = Some ''/sys/fs/cgroup/app'',
     ar_enforce = Some ''profile.json'', ar_compile = None, ar_audit_only = False, ar_no_optimize = False,
     ar_emit_apparmor = None, ar_emit_json = None, ar_pass_config = None, ar_friction_report = False,
     ar_dump_policy = False\<rparr>"

definition sample_maps :: "string list" where
  "sample_maps = [''DOCKER_PROXY_IPS'', ''CGROUPS'', ''EVENTS'', ''AUDIT_EVENTS'', ''POLICY_CGROUPS'',
     ''SKB_ENFORCE_CGID'', ''FILE_PATH_POLICY'', ''FILE_PATTERN_POLICY'', ''FILE_PREFIX_POLICY'',
     ''EXEC_PATH_POLICY'', ''EXEC_PATTERN_POLICY'', ''NET_CONNECT_POLICY'']"

definition sample_container :: TrackedContainer where
  "sample_container = \<lparr>tc_name = None, tc_current_id = ''unknown'', tc_current_cgroup_id = 7,
     tc_current_cgroup_path = ''/sys/fs/cgroup/app'', tc_restart_tracking_enabled = False\<rparr>"

lemma sample_fields [simp]:
  "su_step sample_surroundings tr st = Done" "su_cgroups sample_surroundings = list_filter"
  "su_kernel sample_surroundings = hash_kernel" "su_tools sample_surroundings = sample_tools"
  "ar_enforce enforce_args = Some ''profile.json''" "ar_audit_only enforce_args = False"
  "tc_current_cgroup_id sample_container = 7" "ar_no_optimize enforce_args = False"
  by (simp_all add: sample_surroundings_def enforce_args_def sample_container_def)

lemma sample_identified:
  "from_identifier (su_host sample_surroundings) (su_docker_scope sample_surroundings)
     (container_identifier enforce_args) = Inr sample_container"
proof -
  have "extract_container_id_from_cgroup_path (\<lambda>p. None) ''/sys/fs/cgroup/app'' = None" by code_simp
  then show ?thesis
    by (simp add: sample_surroundings_def enforce_args_def sample_container_def container_identifier_def quiet_host_def
        get_cgroup_id_from_path_def)
qed

text \<open>Stages that only take steps, when every step succeeds.\<close>

definition goes_on :: "('c, 'd, 's, unit) Stage \<Rightarrow> bool" where
  "goes_on m = (\<forall>r. \<exists>tr ls. m r = (r\<lparr>rn_trace := tr, rn_printed := ls\<rparr>, Inr ()))"

lemma goes_onI: "(\<And>r. m r = (r\<lparr>rn_trace := f r, rn_printed := g r\<rparr>, Inr ())) \<Longrightarrow> goes_on m"
  by (auto simp: goes_on_def)

lemma goes_on_steps:
  "goes_on (must sample_surroundings msg st)" "goes_on (find_lsm sample_surroundings n)" "goes_on (say ls)"
  "goes_on (and_next (may sample_surroundings st) (\<lambda>ok r. (r, Inr ())))"
proof -
  show "goes_on (must sample_surroundings msg st)" "goes_on (and_next (may sample_surroundings st) (\<lambda>ok r. (r, Inr ())))"
    by (rule goes_onI [where f = "\<lambda>r. rn_trace r @ [st]" and g = rn_printed],
        simp add: must_def may_def perform_def and_next_def)+
  show "goes_on (find_lsm sample_surroundings n)"
    by (rule goes_onI [where f = "\<lambda>r. rn_trace r @ [FindProgram n]" and g = rn_printed])
      (simp add: find_lsm_def perform_def)
  show "goes_on (say ls)"
    by (rule goes_onI [where f = rn_trace and g = "\<lambda>r. rn_printed r @ ls"]) (simp add: say_def)
qed

lemma goes_on_done: "goes_on (\<lambda>r. (r, Inr ()))"
  by (rule goes_onI [where f = rn_trace and g = rn_printed]) simp

lemma goes_on_next:
  assumes "goes_on m" and "goes_on n"
  shows "goes_on (and_next m (\<lambda>u. n))"
  unfolding goes_on_def
proof
  fix r :: "('a, 'b, 'c) Run"
  obtain tr ls where m: "m r = (r\<lparr>rn_trace := tr, rn_printed := ls\<rparr>, Inr ())"
    using assms(1) unfolding goes_on_def by blast
  obtain tr' ls' where "n (r\<lparr>rn_trace := tr, rn_printed := ls\<rparr>)
      = (r\<lparr>rn_trace := tr, rn_printed := ls\<rparr>\<lparr>rn_trace := tr', rn_printed := ls'\<rparr>, Inr ())"
    using assms(2) unfolding goes_on_def by blast
  then show "\<exists>tr ls. and_next m (\<lambda>u. n) r = (r\<lparr>rn_trace := tr, rn_printed := ls\<rparr>, Inr ())"
    using m by (auto simp: and_next_def)
qed

lemma goes_on_in_order: "list_all goes_on ms \<Longrightarrow> goes_on (in_order ms)"
  by (induction ms) (auto intro: goes_on_done goes_on_next)

lemma goes_on_programs:
  "goes_on (attach_program sample_surroundings p)" "goes_on (attach_lsm sample_surroundings)"
  "goes_on (packet_programs sample_surroundings e)"
  by (auto simp: attach_program_def attach_lsm_def lsm_programs_def packet_programs_def attach_packet_def
      intro!: goes_on_steps goes_on_next goes_on_done split: prod.split)

lemma sample_set_up:
  "\<exists>tr ls. set_up sample_surroundings sample_container (fresh_run sample_maps [] [] empty_maps)
     = ((fresh_run (drop 2 sample_maps) [(7, 1)] [] empty_maps)\<lparr>rn_trace := tr, rn_printed := ls\<rparr>, Inr ())"
proof -
  have "get_all_container_gateways quiet_host f i = Inl ''no docker''" for f i
    by (simp add: get_all_container_gateways_def quiet_host_def)
  then have "startup_gateways sample_surroundings sample_container = []"
    by (simp add: startup_gateways_def sample_surroundings_def Let_def)
  then show ?thesis
    by (simp add: set_up_def and_next_def must_def may_def perform_def say_def take_map_def insert_cgroup_def
        receiver_start_def list_filter_def hash_ops_def bounded_insert_def CGROUPS_MAX_def fresh_run_def sample_maps_def)
qed

lemma sample_compile_stage:
  "compile_for_enforcement sample_surroundings enforce_args default_config sample_container ''profile.json'' r
     = (r, Inr (profile_rules sample_counts))"
proof -
  have "tl_read sample_tools ''profile.json'' = Inr ''profile''" by (simp add: sample_tools_def)
  then show ?thesis
    by (simp add: compile_for_enforcement_def sample_compiled emit_outputs_def enforce_args_def)
qed

lemma sample_enforcement:
  "\<exists>tr ls s' lp. enforcement_stage sample_surroundings enforce_args default_config sample_container ''profile.json''
       ((fresh_run (drop 2 sample_maps) c d empty_maps)\<lparr>rn_trace := tr0, rn_printed := ls0\<rparr>)
     = ((fresh_run [''EVENTS''] c d s')\<lparr>rn_trace := tr, rn_printed := ls, rn_policy := Some lp\<rparr>, Inr True)"
proof -
  let ?r0 = "fresh_run (drop 2 sample_maps) c d empty_maps"
  have cap: "\<exists>cap. check_lsm_support (su_read_file sample_surroundings) (su_exists sample_surroundings)
      (su_uname sample_surroundings) = Inr cap \<and> is_supported cap"
    by (simp add: sample_surroundings_def check_lsm_support_def is_supported_def contains_def Let_def)
  have "length (profile_rules sample_counts) \<le> 1000" by (simp add: sample_profile_rules)
  then obtain s' stats where r: "apply_rules hash_kernel 7 False (profile_rules sample_counts) True empty_maps
      = (s', Inr stats)"
    using small_policy_loads by blast
  then have load: "\<exists>lp. load_policy hash_kernel False (drop 2 sample_maps) (profile_rules sample_counts) 7 empty_maps
      = ([''EVENTS'', ''AUDIT_EVENTS''], s', Inr lp)"
    by (simp add: load_policy_def bind_policy_def sample_maps_def)
  obtain tr ls where lsm: "attach_lsm sample_surroundings (?r0\<lparr>rn_trace := tr0, rn_printed := ls0\<rparr>)
      = (?r0\<lparr>rn_trace := tr, rn_printed := ls\<rparr>, Inr ())"
    using goes_on_programs(2) [unfolded goes_on_def, rule_format, of "?r0\<lparr>rn_trace := tr0, rn_printed := ls0\<rparr>"] by auto
  obtain lp where lp: "load_policy hash_kernel False (drop 2 sample_maps) (profile_rules sample_counts) 7 empty_maps
      = ([''EVENTS'', ''AUDIT_EVENTS''], s', Inr lp)"
    using load by blast
  show ?thesis
    using cap lp
    by (auto simp: enforcement_stage_def and_next_def sample_compile_stage lsm [unfolded fresh_run_def Run.update_convs]
        must_def may_def perform_def load_for_enforcement_def start_audit_reader_def fresh_run_def Let_def)
qed

lemma sample_starts:
  "\<exists>r. start_up sample_surroundings enforce_args (fresh_run sample_maps [] [] empty_maps) = (r, Running)"
proof -
  obtain tr ls where 1: "set_up sample_surroundings sample_container (fresh_run sample_maps [] [] empty_maps)
      = ((fresh_run (drop 2 sample_maps) [(7, 1)] [] empty_maps)\<lparr>rn_trace := tr, rn_printed := ls\<rparr>, Inr ())"
    using sample_set_up by blast
  obtain tr2 ls2 s' lp where 2: "enforcement_stage sample_surroundings enforce_args default_config sample_container
       ''profile.json'' ((fresh_run (drop 2 sample_maps) [(7, 1)] [] empty_maps)\<lparr>rn_trace := tr, rn_printed := ls\<rparr>)
     = ((fresh_run [''EVENTS''] [(7, 1)] [] s')\<lparr>rn_trace := tr2, rn_printed := ls2, rn_policy := Some lp\<rparr>, Inr True)"
    using sample_enforcement [where c = "[(7, 1)]" and d = "[]" and ?tr0.0 = tr and ?ls0.0 = ls] by blast
  have rest: "goes_on (in_order ([must sample_surroundings id OpenReaders]
        @ map (attach_program sample_surroundings) file_probes
        @ [packet_programs sample_surroundings True]
        @ map (attach_program sample_surroundings) other_probes
        @ [say [''READY: all eBPF programs attached; monitoring/enforcement active'']]))"
    by (rule goes_on_in_order) (auto simp: list_all_iff goes_on_steps goes_on_programs)
  have 3: "\<exists>r'. attach_probes sample_surroundings True r = (r', Inr ())" if "''EVENTS'' \<in> set (rn_maps r)" for r
    using rest that unfolding goes_on_def attach_probes_def append_Cons append_Nil in_order.simps(2) [of "take_map ''EVENTS''"]
    by (auto simp: and_next_def [of "take_map ''EVENTS''"] take_map_def)
  have "check_flags enforce_args = None" "load_pass_config (su_tools sample_surroundings) enforce_args = Inr default_config"
    "ar_compile enforce_args = None"
    by (simp_all add: check_flags_def load_pass_config_def enforce_args_def)
  moreover have "\<exists>r. monitor_stage sample_surroundings enforce_args default_config sample_container
      (fresh_run sample_maps [] [] empty_maps) = (r, Inr ())"
    using 3 [of "(fresh_run [''EVENTS''] [(7, 1)] [] s')\<lparr>rn_trace := tr2, rn_printed := ls2, rn_policy := Some lp\<rparr>"]
    by (auto simp: monitor_stage_def and_next_def 1 2 fresh_run_def [of "[''EVENTS'']"])
  ultimately show ?thesis using sample_identified by (auto simp: start_up_def)
qed


text \<open>A file that was only read may be opened for reading once the program is ready, and not for writing.\<close>

theorem start_up_enforces_witness:
  "\<exists>r. start_up sample_surroundings enforce_args (fresh_run sample_maps [] [] empty_maps) = (r, Running)
     \<and> fst (enforce_file_open hash_kernel (rn_kernel r) sample_fs fresh_heap sample_task (hosts_file 0)) = 0
     \<and> cgroup_exists list_filter (rn_cgroups r) 7 \<and> \<not> cgroup_exists list_filter (rn_cgroups r) 8"
proof -
  obtain r where r: "start_up sample_surroundings enforce_args (fresh_run sample_maps [] [] empty_maps) = (r, Running)"
    using sample_starts by blast
  have laws: "kernel_laws (su_kernel sample_surroundings)" "filter_laws (su_cgroups sample_surroundings)"
    "unbound (tc_current_cgroup_id sample_container) (tables (su_kernel sample_surroundings) empty_maps)"
    "mo_get (su_cgroups sample_surroundings) [] = Map.empty"
    by (simp_all add: hash_kernel_laws list_filter_laws empty_unbound) (simp add: list_filter_def hash_ops_def fun_eq_iff)
  have args: "ar_enforce enforce_args = Some ''profile.json''" "\<not> ar_audit_only enforce_args" by simp_all
  obtain json cfg rules where p: "tl_read (su_tools sample_surroundings) ''profile.json'' = Inr json"
      "load_pass_config (su_tools sample_surroundings) enforce_args = Inr cfg"
      "compile_profile (su_tools sample_surroundings) json (ar_no_optimize enforce_args) cfg = Inr rules"
    and hook: "\<And>ts k h f p. ts_cgroup_id ts = Some 7 \<Longrightarrow> resolves_to k h f p \<Longrightarrow>
        fst (enforce_file_open hash_kernel (rn_kernel r) k h ts f)
          = (if file_decision rules p (kernel_class p) (requested_access f) then 0 else -1)"
    and filter: "\<And>g. cgroup_exists list_filter (rn_cgroups r) g \<longleftrightarrow> g = 7"
    using start_up_enforces [OF r args sample_identified laws(1,3,2,4)] by auto
  have "json = ''profile''" "cfg = default_config"
    using p(1,2) by (simp_all add: sample_tools_def load_pass_config_def enforce_args_def)
  then have rules: "rules = profile_rules sample_counts" using p(3) sample_compiled by simp
  obtain e where e: "(FsEv e, 5) \<in> set sample_counts" "fe_path e = ''/etc/hosts''" "fe_path_pattern e = Regular"
      "fe_r_w e = 0"
    by (simp add: sample_counts_def)
  obtain i where i: "fs_rule (e\<lparr>fe_freq := 5\<rparr>) i \<in> set rules" using profile_rules_in(1) [OF e(1)] rules by blast
  have "exact_hash (fs_rule (e\<lparr>fe_freq := 5\<rparr>) i) = Some (fnv1a_hash_bytes ''/etc/hosts'')"
    "access_bit (r_action (fs_rule (e\<lparr>fe_freq := 5\<rparr>) i)) = requested_access (hosts_file 0)"
    using e by (simp_all add: fs_rule_def exact_hash_def rule_pattern_def access_bit_def hosts_file_def requested_access_def)
  then have "file_decision rules ''/etc/hosts'' Regular (requested_access (hosts_file 0))"
    using file_allowed_exact [OF profile_rules_allow [of sample_counts, folded rules] i] by metis
  then show ?thesis
    using r filter hook [of sample_task sample_fs fresh_heap "hosts_file 0" "''/etc/hosts''"] hosts_resolves
    by (auto simp: sample_task_def hosts_class)
qed

end
