(* ===== verification/EventLayout.thy ===== *)
theory EventLayout
  imports ProcMon FsMon
begin

text \<open>
  The arrays of the events keep their declared sizes. The kernel programs of \<open>path/bpf.rs\<close>,
  \<open>cgroup/bpf.rs\<close>, \<open>modules/bpf.rs\<close>, \<open>filesystem.rs\<close> and \<open>process.rs\<close> write what they read into arrays of
  an event. In the model an array is a list, and a write past its end would make it longer: that the
  lengths stay as declared says that every write is in bounds, for any content of kernel and user
  memory. The only assumption is that a read of \<open>n\<close> bytes, when it succeeds, delivers \<open>n\<close> bytes.
\<close>

section \<open>Layouts\<close>

text \<open>
  A resolved path may have the length \<open>MAX_PATH_LEN + 1\<close>: when the names fill the buffer, the final
  separator overwrites the first byte and is counted.
\<close>

definition path_fits :: "Path \<Rightarrow> bool" where
  "path_fits p = (length (p_buffer p) = MAX_PATH_LEN \<and> path_len p \<le> MAX_PATH_LEN + 1)"

definition string_fits :: "nat \<Rightarrow> KString \<Rightarrow> bool" where
  "string_fits n s = (length (ks_s s) = n \<and> ks_len s < n)"

definition cgroup_fits :: "Cgroup \<Rightarrow> bool" where
  "cgroup_fits cg = (string_fits CGROUP_STRING_LEN (cg_path cg) \<and> length (cg_cgroup_id cg) = CONTAINER_ID_MAX_BUF)"

definition buffer_fits :: "nat \<Rightarrow> Buffer \<Rightarrow> bool" where
  "buffer_fits n b = (length (b_buf b) = n \<and> b_len b \<le> n)"

definition process_fits :: "ProcessInfo \<Rightarrow> bool" where
  "process_fits pi = (length (pi_comm pi) = 16 \<and> path_fits (pi_executable pi) \<and> path_fits (pi_interpreter pi)
     \<and> cgroup_fits (pi_cgroup pi) \<and> buffer_fits ARGS_LEN (pi_args pi))"

definition header_fits :: "EventInfo \<Rightarrow> bool" where
  "header_fits ei = (process_fits (ei_process ei) \<and> process_fits (ei_parent ei))"

lemmas fits_defs = process_fits_def header_fits_def path_fits_def buffer_fits_def cgroup_fits_def string_fits_def

lemma path_ok_fits: "path_ok p \<Longrightarrow> path_fits p"
  by (simp add: path_ok_def path_fits_def)

lemma reset_fits: "path_fits p \<Longrightarrow> path_ok (reset p)"
  by (simp add: path_ok_def path_fits_def reset_def path_len_def)

lemma default_fits:
  "path_ok default_path" "cgroup_fits default_cgroup" "buffer_fits n (buffer_default n)"
  by (simp_all add: default_path_ok cgroup_fits_def string_fits_def default_cgroup_def string_default_def
      CGROUP_STRING_LEN_def CGROUP_PATH_MAX_def buffer_fits_def buffer_default_def)

lemma zeroed_fits: "header_fits zeroed_event_info"
  by (simp add: header_fits_def process_fits_def zeroed_event_info_def default_event_info_def
      default_process_info_def default_fits path_ok_fits)

text \<open>A read that succeeds delivers as many bytes as were asked for; a name has 16 bytes.\<close>

definition exact :: "(u64 \<Rightarrow> nat \<Rightarrow> string option) \<Rightarrow> bool" where
  "exact rd = (\<forall>a n bs. rd a n = Some bs \<longrightarrow> length bs = n)"

definition exact_reads :: "World \<Rightarrow> bool" where
  "exact_reads W = (exact (k_read (w_fs W)) \<and> exact (w_user W))"

definition comm_read :: "KTask option \<Rightarrow> bool" where
  "comm_read t = (\<forall>k c. t = Some k \<longrightarrow> kt_comm k = Some c \<longrightarrow> length c = 16)"

section \<open>Paths\<close>

lemma prepend_name_fits:
  assumes "path_fits p" and "\<And>bs. name = Some bs \<Longrightarrow> length bs = min (unat len) MAX_NAME"
    and "prepend_qstr_name p name len = (q, r)"
  shows "if r = Inr () then path_ok q else q = p"
proof -
  let ?left = "of_nat MAX_PATH_LEN - p_len p"
  let ?size = "ucast (ucast len :: u8) :: u32"
  let ?i = "?left - ?size"
  show ?thesis
  proof (cases "len > of_nat MAX_NAME \<or> ?left < len \<or> ?i > of_nat MAX_PATH_LEN")
    case True
    then show ?thesis using assms(3) by (auto simp: prepend_qstr_name_def Let_def split: if_splits)
  next
    case False
    then have g: "unat len \<le> 255" "unat len \<le> unat ?left" "unat ?i \<le> 1024"
      by (simp_all add: word_le_nat_alt not_less MAX_NAME_def MAX_PATH_LEN_def)
    have size: "?size = len"
      using g(1) by (intro word_unat_eq_iff [THEN iffD2])
        (simp add: unsigned_ucast_eq unsigned_take_bit_eq take_bit_nat_eq_self)
    have i: "unat ?i = unat ?left - unat len"
      unfolding size using g(2) by (subst unat_sub) (simp_all add: word_le_nat_alt)
    have full: "path_len p \<le> MAX_PATH_LEN"
    proof (rule ccontr)
      assume "\<not> path_len p \<le> MAX_PATH_LEN"
      then have "p_len p = 1025"
        using assms(1) by (intro word_unat_eq_iff [THEN iffD2]) (simp add: path_fits_def path_len_def MAX_PATH_LEN_def)
      then show False using i g by (simp add: MAX_PATH_LEN_def unsigned_minus_1_eq_mask mask_eq_exp_minus_1)
    qed
    have left: "unat ?left = MAX_PATH_LEN - path_len p"
      using full by (subst unat_sub) (simp_all add: path_len_def MAX_PATH_LEN_def word_le_nat_alt)
    have len: "unat (p_len p + len) = path_len p + unat len"
      using g left full by (simp add: path_len_def MAX_PATH_LEN_def unat_word_ariths)
    show ?thesis
    proof (cases name)
      case None
      then show ?thesis using assms(3) False by (auto simp: prepend_qstr_name_def Let_def split: if_splits)
    next
      case (Some bs)
      then have n: "length bs = unat len" using assms(2) g(1) by (simp add: MAX_NAME_def)
      have "q = p\<lparr>p_buffer := write_at (unat ?i) bs (p_buffer p), p_len := p_len p + len, p_depth := p_depth p + 1\<rparr> \<and> r = Inr ()"
        using assms(3) False Some by (auto simp: prepend_qstr_name_def Let_def size split: if_splits)
      then show ?thesis
        using assms(1) full left i g n len by (simp add: path_ok_def path_fits_def path_len_def)
    qed
  qed
qed

lemma prepend_sep_fits: "path_ok p \<Longrightarrow> path_fits (prepend_path_sep p)"
  by (simp add: prepend_path_sep_def path_fits_def path_ok_def path_len_def Let_def MAX_PATH_LEN_def
      unat_word_ariths)

lemma prepend_dentry_fits:
  assumes "path_fits p" and "exact (k_read k)"
    and "prepend_dentry k p entry = (q, r)"
  shows "if r = Inr () then path_ok q else q = p"
proof -
  have "if r = Inr () then path_ok q else q = p"
    if "prepend_qstr_name p (k_read k name (min (unat len) MAX_NAME)) len = (q, r)" for name len
    using prepend_name_fits [OF assms(1) _ that] assms(2) by (simp add: exact_def)
  then show ?thesis using assms(3) by (auto simp: prepend_dentry_def split: option.splits)
qed

lemma walk_up_fits:
  assumes "exact (k_read k)"
  shows "path_ok p \<Longrightarrow> walk_up k d p e m mp mr = (q, r) \<Longrightarrow> if r = Inr () then path_ok q else path_fits q"
proof (induction d arbitrary: p e m mp mr)
  case 0
  then show ?case by simp
next
  case (Suc d)
  let ?p = "if is_empty p then p else prepend_path_sep p"
  have fits: "path_fits p" "path_fits ?p"
    using Suc.prems(1) prepend_sep_fits path_ok_fits by auto
  show ?case
  proof (cases "e = mr")
    case True
    then show ?thesis
      using Suc fits by (auto split: if_splits option.splits)
  next
    case False
    show ?thesis
    proof (cases "k_d_parent k e")
      case None
      then show ?thesis using Suc.prems(2) False fits by auto
    next
      case (Some parent)
      obtain q' r' where d: "prepend_dentry k ?p e = (q', r')" by fastforce
      have "if r' = Inr () then path_ok q' else q' = ?p"
        using prepend_dentry_fits [OF fits(2) assms d] by blast
      then show ?thesis
        using Suc False Some fits d by (auto simp: Let_def split: if_splits sum.splits)
    qed
  qed
qed

lemma resolve_at_fits:
  assumes "exact (k_read k)" and "path_ok p"
  shows "path_fits (fst (resolve_at k p e mnt d))"
proof -
  have "path_fits (fst (case walk_up k d p e m mp mr of (p, Inl e) \<Rightarrow> (p, Inl e) | (p, Inr _) \<Rightarrow> (prepend_path_sep p, Inr ())))"
    for m mp mr
    using walk_up_fits [OF assms, of d e m mp mr]
    by (cases "walk_up k d p e m mp mr") (auto simp: prepend_sep_fits split: sum.splits)
  then show ?thesis
    using path_ok_fits [OF assms(2)] by (simp add: resolve_at_def Let_def split: option.split)
qed

lemma resolve_fits:
  assumes "exact (k_read k)" and "path_ok p"
  shows "path_fits (fst (core_resolve k p kpath d))" "path_fits (fst (resolve_from_dentry k p dentry mnt d))"
    "path_fits (fst (core_resolve_file k p file d))"
proof -
  have ok: "path_ok (p\<lparr>p_mode := Prepend\<rparr>)" "path_ok (p\<lparr>p_mode := Prepend, p_metadata := m\<rparr>)" for m
    using assms(2) by (simp_all add: path_ok_def path_len_def)
  note fits = path_ok_fits [OF assms(2)] path_ok_fits [OF ok(1)] path_ok_fits [OF ok(2)] resolve_at_fits [OF assms(1) ok(2)]
  show core: "path_fits (fst (core_resolve k p kpath d))" for kpath
    using fits by (auto simp: core_resolve_def init_from_inode_def split: option.split prod.split)
  show "path_fits (fst (resolve_from_dentry k p dentry mnt d))"
    using fits by (auto simp: resolve_from_dentry_def init_from_inode_def split: option.split)
  show "path_fits (fst (core_resolve_file k p file d))"
    using fits(1) core by (simp add: core_resolve_file_def split: option.split)
qed

section \<open>Control groups and arguments\<close>

lemma append_fits:
  assumes "string_fits CGROUP_STRING_LEN s" and "append_kernel_str_bytes s src = (p, r)"
  shows "string_fits CGROUP_STRING_LEN p"
  using assms
  by (auto simp: append_kernel_str_bytes_def read_str_def string_cap_def Let_def CGROUP_STRING_LEN_def
      CGROUP_PATH_MAX_def string_fits_def split: option.splits if_splits)

lemma push_fits:
  "string_fits n s \<Longrightarrow> push_byte s b = (p, r) \<Longrightarrow> string_fits n p"
  by (auto simp: push_byte_def push_byte_at_def string_is_full_def string_cap_def string_fits_def
      split: if_splits)

lemma cgroup_fits_update [simp]:
  "cgroup_fits (cg\<lparr>cg_path := s\<rparr>)
     \<longleftrightarrow> string_fits CGROUP_STRING_LEN s \<and> length (cg_cgroup_id cg) = CONTAINER_ID_MAX_BUF"
  "cgroup_fits (cg\<lparr>cg_cgrp_id := n\<rparr>) = cgroup_fits cg"
  by (simp_all add: cgroup_fits_def)

lemma resolve_loop_fits: "cgroup_fits cg \<Longrightarrow> cgroup_fits (fst (resolve_loop K n i cg kn))"
proof (induction n arbitrary: i cg kn)
  case (Suc n)
  then have cg: "string_fits CGROUP_STRING_LEN (cg_path cg)" "length (cg_cgroup_id cg) = CONTAINER_ID_MAX_BUF"
    by (simp_all add: cgroup_fits_def)
  show ?case
    using Suc.prems cg by (auto simp: Let_def split: option.split prod.split sum.split
        intro!: Suc.IH; use append_fits [OF cg(1)] push_fits in blast)
qed simp

lemma cgroup_resolve_fits: "cgroup_fits cg \<Longrightarrow> cgroup_fits (fst (cgroup_resolve K cg c))"
  by (simp add: cgroup_resolve_def resolve_loop_fits split: option.split)

lemma read_user_fits:
  assumes "buffer_fits n b" and "exact user"
  shows "buffer_fits n (fst (read_user_memory b (user a) sz))"
  using assms by (auto simp: read_user_memory_def buffer_fits_def exact_def Let_def split: option.split)

section \<open>The header\<close>

text \<open>A step after which \<open>Q\<close> holds, and operations that lead from \<open>Q\<close> to \<open>P\<close>.\<close>

lemma bind_io_through:
  assumes "Q (fst r)" and "\<And>s a. Q s \<Longrightarrow> P (fst (f s a))" and "\<And>s. Q s \<Longrightarrow> P s"
  shows "P (fst (bind_io r f))"
  using assms by (cases r; cases "snd r") auto

text \<open>A header whose paths have not been resolved yet.\<close>

definition process_fresh :: "ProcessInfo \<Rightarrow> bool" where
  "process_fresh pi = (process_fits pi \<and> path_ok (pi_executable pi))"

lemma process_fits_update [simp]:
  "process_fits (pi\<lparr>pi_start_time := a\<rparr>) = process_fits pi" "process_fits (pi\<lparr>pi_tgid := b\<rparr>) = process_fits pi"
  "process_fits (pi\<lparr>pi_pid := b\<rparr>) = process_fits pi" "process_fits (pi\<lparr>pi_namespaces := c\<rparr>) = process_fits pi"
  by (simp_all add: process_fits_def)

lemma init_parts_fit:
  assumes "exact_reads W"
  shows "process_fresh pi \<Longrightarrow> process_fresh (fst (init_namespace pi t))"
    "process_fresh pi \<Longrightarrow> process_fits (fst (init_executable W pi t))"
    "process_fits pi \<Longrightarrow> process_fits (fst (init_cgroup W pi t))"
    "process_fits pi \<Longrightarrow> process_fits (fst (init_args W pi t))"
proof -
  show "process_fresh pi \<Longrightarrow> process_fresh (fst (init_namespace pi t))"
    by (simp add: init_namespace_def parse_namespace_def process_fresh_def split: option.split)
  show "process_fresh pi \<Longrightarrow> process_fits (fst (init_executable W pi t))"
    using resolve_fits(3) assms
    by (simp add: init_executable_def process_fresh_def process_fits_def exact_reads_def case_prod_beta split: option.split)
  show "process_fits pi \<Longrightarrow> process_fits (fst (init_cgroup W pi t))"
    using cgroup_resolve_fits by (simp add: init_cgroup_def process_fits_def case_prod_beta split: option.split)
  show "process_fits pi \<Longrightarrow> process_fits (fst (init_args W pi t))"
    using read_user_fits assms
    by (simp add: init_args_def process_fits_def exact_reads_def case_prod_beta split: option.split)
qed

lemma init_from_task_fits:
  assumes "exact_reads W" and "process_fresh pi" and "comm_read (Some t)"
  shows "process_fits (fst (init_from_task W pi t))"
proof -
  note parts = init_parts_fit [OF assms(1)]
  have fits: "process_fits pi" using assms(2) by (simp add: process_fresh_def)
  have comm: "process_fresh (pi\<lparr>pi_comm := c\<rparr>)" if "kt_comm t = Some c" for c
    using assms(2,3) that by (simp add: process_fresh_def process_fits_def comm_read_def)
  have tail: "process_fits (fst (bind_io (init_namespace pi t) (\<lambda>pi _. bind_io (init_executable W pi t)
      (\<lambda>pi _. bind_io (init_cgroup W pi t) (\<lambda>pi _. bind_io (init_args W pi t) (\<lambda>pi _. (pi, Inr (0 :: u32))))))))"
    if "process_fresh pi" for pi
    using that parts
    by (intro bind_io_through [where P = process_fits and Q = process_fresh, OF _ bind_io_through
            [where P = process_fits and Q = process_fits, OF _ bind_io_through
              [where P = process_fits and Q = process_fits, OF _ bind_io_through
                [where P = process_fits and Q = process_fits]]]])
      (simp_all add: process_fresh_def)
  have fresh: "process_fresh (pi\<lparr>pi_start_time := a, pi_tgid := b, pi_pid := c\<rparr>)" if "process_fresh pi" for pi a b c
    using that by (simp add: process_fresh_def)
  show ?thesis
    unfolding init_from_task_def
    using fits comm tail [OF fresh [OF comm]]
    by (cases "kt_comm t"; cases "kt_start_boottime t"; cases "kt_tgid t"; cases "kt_pid t")
      (simp_all add: process_fresh_def)
qed

lemma event_init_fits:
  assumes "exact_reads W" and "comm_read task" and "comm_read par"
    and "event_init W e ty now task par = (e', r)"
    and "process_fresh (ei_process (er_header e))" and "process_fresh (ei_parent (er_header e))"
  shows "header_fits (er_header e') \<and> er_payload e' = er_payload e"
proof -
  note fits = init_from_task_fits [OF assms(1)]
  show ?thesis
    using assms(2-6) fits
    by (auto simp: event_init_def event_info_new_def header_fits_def process_fresh_def Let_def
        split: option.splits)
qed

lemma zeroed_fresh:
  "process_fresh (ei_process zeroed_event_info)" "process_fresh (ei_parent zeroed_event_info)"
  using zeroed_fits default_fits(1)
  by (simp_all add: process_fresh_def header_fits_def)
    (simp_all add: zeroed_event_info_def default_event_info_def default_process_info_def)

section \<open>The events of the file monitor\<close>

definition fs_event_fits :: "FsEventRaw \<Rightarrow> bool" where
  "fs_event_fits e = (header_fits (er_header e) \<and> path_fits (fp_path (er_payload e))
     \<and> path_fits (fp_sym_path (er_payload e)))"

lemma classify_and_send_fits:
  assumes "fs_event_fits e" and "classify_and_send M s h t e = (s', out, r)"
  shows "list_all fs_event_fits out"
  using assms
  by (auto simp: classify_and_send_def FsMon.deduplicate_and_send_def fs_event_fits_def Let_def
      split: option.splits prod.splits sum.splits if_splits)

text \<open>The tasks whose names the reads of a program deliver.\<close>

definition fs_reads :: "FsKernel \<Rightarrow> FsTask \<Rightarrow> bool" where
  "fs_reads F t = (exact_reads (fk_world F) \<and> comm_read (ft_task t) \<and> comm_read (ft_parent_task t))"

lemma zeroed_event_fits:
  assumes "fs_reads F t"
    and "event_init (fk_world F) zeroed_fs_event ty (ft_now t) (ft_task t) (ft_parent_task t) = (e, r)"
  shows "header_fits (er_header e) \<and> er_payload e = er_payload zeroed_fs_event"
  using assms event_init_fits [OF _ _ _ assms(2)] zeroed_fresh
  by (simp add: fs_reads_def zeroed_fs_event_def)

lemma access_event_fits:
  assumes "fs_reads F t"
    and "event_init (fk_world F) zeroed_fs_event ty (ft_now t) (ft_task t) (ft_parent_task t) = (e, r)"
  shows "fs_event_fits (access_event F t f r_w e)"
    "fp_sym_path (er_payload (access_event F t f r_w e)) = default_path"
proof -
  note e = zeroed_event_fits [OF assms]
  have sym: "fp_path (er_payload zeroed_fs_event) = default_path" "fp_sym_path (er_payload zeroed_fs_event) = default_path"
    by (simp_all add: zeroed_fs_event_def)
  show "fs_event_fits (access_event F t f r_w e)"
    using e assms(1) resolve_fits(3) [OF _ default_fits(1)] path_ok_fits [OF default_fits(1)]
    by (simp add: fs_event_fits_def access_event_def fs_reads_def exact_reads_def sym)
  show "fp_sym_path (er_payload (access_event F t f r_w e)) = default_path"
    using e by (simp add: access_event_def sym)
qed

lemma link_and_inode_fits:
  assumes "fs_reads F t" and "fs_event_fits e" and "fp_sym_path (er_payload e) = default_path"
    and "link_and_inode F t symlink f (er_payload e) = Some p"
  shows "fs_event_fits (e\<lparr>er_payload := p\<rparr>)"
  using assms resolve_fits(2) [OF _ default_fits(1)]
  by (auto simp: link_and_inode_def fs_event_fits_def fs_reads_def exact_reads_def split: option.splits)

lemma fs_event_inode [simp]:
  "fs_event_fits (e\<lparr>er_payload := (er_payload e)\<lparr>fp_inode := ino\<rparr>\<rparr>) = fs_event_fits e"
  by (simp add: fs_event_fits_def)

text \<open>
  C10: the events of the file monitor are laid out as declared. Whatever the maps, the kernel's objects and the
  names in them hold, every event that the program at the exit of \<open>vfs_open\<close> or the programs around reads and
  writes send has a 16-byte name and a 512-byte argument buffer for the process and its parent, paths of
  1024 bytes, and control groups of 256: no write of the path walk, of the walk up the control groups or of
  the argument copy leaves its array.
\<close>

theorem fs_events_in_bounds:
  assumes "fs_reads F t"
  shows "list_all fs_event_fits (fst (snd (process_vfs_open M s F cgroup_exists h t retval f)))
    \<and> list_all fs_event_fits (fst (snd (process_vfs_fexit M s F h t f_op)))"
proof -
  note fits = access_event_fits [OF assms]
  have sent: "list_all fs_event_fits (fst (snd (classify_and_send M s h t e)))" if "fs_event_fits e" for s h e
    using classify_and_send_fits [OF that] by (cases "classify_and_send M s h t e") auto
  have opened: "list_all fs_event_fits (fst (snd (process_vfs_open M s F cgroup_exists h t retval f)))"
  proof -
    obtain e r where ei: "event_init (fk_world F) zeroed_fs_event EvFileRead (ft_now t) (ft_task t)
        (ft_parent_task t) = (e, r)" by fastforce
    show ?thesis
      unfolding process_vfs_open_def ei
      by (simp add: Let_def sent fits(1) [OF ei] split: option.split sum.split prod.split)
  qed
  have closed: "list_all fs_event_fits (fst (snd (process_vfs_fexit M s F h t f_op)))"
  proof -
    obtain e r where ei: "event_init (fk_world F) zeroed_fs_event (if f_op = WRITE then EvFileWrite else EvFileRead)
        (ft_now t) (ft_task t) (ft_parent_task t) = (e, r)" by fastforce
    note linked = sent [OF link_and_inode_fits [OF assms fits(1,2) [OF ei]]]
    have slow: "list_all fs_event_fits (fst (snd (case alloc_zero h SIZE_OF_FS_EVENT of
        (h, Inl err) \<Rightarrow> (s, [], Inl 1)
      | (h, Inr _) \<Rightarrow>
          (case link_and_inode F t symlink f (er_payload (access_event F t f r_w e)) of
             None \<Rightarrow> (s, [], Inl 1)
           | Some p \<Rightarrow> classify_and_send M s' h t ((access_event F t f r_w e)\<lparr>er_payload := p\<rparr>)))))"
      for s s' h symlink f r_w
      by (cases "alloc_zero h SIZE_OF_FS_EVENT") (simp add: linked split: option.split sum.split)
    show ?thesis
    proof (cases "mo_get (VFS_STATE M) s (ft_pid_tgid t)")
      case None
      then show ?thesis by (simp add: process_vfs_fexit_def)
    next
      case (Some f)
      obtain s2 first where seen: "first_sighting M (fst (mo_remove (VFS_STATE M) s (ft_pid_tgid t))) F
          (ft_pid_tgid t) f (if f_op = WRITE then 1 else 0) = (s2, first)" by fastforce
      obtain h2 a where heap: "alloc_init h = (h2, a)" by fastforce
      note facts = slow [where h = h2 and s = s2 and f = f and r_w = "if f_op = WRITE then 1 else 0"]
      show ?thesis
        unfolding process_vfs_fexit_def Some option.case Let_def seen heap ei
        by (cases first; cases a; cases r; cases "fk_f_path F f"; cases "the (fk_f_path F f)")
          (simp_all add: facts)
    qed
  qed
  show ?thesis using opened closed by simp
qed

text \<open>The sample access, with reads that deliver exactly the size asked for.\<close>

definition padded_fs :: KernelFs where
  "padded_fs = sample_fs\<lparr>k_read := (\<lambda>a n. Some (take n ((if a = 3 then ''hosts'' else ''etc'') @ replicate n nul)))\<rparr>"

lemma padded_exact: "exact (k_read padded_fs)"
  by (auto simp: exact_def padded_fs_def)

theorem fs_events_in_bounds_witness:
  "list_all fs_event_fits (fst (snd (process_vfs_open lru_fs empty_fs
       (sample_fs_kernel\<lparr>fk_world := (fk_world sample_fs_kernel)\<lparr>w_fs := padded_fs\<rparr>\<rparr>) (\<lambda>c. c = 7) fresh_heap
       sample_fs_task 0 9)))"
proof -
  have "fs_reads (sample_fs_kernel\<lparr>fk_world := (fk_world sample_fs_kernel)\<lparr>w_fs := padded_fs\<rparr>\<rparr>) sample_fs_task"
    by (simp add: fs_reads_def exact_reads_def exact_def comm_read_def sample_fs_kernel_def sample_fs_task_def
        padded_exact [unfolded exact_def])
  then show ?thesis
    by (rule fs_events_in_bounds [THEN conjunct1])
qed

end
