(* ===== verification/ProcTrack.thy ===== *)
theory ProcTrack
  imports EventLayout
begin

text \<open>
  The process monitor over time: the two programs around \<open>execve\<close> hand an event over in the map
  \<open>EXEC_STATE\<close>, keyed by the thread. The locale \<open>exec_maps\<close> states the laws of the two LRU maps of
  \<open>ebpf-mon-ebpf/src/process.rs\<close>, and \<open>lru_proc\<close>, tables with the capacities of the source, interprets it. The
  lemmas show that the pending and the reported events keep their declared layout in every run of the
  programs, and what the pair of programs reports of an \<open>execve\<close>.
\<close>

section \<open>The laws of the maps\<close>

text \<open>Each map leaves the other alone, and an insertion at most forgets entries of other keys.\<close>

definition proc_laws :: "'s ProcMaps \<Rightarrow> bool" where
  "proc_laws M =
     (lru_law (lru_get (EXEC_STATE M)) (PROCESS_EVENT_DEDUP M)
      \<and> lru_law (lru_get (PROCESS_EVENT_DEDUP M)) (EXEC_STATE M)
      \<and> (\<forall>s k v k'. k' \<noteq> k \<longrightarrow>
           lru_get (EXEC_STATE M) (lru_insert (EXEC_STATE M) s k v) k' \<in> {lru_get (EXEC_STATE M) s k', None}))"

locale exec_maps =
  fixes M :: "'s ProcMaps"
  assumes laws: "proc_laws M"
begin

lemma reported_law: "lru_law (lru_get (EXEC_STATE M)) (PROCESS_EVENT_DEDUP M)"
  and exec_law: "lru_law (lru_get (PROCESS_EVENT_DEDUP M)) (EXEC_STATE M)"
  using laws by (simp_all add: proc_laws_def)

lemma exec_get:
  "lru_get (EXEC_STATE M) (lru_insert (EXEC_STATE M) s k v) k = Some v"
  "lru_get (PROCESS_EVENT_DEDUP M) (lru_insert (EXEC_STATE M) s k v) = lru_get (PROCESS_EVENT_DEDUP M) s"
  "lru_get (EXEC_STATE M) (lru_remove (EXEC_STATE M) s k) = (lru_get (EXEC_STATE M) s)(k := None)"
  "lru_get (PROCESS_EVENT_DEDUP M) (lru_remove (EXEC_STATE M) s k) = lru_get (PROCESS_EVENT_DEDUP M) s"
  using exec_law by (simp_all add: lru_law_def)

lemma exec_insert_other:
  "k' \<noteq> k \<Longrightarrow> lru_get (EXEC_STATE M) (lru_insert (EXEC_STATE M) s k v) k' = Some e \<Longrightarrow> lru_get (EXEC_STATE M) s k' = Some e"
  using laws unfolding proc_laws_def by (metis insertE option.distinct(1) singletonD)

lemma sent:
  assumes "ProcMon.deduplicate_and_send M s event ident = (s', out)"
  shows "lru_get (EXEC_STATE M) s' = lru_get (EXEC_STATE M) s"
    "out = (if lru_get (PROCESS_EVENT_DEDUP M) s ident = None then [event] else [])"
    "lru_get (PROCESS_EVENT_DEDUP M) s' ident \<noteq> None"
  using assms lru_insert_new_ok [OF reported_law, of s ident 1]
  by (cases "lru_get (PROCESS_EVENT_DEDUP M) s ident";
      force simp: ProcMon.deduplicate_and_send_def split: prod.splits)+

end

text \<open>Tables with the capacities of the source.\<close>

record ProcTables =
  hs_reported :: "(ProcessIdentity \<times> u8) list"
  hs_pending :: "(u64 \<times> ProcessEventRaw) list"

definition lru_proc :: "ProcTables ProcMaps" where
  "lru_proc = \<lparr>PROCESS_EVENT_DEDUP = lru_ops hs_reported hs_reported_update 1024,
     EXEC_STATE = lru_ops hs_pending hs_pending_update 1024\<rparr>"

definition empty_proc :: ProcTables where
  "empty_proc = \<lparr>hs_reported = [], hs_pending = []\<rparr>"

lemma lru_proc_laws: "proc_laws lru_proc"
proof -
  have "lru_get (EXEC_STATE lru_proc) (lru_insert (EXEC_STATE lru_proc) s k v) k'
      \<in> {lru_get (EXEC_STATE lru_proc) s k', None}" if "k' \<noteq> k" for s k v k'
    using lru_put_entry_get(2) [OF that, of 1024 "hs_pending s" v] by (simp add: lru_proc_def lru_ops_def)
  moreover have "lru_get (EXEC_STATE lru_proc) (hs_reported_update f s) = lru_get (EXEC_STATE lru_proc) s"
    "lru_get (PROCESS_EVENT_DEDUP lru_proc) (hs_pending_update g s) = lru_get (PROCESS_EVENT_DEDUP lru_proc) s" for f g s
    by (simp_all add: lru_proc_def lru_ops_def)
  ultimately show ?thesis
    unfolding proc_laws_def
    by (auto simp: lru_proc_def intro!: lru_ops_law)
qed

interpretation lru_proc: exec_maps lru_proc
  by unfold_locales (rule lru_proc_laws)

section \<open>Layout of the events\<close>

definition process_event_fits :: "ProcessEventRaw \<Rightarrow> bool" where
  "process_event_fits e =
     (header_fits (er_header e)
      \<and> (let p = er_payload e in
         path_fits (pp_path p) \<and> length (pp_filename p) = MAX_FILENAME_LEN \<and> length (pp_argv p) = MAX_ARGS
         \<and> (\<forall>a \<in> set (pp_argv p). length a = MAX_ARG_LEN) \<and> unat (pp_argc p) \<le> MAX_ARGS
         \<and> length (pp_parent_comm p) = 16))"

lemma redact_arg_length: "length a = MAX_ARG_LEN \<Longrightarrow> length (redact_arg a) = MAX_ARG_LEN"
  by (simp add: redact_arg_def MAX_ARG_LEN_def)

lemma argv_loop_fits:
  assumes "argv_loop U argv n i rc (bufs, argc) = (bufs', argc')" and "i + n = MAX_ARGS"
    and "length bufs = MAX_ARGS" and "\<forall>a \<in> set bufs. length a = MAX_ARG_LEN" and "unat argc \<le> i"
  shows "length bufs' = MAX_ARGS \<and> (\<forall>a \<in> set bufs'. length a = MAX_ARG_LEN) \<and> unat argc' \<le> MAX_ARGS"
  using assms
proof (induction n arbitrary: i rc bufs argc)
  case 0
  then show ?case by simp
next
  case (Suc n)
  let ?arg = "\<lambda>p. read_into (um_str U p) (bufs ! i)"
  have i: "i < length bufs" using Suc.prems(2,3) by simp
  then have "length (bufs ! i) = MAX_ARG_LEN" using Suc.prems(4) by simp
  then have arg: "length (?arg p) = MAX_ARG_LEN" for p
    using read_into_length [of "bufs ! i"] by (force simp: MAX_ARG_LEN_def)
  have upd: "\<forall>a \<in> set (bufs[i := x]). length a = MAX_ARG_LEN" if "length x = MAX_ARG_LEN" for x
    using Suc.prems(4) that set_update_subset_insert by fastforce
  have argc: "unat (argc + 1) \<le> Suc i"
    using Suc.prems(5) by (simp add: unat_word_ariths)
  have stop: "length bufs = MAX_ARGS \<and> (\<forall>a \<in> set bufs. length a = MAX_ARG_LEN) \<and> unat argc \<le> MAX_ARGS"
    using Suc.prems by simp
  note IH = Suc.IH [of "Suc i"]
  show ?case
    using Suc.prems stop IH upd [OF arg] upd [OF redact_arg_length [OF arg]] argc
    by (auto simp: Let_def split: option.splits if_splits)
qed

lemma read_argv_fits:
  assumes "process_event_fits (e\<lparr>er_payload := p\<rparr>)"
  shows "process_event_fits (e\<lparr>er_payload := read_argv U argv_ptr p\<rparr>)"
  using assms argv_loop_fits [of U argv_ptr MAX_ARGS 0 0 "pp_argv p" 0]
  by (auto simp: process_event_fits_def read_argv_def Let_def split: prod.split)

text \<open>The reads on which a program depends: of memory, and of the names of the task and its parent.\<close>

definition proc_reads :: "World \<Rightarrow> ProcTask \<Rightarrow> bool" where
  "proc_reads W t = (exact_reads W \<and> comm_read (pt_task t) \<and> comm_read (pt_parent_task t)
     \<and> (\<forall>ppid c. pt_parent t = Some (ppid, Some c) \<longrightarrow> length c = 16))"

lemma zeroed_process_fits:
  assumes "proc_reads W t"
    and "event_init W zeroed_process_event ty (pt_now t) (pt_task t) (pt_parent_task t) = (e, r)"
  shows "process_event_fits e \<and> pp_path (er_payload e) = default_path"
  using assms event_init_fits [OF _ _ _ assms(2)] zeroed_fresh path_ok_fits [OF default_fits(1)]
  by (simp add: proc_reads_def zeroed_process_event_def process_event_fits_def Let_def)

lemma resolve_exe_fits:
  assumes "proc_reads W t" and "resolve_exe W t default_path = (p, r)"
  shows "path_fits p"
proof -
  have "path_fits (fst (core_resolve_file (w_fs W) default_path x MAX_PATH_DEPTH))" for x
    using resolve_fits(3) [OF _ default_fits(1)] assms(1) by (simp add: proc_reads_def exact_reads_def)
  then have "path_fits q" if "core_resolve_file (w_fs W) default_path x MAX_PATH_DEPTH = (q, a)" for q x a
    using that by (metis fst_conv)
  then show ?thesis
    using assms(2) path_ok_fits [OF default_fits(1)]
    by (auto simp: resolve_exe_def bind_io_def or_err_def split: option.splits prod.splits sum.splits)
qed

lemma exec_event_fits:
  assumes "process_event_fits e" and "path_fits path" and "length comm = 16"
  shows "process_event_fits (exec_event W U t cgid cred caps ppid comm path ino fptr aptr e)"
  unfolding exec_event_def
  by (rule read_argv_fits)
    (use assms in \<open>auto simp: process_event_fits_def Let_def MAX_FILENAME_LEN_def intro!: read_into_length [THEN trans]\<close>)

lemma exec_outcome_fits:
  assumes "exact_reads W" and "process_event_fits e"
  shows "process_event_fits (e\<lparr>er_payload := exec_outcome W t retval (er_payload e)\<rparr>)"
proof -
  have "path_ok (reset (pp_path (er_payload e)))"
    using assms(2) by (simp add: process_event_fits_def Let_def reset_fits)
  then have "path_fits (fst (core_resolve_file (w_fs W) (reset (pp_path (er_payload e))) x MAX_PATH_DEPTH))" for x
    using assms(1) resolve_fits(3) by (simp add: exact_reads_def)
  then show ?thesis
    using assms(2) by (simp add: process_event_fits_def exec_outcome_def Let_def split: option.split)
qed

definition pending_fits :: "'s ProcMaps \<Rightarrow> 's \<Rightarrow> bool" where
  "pending_fits M s = (\<forall>k e. lru_get (EXEC_STATE M) s k = Some e \<longrightarrow> process_event_fits e)"

text \<open>What each program does to the pending events and sends.\<close>

definition keeps_layout :: "'s ProcMaps \<Rightarrow> 's \<times> ProcessEventRaw list \<Rightarrow> bool" where
  "keeps_layout M r = (pending_fits M (fst r) \<and> list_all process_event_fits (snd r))"

context exec_maps
begin

lemma pending_insert:
  "pending_fits M s \<Longrightarrow> process_event_fits e \<Longrightarrow> pending_fits M (lru_insert (EXEC_STATE M) s k e)"
  using exec_insert_other exec_get(1) unfolding pending_fits_def by (metis option.inject)

lemma pending_remove: "pending_fits M s \<Longrightarrow> pending_fits M (lru_remove (EXEC_STATE M) s k)"
  by (simp add: pending_fits_def exec_get)

lemma sent_fits:
  assumes "ProcMon.deduplicate_and_send M s e ident = (s', out)" and "pending_fits M s" and "process_event_fits e"
  shows "pending_fits M s' \<and> list_all process_event_fits out"
  using sent [OF assms(1)] assms(2,3) by (simp add: pending_fits_def)

lemma fork_keeps_layout:
  assumes "proc_reads W t" and "pending_fits M s"
    and "try_fork_tracepoint M s W cgroup_exists h t = (s', out, r)"
  shows "pending_fits M s' \<and> list_all process_event_fits out"
proof -
  obtain e a where ei: "event_init W zeroed_process_event EvFork (pt_now t) (pt_task t) (pt_parent_task t) = (e, a)"
    by fastforce
  note e = zeroed_process_fits [OF assms(1) ei]
  have fits: "process_event_fits (e\<lparr>er_payload := (er_payload e)\<lparr>pp_path := path, pp_ps_type := Fork, pp_pid := pid,
      pp_cgroup_id := cgid, pp_inode := ino, pp_capabilities := caps, pp_ppid := ppid, pp_gid := gid,
      pp_is_root := root, pp_parent_comm := comm\<rparr>\<rparr>)"
    if "resolve_exe W t (pp_path (er_payload e)) = (path, q)" and "length comm = 16"
    for path q pid cgid ino caps ppid gid root comm
    using that e resolve_exe_fits [OF assms(1)] by (simp add: process_event_fits_def Let_def)
  have comm: "length c = 16" if "pt_parent t = Some (p, Some c)" for p c
    using assms(1) that unfolding proc_reads_def by blast
  show ?thesis
    using assms(2,3) unfolding try_fork_tracepoint_def Let_def ei
    by (auto split: option.splits sum.splits prod.splits if_splits
        dest!: sent_fits simp: fits comm)
qed

lemma enter_keeps_layout:
  assumes "proc_reads W t" and "pending_fits M s"
    and "handle_exec_common M s W U cgroup_exists h t fptr aptr = (s', r)"
  shows "pending_fits M s'"
proof -
  obtain e a where ei: "event_init W zeroed_process_event EvExecve (pt_now t) (pt_task t) (pt_parent_task t) = (e, a)"
    by fastforce
  note e = zeroed_process_fits [OF assms(1) ei]
  have fits: "process_event_fits (exec_event W U t cgid cred caps ppid comm path ino fptr aptr e)"
    if "resolve_exe W t (pp_path (er_payload e)) = (path, q)" and "length comm = 16"
    for path q cgid cred caps ppid comm ino
    using that e resolve_exe_fits [OF assms(1)] by (simp add: exec_event_fits)
  have comm: "length c = 16" if "pt_parent t = Some (p, Some c)" for p c
    using assms(1) that unfolding proc_reads_def by blast
  show ?thesis
    using assms(2,3) unfolding handle_exec_common_def Let_def ei
    by (auto split: option.splits sum.splits prod.splits if_splits intro!: pending_insert simp: fits comm)
qed

lemma exit_keeps_layout:
  assumes "exact_reads W" and "pending_fits M s"
    and "handle_exit_exec_common M s W h t retval = (s', out, r)"
  shows "pending_fits M s' \<and> list_all process_event_fits out"
proof (cases "lru_get (EXEC_STATE M) s (pt_pid_tgid t)")
  case None
  then show ?thesis using assms(2,3) by (simp add: handle_exit_exec_common_def)
next
  case (Some e)
  let ?e = "e\<lparr>er_payload := exec_outcome W t retval (er_payload e)\<rparr>"
  have e: "process_event_fits ?e"
    using assms(1,2) Some exec_outcome_fits by (simp add: pending_fits_def)
  note ins = pending_insert [OF assms(2) e]
  have snd: "pending_fits M (lru_remove (EXEC_STATE M) s1 k) \<and> list_all process_event_fits out"
    if "ProcMon.deduplicate_and_send M (lru_insert (EXEC_STATE M) s (pt_pid_tgid t) ?e) ?e ident = (s1, out)"
    for ident s1 out k
    using sent_fits [OF that ins e] pending_remove by blast
  show ?thesis
    using assms(3) Some ins unfolding handle_exit_exec_common_def Let_def
    by (auto split: sum.splits prod.splits dest!: snd)
qed

end

section \<open>Runs of the monitor\<close>

text \<open>
  A call of one of the programs, with the kernel memory, the scratch memory and the task that it finds. \<open>execveat\<close>
  has programs of the same text.
\<close>

datatype ProcCall =
  ForkCall World Heap ProcTask
| EnterCall World Heap ProcTask UserMem "u64 option \<times> u64 option"
| ExitCall World Heap ProcTask "u64 option"

fun proc_call :: "'s ProcMaps \<Rightarrow> (u64 \<Rightarrow> bool) \<Rightarrow> 's \<Rightarrow> ProcCall \<Rightarrow> 's \<times> ProcessEventRaw list" where
  "proc_call M cgroup_exists s (ForkCall W h t) =
     (case fork_tracepoint M s W cgroup_exists h t of (s, out, _) \<Rightarrow> (s, out))"
| "proc_call M cgroup_exists s (EnterCall W h t U args) =
     (case execve_tracepoint M s W U cgroup_exists h t args of (s, _) \<Rightarrow> (s, []))"
| "proc_call M cgroup_exists s (ExitCall W h t retval) =
     (case exit_execve_tracepoint M s W h t retval of (s, out, _) \<Rightarrow> (s, out))"

fun proc_run :: "'s ProcMaps \<Rightarrow> (u64 \<Rightarrow> bool) \<Rightarrow> 's \<Rightarrow> ProcCall list \<Rightarrow> 's \<times> ProcessEventRaw list" where
  "proc_run M cgroup_exists s [] = (s, [])"
| "proc_run M cgroup_exists s (c # cs) =
     (case proc_call M cgroup_exists s c of (s, out) \<Rightarrow>
        (case proc_run M cgroup_exists s cs of (s, later) \<Rightarrow> (s, out @ later)))"

fun call_reads :: "ProcCall \<Rightarrow> bool" where
  "call_reads (ForkCall W h t) = proc_reads W t"
| "call_reads (EnterCall W h t U args) = proc_reads W t"
| "call_reads (ExitCall W h t retval) = exact_reads W"

context exec_maps
begin

lemma proc_call_keeps_layout:
  assumes "call_reads c" and "pending_fits M s" and "proc_call M cgroup_exists s c = (s', out)"
  shows "pending_fits M s' \<and> list_all process_event_fits out"
proof (cases c)
  case (ForkCall W h t)
  then show ?thesis
    using assms fork_keeps_layout [of W t s] by (auto simp: fork_tracepoint_def split: prod.splits)
next
  case (EnterCall W h t U args)
  then show ?thesis
    using assms enter_keeps_layout [of W t s]
    by (auto simp: execve_tracepoint_def try_execve_tracepoint_def split: prod.splits option.splits)
next
  case (ExitCall W h t retval)
  then show ?thesis
    using assms exit_keeps_layout [of W s]
    by (auto simp: exit_execve_tracepoint_def try_exit_execve_tracepoint_def split: prod.splits option.splits)
qed

lemma proc_run_keeps_layout:
  "list_all call_reads cs \<Longrightarrow> pending_fits M s \<Longrightarrow> proc_run M cgroup_exists s cs = (s', out) \<Longrightarrow>
     pending_fits M s' \<and> list_all process_event_fits out"
  by (induction cs arbitrary: s out) (auto split: prod.splits dest: proc_call_keeps_layout)

end

text \<open>
  C11: the events of the process monitor are laid out as declared. In every run of its programs, with any
  kernel and user memory and any interleaving of threads, the events pending in \<open>EXEC_STATE\<close> and the events
  sent have all their arrays at their declared sizes: names of 16 bytes, a file name of 256, at most 20 arguments,
  in 20 buffers of 128 bytes, and the header and path as above. Re-resolving the path of a pending event and
  redacting its arguments stay in bounds, too.
\<close>

theorem process_events_in_bounds:
  assumes "proc_laws M" and "lru_get (EXEC_STATE M) s = Map.empty" and "list_all call_reads cs"
  shows "pending_fits M (fst (proc_run M cgroup_exists s cs))
    \<and> list_all process_event_fits (snd (proc_run M cgroup_exists s cs))"
  using exec_maps.proc_run_keeps_layout [OF exec_maps.intro [OF assms(1)] assms(3)]
  by (metis assms(2) option.distinct(1) pending_fits_def prod.collapse)

section \<open>What is reported of an execve\<close>

text \<open>A task in a watched control group whose reads succeed, and the executable that a task runs.\<close>

definition watched_exec :: "World \<Rightarrow> (u64 \<Rightarrow> bool) \<Rightarrow> ProcTask \<Rightarrow> u64 \<Rightarrow> u32 \<Rightarrow> string \<Rightarrow> Cred \<Rightarrow> u64 \<Rightarrow> bool" where
  "watched_exec W cgroup_exists t cgid ppid comm cred caps =
     (pt_cgroup_id t = Some cgid \<and> cgroup_exists cgid \<and> pt_parent t = Some (Some ppid, Some comm)
      \<and> pt_cred t = Some cred \<and> cr_cap_effective cred = Some caps
      \<and> (pt_task t \<noteq> None \<longrightarrow> pt_parent_task t \<noteq> None) \<and> \<not> isl (snd (resolve_exe W t default_path)))"

definition exe_located :: "World \<Rightarrow> ProcTask \<Rightarrow> string \<Rightarrow> u64 \<Rightarrow> bool" where
  "exe_located W t path ino =
     (\<exists>x f. pt_exe t = Some x \<and> xf_path x = Some f \<and> path_located (w_fs W) f path \<and> xf_ino x = Some (Some ino))"

definition exec_identity :: "ProcessPayload \<Rightarrow> ProcessIdentity" where
  "exec_identity p = \<lparr>pd_ps_type = ps_type_u8 (pp_ps_type p), pd_filename = pp_filename p, pd_argv = pp_argv p\<rparr>"

lemma scratch_ready:
  assumes "heap_ready h" and "n \<le> HEAP_MAX_ALLOC_SIZE"
  shows "\<exists>h1 h2. alloc_init h = (h1, Inr ()) \<and> alloc_zero h1 n = (h2, Inr 0)"
proof -
  obtain h1 where "alloc_init h = (h1, Inr ())" "heap_ready h1" "i_next h1 = Some 0"
    using alloc_init_ready [OF assms(1)] by blast
  then show ?thesis
    using alloc_zero_ready [of h1 0 n] assms(2) by (auto simp: MAX_ALLOCS_def)
qed

lemma exec_enters:
  assumes "watched_exec W cgroup_exists t cgid ppid comm cred caps" and "heap_ready h" and "proc_reads W t"
  shows "\<exists>hdr path ino. path_fits path \<and> handle_exec_common M s W U cgroup_exists h t fptr aptr =
    (lru_insert (EXEC_STATE M) s (pt_pid_tgid t)
       (exec_event W U t cgid cred caps ppid comm path ino fptr aptr (zeroed_process_event\<lparr>er_header := hdr\<rparr>)), Inr 0)"
proof -
  have "SIZE_OF_PROCESS_EVENT \<le> HEAP_MAX_ALLOC_SIZE" by (simp add: SIZE_OF_PROCESS_EVENT_def HEAP_MAX_ALLOC_SIZE_def)
  then obtain h1 h2 where h: "alloc_init h = (h1, Inr ())" "alloc_zero h1 SIZE_OF_PROCESS_EVENT = (h2, Inr 0)"
    using scratch_ready [OF assms(2)] by blast
  obtain hdr where e: "event_init W zeroed_process_event EvExecve (pt_now t) (pt_task t) (pt_parent_task t)
      = (zeroed_process_event\<lparr>er_header := hdr\<rparr>, Inr ())"
    using assms(1) event_init_ready unfolding watched_exec_def by metis
  obtain path ino where p: "resolve_exe W t default_path = (path, Inr ino)"
    using assms(1) by (cases "resolve_exe W t default_path"; cases "snd (resolve_exe W t default_path)")
      (auto simp: watched_exec_def)
  have fits: "path_fits path" by (rule resolve_exe_fits [OF assms(3) p])
  have d: "pp_path (er_payload zeroed_process_event) = default_path"
    by (simp add: zeroed_process_event_def)
  show ?thesis
    using assms(1) unfolding watched_exec_def handle_exec_common_def Let_def h(1) h(2) e
    by (intro exI [of _ hdr] exI [of _ path] exI [of _ ino]) (auto simp: h e d p fits)
qed

context exec_maps
begin

lemma exec_exits:
  assumes "lru_get (EXEC_STATE M) s (pt_pid_tgid t) = Some e" and "heap_ready h"
    and "ev = e\<lparr>er_payload := exec_outcome W t retval (er_payload e)\<rparr>"
  shows "\<exists>s2. handle_exit_exec_common M s W h t retval =
      (s2, if lru_get (PROCESS_EVENT_DEDUP M) s (exec_identity (er_payload ev)) = None then [ev] else [], Inr 0)
    \<and> lru_get (EXEC_STATE M) s2 (pt_pid_tgid t) = None
    \<and> lru_get (PROCESS_EVENT_DEDUP M) s2 (exec_identity (er_payload ev)) \<noteq> None"
proof -
  have "SIZE_OF_PROCESS_IDENTITY \<le> HEAP_MAX_ALLOC_SIZE" by (simp add: SIZE_OF_PROCESS_IDENTITY_def HEAP_MAX_ALLOC_SIZE_def)
  then obtain h1 h2 where h: "alloc_init h = (h1, Inr ())" "alloc_zero h1 SIZE_OF_PROCESS_IDENTITY = (h2, Inr 0)"
    using scratch_ready [OF assms(2)] by blast
  obtain s1 out where d: "ProcMon.deduplicate_and_send M (lru_insert (EXEC_STATE M) s (pt_pid_tgid t) ev) ev
      (exec_identity (er_payload ev)) = (s1, out)" by fastforce
  have "handle_exit_exec_common M s W h t retval = (lru_remove (EXEC_STATE M) s1 (pt_pid_tgid t), out, Inr 0)"
    using assms(1) h d unfolding assms(3) by (simp add: handle_exit_exec_common_def exec_identity_def Let_def)
  then show ?thesis
    using sent [OF d] exec_get by simp
qed

end

text \<open>What the event says, for the program's path, inode number, file name and arguments.\<close>

definition reports_exec ::
    "ProcTask \<Rightarrow> u64 \<Rightarrow> u32 \<Rightarrow> string \<Rightarrow> Cred \<Rightarrow> u64 \<Rightarrow> string \<Rightarrow> u64 \<Rightarrow> string \<Rightarrow> string list \<Rightarrow> ProcessPayload \<Rightarrow> bool" where
  "reports_exec t cgid ppid comm cred caps path ino filename args p =
     (pp_ps_type p = Execve \<and> path_bytes (pp_path p) = path \<and> pp_inode p = ino \<and> pp_retval p = 0
      \<and> pp_pid p = ucast (pt_pid_tgid t) \<and> pp_tgid p = ucast (drop_bit 32 (pt_pid_tgid t))
      \<and> pp_cgroup_id p = cgid \<and> pp_ppid p = ppid \<and> pp_parent_comm p = comm \<and> pp_gid p = cr_gid cred
      \<and> pp_is_root p = (cr_uid cred = 0) \<and> pp_capabilities p = caps
      \<and> cstr (pp_filename p) = take (MAX_FILENAME_LEN - 1) filename
      \<and> map cstr (take (unat (pp_argc p)) (pp_argv p)) = take MAX_ARGS (redacted 0 args)
      \<and> unat (pp_argc p) = min MAX_ARGS (length args))"

lemma read_argv_rest: "\<exists>bufs argc. read_argv U aptr p = p\<lparr>pp_argv := bufs, pp_argc := argc\<rparr>"
proof (cases "aptr = 0")
  case True
  then show ?thesis by (intro exI [of _ "pp_argv p"] exI [of _ 0]) (simp add: read_argv_def)
next
  case False
  then show ?thesis by (auto simp: read_argv_def Let_def split: prod.split)
qed

lemma exec_outcome_success:
  assumes "exe_located W t path ino" and "path_fits (pp_path p)"
  shows "\<exists>q. exec_outcome W t (Some 0) p = p\<lparr>pp_retval := 0, pp_path := q, pp_inode := ino\<rparr> \<and> path_bytes q = path"
proof -
  obtain x f where x: "pt_exe t = Some x" "xf_path x = Some f" "path_located (w_fs W) f path" "xf_ino x = Some (Some ino)"
    using assms(1) by (auto simp: exe_located_def)
  have "path_ok (reset (pp_path p))" "path_len (reset (pp_path p)) = 0"
    using reset_fits [OF assms(2)] by (simp_all add: reset_def path_len_def)
  then obtain q where "core_resolve_file (w_fs W) (reset (pp_path p)) (Some f) MAX_PATH_DEPTH = (q, Inr ())"
    "path_bytes q = path"
    using path_located_resolves [OF x(3)] by blast
  then show ?thesis using x by (intro exI [of _ q]) (simp add: exec_outcome_def Let_def)
qed

lemma exec_event_reports:
  assumes "args_at U aptr 0 args" and "aptr \<noteq> 0" and "um_str U fptr = Some filename" and "fptr \<noteq> 0"
    and "nul \<notin> set filename" and "exe_located W' t' path ino" and "path_fits path0"
    and "e = exec_event W U t cgid cred caps ppid comm path0 ino0 fptr aptr (zeroed_process_event\<lparr>er_header := hdr\<rparr>)"
  shows "reports_exec t cgid ppid comm cred caps path ino filename args (exec_outcome W' t' (Some 0) (er_payload e))"
proof -
  let ?p0 = "er_payload zeroed_process_event"
  let ?p1 = "?p0\<lparr>pp_path := path0, pp_ps_type := Execve, pp_pid := ucast (pt_pid_tgid t),
      pp_tgid := ucast (drop_bit 32 (pt_pid_tgid t)), pp_cgroup_id := cgid, pp_freq := 0,
      pp_inode := ino0, pp_capabilities := caps, pp_ppid := ppid, pp_gid := cr_gid cred,
      pp_is_root := (cr_uid cred = 0), pp_parent_comm := comm,
      pp_filename := read_into (Some filename) (pp_filename ?p0)\<rparr>"
  have e: "er_payload e = read_argv U aptr ?p1"
    using assms(3,4) unfolding assms(8) by (simp add: exec_event_def)
  have argv: "pp_argv ?p1 = replicate MAX_ARGS (replicate MAX_ARG_LEN nul)"
    by (simp add: zeroed_process_event_def)
  obtain bufs argc where r: "read_argv U aptr ?p1 = ?p1\<lparr>pp_argv := bufs, pp_argc := argc\<rparr>"
    using read_argv_rest by blast
  have args: "map cstr (take (unat argc) bufs) = take MAX_ARGS (redacted 0 args)" "unat argc = min MAX_ARGS (length args)"
    using read_argv_redacts [OF assms(1,2) argv] unfolding r by auto
  have name: "cstr (read_into (Some filename) (pp_filename ?p0)) = take (MAX_FILENAME_LEN - 1) filename"
    using read_into_cstr [OF assms(5), of "pp_filename ?p0"] by (simp add: zeroed_process_event_def MAX_FILENAME_LEN_def)
  have "path_fits (pp_path (er_payload e))" using assms(7) unfolding e r by simp
  then obtain q where "exec_outcome W' t' (Some 0) (er_payload e)
      = (er_payload e)\<lparr>pp_retval := 0, pp_path := q, pp_inode := ino\<rparr>" "path_bytes q = path"
    using exec_outcome_success [OF assms(6)] by blast
  then show ?thesis
    unfolding e r using args name by (simp add: reports_exec_def)
qed

text \<open>
  C9: an \<open>execve\<close> of a watched task is reported once, with the program that runs. For a task in a watched
  control group whose reads succeed, the program at the entry of \<open>execve\<close> keeps the event, and the program at
  its successful exit sends it exactly if no exec of the same file name and arguments is remembered: it carries
  the path and inode of the new executable and not those of the caller, the file name given, the redacted
  arguments, and the ids, credentials and parent that the task had at the entry. Afterwards nothing is
  pending for the thread, and the same exec is not reported again.
\<close>

theorem exec_reported_once:
  assumes "proc_laws M" and "watched_exec W cgroup_exists t cgid ppid comm cred caps" and "proc_reads W t"
    and "heap_ready h" and "heap_ready h'" and "pt_pid_tgid t' = pt_pid_tgid t" and "exe_located W' t' path ino"
    and "um_str U fptr = Some filename" and "nul \<notin> set filename" and "fptr \<noteq> 0"
    and "args_at U aptr 0 args" and "aptr \<noteq> 0"
  shows "\<exists>ev s2. proc_run M cgroup_exists s [EnterCall W h t U (Some fptr, Some aptr), ExitCall W' h' t' (Some 0)]
      = (s2, if lru_get (PROCESS_EVENT_DEDUP M) s (exec_identity (er_payload ev)) = None then [ev] else [])
    \<and> reports_exec t cgid ppid comm cred caps path ino filename args (er_payload ev)
    \<and> lru_get (EXEC_STATE M) s2 (pt_pid_tgid t) = None
    \<and> lru_get (PROCESS_EVENT_DEDUP M) s2 (exec_identity (er_payload ev)) \<noteq> None"
proof -
  note maps = exec_maps.intro [OF assms(1)]
  obtain hdr path0 ino0 where enter: "path_fits path0"
    "handle_exec_common M s W U cgroup_exists h t fptr aptr = (lru_insert (EXEC_STATE M) s (pt_pid_tgid t)
       (exec_event W U t cgid cred caps ppid comm path0 ino0 fptr aptr (zeroed_process_event\<lparr>er_header := hdr\<rparr>)), Inr 0)"
    using exec_enters [OF assms(2,4,3), of M s U fptr aptr] by blast
  define e where "e = exec_event W U t cgid cred caps ppid comm path0 ino0 fptr aptr (zeroed_process_event\<lparr>er_header := hdr\<rparr>)"
  define ev where "ev = e\<lparr>er_payload := exec_outcome W' t' (Some 0) (er_payload e)\<rparr>"
  let ?s = "lru_insert (EXEC_STATE M) s (pt_pid_tgid t) e"
  have reports: "reports_exec t cgid ppid comm cred caps path ino filename args (er_payload ev)"
    using exec_event_reports [OF assms(11,12,8,10,9,7) enter(1) e_def] by (simp add: ev_def)
  have pending: "lru_get (EXEC_STATE M) ?s (pt_pid_tgid t') = Some e"
    using exec_maps.exec_get(1) [OF maps] assms(6) by simp
  obtain s2 where leave: "handle_exit_exec_common M ?s W' h' t' (Some 0) =
      (s2, if lru_get (PROCESS_EVENT_DEDUP M) ?s (exec_identity (er_payload ev)) = None then [ev] else [], Inr 0)"
    "lru_get (EXEC_STATE M) s2 (pt_pid_tgid t') = None"
    "lru_get (PROCESS_EVENT_DEDUP M) s2 (exec_identity (er_payload ev)) \<noteq> None"
    using exec_maps.exec_exits [OF maps pending assms(5) ev_def] by blast
  have "proc_run M cgroup_exists s [EnterCall W h t U (Some fptr, Some aptr), ExitCall W' h' t' (Some 0)]
      = (s2, if lru_get (PROCESS_EVENT_DEDUP M) s (exec_identity (er_payload ev)) = None then [ev] else [])"
    using enter(2) leave(1) exec_maps.exec_get(2) [OF maps]
    by (simp add: execve_tracepoint_def try_execve_tracepoint_def exit_execve_tracepoint_def
        try_exit_execve_tracepoint_def e_def [symmetric])
  then show ?thesis
    using reports leave(2,3) assms(6) by (intro exI [of _ ev] exI [of _ s2]) simp
qed

text \<open>A shell without a readable executable starts \<open>/etc/hosts\<close>, the file of the sample tree, with a secret.\<close>

definition sample_world :: World where
  "sample_world = (fk_world sample_fs_kernel)\<lparr>w_fs := padded_fs\<rparr>"

definition sample_shell :: ProcTask where
  "sample_shell = \<lparr>pt_cgroup_id = Some 7, pt_pid_tgid = 42, pt_parent = Some (Some 1, Some (replicate 16 CHR ''s'')),
     pt_cred = Some \<lparr>cr_uid = 0, cr_gid = 0, cr_cap_effective = Some 0\<rparr>, pt_exe = None, pt_task = None,
     pt_parent_task = None, pt_now = 0\<rparr>"

definition sample_started :: ProcTask where
  "sample_started = sample_shell\<lparr>pt_exe := Some \<lparr>xf_path = Some (Some (Some (Some 3, Some 5))), xf_ino = Some (Some 9)\<rparr>\<rparr>"

lemma padded_located: "path_located padded_fs (Some (Some (Some 3, Some 5))) ''/etc/hosts''"
proof -
  have n3: "dentry_name padded_fs 3 = Some ''hosts''" and n2: "dentry_name padded_fs 2 = Some ''etc''"
    by (simp_all add: dentry_name_def padded_fs_def sample_fs_def MAX_NAME_def)
  have "located padded_fs 1 7 7 1 [] 1" by (rule located.root)
  then have "located padded_fs 2 7 7 1 ([] @ [''etc'']) (Suc 1)"
    by (rule located.child [rotated 6]) (simp_all add: n2, simp_all add: padded_fs_def sample_fs_def)
  then have "located padded_fs 3 7 7 1 (([] @ [''etc'']) @ [''hosts'']) (Suc (Suc 1))"
    by (rule located.child [rotated 6]) (simp_all add: n3, simp_all add: padded_fs_def sample_fs_def)
  then have "located padded_fs 3 7 7 1 [''etc'', ''hosts''] (Suc (Suc 1))" by simp
  moreover have "k_d_inode padded_fs = Some" "k_metadata padded_fs i = Some sample_metadata"
    "k_mount padded_fs v = 7" "k_mnt_parent padded_fs v = Some 7" "k_vfs_root padded_fs v = Some 1" for i v
    by (simp_all add: padded_fs_def sample_fs_def fun_eq_iff)
  ultimately show ?thesis
    unfolding path_located_def
    by (intro exI [of _ 3] exI [of _ 5] exI [of _ sample_metadata] exI [of _ 7] exI [of _ 1]
        exI [of _ "[''etc'', ''hosts'']"] exI [of _ "Suc (Suc 1)"])
      (simp add: comps_size_def MAX_PATH_DEPTH_def MAX_PATH_LEN_def)
qed

lemma sample_reads: "exact_reads sample_world"
  unfolding exact_reads_def
proof
  show "exact (k_read (w_fs sample_world))" using padded_exact by (simp add: sample_world_def)
  show "exact (w_user sample_world)" by (simp add: exact_def sample_world_def sample_fs_kernel_def)
qed

lemma sample_exec:
  "watched_exec sample_world (\<lambda>c. c = 7) sample_shell 7 1 (replicate 16 CHR ''s'')
     \<lparr>cr_uid = 0, cr_gid = 0, cr_cap_effective = Some 0\<rparr> 0"
  "proc_reads sample_world sample_shell" "exe_located sample_world sample_started ''/etc/hosts'' 9"
proof -
  show "watched_exec sample_world (\<lambda>c. c = 7) sample_shell 7 1 (replicate 16 CHR ''s'')
      \<lparr>cr_uid = 0, cr_gid = 0, cr_cap_effective = Some 0\<rparr> 0"
    by (simp add: watched_exec_def sample_shell_def resolve_exe_def)
  show "proc_reads sample_world sample_shell"
    using sample_reads by (simp add: proc_reads_def sample_shell_def comm_read_def)
  have "w_fs sample_world = padded_fs" by (simp add: sample_world_def)
  then show "exe_located sample_world sample_started ''/etc/hosts'' 9"
    unfolding exe_located_def using padded_located
    by (intro exI [of _ "\<lparr>xf_path = Some (Some (Some (Some 3, Some 5))), xf_ino = Some (Some 9)\<rparr>"]
        exI [of _ "Some (Some (Some 3, Some 5))"]) (simp add: sample_started_def)
qed

theorem exec_reported_once_witness:
  "\<exists>ev s2. proc_run lru_proc (\<lambda>c. c = 7) empty_proc
      [EnterCall sample_world fresh_heap sample_shell sample_user_mem (Some 1, Some 64),
       ExitCall sample_world fresh_heap sample_started (Some 0)] = (s2, [ev])
    \<and> path_bytes (pp_path (er_payload ev)) = ''/etc/hosts'' \<and> unat (pp_argc (er_payload ev)) = 4"
proof -
  have a: "args_at sample_user_mem 64 0 sample_args" "um_str sample_user_mem 1 = Some ''qpdf''" "nul \<notin> set ''qpdf''"
    by (simp_all add: sample_user_mem_def sample_args_def nul_def)
  have h: "heap_ready fresh_heap" by (simp add: heap_ready_def fresh_heap_def)
  have n: "min MAX_ARGS (length sample_args) = 4" by (simp add: sample_args_def MAX_ARGS_def)
  have p: "pt_pid_tgid sample_started = pt_pid_tgid sample_shell" by (simp add: sample_started_def)
  have none: "lru_get (PROCESS_EVENT_DEDUP lru_proc) empty_proc i = None" for i
    by (simp add: lru_proc_def lru_ops_def empty_proc_def)
  show ?thesis
    using exec_reported_once [where s = empty_proc, OF lru_proc_laws sample_exec(1,2) h h p sample_exec(3) a(2,3) _ a(1)] n none
    by (simp add: reports_exec_def del: proc_run.simps) blast
qed

theorem process_events_in_bounds_witness:
  "list_all process_event_fits (snd (proc_run lru_proc (\<lambda>c. c = 7) empty_proc
      [EnterCall sample_world fresh_heap sample_shell sample_user_mem (Some 1, Some 64),
       ExitCall sample_world fresh_heap sample_started (Some 0)]))"
proof -
  have "lru_get (EXEC_STATE lru_proc) empty_proc = Map.empty" by (simp add: lru_proc_def lru_ops_def empty_proc_def)
  then show ?thesis
    using process_events_in_bounds [where s = empty_proc, OF lru_proc_laws] sample_exec(2) sample_reads by (simp del: proc_run.simps)
qed

end
