(* ===== verification/EventLines.thy ===== *)
theory EventLines
  imports Events
begin

text \<open>
  The lines that \<open>simple_event_reader\<close> in \<open>ebpf-mon/src/manager.rs\<close> prints for the events it counts. The
  \<open>Debug\<close> output of a string is the parameter \<open>dbg\<close>; that of a \<open>PathPattern\<close> is its name.
\<close>

definition show_bool :: "bool \<Rightarrow> string" where
  "show_bool b = (if b then ''true'' else ''false'')"

definition network_line :: "NetworkEvent \<Rightarrow> u32 \<Rightarrow> string" where
  "network_line e freq =
     (let direction = (if ne_direction e = Egress then ''OUTGOING'' else ''INCOMING'');
          flags = (if ne_protocol e = 6 then ne_doff_flags e else 0)
      in direction @ '' NETWORK: '' @ ne_comm e @ '' '' @ format_ip (ne_src_ip e) @ '':''
         @ show_nat (unat (ne_src_port e)) @ '' -> '' @ format_ip (ne_dst_ip e) @ '':''
         @ show_nat (unat (ne_dst_port e)) @ '' (proto: '' @ show_nat (unat (ne_protocol e)) @ '', flags: ''
         @ show_nat (unat flags) @ '') [freq: '' @ show_nat (unat freq) @ '']'')"

definition fs_line :: "(string \<Rightarrow> string) \<Rightarrow> FsEvent \<Rightarrow> u32 \<Rightarrow> string" where
  "fs_line dbg e freq =
     (let operation = (if fe_r_w e = 1 then ''WRITE'' else ''READ'');
          sym_path = (if fe_sym_path e = '''' then '''' else '', sym_path: '' @ fe_sym_path e);
          path_pattern = (if fe_path_pattern e = Regular then '''' else '', pattern: '' @ variant_name (fe_path_pattern e));
          proc_access = (if fe_path_pattern e \<noteq> Regular
                         then if fe_is_cross_process e = 1 then '', CROSS_PROCESS'' else '', self''
                         else '''');
          sensitive = (if fe_is_sensitive e = 1 then '', SENSITIVE'' else '''')
      in ''FILE '' @ operation @ '': '' @ dbg (fe_path e) @ '' (owner_uid: '' @ show_nat (unat (fe_owner_uid e))
         @ '', inode: '' @ show_nat (unat (fe_inode e)) @ '', is_symlink: '' @ show_bool (fe_is_symlink e = 1)
         @ sym_path @ path_pattern @ proc_access @ sensitive @ '') [freq: '' @ show_nat (unat freq) @ '']'')"

definition process_line :: "(string \<Rightarrow> string) \<Rightarrow> ProcessEvent \<Rightarrow> u32 \<Rightarrow> string" where
  "process_line dbg e freq =
     (let ps_type = (if pe_ps_type e = Execve then ''execve'' else ''fork'')
      in ''PROCESS '' @ ps_type @ '': '' @ dbg (pe_exec_path e) @ '', inode: '' @ show_nat (unat (pe_inode e))
         @ '' (pid: '' @ show_nat (unat (pe_pid e)) @ '') ppid: '' @ show_int (sint (pe_ppid e))
         @ '', argv: ['' @ join '', '' (map dbg (pe_argv e)) @ ''], argc: '' @ show_nat (unat (pe_argc e))
         @ '' retval: '' @ translate_retval (pe_retval e) @ '', gid: '' @ show_nat (unat (pe_gid e))
         @ '', parent_comm: '' @ pe_parent_comm e @ '', is_root: '' @ show_bool (pe_is_root e)
         @ '' ,caps: '' @ show_caps (pe_capabilities e) @ '', [freq: '' @ show_nat (unat freq) @ '']'')"

text \<open>A line is printed if the raw event has the size of its payload.\<close>

definition event_line :: "(string \<Rightarrow> string) \<Rightarrow> Layouts \<Rightarrow> EncodedEvent \<Rightarrow> Event \<Rightarrow> u32 \<Rightarrow> string list" where
  "event_line dbg L raw event freq =
     (case event of
        NetworkEv e \<Rightarrow> (case as_event_with_data (ly_network L) raw of Inl _ \<Rightarrow> [] | Inr _ \<Rightarrow> [network_line e freq])
      | FsEv e \<Rightarrow> (case as_event_with_data (ly_fs L) raw of Inl _ \<Rightarrow> [] | Inr _ \<Rightarrow> [fs_line dbg e freq])
      | ProcessEv e \<Rightarrow> (case as_event_with_data (ly_process L) raw of Inl _ \<Rightarrow> [] | Inr _ \<Rightarrow> [process_line dbg e freq]))"

text \<open>The count of the entry that was found or made.\<close>

definition count_after :: "(Event \<Rightarrow> Event \<Rightarrow> bool) \<Rightarrow> EventMap \<Rightarrow> Event \<Rightarrow> u32" where
  "count_after reach m e =
     (case find_idx (\<lambda>(k, n). finds_entry reach k e) m of Some i \<Rightarrow> snd (m ! i) + 1 | None \<Rightarrow> 1)"

fun read_lines ::
    "(string \<Rightarrow> string) \<Rightarrow> Layouts \<Rightarrow> (Event \<Rightarrow> Event \<Rightarrow> bool) \<Rightarrow> EventMap \<Rightarrow> EncodedEvent list \<Rightarrow> EventMap \<times> string list" where
  "read_lines dbg L reach m [] = (m, [])"
| "read_lines dbg L reach m (raw # raws) =
     (case transform_event L raw of
        Inl err \<Rightarrow> read_lines dbg L reach m raws
      | Inr event \<Rightarrow>
          (case read_lines dbg L reach (count_event reach m event) raws of
             (m', lines) \<Rightarrow> (m', event_line dbg L raw event (count_after reach m event) @ lines)))"

section \<open>What is printed\<close>

lemma read_lines_counts: "fst (read_lines dbg L reach m raws) = simple_event_reader L reach m raws"
  by (induction raws arbitrary: m)
    (simp_all add: simple_event_reader_def read_event_def case_prod_beta split: sum.split)

text \<open>The second look at the size of an event never suppresses a line.\<close>

lemma event_line_printed:
  "transform_event L raw = Inr event \<Longrightarrow>
     event_line dbg L raw event freq =
       [case event of NetworkEv e \<Rightarrow> network_line e freq | FsEv e \<Rightarrow> fs_line dbg e freq | ProcessEv e \<Rightarrow> process_line dbg e freq]"
  by (auto simp: transform_event_def event_line_def as_event_with_data_def event_info_def Let_def
      split: sum.splits EventType.splits if_splits)

lemma count_after_fs:
  assumes "counts_of (FsEv f) m = (if c = 0 then [] else [of_nat c])"
  shows "count_after reach m (FsEv f) = of_nat (Suc c)"
proof (cases "find_idx (\<lambda>(k, n). finds_entry reach k (FsEv f)) m")
  case None
  then have "filter (\<lambda>(k, n). event_eq k (FsEv f)) m = []"
    by (auto simp: find_idx_None filter_empty_conv finds_fs_entry)
  then have "c = 0" using assms by (auto simp: counts_of_def split: if_splits)
  then show ?thesis using None by (simp add: count_after_def)
next
  case (Some i)
  then have i: "i < length m" "event_eq (fst (m ! i)) (FsEv f)"
    using find_idx_Some [of "\<lambda>(k, n). finds_entry reach k (FsEv f)" m i] by (auto simp: case_prod_beta finds_fs_entry)
  then have "m ! i \<in> set (filter (\<lambda>(k, n). event_eq k (FsEv f)) m)" by (simp add: case_prod_beta)
  then have "snd (m ! i) \<in> set (counts_of (FsEv f) m)" unfolding counts_of_def by simp
  then have "snd (m ! i) = of_nat c \<and> c \<noteq> 0" using assms by (auto split: if_splits)
  then show ?thesis using Some by (simp add: count_after_def add.commute)
qed

text \<open>
  The line of a file event shows how often the event has occurred up to it: after any stream of raw events, the next
  file event prints one line with one more than the number of its earlier occurrences.
\<close>

lemma fs_line_numbered:
  assumes "transform_event L raw = Inr (FsEv f)"
  shows "snd (read_lines dbg L reach (simple_event_reader L reach [] raws) [raw]) =
    [fs_line dbg f (of_nat (Suc (length (filter (\<lambda>e. event_eq e (FsEv f)) (decoded L raws)))))]"
proof -
  have "count_after reach (simple_event_reader L reach [] raws) (FsEv f)
      = of_nat (Suc (length (filter (\<lambda>e. event_eq e (FsEv f)) (decoded L raws))))"
    using counted_fs_events by (intro count_after_fs) (simp add: Let_def)
  then show ?thesis using assms event_line_printed [OF assms] by simp
qed

end
