(* ===== verification/CrossFormat.thy ===== *)
theory CrossFormat
  imports EndToEnd
begin

text \<open>
  The comparison of the two enforcement formats in \<open>ebpf-mon-common/examples/cross_format.rs\<close>: a model of
  the BPF maps in user space (\<open>BpfImage\<close>), a reading of the AppArmor profile, and the decisions of both on
  probes. The lemmas check the model against the loader and the hooks, and the two formats against each
  other.

  Printing is left out. \<open>parse_apparmor(\<dots>).expect(\<dots>)\<close> panics when the
  profile does not parse: \<open>None\<close>.
\<close>

section \<open>The example\<close>

definition compile ::
    "nat list \<Rightarrow> nat list \<Rightarrow> nat list \<Rightarrow> BehaviorRule list \<Rightarrow> BehaviorRule list" where
  "compile k1 kg k2 raw = (let (optimized, conflicts) = run_pipeline k1 kg k2 raw in link_cross_category optimized)"

definition semantic_set :: "BehaviorRule list \<Rightarrow> (Object \<times> Action \<times> Verdict) set" where
  "semantic_set rules = set (map (\<lambda>r. (r_object r, r_action r, r_verdict r)) rules)"

datatype Probe =
  ProbeFile string | ProbeFileWrite string | ProbeExec string | ProbeNet u32 u32 u8

definition classify_probe :: "string \<Rightarrow> PathPattern option" where
  "classify_probe path =
     (case strip_prefix ''/proc/'' path of
        None \<Rightarrow> None
      | Some rem \<Rightarrow>
          (case find_idx (\<lambda>c. c = CHR ''/'') rem of
             None \<Rightarrow> None
           | Some slash \<Rightarrow>
               (let rest = drop (slash + 1) rem
                in Some (if rest = ''status'' then ProcPidStatus
                         else if rest = ''environ'' then ProcPidEnviron
                         else if rest = ''cmdline'' then ProcPidCmdline
                         else ProcPidOther))))"

fun file_pattern_matches :: "FilePattern \<Rightarrow> string \<Rightarrow> bool" where
  "file_pattern_matches (ExactPath p) path = (p = path)"
| "file_pattern_matches (Prefix pre) path = prefix pre path"
| "file_pattern_matches (Classified c) path = (classify_probe path = Some c)"

definition matches_file :: "BehaviorRule \<Rightarrow> string \<Rightarrow> bool" where
  "matches_file r path =
     (case r_object r of File f \<Rightarrow> file_pattern_matches (fo_pattern f) path | _ \<Rightarrow> False)"

definition ir_opens :: "BehaviorRule list \<Rightarrow> string \<Rightarrow> bool" where
  "ir_opens rules path = list_ex (\<lambda>r. r_verdict r = Allow \<and> matches_file r path) rules"

definition map_or_true :: "'a option \<Rightarrow> 'a \<Rightarrow> bool" where
  "map_or_true x v = (case x of None \<Rightarrow> True | Some w \<Rightarrow> w = v)"

definition rules_decide :: "BehaviorRule list \<Rightarrow> Probe \<Rightarrow> bool" where
  "rules_decide rules p =
     (case p of
        ProbeFile path \<Rightarrow> ir_opens rules path
      | ProbeFileWrite path \<Rightarrow>
          list_ex (\<lambda>r. r_verdict r = Allow \<and> r_action r = FileWrite \<and> matches_file r path) rules
      | ProbeExec path \<Rightarrow>
          list_ex (\<lambda>r. r_verdict r = Allow \<and> r_action r = ProcExec
            \<and> (case r_object r of Process pr \<Rightarrow> po_binary pr = Path path | _ \<Rightarrow> False)) rules
      | ProbeNet ipv port proto \<Rightarrow>
          list_ex (\<lambda>r. r_verdict r = Allow \<and> r_action r = NetConnect
            \<and> (case r_object r of
                 Network n \<Rightarrow> map_or_true (no_dst_ip n) ipv \<and> map_or_true (no_dst_port n) port
                   \<and> map_or_true (no_protocol n) proto
               | _ \<Rightarrow> False)) rules)"

definition aa_decides :: "string \<Rightarrow> Probe \<Rightarrow> bool option" where
  "aa_decides profile_text p = map_option (\<lambda>rules. rules_decide rules p) (parse_apparmor profile_text)"

record BpfImage =
  bi_exact :: "string \<Rightarrow> u8 option"
  bi_patterns :: "PathPattern set"
  bi_prefixes :: "string list"
  bi_exec :: "string set"
  bi_net :: "(u32 \<times> u32) set"

definition empty_image :: BpfImage where
  "empty_image = \<lparr>bi_exact = Map.empty, bi_patterns = {}, bi_prefixes = [], bi_exec = {}, bi_net = {}\<rparr>"

definition lower_file :: "BpfImage \<Rightarrow> Action \<Rightarrow> FilePattern \<Rightarrow> BpfImage" where
  "lower_file img action pattern =
     (let bit = (if action = FileWrite then ACCESS_WRITE else ACCESS_READ) in
      case pattern of
        ExactPath p \<Rightarrow>
          img\<lparr>bi_exact := (bi_exact img)(p \<mapsto> (case bi_exact img p of Some m \<Rightarrow> m | None \<Rightarrow> 0) OR bit)\<rparr>
      | Classified c \<Rightarrow> img\<lparr>bi_patterns := insert c (bi_patterns img)\<rparr>
      | Prefix pre \<Rightarrow> img\<lparr>bi_prefixes := bi_prefixes img @ [pre]\<rparr>)"

definition lower_bpf_rule :: "BpfImage \<Rightarrow> BehaviorRule \<Rightarrow> BpfImage" where
  "lower_bpf_rule img r =
     (if r_verdict r \<noteq> Allow then img
      else case (r_object r, r_action r) of
        (File f, FileOpen) \<Rightarrow> lower_file img (r_action r) (fo_pattern f)
      | (File f, FileRead) \<Rightarrow> lower_file img (r_action r) (fo_pattern f)
      | (File f, FileWrite) \<Rightarrow> lower_file img (r_action r) (fo_pattern f)
      | (Process p, ProcExec) \<Rightarrow>
          (case po_binary p of Path b \<Rightarrow> img\<lparr>bi_exec := insert b (bi_exec img)\<rparr> | Comm _ \<Rightarrow> img)
      | (Network n, NetConnect) \<Rightarrow>
          (case no_dst_ip n of
             Some ipv \<Rightarrow>
               img\<lparr>bi_net := insert (ipv, case no_dst_port n of Some port \<Rightarrow> port | None \<Rightarrow> 0) (bi_net img)\<rparr>
           | None \<Rightarrow> img)
      | _ \<Rightarrow> img)"

definition lower_bpf :: "BehaviorRule list \<Rightarrow> BpfImage" where
  "lower_bpf rules = foldl lower_bpf_rule empty_image rules"

definition bpf_access :: "BpfImage \<Rightarrow> string \<Rightarrow> u8 \<Rightarrow> bool" where
  "bpf_access img path access =
     (case bi_exact img path of
        Some m \<Rightarrow> m AND access = access
      | None \<Rightarrow>
          if (case classify_probe path of Some c \<Rightarrow> c \<in> bi_patterns img | None \<Rightarrow> False) then True
          else list_ex (\<lambda>pre. prefix pre path) (bi_prefixes img))"

definition bpf_decides :: "BpfImage \<Rightarrow> Probe \<Rightarrow> bool" where
  "bpf_decides img p =
     (case p of
        ProbeFile path \<Rightarrow> bpf_access img path ACCESS_READ
      | ProbeFileWrite path \<Rightarrow> bpf_access img path ACCESS_WRITE
      | ProbeExec path \<Rightarrow> path \<in> bi_exec img
      | ProbeNet ipv port proto \<Rightarrow> (ipv, port) \<in> bi_net img \<or> (ipv, 0) \<in> bi_net img)"

definition mode_str :: "u8 \<Rightarrow> string" where
  "mode_str m =
     (if m AND ACCESS_READ \<noteq> 0 \<and> m AND ACCESS_WRITE \<noteq> 0 then ''rw''
      else if m AND ACCESS_READ \<noteq> 0 then ''r''
      else if m AND ACCESS_WRITE \<noteq> 0 then ''w''
      else ''-'')"

definition any_peer_rule :: "BehaviorRule list" where
  "any_peer_rule =
     [\<lparr>r_id = 1, r_subject = \<lparr>sub_container = None, sub_binary = None, sub_uid = None\<rparr>,
       r_object = Network \<lparr>no_dst_ip = None, no_dst_port = Some 443, no_protocol = Some 6, no_direction = Some 1\<rparr>,
       r_action = NetConnect, r_verdict = Allow,
       r_metadata = \<lparr>source_module = Net, observation_count = 1, confidence = 0x3F800000, first_seen = 0,
         last_seen = 0\<rparr>\<rparr>]"

definition ip :: "u8 \<Rightarrow> u8 \<Rightarrow> u8 \<Rightarrow> u8 \<Rightarrow> u32" where
  "ip a b c d = ucast a OR push_bit 8 (ucast b) OR push_bit 16 (ucast c) OR push_bit 24 (ucast d)"


definition ip_str :: "u32 \<Rightarrow> string" where
  "ip_str v = show_nat (unat (ucast v :: u8)) @ ''.'' @ show_nat (unat (ucast (drop_bit 8 v) :: u8)) @ ''.''
     @ show_nat (unat (ucast (drop_bit 16 v) :: u8)) @ ''.'' @ show_nat (unat (ucast (drop_bit 24 v) :: u8))"

definition label :: "Probe \<Rightarrow> string" where
  "label p =
     (case p of
        ProbeFile path \<Rightarrow> ''open '' @ path
      | ProbeFileWrite path \<Rightarrow> ''write '' @ path
      | ProbeExec path \<Rightarrow> ''exec '' @ path
      | ProbeNet i port proto \<Rightarrow> ''connect '' @ ip_str i @ '':'' @ show_nat (unat port) @ ''/''
          @ (if proto = 6 then ''tcp'' else ''udp''))"

text \<open>The operations of the decision table, and its rows.\<close>

definition shared :: "Probe list" where
  "shared =
     [ProbeFile ''/app/config.yaml'', ProbeFileWrite ''/app/config.yaml'',
      ProbeFile ''/var/lib/app/cache/cache_99999999'', ProbeFile ''/var/lib/app/cache/deep/nested/x'',
      ProbeFile ''/proc/12345/status'', ProbeFile ''/proc/12345/environ'', ProbeFile ''/etc/shadow'',
      ProbeExec ''/usr/bin/python3'', ProbeExec ''/bin/sh'',
      ProbeNet (ip 93 184 216 34) 443 6, ProbeNet (ip 8 8 8 8) 443 6]"

definition decision_row :: "string \<Rightarrow> BpfImage \<Rightarrow> Probe \<Rightarrow> (string \<times> bool \<times> bool \<times> bool) option" where
  "decision_row aa_text bpf p =
     map_option (\<lambda>a. let b = bpf_decides bpf p; agree = (a = b) in (label p, a, b, agree)) (aa_decides aa_text p)"

section \<open>What the image holds\<close>

definition granted :: "BehaviorRule list \<Rightarrow> BehaviorRule list" where
  "granted rules = filter (\<lambda>r. r_verdict r = Allow) rules"

lemma rule_pattern_cases:
  "r_verdict r = Allow \<Longrightarrow> rule_pattern r = Some pat \<Longrightarrow> lower_bpf_rule img r = lower_file img (r_action r) pat"
  by (auto simp: lower_bpf_rule_def rule_pattern_def split: Object.splits if_splits)

text \<open>The three parts of the image that a rule may concern.\<close>

lemma lower_rule_other:
  "rule_pattern r = None \<Longrightarrow> bi_exact (lower_bpf_rule img r) = bi_exact img
     \<and> bi_patterns (lower_bpf_rule img r) = bi_patterns img \<and> bi_prefixes (lower_bpf_rule img r) = bi_prefixes img"
  by (auto simp: lower_bpf_rule_def rule_pattern_def split: Object.splits Action.splits BinaryRef.splits option.splits)

lemma lower_file_other:
  "bi_exec (lower_file img a pat) = bi_exec img" "bi_net (lower_file img a pat) = bi_net img"
  by (simp_all add: lower_file_def Let_def split: FilePattern.split)

definition exec_path :: "BehaviorRule \<Rightarrow> string option" where
  "exec_path r =
     (case r_object r of
        Process p \<Rightarrow> if r_action r = ProcExec then (case po_binary p of Path b \<Rightarrow> Some b | Comm _ \<Rightarrow> None) else None
      | _ \<Rightarrow> None)"

lemma lower_rule_exec:
  "bi_exec (lower_bpf_rule img r) = bi_exec img \<union> {b. r_verdict r = Allow \<and> exec_path r = Some b}"
  by (auto simp: lower_bpf_rule_def exec_path_def lower_file_other
      split: Object.splits Action.splits BinaryRef.splits option.splits)

lemma lower_rule_net:
  "bi_net (lower_bpf_rule img r) = bi_net img \<union> {d. r_verdict r = Allow \<and> connect_to r = Some d}"
  by (auto simp: lower_bpf_rule_def connect_to_def lower_file_other
      split: Object.splits Action.splits BinaryRef.splits option.splits)

lemma lower_bpf_snoc: "lower_bpf (rs @ [r]) = lower_bpf_rule (lower_bpf rs) r"
  by (simp add: lower_bpf_def)

lemma image_exec: "bi_exec (lower_bpf rules) = {b. \<exists>r \<in> set (granted rules). exec_path r = Some b}"
  by (induction rules rule: rev_induct)
    (auto simp: lower_bpf_snoc lower_rule_exec granted_def lower_bpf_def empty_image_def)

lemma image_net: "bi_net (lower_bpf rules) = {d. \<exists>r \<in> set (granted rules). connect_to r = Some d}"
  by (induction rules rule: rev_induct)
    (auto simp: lower_bpf_snoc lower_rule_net granted_def lower_bpf_def empty_image_def)

text \<open>The entries for files: the mask of a path, the classes, and the prefixes in the order of the rules.\<close>

definition exact_rules :: "BehaviorRule list \<Rightarrow> string \<Rightarrow> BehaviorRule list" where
  "exact_rules rules path = filter (\<lambda>r. rule_pattern r = Some (ExactPath path)) (granted rules)"

lemma lower_rule_file:
  assumes "r_verdict r = Allow" and "rule_pattern r = Some pat"
  shows "bi_exact (lower_bpf_rule img r) = (case pat of
      ExactPath p \<Rightarrow> (bi_exact img)(p \<mapsto> (case bi_exact img p of Some m \<Rightarrow> m | None \<Rightarrow> 0) OR access_bit (r_action r))
    | _ \<Rightarrow> bi_exact img)"
    "bi_patterns (lower_bpf_rule img r) = (case pat of Classified c \<Rightarrow> insert c (bi_patterns img) | _ \<Rightarrow> bi_patterns img)"
    "bi_prefixes (lower_bpf_rule img r) = (case pat of Prefix pre \<Rightarrow> bi_prefixes img @ [pre] | _ \<Rightarrow> bi_prefixes img)"
proof -
  have bit: "(if r_action r = FileWrite then ACCESS_WRITE else ACCESS_READ) = access_bit (r_action r)"
    by (simp add: access_bit_def split: Action.split)
  show "bi_exact (lower_bpf_rule img r) = (case pat of
      ExactPath p \<Rightarrow> (bi_exact img)(p \<mapsto> (case bi_exact img p of Some m \<Rightarrow> m | None \<Rightarrow> 0) OR access_bit (r_action r))
    | _ \<Rightarrow> bi_exact img)"
    "bi_patterns (lower_bpf_rule img r) = (case pat of Classified c \<Rightarrow> insert c (bi_patterns img) | _ \<Rightarrow> bi_patterns img)"
    "bi_prefixes (lower_bpf_rule img r) = (case pat of Prefix pre \<Rightarrow> bi_prefixes img @ [pre] | _ \<Rightarrow> bi_prefixes img)"
    unfolding rule_pattern_cases [OF assms] lower_file_def Let_def bit by (simp_all split: FilePattern.split)
qed

lemma granted_snoc: "granted (rs @ [r]) = granted rs @ (if r_verdict r = Allow then [r] else [])"
  by (simp add: granted_def)

lemma ungranted_rule: "r_verdict r \<noteq> Allow \<Longrightarrow> lower_bpf_rule img r = img"
  by (simp add: lower_bpf_rule_def)

lemma foldl_mask_granted:
  "\<forall>r \<in> set rs. r_verdict r = Allow \<Longrightarrow> foldl mask_step m (rs @ [r]) =
     (if r_verdict r = Allow then foldl mask_step m rs OR access_bit (r_action r) else 0)"
  by (simp add: mask_step_def)

lemma image_exact: "bi_exact (lower_bpf rules) path = mask_of None (exact_rules rules path)"
proof (induction rules rule: rev_induct)
  case Nil
  then show ?case by (simp add: lower_bpf_def empty_image_def exact_rules_def granted_def mask_of_def)
next
  case (snoc r rs)
  show ?case
  proof (cases "r_verdict r = Allow")
    case False
    then show ?thesis using snoc by (simp add: lower_bpf_snoc ungranted_rule exact_rules_def granted_snoc)
  next
    case True
    then show ?thesis
      using snoc lower_rule_other [of r] lower_rule_file(1) [OF True]
      by (cases "rule_pattern r")
        (auto simp: lower_bpf_snoc exact_rules_def granted_snoc mask_of_def mask_step_def split: FilePattern.split)
  qed
qed

lemma image_patterns: "bi_patterns (lower_bpf rules) = {c. \<exists>r \<in> set (granted rules). rule_class r = Some c}"
proof (induction rules rule: rev_induct)
  case Nil
  then show ?case by (simp add: lower_bpf_def empty_image_def granted_def)
next
  case (snoc r rs)
  show ?case
  proof (cases "r_verdict r = Allow")
    case False
    then show ?thesis using snoc by (simp add: lower_bpf_snoc ungranted_rule granted_snoc)
  next
    case True
    then show ?thesis
      using snoc lower_rule_other [of r] lower_rule_file(2) [OF True]
      by (cases "rule_pattern r") (auto simp: lower_bpf_snoc granted_snoc rule_class_def split: FilePattern.split)
  qed
qed

lemma image_prefixes: "bi_prefixes (lower_bpf rules) = List.map_filter rule_prefix (granted rules)"
proof (induction rules rule: rev_induct)
  case Nil
  then show ?case by (simp add: lower_bpf_def empty_image_def granted_def List.map_filter_simps)
next
  case (snoc r rs)
  have app: "List.map_filter f (xs @ ys) = List.map_filter f xs @ List.map_filter f ys"
    for f :: "BehaviorRule \<Rightarrow> string option" and xs ys
    by (simp add: List.map_filter_def)
  show ?case
  proof (cases "r_verdict r = Allow")
    case False
    then show ?thesis using snoc by (simp add: lower_bpf_snoc ungranted_rule granted_snoc)
  next
    case True
    then show ?thesis
      using snoc lower_rule_other [of r] lower_rule_file(3) [OF True]
      by (cases "rule_pattern r")
        (auto simp: lower_bpf_snoc granted_snoc rule_prefix_def app List.map_filter_simps split: FilePattern.split)
  qed
qed

section \<open>The image and the kernel\<close>

text \<open>
  What the image leaves out: paths are keys by their hashes, the categories of classes are filled up, the kernel's
  classifier knows more classes, and only 64 prefixes of at most 128 bytes are kept.
\<close>

definition hash_faithful :: "BehaviorRule list \<Rightarrow> string \<Rightarrow> bool" where
  "hash_faithful rules path =
     (\<forall>r \<in> set rules.
        (exact_hash r = Some (fnv1a_hash_bytes path) \<longrightarrow> rule_pattern r = Some (ExactPath path))
        \<and> (exec_hash r = Some (fnv1a_hash_bytes path) \<longrightarrow> exec_path r = Some path))"

definition classes_agree :: "BehaviorRule list \<Rightarrow> string \<Rightarrow> bool" where
  "classes_agree rules path =
     ((kernel_class path \<noteq> Regular \<and> class_verdict rules (kernel_class path) \<noteq> None)
      = (case classify_probe path of Some c \<Rightarrow> \<exists>r \<in> set rules. rule_class r = Some c | None \<Rightarrow> False))"

definition prefixes_kept :: "BehaviorRule list \<Rightarrow> bool" where
  "prefixes_kept rules =
     (let pres = List.map_filter rule_prefix rules
      in length pres \<le> 64 \<and> (\<forall>pre \<in> set pres. pre \<noteq> [] \<and> length pre \<le> PREFIX_MAX_LEN))"

lemma classes_agree_known:
  assumes "classify_probe path = (if kernel_class path = Regular then None else Some (kernel_class path))"
    and "has_sibling (\<lambda>d. list_ex (\<lambda>r. rule_class r = Some d) rules) (kernel_class path) \<Longrightarrow>
      \<exists>r \<in> set rules. rule_class r = Some (kernel_class path)"
  shows "classes_agree rules path"
  using assms
  by (auto simp: classes_agree_def class_verdict_def wanted_verdict_def filter_empty_conv split: if_splits)

lemma granted_allow_only: "allow_only rules \<Longrightarrow> granted rules = rules"
  by (simp add: granted_def allow_only_iff)

lemma allow_class_verdict:
  assumes "allow_only rules"
  shows "class_verdict rules c \<in> {None, Some 1}"
proof (cases "\<exists>r \<in> set rules. rule_class r = Some c")
  case True
  then show ?thesis
    using allowed_verdict [OF assms, of _ "\<lambda>r. rule_class r = Some c"] by (auto simp: class_verdict_def)
next
  case False
  then have "filter (\<lambda>r. rule_class r = Some c) rules = []" by (simp add: filter_empty_conv)
  then show ?thesis by (simp add: class_verdict_def wanted_verdict_def)
qed

lemma allow_prefix_verdict:
  assumes "allow_only rules" and "prefixes_kept rules"
  shows "prefix_verdict rules path =
    (if list_ex (\<lambda>pre. prefix pre path) (List.map_filter rule_prefix rules) then Some 1 else None)"
proof -
  have v: "verdict_to_u8 (r_verdict r) = 1" if "r \<in> set rules" for r
    using assms(1) that by (simp add: allow_only_iff verdict_to_u8_def)
  have pres: "List.map_filter (\<lambda>r. map_option (\<lambda>p. (take PREFIX_MAX_LEN p, verdict_to_u8 (r_verdict r))) (rule_prefix r)) rs
      = map (\<lambda>pre. (pre, 1)) (List.map_filter rule_prefix rs)"
    if "set rs \<subseteq> set rules" for rs
    using that
  proof (induction rs)
    case (Cons r rs)
    have "length pre \<le> PREFIX_MAX_LEN" if "rule_prefix r = Some pre" for pre
    proof -
      have "pre \<in> set (List.map_filter rule_prefix rules)"
        using that Cons.prems by (auto simp: List.map_filter_def intro!: image_eqI [of _ _ r])
      then show ?thesis using assms(2) by (auto simp: prefixes_kept_def Let_def)
    qed
    then show ?case using Cons v by (auto simp: List.map_filter_simps split: option.split)
  qed (simp add: List.map_filter_simps)
  let ?ps = "List.map_filter rule_prefix rules"
  have "kept_prefixes rules = map (\<lambda>pre. (pre, 1)) ?ps"
    using assms(2) by (simp add: kept_prefixes_def pres prefixes_kept_def Let_def)
  moreover have "find (\<lambda>(pre, v). pre \<noteq> [] \<and> prefix pre path) (map (\<lambda>pre. (pre, 1 :: u8)) ps)
      = map_option (\<lambda>pre. (pre, 1)) (find (\<lambda>pre. prefix pre path) ps)" if "\<forall>pre \<in> set ps. pre \<noteq> []" for ps
    using that by (induction ps) auto
  moreover have "\<forall>pre \<in> set ?ps. pre \<noteq> []" using assms(2) by (simp add: prefixes_kept_def Let_def)
  moreover have "map_option (\<lambda>pre. 1 :: u8) (find P ps) = (if list_ex P ps then Some 1 else None)" for P :: "string \<Rightarrow> bool" and ps
    by (induction ps) auto
  ultimately show ?thesis by (simp add: prefix_verdict_def option.map_comp comp_def)
qed

lemma image_decides_file:
  assumes "allow_only rules" and "hash_faithful rules path" and "classes_agree rules path" and "prefixes_kept rules"
  shows "file_decision rules path (kernel_class path) req = bpf_access (lower_bpf rules) path req"
proof -
  have g: "granted rules = rules" using assms(1) by (rule granted_allow_only)
  have exact: "filter (\<lambda>r. exact_hash r = Some (fnv1a_hash_bytes path)) rules = exact_rules rules path"
    unfolding exact_rules_def g
    using assms(2) by (intro filter_cong refl) (auto simp: hash_faithful_def exact_hash_def)
  show ?thesis
  proof (cases "exact_rules rules path")
    case Nil
    have img: "bi_exact (lower_bpf rules) path = None" by (simp add: image_exact Nil mask_of_def)
    have classes: "(case classify_probe path of Some c \<Rightarrow> c \<in> bi_patterns (lower_bpf rules) | None \<Rightarrow> False)
        = (kernel_class path \<noteq> Regular \<and> class_verdict rules (kernel_class path) \<noteq> None)"
      using assms(3) by (auto simp: classes_agree_def image_patterns g split: option.splits)
    show ?thesis
      unfolding file_decision_def bpf_access_def exact img Nil classes image_prefixes g
      using allow_class_verdict [OF assms(1), of "kernel_class path"] allow_prefix_verdict [OF assms(1,4), of path]
      by (auto simp: mask_of_def split: option.splits)
  next
    case (Cons r rs)
    then have "r \<in> set (filter (\<lambda>r. rule_pattern r = Some (ExactPath path)) rules)"
      by (metis exact_rules_def g list.set_intros(1))
    from allowed_mask [OF assms(1) this]
    obtain m where "mask_of None (exact_rules rules path) = Some m" "m \<noteq> 0"
      by (auto simp: exact_rules_def g)
    then show ?thesis
      unfolding file_decision_def bpf_access_def exact image_exact by simp
  qed
qed

lemma image_decides_exec:
  assumes "allow_only rules" and "hash_faithful rules path"
  shows "exec_decision rules path \<longleftrightarrow> path \<in> bi_exec (lower_bpf rules)"
proof -
  have h: "exec_hash r = Some (fnv1a_hash_bytes path) \<longleftrightarrow> exec_path r = Some path" if "r \<in> set rules" for r
    using assms(2) that
    by (auto simp: hash_faithful_def exec_hash_def exec_path_def split: Object.splits BinaryRef.splits if_splits)
  show ?thesis
  proof (cases "\<exists>r \<in> set rules. exec_path r = Some path")
    case True
    then show ?thesis
      using exec_allowed [OF assms(1)] h by (auto simp: image_exec granted_allow_only [OF assms(1)])
  next
    case False
    then have "filter (\<lambda>r. exec_hash r = Some (fnv1a_hash_bytes path)) rules = []"
      using h by (simp add: filter_empty_conv)
    then show ?thesis
      using False by (simp add: exec_decision_def wanted_verdict_def image_exec granted_allow_only [OF assms(1)])
  qed
qed

lemma image_decides_connect:
  assumes "allow_only rules"
  shows "connect_decision rules a port \<longleftrightarrow> bpf_decides (lower_bpf rules) (ProbeNet a port proto)"
proof -
  have v: "wanted_verdict None (filter (\<lambda>r. connect_to r = Some d) rules)
      = (if d \<in> bi_net (lower_bpf rules) then Some 1 else None)" for d
  proof (cases "\<exists>r \<in> set rules. connect_to r = Some d")
    case True
    then show ?thesis
      using allowed_verdict [OF assms, of _ "\<lambda>r. connect_to r = Some d"]
      by (auto simp: image_net granted_allow_only [OF assms])
  next
    case False
    then have "filter (\<lambda>r. connect_to r = Some d) rules = []" by (simp add: filter_empty_conv)
    then show ?thesis using False by (simp add: wanted_verdict_def image_net granted_allow_only [OF assms])
  qed
  show ?thesis by (simp add: connect_decision_def Let_def v bpf_decides_def)
qed

text \<open>
  The model of the maps that the comparison uses decides as the kernel does, within its limits. For a
  policy that only allows, loaded for a control group without earlier entries, the three hooks answer for a
  file, an executable and an IPv4 destination what the image answers, if no other path of the policy has the
  hash of the file's path, the image's classifier and the filled-up categories agree on it, and all prefixes
  of the policy are kept.
\<close>

theorem image_enforced:
  assumes "kernel_laws K" and "apply_rules K cgid False rules skb s = (s', Inr stats)"
    and "unbound cgid (tables K s)" and "ts_cgroup_id ts = Some cgid" and "resolves_to k h f path"
    and "allow_only rules" and "hash_faithful rules path" and "classes_agree rules path" and "prefixes_kept rules"
  shows "fst (enforce_file_open K s' k h ts f)
      = (if bpf_access (lower_bpf rules) path (requested_access f) then 0 else -1)
    \<and> fst (enforce_bprm_check K s' k h ts (Some f))
      = (if bpf_decides (lower_bpf rules) (ProbeExec path) then 0 else -1)
    \<and> fst (enforce_socket_connect K s' ts
        \<lparr>sa_family = Some AF_INET, sa_s_addr = Some a, sa_sin_port = Some raw_port\<rparr>)
      = (if bpf_decides (lower_bpf rules) (ProbeNet a (ucast (u16_from_be raw_port)) proto) then 0 else -1)"
proof -
  note loaded = load_effect [OF assms(1,2)]
  have "fst (enforce_file_open K s' k h ts f)
      = (if bpf_access (lower_bpf rules) path (requested_access f) then 0 else -1)"
    using file_open_loaded [OF loaded assms(3-5) refl refl refl refl] image_decides_file [OF assms(6-9)] by simp
  moreover have "fst (enforce_bprm_check K s' k h ts (Some f))
      = (if bpf_decides (lower_bpf rules) (ProbeExec path) then 0 else -1)"
    using bprm_check_loaded [OF loaded assms(3-5)] image_decides_exec [OF assms(6,7)] by (simp add: bpf_decides_def)
  moreover have "fst (enforce_socket_connect K s' ts
        \<lparr>sa_family = Some AF_INET, sa_s_addr = Some a, sa_sin_port = Some raw_port\<rparr>)
      = (if bpf_decides (lower_bpf rules) (ProbeNet a (ucast (u16_from_be raw_port)) proto) then 0 else -1)"
    using socket_connect_loaded [OF loaded assms(3,4) refl] image_decides_connect [OF assms(6)] by simp
  ultimately show ?thesis by simp
qed

lemma image_enforced_witness:
  "\<exists>s' stats. apply_rules hash_kernel 7 False hosts_policy True empty_maps = (s', Inr stats)
     \<and> fst (enforce_file_open hash_kernel s' sample_fs fresh_heap sample_task (hosts_file 0)) = 0
     \<and> bpf_access (lower_bpf hosts_policy) ''/etc/hosts'' (requested_access (hosts_file 0))"
proof -
  obtain s' stats where r: "apply_rules hash_kernel 7 False hosts_policy True empty_maps = (s', Inr stats)"
    using small_policy_loads [OF policy_sizes(1)] by blast
  have task: "ts_cgroup_id sample_task = Some 7" by (simp add: sample_task_def)
  have allow: "allow_only hosts_policy"
    by (simp add: allow_only_def hosts_policy_def sample_file_def granted_rule_def)
  have hash: "hash_faithful hosts_policy ''/etc/hosts''"
    by (simp add: hash_faithful_def hosts_policy_def sample_file_def granted_rule_def rule_pattern_def exec_hash_def)
  have "kernel_class ''/etc/hosts'' = Regular" "classify_probe ''/etc/hosts'' = None" by code_simp+
  then have classes: "classes_agree hosts_policy ''/etc/hosts''" by (simp add: classes_agree_def)
  have kept: "prefixes_kept hosts_policy"
    by (simp add: prefixes_kept_def hosts_policy_def sample_file_def granted_rule_def rule_prefix_def rule_pattern_def
        List.map_filter_simps)
  have open_read: "bpf_access (lower_bpf hosts_policy) ''/etc/hosts'' (requested_access (hosts_file 0))"
    by code_simp
  show ?thesis
    using r open_read image_enforced [OF hash_kernel_laws r empty_unbound task hosts_resolves allow hash classes kept]
    by auto
qed

text \<open>
  Outside of these limits the image is no model of the kernel: a rule for one class of \<open>/proc\<close> opens the
  others of its category, so the loaded policy allows a path that the image denies.
\<close>

lemma image_misses_categories:
  "file_decision [sample_file 1 (Classified ProcPidStatus) FileRead] ''/proc/12345/cmdline''
      (kernel_class ''/proc/12345/cmdline'') ACCESS_READ
   \<and> \<not> bpf_decides (lower_bpf [sample_file 1 (Classified ProcPidStatus) FileRead])
      (ProbeFile ''/proc/12345/cmdline'')"
  by code_simp

section \<open>The two formats\<close>

text \<open>
  The probes on which the formats can be compared. AppArmor's reading takes any rule that matches the path, and for a
  write any write rule; the image takes the tier that has an entry, and distinguishes reads from writes in
  the first tier only. For a connection the image ignores the protocol, drops rules without an address, and
  takes port 0 for any port.
\<close>

definition shared_probe :: "BehaviorRule list \<Rightarrow> Probe \<Rightarrow> bool" where
  "shared_probe rules p =
     (case p of
        ProbeFile path \<Rightarrow>
          exact_rules rules path = [] \<or> list_ex (\<lambda>r. r_action r \<noteq> FileWrite) (exact_rules rules path)
      | ProbeFileWrite path \<Rightarrow>
          (let hits = filter (\<lambda>r. matches_file r path) (granted rules) in
           if exact_rules rules path = [] then list_ex (\<lambda>r. r_action r = FileWrite) hits \<or> hits = []
           else list_ex (\<lambda>r. r_action r = FileWrite) (exact_rules rules path)
             \<or> \<not> list_ex (\<lambda>r. r_action r = FileWrite) hits)
      | ProbeExec path \<Rightarrow> True
      | ProbeNet ipv port proto \<Rightarrow>
          list_all (\<lambda>r. case r_object r of
              Network n \<Rightarrow> no_dst_ip n \<noteq> None \<and> no_dst_port n \<noteq> Some 0
                \<and> (no_dst_ip n = Some ipv \<longrightarrow> no_protocol n = Some proto)
            | _ \<Rightarrow> True) (granted rules))"

text \<open>The rules are read by their contents only.\<close>

fun accepts :: "Probe \<Rightarrow> Content \<Rightarrow> bool" where
  "accepts (ProbeFile path) (ob, a, v) =
     (v = Allow \<and> (case ob of File f \<Rightarrow> file_pattern_matches (fo_pattern f) path | _ \<Rightarrow> False))"
| "accepts (ProbeFileWrite path) (ob, a, v) =
     (v = Allow \<and> a = FileWrite \<and> (case ob of File f \<Rightarrow> file_pattern_matches (fo_pattern f) path | _ \<Rightarrow> False))"
| "accepts (ProbeExec path) (ob, a, v) =
     (v = Allow \<and> a = ProcExec \<and> (case ob of Process pr \<Rightarrow> po_binary pr = Path path | _ \<Rightarrow> False))"
| "accepts (ProbeNet ipv port proto) (ob, a, v) =
     (v = Allow \<and> a = NetConnect
      \<and> (case ob of
           Network n \<Rightarrow> map_or_true (no_dst_ip n) ipv \<and> map_or_true (no_dst_port n) port \<and> map_or_true (no_protocol n) proto
         | _ \<Rightarrow> False))"

lemma rules_decide_accepts: "rules_decide rules p \<longleftrightarrow> (\<exists>c \<in> content ` set rules. accepts p c)"
  by (cases p) (auto simp: rules_decide_def ir_opens_def matches_file_def content_def list_ex_iff)

lemma reparsed_decides:
  assumes "list_all reparsable rules" and "ascii name" and "newline \<notin> set name"
  shows "aa_decides (fst (lower_to_apparmor dbg rules name)) p = Some (rules_decide rules p)"
proof -
  obtain out where out: "parse_apparmor (fst (lower_to_apparmor dbg rules name)) = Some out"
    "set (map content out) = set (map content rules)"
    using profile_reparsed [OF assms] by blast
  then have "content ` set out = content ` set rules" by simp
  then have "rules_decide out p = rules_decide rules p" by (simp only: rules_decide_accepts)
  then show ?thesis using out(1) by (simp add: aa_decides_def)
qed

text \<open>The tiers of the image for rules that a profile can carry.\<close>

lemma reparsable_pattern:
  assumes "reparsable r"
  shows "matches_file r path \<longleftrightarrow> (\<exists>pat. rule_pattern r = Some pat \<and> file_pattern_matches pat path)"
  using assms by (auto simp: matches_file_def rule_pattern_def reparsable_def split: Object.splits)

lemma image_access:
  assumes "list_all reparsable rules"
  shows "bpf_access (lower_bpf rules) path req =
    (if exact_rules rules path = [] then list_ex (\<lambda>r. matches_file r path) (granted rules)
     else foldl (\<lambda>m r. m OR access_bit (r_action r)) 0 (exact_rules rules path) AND req = req)"
proof (cases "exact_rules rules path = []")
  case True
  have "matches_file r path \<longleftrightarrow> (\<exists>c. classify_probe path = Some c \<and> rule_class r = Some c)
      \<or> (\<exists>pre. rule_prefix r = Some pre \<and> prefix pre path)" if "r \<in> set (granted rules)" for r
  proof -
    have "reparsable r" using assms that by (simp add: granted_def list_all_iff)
    moreover have "rule_pattern r \<noteq> Some (ExactPath path)"
      using True that by (simp add: exact_rules_def filter_empty_conv)
    ultimately show ?thesis
      using reparsable_pattern [of r path]
      by (cases "rule_pattern r") (auto simp: rule_class_def rule_prefix_def split: FilePattern.splits)
  qed
  then have "list_ex (\<lambda>r. matches_file r path) (granted rules) \<longleftrightarrow>
      (\<exists>c. classify_probe path = Some c \<and> (\<exists>r \<in> set (granted rules). rule_class r = Some c))
      \<or> (\<exists>r \<in> set (granted rules). \<exists>pre. rule_prefix r = Some pre \<and> prefix pre path)"
    unfolding list_ex_iff by blast
  moreover have "list_ex (\<lambda>pre. prefix pre path) (List.map_filter rule_prefix rs)
      \<longleftrightarrow> (\<exists>r \<in> set rs. \<exists>pre. rule_prefix r = Some pre \<and> prefix pre path)" for rs
    by (induction rs) (auto simp: List.map_filter_simps split: option.splits)
  ultimately show ?thesis
    using True
    by (simp add: bpf_access_def image_exact mask_of_def image_patterns image_prefixes split: option.split)
next
  case False
  have "allow_only (exact_rules rules path)" by (simp add: allow_only_iff exact_rules_def granted_def)
  then show ?thesis
    using False by (simp add: bpf_access_def image_exact mask_of_def foldl_mask)
qed

lemma exact_rules_hit:
  "r \<in> set (exact_rules rules path) \<Longrightarrow> r \<in> set (granted rules) \<and> rule_pattern r = Some (ExactPath path)"
  by (simp add: exact_rules_def)

lemma exact_rules_match: "r \<in> set (exact_rules rules path) \<Longrightarrow> matches_file r path"
  by (auto simp: exact_rules_def rule_pattern_def matches_file_def split: Object.splits if_splits)

lemma foldl_or_only:
  "foldl (\<lambda>m r. m OR access_bit (r_action r)) m rs AND access_bit b = access_bit b \<longleftrightarrow>
    m AND access_bit b = access_bit b \<or> list_ex (\<lambda>r. access_bit (r_action r) = access_bit b) rs"
  for m :: u8
proof (induction rs arbitrary: m)
  case (Cons r rs)
  have "(m OR access_bit (r_action r)) AND access_bit b = access_bit b \<longleftrightarrow>
      m AND access_bit b = access_bit b \<or> access_bit (r_action r) = access_bit b"
    by (auto simp: access_bit_def ACCESS_READ_def ACCESS_WRITE_def bit.conj_disj_distrib2 split: Action.splits)
  then show ?case using Cons [of "m OR access_bit (r_action r)"] by auto
qed simp

lemma mask_permits:
  "foldl (\<lambda>m r. m OR access_bit (r_action r)) 0 rs AND ACCESS_READ = ACCESS_READ
     \<longleftrightarrow> list_ex (\<lambda>r. r_action r \<noteq> FileWrite) rs"
  "foldl (\<lambda>m r. m OR access_bit (r_action r)) 0 rs AND ACCESS_WRITE = ACCESS_WRITE
     \<longleftrightarrow> list_ex (\<lambda>r. r_action r = FileWrite) rs"
proof -
  have bits: "access_bit FileRead = ACCESS_READ" "access_bit FileWrite = ACCESS_WRITE"
    "access_bit a = ACCESS_READ \<longleftrightarrow> a \<noteq> FileWrite" "access_bit a = ACCESS_WRITE \<longleftrightarrow> a = FileWrite" for a
    by (cases a; simp add: access_bit_def ACCESS_READ_def ACCESS_WRITE_def)+
  have "ACCESS_READ \<noteq> 0" "ACCESS_WRITE \<noteq> 0" by (simp_all add: ACCESS_READ_def ACCESS_WRITE_def)
  then show "foldl (\<lambda>m r. m OR access_bit (r_action r)) 0 rs AND ACCESS_READ = ACCESS_READ
     \<longleftrightarrow> list_ex (\<lambda>r. r_action r \<noteq> FileWrite) rs"
    "foldl (\<lambda>m r. m OR access_bit (r_action r)) 0 rs AND ACCESS_WRITE = ACCESS_WRITE
     \<longleftrightarrow> list_ex (\<lambda>r. r_action r = FileWrite) rs"
    using foldl_or_only [of 0 rs FileRead] foldl_or_only [of 0 rs FileWrite] unfolding bits by auto
qed

lemma granted_hits:
  "rules_decide rules (ProbeFile path) \<longleftrightarrow> list_ex (\<lambda>r. matches_file r path) (granted rules)"
  "rules_decide rules (ProbeFileWrite path)
     \<longleftrightarrow> list_ex (\<lambda>r. r_action r = FileWrite \<and> matches_file r path) (granted rules)"
  by (auto simp: rules_decide_def ir_opens_def granted_def list_ex_iff)

lemma reads_agree:
  assumes "list_all reparsable rules"
  shows "bpf_decides (lower_bpf rules) (ProbeFile path) = rules_decide rules (ProbeFile path)
    \<longleftrightarrow> shared_probe rules (ProbeFile path)"
proof (cases "exact_rules rules path")
  case Nil
  then show ?thesis by (simp add: bpf_decides_def image_access [OF assms] granted_hits shared_probe_def)
next
  case (Cons r rs)
  then have "list_ex (\<lambda>r. matches_file r path) (granted rules)"
    using exact_rules_match exact_rules_hit by (metis list.set_intros(1) list_ex_iff)
  moreover have "exact_rules rules path \<noteq> []" using Cons by simp
  ultimately show ?thesis
    by (simp add: bpf_decides_def image_access [OF assms] mask_permits granted_hits shared_probe_def)
qed

lemma writes_agree:
  assumes "list_all reparsable rules"
  shows "bpf_decides (lower_bpf rules) (ProbeFileWrite path) = rules_decide rules (ProbeFileWrite path)
    \<longleftrightarrow> shared_probe rules (ProbeFileWrite path)"
  using exact_rules_match [of _ rules path] exact_rules_hit [of _ rules path]
  by (auto simp: bpf_decides_def image_access [OF assms] mask_permits granted_hits shared_probe_def list_ex_iff
      filter_empty_conv)

lemma execs_agree: "bpf_decides (lower_bpf rules) (ProbeExec path) = rules_decide rules (ProbeExec path)"
proof -
  have "exec_path r = Some path \<longleftrightarrow> r_action r = ProcExec
      \<and> (case r_object r of Process pr \<Rightarrow> po_binary pr = Path path | _ \<Rightarrow> False)" for r
    by (auto simp: exec_path_def split: Object.split BinaryRef.split)
  then show ?thesis by (auto simp: bpf_decides_def image_exec rules_decide_def granted_def list_ex_iff)
qed

lemma connects_agree:
  assumes "shared_probe rules (ProbeNet a port proto)"
  shows "bpf_decides (lower_bpf rules) (ProbeNet a port proto) = rules_decide rules (ProbeNet a port proto)"
proof -
  have "(connect_to r = Some (a, port) \<or> connect_to r = Some (a, 0)) \<longleftrightarrow>
      accepts (ProbeNet a port proto) (content r)" if "r \<in> set (granted rules)" for r
    using assms that
    by (auto simp: shared_probe_def list_all_iff granted_def connect_to_def content_def map_or_true_def
        split: Object.splits option.splits)
  moreover have "rules_decide rules (ProbeNet a port proto)
      \<longleftrightarrow> (\<exists>r \<in> set (granted rules). accepts (ProbeNet a port proto) (content r))"
    unfolding rules_decide_accepts by (auto simp: granted_def content_def)
  ultimately show ?thesis by (auto simp: bpf_decides_def image_net)
qed

text \<open>
  The policy of the demonstration, and its two rows outside of the shared surface: a datagram to the profiled
  address, and a rule without an address.
\<close>

definition demo_policy :: "BehaviorRule list" where
  "demo_policy =
     (let grant = (\<lambda>i ob a m. \<lparr>r_id = i, r_subject = empty_subject, r_object = ob, r_action = a, r_verdict = Allow,
        r_metadata = meta m\<rparr>) in
     [grant 1 (File \<lparr>fo_pattern = ExactPath ''/app/config.yaml'', fo_is_sensitive = False\<rparr>) FileRead Fs,
      grant 2 (File \<lparr>fo_pattern = Prefix ''/var/lib/app/cache/'', fo_is_sensitive = False\<rparr>) FileWrite Fs,
      grant 3 (File \<lparr>fo_pattern = Classified ProcPidStatus, fo_is_sensitive = False\<rparr>) FileRead Fs,
      grant 4 (Process \<lparr>po_binary = Path ''/usr/bin/python3''\<rparr>) ProcExec Proc,
      grant 5 (Network \<lparr>no_dst_ip = Some (ip 93 184 216 34), no_dst_port = Some 443, no_protocol = Some 6,
        no_direction = Some 1\<rparr>) NetConnect Net])"

lemma demo_decisions:
  "list_all (shared_probe demo_policy) shared"
  "map (bpf_decides (lower_bpf demo_policy)) shared =
     [True, False, True, True, True, False, False, True, False, True, False]"
  by code_simp+

lemma demo_divergence:
  "bpf_decides (lower_bpf demo_policy) (ProbeNet (ip 93 184 216 34) 443 17)
    \<and> aa_decides (fst (lower_to_apparmor dbg demo_policy ''demo'')) (ProbeNet (ip 93 184 216 34) 443 17) = Some False"
  "\<not> bpf_decides (lower_bpf any_peer_rule) (ProbeNet (ip 1 2 3 4) 443 6)
    \<and> aa_decides (fst (lower_to_apparmor dbg any_peer_rule ''demo'')) (ProbeNet (ip 1 2 3 4) 443 6) = Some True"
proof -
  have name: "ascii ''demo''" "newline \<notin> set ''demo''" by (simp_all add: is_ascii_def newline_def)
  have "list_all reparsable demo_policy" "list_all reparsable any_peer_rule" by code_simp+
  note reparsed = reparsed_decides [OF this(1) name] reparsed_decides [OF this(2) name]
  show "bpf_decides (lower_bpf demo_policy) (ProbeNet (ip 93 184 216 34) 443 17)
    \<and> aa_decides (fst (lower_to_apparmor dbg demo_policy ''demo'')) (ProbeNet (ip 93 184 216 34) 443 17) = Some False"
    unfolding reparsed by code_simp
  show "\<not> bpf_decides (lower_bpf any_peer_rule) (ProbeNet (ip 1 2 3 4) 443 6)
    \<and> aa_decides (fst (lower_to_apparmor dbg any_peer_rule ''demo'')) (ProbeNet (ip 1 2 3 4) 443 6) = Some True"
    unfolding reparsed by code_simp
qed

text \<open>
  C39: a policy that a profile can carry is decided alike in its two formats. For every probe of the shared
  surface, the profile that \<open>lower_to_apparmor\<close> prints, parsed again, and the image that \<open>lower_bpf\<close> fills
  give the same decision; the profile always parses. For files, reads and writes outside of that surface
  are decided differently.
\<close>

theorem formats_agree:
  assumes "list_all reparsable rules" and "ascii name" and "newline \<notin> set name"
  shows "(shared_probe rules p \<longrightarrow>
      aa_decides (fst (lower_to_apparmor dbg rules name)) p = Some (bpf_decides (lower_bpf rules) p))
    \<and> ((p = ProbeFile path \<or> p = ProbeFileWrite path) \<and> \<not> shared_probe rules p \<longrightarrow>
      aa_decides (fst (lower_to_apparmor dbg rules name)) p = Some (\<not> bpf_decides (lower_bpf rules) p))"
  using reads_agree [OF assms(1)] writes_agree [OF assms(1)] execs_agree [of rules] connects_agree [of rules]
  unfolding reparsed_decides [OF assms] by (cases p) auto

lemma formats_agree_witness:
  "aa_decides (fst (lower_to_apparmor (\<lambda>s. s) demo_policy ''demo'')) (ProbeFileWrite ''/app/config.yaml'')
    = Some (bpf_decides (lower_bpf demo_policy) (ProbeFileWrite ''/app/config.yaml''))
   \<and> aa_decides (fst (lower_to_apparmor (\<lambda>s. s) demo_policy ''demo'')) (ProbeFileWrite ''/proc/1/status'')
    = Some (\<not> bpf_decides (lower_bpf demo_policy) (ProbeFileWrite ''/proc/1/status''))"
proof -
  have "list_all reparsable demo_policy" "shared_probe demo_policy (ProbeFileWrite ''/app/config.yaml'')"
    "\<not> shared_probe demo_policy (ProbeFileWrite ''/proc/1/status'')"
    by code_simp+
  moreover have "ascii ''demo''" "newline \<notin> set ''demo''" by (simp_all add: is_ascii_def newline_def)
  ultimately show ?thesis using formats_agree by blast
qed

end
