(* ===== verification/CoRe.thy ===== *)
theory CoRe
  imports PathWalk CgroupPath
begin

text \<open>
  The CO-RE layer, \<open>ebpf-mon-common/src/co_re.rs\<close> with \<open>co_re/core_*.rs\<close>, over the shims of
  \<open>co_re/c-bindings/shim.c\<close>: the typed pointers to kernel objects and the reads of their members.

  A \<open>Core\<close> is an address. What the loader and the running kernel decide is the parameter \<open>Kernel\<close>: the
  offset of each member that the kernel has (\<open>kr_offset\<close>), and the memory. Where a member is missing, the loader
  cannot relocate the access, and a program that still reaches it is refused; the model reads at the
  arbitrary offset \<open>kr_poison\<close> there, so that a result that does not depend on \<open>kr_poison\<close> is one that
  reaches no such access.
\<close>

section \<open>The shims\<close>

text \<open>
  \<open>kr_probe\<close> and \<open>kr_user\<close> are the reads of a number of bytes of kernel and user memory, \<open>kr_str\<close> is the text
  at an address up to its NUL; \<open>None\<close> is a fault.
\<close>

record Kernel =
  kr_offset :: "string \<Rightarrow> string \<Rightarrow> u64 option"
  kr_poison :: "string \<Rightarrow> string \<Rightarrow> u64"
  kr_probe :: "u64 \<Rightarrow> nat \<Rightarrow> string option"
  kr_user :: "u64 \<Rightarrow> nat \<Rightarrow> string option"
  kr_str :: "u64 \<Rightarrow> string option"

definition field_exists :: "Kernel \<Rightarrow> string \<Rightarrow> string \<Rightarrow> bool" where
  "field_exists K struc memb = (kr_offset K struc memb \<noteq> None)"

text \<open>\<open>SHIM_REF\<close> and \<open>ARRAY_SHIM\<close>: the address of a member.\<close>

definition member_addr :: "Kernel \<Rightarrow> string \<Rightarrow> string \<Rightarrow> u64 \<Rightarrow> u64" where
  "member_addr K struc memb p =
     p + (case kr_offset K struc memb of Some off \<Rightarrow> off | None \<Rightarrow> kr_poison K struc memb)"

fun le_word :: "string \<Rightarrow> 'a::len word" where
  "le_word [] = 0"
| "le_word (c # cs) = of_nat (of_char c) + push_bit 8 (le_word cs)"

text \<open>\<open>SHIM\<close>: the value of a member of \<open>n\<close> bytes, which is zero after a fault.\<close>

definition bpf_core_read :: "Kernel \<Rightarrow> string \<Rightarrow> string \<Rightarrow> nat \<Rightarrow> u64 \<Rightarrow> 'a::len word" where
  "bpf_core_read K struc memb n p =
     (case kr_probe K (member_addr K struc memb p) n of Some bs \<Rightarrow> le_word bs | None \<Rightarrow> 0)"

definition bpf_core_read_user :: "Kernel \<Rightarrow> string \<Rightarrow> string \<Rightarrow> nat \<Rightarrow> u64 \<Rightarrow> 'a::len word" where
  "bpf_core_read_user K struc memb n p =
     (case kr_user K (member_addr K struc memb p) n of Some bs \<Rightarrow> le_word bs | None \<Rightarrow> 0)"

definition read_timespec64 :: "Kernel \<Rightarrow> string \<Rightarrow> string \<Rightarrow> u64 \<Rightarrow> Time" where
  "read_timespec64 K struc memb p =
     (case kr_probe K (member_addr K struc memb p) 16 of
        Some bs \<Rightarrow> \<lparr>tv_sec = le_word (take 8 bs), tv_nsec = le_word (drop 8 bs)\<rparr>
      | None \<Rightarrow> \<lparr>tv_sec = 0, tv_nsec = 0\<rparr>)"

section \<open>Accessors\<close>

text \<open>
  The macro \<open>rust_shim_kernel_impl\<close>: \<open>get\<close> stands for the shim, whose result is widened to the type of the
  accessor. \<open>rust_shim_user_impl\<close> differs in the shim only.
\<close>

definition rust_shim_kernel_impl ::
    "Kernel \<Rightarrow> string \<Rightarrow> string \<Rightarrow> (u64 \<Rightarrow> 'a) \<Rightarrow> u64 \<Rightarrow> 'a option" where
  "rust_shim_kernel_impl K struc memb get p =
     (if p \<noteq> 0 \<and> field_exists K struc memb then Some (get p) else None)"

definition member_kernel :: "Kernel \<Rightarrow> string \<Rightarrow> string \<Rightarrow> nat \<Rightarrow> u64 \<Rightarrow> 'a::len word option" where
  "member_kernel K struc memb n = rust_shim_kernel_impl K struc memb (bpf_core_read K struc memb n)"

definition embedded :: "Kernel \<Rightarrow> string \<Rightarrow> string \<Rightarrow> u64 \<Rightarrow> u64 option" where
  "embedded K struc memb = rust_shim_kernel_impl K struc memb (member_addr K struc memb)"

definition member_user :: "Kernel \<Rightarrow> string \<Rightarrow> string \<Rightarrow> nat \<Rightarrow> u64 \<Rightarrow> 'a::len word option" where
  "member_user K struc memb n = rust_shim_kernel_impl K struc memb (bpf_core_read_user K struc memb n)"

text \<open>The macro \<open>core_read_kernel\<close>: a chain of accessors, which ends at the first that fails.\<close>

fun core_read_kernel :: "u64 \<Rightarrow> (u64 \<Rightarrow> u64 option) list \<Rightarrow> u64 option" where
  "core_read_kernel p [] = Some p"
| "core_read_kernel p (f # fs) = (case f p of None \<Rightarrow> None | Some q \<Rightarrow> core_read_kernel q fs)"

subsection \<open>Files and mounts\<close>

definition inode_i_ino :: "Kernel \<Rightarrow> u64 \<Rightarrow> u64 option" where
  "inode_i_ino K = member_kernel K ''inode'' ''i_ino'' 8"

definition inode_i_mode :: "Kernel \<Rightarrow> u64 \<Rightarrow> u16 option" where
  "inode_i_mode K = member_kernel K ''inode'' ''i_mode'' 2"

definition inode_i_sb :: "Kernel \<Rightarrow> u64 \<Rightarrow> u64 option" where
  "inode_i_sb K = member_kernel K ''inode'' ''i_sb'' 8"

definition inode_i_size :: "Kernel \<Rightarrow> u64 \<Rightarrow> 64 word option" where
  "inode_i_size K = member_kernel K ''inode'' ''i_size'' 8"

definition inode_old_i_atime :: "Kernel \<Rightarrow> u64 \<Rightarrow> Time option" where
  "inode_old_i_atime K = rust_shim_kernel_impl K ''inode'' ''i_atime'' (read_timespec64 K ''inode'' ''i_atime'')"

definition inode_mid_i_atime :: "Kernel \<Rightarrow> u64 \<Rightarrow> Time option" where
  "inode_mid_i_atime K = rust_shim_kernel_impl K ''inode'' ''__i_atime'' (read_timespec64 K ''inode'' ''__i_atime'')"

definition inode_i_atime_sec :: "Kernel \<Rightarrow> u64 \<Rightarrow> 64 word option" where
  "inode_i_atime_sec K = member_kernel K ''inode'' ''i_atime_sec'' 8"

definition inode_i_atime_nsec :: "Kernel \<Rightarrow> u64 \<Rightarrow> 64 word option" where
  "inode_i_atime_nsec K = member_kernel K ''inode'' ''i_atime_nsec'' 4"

definition inode_old_i_mtime :: "Kernel \<Rightarrow> u64 \<Rightarrow> Time option" where
  "inode_old_i_mtime K = rust_shim_kernel_impl K ''inode'' ''i_mtime'' (read_timespec64 K ''inode'' ''i_mtime'')"

definition inode_mid_i_mtime :: "Kernel \<Rightarrow> u64 \<Rightarrow> Time option" where
  "inode_mid_i_mtime K = rust_shim_kernel_impl K ''inode'' ''__i_mtime'' (read_timespec64 K ''inode'' ''__i_mtime'')"

definition inode_i_mtime_sec :: "Kernel \<Rightarrow> u64 \<Rightarrow> 64 word option" where
  "inode_i_mtime_sec K = member_kernel K ''inode'' ''i_mtime_sec'' 8"

definition inode_i_mtime_nsec :: "Kernel \<Rightarrow> u64 \<Rightarrow> 64 word option" where
  "inode_i_mtime_nsec K = member_kernel K ''inode'' ''i_mtime_nsec'' 4"

definition inode_old_i_ctime :: "Kernel \<Rightarrow> u64 \<Rightarrow> Time option" where
  "inode_old_i_ctime K = rust_shim_kernel_impl K ''inode'' ''i_ctime'' (read_timespec64 K ''inode'' ''i_ctime'')"

definition inode_mid_i_ctime :: "Kernel \<Rightarrow> u64 \<Rightarrow> Time option" where
  "inode_mid_i_ctime K = rust_shim_kernel_impl K ''inode'' ''__i_ctime'' (read_timespec64 K ''inode'' ''__i_ctime'')"

definition inode_i_ctime_sec :: "Kernel \<Rightarrow> u64 \<Rightarrow> 64 word option" where
  "inode_i_ctime_sec K = member_kernel K ''inode'' ''i_ctime_sec'' 8"

definition inode_i_ctime_nsec :: "Kernel \<Rightarrow> u64 \<Rightarrow> 64 word option" where
  "inode_i_ctime_nsec K = member_kernel K ''inode'' ''i_ctime_nsec'' 4"

definition file_f_path :: "Kernel \<Rightarrow> u64 \<Rightarrow> u64 option" where
  "file_f_path K = embedded K ''file'' ''f_path''"

definition file_f_inode :: "Kernel \<Rightarrow> u64 \<Rightarrow> u64 option" where
  "file_f_inode K = member_kernel K ''file'' ''f_inode'' 8"

definition file_f_flags :: "Kernel \<Rightarrow> u64 \<Rightarrow> u32 option" where
  "file_f_flags K = member_kernel K ''file'' ''f_flags'' 4"

definition file_private_data :: "Kernel \<Rightarrow> u64 \<Rightarrow> u64 option" where
  "file_private_data K = member_kernel K ''file'' ''private_data'' 8"

definition fd_file :: "Kernel \<Rightarrow> u64 \<Rightarrow> u64 option" where
  "fd_file K = member_kernel K ''fd'' ''file'' 8"

definition path_mnt :: "Kernel \<Rightarrow> u64 \<Rightarrow> u64 option" where
  "path_mnt K = member_kernel K ''path'' ''mnt'' 8"

definition path_dentry :: "Kernel \<Rightarrow> u64 \<Rightarrow> u64 option" where
  "path_dentry K = member_kernel K ''path'' ''dentry'' 8"

definition qstr_name :: "Kernel \<Rightarrow> u64 \<Rightarrow> u64 option" where
  "qstr_name K = member_kernel K ''qstr'' ''name'' 8"

definition qstr_hash_len :: "Kernel \<Rightarrow> u64 \<Rightarrow> u64 option" where
  "qstr_hash_len K = member_kernel K ''qstr'' ''hash_len'' 8"

definition dentry_d_sb :: "Kernel \<Rightarrow> u64 \<Rightarrow> u64 option" where
  "dentry_d_sb K = member_kernel K ''dentry'' ''d_sb'' 8"

definition dentry_d_parent :: "Kernel \<Rightarrow> u64 \<Rightarrow> u64 option" where
  "dentry_d_parent K = member_kernel K ''dentry'' ''d_parent'' 8"

definition dentry_d_flags :: "Kernel \<Rightarrow> u64 \<Rightarrow> u32 option" where
  "dentry_d_flags K = member_kernel K ''dentry'' ''d_flags'' 4"

definition dentry_d_name :: "Kernel \<Rightarrow> u64 \<Rightarrow> u64 option" where
  "dentry_d_name K = embedded K ''dentry'' ''d_name''"

definition dentry_d_inode :: "Kernel \<Rightarrow> u64 \<Rightarrow> u64 option" where
  "dentry_d_inode K = member_kernel K ''dentry'' ''d_inode'' 8"

definition file_system_type_name_ptr :: "Kernel \<Rightarrow> u64 \<Rightarrow> u64 option" where
  "file_system_type_name_ptr K = member_kernel K ''file_system_type'' ''name'' 8"

definition super_block_s_root :: "Kernel \<Rightarrow> u64 \<Rightarrow> u64 option" where
  "super_block_s_root K = member_kernel K ''super_block'' ''s_root'' 8"

definition super_block_s_type :: "Kernel \<Rightarrow> u64 \<Rightarrow> u64 option" where
  "super_block_s_type K = member_kernel K ''super_block'' ''s_type'' 8"

definition mount_mnt :: "Kernel \<Rightarrow> u64 \<Rightarrow> u64 option" where
  "mount_mnt K = embedded K ''mount'' ''mnt''"

definition mount_mnt_mountpoint :: "Kernel \<Rightarrow> u64 \<Rightarrow> u64 option" where
  "mount_mnt_mountpoint K = member_kernel K ''mount'' ''mnt_mountpoint'' 8"

definition mount_mnt_parent :: "Kernel \<Rightarrow> u64 \<Rightarrow> u64 option" where
  "mount_mnt_parent K = member_kernel K ''mount'' ''mnt_parent'' 8"

definition mount_mnt_mp :: "Kernel \<Rightarrow> u64 \<Rightarrow> u64 option" where
  "mount_mnt_mp K = member_kernel K ''mount'' ''mnt_mp'' 8"

definition vfsmount_mnt_root :: "Kernel \<Rightarrow> u64 \<Rightarrow> u64 option" where
  "vfsmount_mnt_root K = member_kernel K ''vfsmount'' ''mnt_root'' 8"

definition mountpoint_m_dentry :: "Kernel \<Rightarrow> u64 \<Rightarrow> u64 option" where
  "mountpoint_m_dentry K = member_kernel K ''mountpoint'' ''m_dentry'' 8"

definition filename_name :: "Kernel \<Rightarrow> u64 \<Rightarrow> u64 option" where
  "filename_name K = member_kernel K ''filename'' ''name'' 8"

definition filename_uptr :: "Kernel \<Rightarrow> u64 \<Rightarrow> u64 option" where
  "filename_uptr K = member_kernel K ''filename'' ''uptr'' 8"

definition fs_struct_root :: "Kernel \<Rightarrow> u64 \<Rightarrow> u64 option" where
  "fs_struct_root K = embedded K ''fs_struct'' ''root''"

definition fs_struct_pwd :: "Kernel \<Rightarrow> u64 \<Rightarrow> u64 option" where
  "fs_struct_pwd K = embedded K ''fs_struct'' ''pwd''"

definition inode_i_atime :: "Kernel \<Rightarrow> u64 \<Rightarrow> Time option" where
  "inode_i_atime K p =
     (case inode_old_i_atime K p of
        Some t \<Rightarrow> Some t
      | None \<Rightarrow>
          (case inode_mid_i_atime K p of
             Some t \<Rightarrow> Some t
           | None \<Rightarrow>
               (case inode_i_atime_sec K p of
                  None \<Rightarrow> None
                | Some sec \<Rightarrow>
                    (case inode_i_atime_nsec K p of
                       None \<Rightarrow> None
                     | Some nsec \<Rightarrow> Some \<lparr>tv_sec = sec, tv_nsec = nsec\<rparr>))))"

definition inode_i_mtime :: "Kernel \<Rightarrow> u64 \<Rightarrow> Time option" where
  "inode_i_mtime K p =
     (case inode_old_i_mtime K p of
        Some t \<Rightarrow> Some t
      | None \<Rightarrow>
          (case inode_mid_i_mtime K p of
             Some t \<Rightarrow> Some t
           | None \<Rightarrow>
               (case inode_i_mtime_sec K p of
                  None \<Rightarrow> None
                | Some sec \<Rightarrow>
                    (case inode_i_mtime_nsec K p of
                       None \<Rightarrow> None
                     | Some nsec \<Rightarrow> Some \<lparr>tv_sec = sec, tv_nsec = nsec\<rparr>))))"

definition inode_i_ctime :: "Kernel \<Rightarrow> u64 \<Rightarrow> Time option" where
  "inode_i_ctime K p =
     (case inode_old_i_ctime K p of
        Some t \<Rightarrow> Some t
      | None \<Rightarrow>
          (case inode_mid_i_ctime K p of
             Some t \<Rightarrow> Some t
           | None \<Rightarrow>
               (case inode_i_ctime_sec K p of
                  None \<Rightarrow> None
                | Some sec \<Rightarrow>
                    (case inode_i_ctime_nsec K p of
                       None \<Rightarrow> None
                     | Some nsec \<Rightarrow> Some \<lparr>tv_sec = sec, tv_nsec = nsec\<rparr>))))"

text \<open>\<open>hash_len\<close> holds the hash of a name in its low half and the length in its high half.\<close>

definition qstr_hash :: "Kernel \<Rightarrow> u64 \<Rightarrow> u32 option" where
  "qstr_hash K p = map_option (\<lambda>v. ucast v) (qstr_hash_len K p)"

definition qstr_len :: "Kernel \<Rightarrow> u64 \<Rightarrow> u32 option" where
  "qstr_len K p = map_option (\<lambda>v. ucast (drop_bit 32 v)) (qstr_hash_len K p)"

definition DCACHE_MOUNTED :: u32 where "DCACHE_MOUNTED = 0x00010000"

definition dentry_is_mountpoint :: "Kernel \<Rightarrow> u64 \<Rightarrow> bool option" where
  "dentry_is_mountpoint K p = map_option (\<lambda>w. w AND DCACHE_MOUNTED = DCACHE_MOUNTED) (dentry_d_flags K p)"

definition file_system_type_name :: "Kernel \<Rightarrow> u64 \<Rightarrow> u64 option" where
  "file_system_type_name K p = file_system_type_name_ptr K p"

text \<open>
  \<open>shim_mount_from_vfsmount\<close>: the \<open>mount\<close> around a \<open>vfsmount\<close>, by the offset of its member. There is no check,
  neither for null nor for the member.
\<close>

definition vfsmount_mount :: "Kernel \<Rightarrow> u64 \<Rightarrow> u64" where
  "vfsmount_mount K p = p - member_addr K ''mount'' ''mnt'' 0"

subsection \<open>Control groups\<close>

definition cgroup_kn :: "Kernel \<Rightarrow> u64 \<Rightarrow> u64 option" where
  "cgroup_kn K = member_kernel K ''cgroup'' ''kn'' 8"

definition cgroup_subsys_state_cgroup :: "Kernel \<Rightarrow> u64 \<Rightarrow> u64 option" where
  "cgroup_subsys_state_cgroup K = member_kernel K ''cgroup_subsys_state'' ''cgroup'' 8"

definition task_group_css :: "Kernel \<Rightarrow> u64 \<Rightarrow> u64 option" where
  "task_group_css K = embedded K ''task_group'' ''css''"

definition kernfs_node_name_ptr :: "Kernel \<Rightarrow> u64 \<Rightarrow> u64 option" where
  "kernfs_node_name_ptr K = member_kernel K ''kernfs_node'' ''name'' 8"

definition kernfs_node_parent :: "Kernel \<Rightarrow> u64 \<Rightarrow> u64 option" where
  "kernfs_node_parent K = member_kernel K ''kernfs_node'' ''parent'' 8"

definition SIZE_OF_CSS :: u64 where "SIZE_OF_CSS = 8"

definition cgroup_subsys_state_get :: "u64 \<Rightarrow> nat \<Rightarrow> u64" where
  "cgroup_subsys_state_get p i = p + of_nat i * SIZE_OF_CSS"

definition task_group_get :: "Kernel \<Rightarrow> u64 \<Rightarrow> nat \<Rightarrow> u64" where
  "task_group_get K p i =
     (case task_group_css K p of Some subsys \<Rightarrow> subsys + of_nat i * SIZE_OF_CSS | None \<Rightarrow> 0)"

definition kernfs_node_name :: "Kernel \<Rightarrow> u64 \<Rightarrow> u64 option" where
  "kernfs_node_name K p = kernfs_node_name_ptr K p"

text \<open>The id is read without a check for null, and in the layout of today if the old one does not exist.\<close>

definition kernfs_node_id :: "Kernel \<Rightarrow> u64 \<Rightarrow> u64 option" where
  "kernfs_node_id K p =
     (if field_exists K ''kernfs_node___older_v55'' ''id'' then
        Some (bpf_core_read K ''kernfs_node___older_v55'' ''id'' 8 p)
      else Some (bpf_core_read K ''kernfs_node'' ''id'' 8 p))"

subsection \<open>Credentials\<close>

definition cred_uid :: "Kernel \<Rightarrow> u64 \<Rightarrow> u32" where
  "cred_uid K p = bpf_core_read K ''cred'' ''uid.val'' 4 p"

definition cred_gid :: "Kernel \<Rightarrow> u64 \<Rightarrow> u32" where
  "cred_gid K p = bpf_core_read K ''cred'' ''gid.val'' 4 p"

text \<open>
  For older kernels the shim \<open>cap\<close> yields the address of the array of two words, and the code combines that
  address and the next one, not what they point to.
\<close>

definition cred_cap_effective :: "Kernel \<Rightarrow> u64 \<Rightarrow> u64 option" where
  "cred_cap_effective K p =
     (if field_exists K ''cred_cap_t_older_v515'' ''cap_effective'' then
        (let cap = member_addr K ''cred_cap_t_older_v515'' ''cap_effective'' p;
             val = member_addr K ''kernel_cap_t_older_v515'' ''cap'' cap
         in Some (push_bit 32 val OR (val + 4)))
      else Some (bpf_core_read K ''cred'' ''cap_effective.val'' 8 p))"

subsection \<open>Namespaces\<close>

definition nsproxy_mnt_ns :: "Kernel \<Rightarrow> u64 \<Rightarrow> u64 option" where
  "nsproxy_mnt_ns K = member_kernel K ''nsproxy'' ''mnt_ns'' 8"

definition nsproxy_uts_ns :: "Kernel \<Rightarrow> u64 \<Rightarrow> u64 option" where
  "nsproxy_uts_ns K = member_kernel K ''nsproxy'' ''uts_ns'' 8"

definition nsproxy_pid_ns_for_children :: "Kernel \<Rightarrow> u64 \<Rightarrow> u64 option" where
  "nsproxy_pid_ns_for_children K = member_kernel K ''nsproxy'' ''pid_ns_for_children'' 8"

definition pid_namespace_level :: "Kernel \<Rightarrow> u64 \<Rightarrow> u32 option" where
  "pid_namespace_level K = member_kernel K ''pid_namespace'' ''level'' 4"

definition pid_level :: "Kernel \<Rightarrow> u64 \<Rightarrow> u32 option" where
  "pid_level K = member_kernel K ''pid'' ''level'' 4"

definition ns_common_inum :: "Kernel \<Rightarrow> u64 \<Rightarrow> u32 option" where
  "ns_common_inum K = member_kernel K ''ns_common'' ''inum'' 4"

definition mnt_namespace_ns :: "Kernel \<Rightarrow> u64 \<Rightarrow> u64 option" where
  "mnt_namespace_ns K = embedded K ''mnt_namespace'' ''ns''"

definition mnt_namespace_root :: "Kernel \<Rightarrow> u64 \<Rightarrow> u64 option" where
  "mnt_namespace_root K = member_kernel K ''mnt_namespace'' ''root'' 8"

definition mnt_namespace_mounts :: "Kernel \<Rightarrow> u64 \<Rightarrow> u32 option" where
  "mnt_namespace_mounts K = member_kernel K ''mnt_namespace'' ''mounts'' 4"

definition uts_namespace_ns :: "Kernel \<Rightarrow> u64 \<Rightarrow> u64 option" where
  "uts_namespace_ns K = embedded K ''uts_namespace'' ''ns''"

definition uts_namespace_name :: "Kernel \<Rightarrow> u64 \<Rightarrow> u64 option" where
  "uts_namespace_name K = embedded K ''uts_namespace'' ''name''"

definition new_utsname_sysname :: "Kernel \<Rightarrow> u64 \<Rightarrow> u64 option" where
  "new_utsname_sysname K = embedded K ''new_utsname'' ''sysname''"

definition new_utsname_nodename :: "Kernel \<Rightarrow> u64 \<Rightarrow> u64 option" where
  "new_utsname_nodename K = embedded K ''new_utsname'' ''nodename''"

definition new_utsname_release :: "Kernel \<Rightarrow> u64 \<Rightarrow> u64 option" where
  "new_utsname_release K = embedded K ''new_utsname'' ''release''"

definition new_utsname_version :: "Kernel \<Rightarrow> u64 \<Rightarrow> u64 option" where
  "new_utsname_version K = embedded K ''new_utsname'' ''version''"

definition new_utsname_machine :: "Kernel \<Rightarrow> u64 \<Rightarrow> u64 option" where
  "new_utsname_machine K = embedded K ''new_utsname'' ''machine''"

definition new_utsname_domainname :: "Kernel \<Rightarrow> u64 \<Rightarrow> u64 option" where
  "new_utsname_domainname K = embedded K ''new_utsname'' ''domainname''"

text \<open>The shim indexes the flexible array of \<open>struct upid\<close>, 16 bytes each, without a bound.\<close>

definition SIZE_OF_UPID :: u64 where "SIZE_OF_UPID = 16"

definition pid_struct_nr_at_level :: "Kernel \<Rightarrow> u64 \<Rightarrow> u32 \<Rightarrow> u32 option" where
  "pid_struct_nr_at_level K p level =
     (if p = 0 then None
      else Some (bpf_core_read K ''pid'' ''numbers[0].nr'' 4 (p + ucast level * SIZE_OF_UPID)))"

subsection \<open>Tasks\<close>

definition mm_struct_arg_end :: "Kernel \<Rightarrow> u64 \<Rightarrow> u64 option" where
  "mm_struct_arg_end K = member_kernel K ''mm_struct'' ''arg_end'' 8"

definition mm_struct_arg_start :: "Kernel \<Rightarrow> u64 \<Rightarrow> u64 option" where
  "mm_struct_arg_start K = member_kernel K ''mm_struct'' ''arg_start'' 8"

definition mm_struct_exe_file :: "Kernel \<Rightarrow> u64 \<Rightarrow> u64 option" where
  "mm_struct_exe_file K = member_kernel K ''mm_struct'' ''exe_file'' 8"

definition linux_binprm_file :: "Kernel \<Rightarrow> u64 \<Rightarrow> u64 option" where
  "linux_binprm_file K = member_kernel K ''linux_binprm'' ''file'' 8"

definition task_struct_flags :: "Kernel \<Rightarrow> u64 \<Rightarrow> u32 option" where
  "task_struct_flags K = member_kernel K ''task_struct'' ''flags'' 4"

definition task_struct_start_time :: "Kernel \<Rightarrow> u64 \<Rightarrow> u64 option" where
  "task_struct_start_time K = member_kernel K ''task_struct'' ''start_time'' 8"

definition task_struct_cred :: "Kernel \<Rightarrow> u64 \<Rightarrow> u64 option" where
  "task_struct_cred K = member_kernel K ''task_struct'' ''cred'' 8"

definition task_struct_start_boot_time_field :: "Kernel \<Rightarrow> u64 \<Rightarrow> u64 option" where
  "task_struct_start_boot_time_field K = member_kernel K ''task_struct'' ''start_boottime'' 8"

definition task_struct_real_start_time_field :: "Kernel \<Rightarrow> u64 \<Rightarrow> u64 option" where
  "task_struct_real_start_time_field K = member_kernel K ''task_struct'' ''real_start_time'' 8"

definition task_struct_comm :: "Kernel \<Rightarrow> u64 \<Rightarrow> u64 option" where
  "task_struct_comm K = embedded K ''task_struct'' ''comm''"

definition task_struct_tgid :: "Kernel \<Rightarrow> u64 \<Rightarrow> u32 option" where
  "task_struct_tgid K = member_kernel K ''task_struct'' ''tgid'' 4"

definition task_struct_pid :: "Kernel \<Rightarrow> u64 \<Rightarrow> u32 option" where
  "task_struct_pid K = member_kernel K ''task_struct'' ''pid'' 4"

definition task_struct_group_leader :: "Kernel \<Rightarrow> u64 \<Rightarrow> u64 option" where
  "task_struct_group_leader K = member_kernel K ''task_struct'' ''group_leader'' 8"

definition task_struct_real_parent :: "Kernel \<Rightarrow> u64 \<Rightarrow> u64 option" where
  "task_struct_real_parent K = member_kernel K ''task_struct'' ''real_parent'' 8"

definition task_struct_nsproxy :: "Kernel \<Rightarrow> u64 \<Rightarrow> u64 option" where
  "task_struct_nsproxy K = member_kernel K ''task_struct'' ''nsproxy'' 8"

definition task_struct_mm :: "Kernel \<Rightarrow> u64 \<Rightarrow> u64 option" where
  "task_struct_mm K = member_kernel K ''task_struct'' ''mm'' 8"

definition task_struct_sched_task_group :: "Kernel \<Rightarrow> u64 \<Rightarrow> u64 option" where
  "task_struct_sched_task_group K = member_kernel K ''task_struct'' ''sched_task_group'' 8"

definition task_struct_fs :: "Kernel \<Rightarrow> u64 \<Rightarrow> u64 option" where
  "task_struct_fs K = member_kernel K ''task_struct'' ''fs'' 8"

definition task_struct_thread_pid :: "Kernel \<Rightarrow> u64 \<Rightarrow> u64 option" where
  "task_struct_thread_pid K = member_kernel K ''task_struct'' ''thread_pid'' 8"

definition mm_struct_arg_len :: "Kernel \<Rightarrow> u64 \<Rightarrow> u64 option" where
  "mm_struct_arg_len K p =
     (case mm_struct_arg_start K p of
        None \<Rightarrow> None
      | Some start \<Rightarrow>
          (case mm_struct_arg_end K p of
             None \<Rightarrow> None
           | Some stop \<Rightarrow> Some (if stop = 0 \<or> start \<ge> stop then 0 else stop - start)))"

definition task_struct_uuid :: "u64 \<Rightarrow> u64 \<Rightarrow> 128 word" where
  "task_struct_uuid pid_tgid p = ucast pid_tgid OR push_bit 64 (ucast p)"

definition task_struct_start_boottime :: "Kernel \<Rightarrow> u64 \<Rightarrow> u64 option" where
  "task_struct_start_boottime K p =
     (case task_struct_start_boot_time_field K p of
        Some sbt \<Rightarrow> Some sbt
      | None \<Rightarrow>
          (case task_struct_real_start_time_field K p of
             Some rst \<Rightarrow> Some rst
           | None \<Rightarrow> None))"

definition task_struct_real_start_time :: "Kernel \<Rightarrow> u64 \<Rightarrow> u64 option" where
  "task_struct_real_start_time K p = task_struct_start_boottime K p"

definition task_struct_comm_array :: "Kernel \<Rightarrow> u64 \<Rightarrow> string option" where
  "task_struct_comm_array K p =
     (case task_struct_comm K p of None \<Rightarrow> None | Some comm \<Rightarrow> kr_probe K comm 16)"

definition task_struct_ns_tgid :: "Kernel \<Rightarrow> u64 \<Rightarrow> u32 option" where
  "task_struct_ns_tgid K p =
     (case task_struct_nsproxy K p of
        None \<Rightarrow> None
      | Some nsproxy \<Rightarrow>
          (case nsproxy_pid_ns_for_children K nsproxy of
             None \<Rightarrow> None
           | Some pid_ns \<Rightarrow>
               (case pid_namespace_level K pid_ns of
                  None \<Rightarrow> None
                | Some level \<Rightarrow>
                    (case task_struct_group_leader K p of
                       None \<Rightarrow> None
                     | Some group_leader \<Rightarrow>
                         (case task_struct_thread_pid K group_leader of
                            None \<Rightarrow> None
                          | Some thread_pid \<Rightarrow> pid_struct_nr_at_level K thread_pid level)))))"

definition task_struct_get_cgroup_handle :: "Kernel \<Rightarrow> u64 \<Rightarrow> u64 option" where
  "task_struct_get_cgroup_handle K p =
     core_read_kernel p [task_struct_sched_task_group K, task_group_css K, cgroup_subsys_state_cgroup K]"

definition task_struct_get_binprm_inode :: "Kernel \<Rightarrow> u64 \<Rightarrow> u64 option" where
  "task_struct_get_binprm_inode K p =
     core_read_kernel p [task_struct_mm K, mm_struct_exe_file K, file_f_inode K, inode_i_ino K]"

subsection \<open>Sockets\<close>

definition sockaddr_sa_family :: "Kernel \<Rightarrow> u64 \<Rightarrow> u32 option" where
  "sockaddr_sa_family K = member_kernel K ''sockaddr'' ''sa_family'' 2"

definition sockaddr_sa_family_user :: "Kernel \<Rightarrow> u64 \<Rightarrow> u32 option" where
  "sockaddr_sa_family_user K = member_user K ''sockaddr'' ''sa_family'' 2"

definition sockaddr_in_sin_family :: "Kernel \<Rightarrow> u64 \<Rightarrow> u32 option" where
  "sockaddr_in_sin_family K = member_kernel K ''sockaddr_in'' ''sin_family'' 2"

definition sockaddr_in_sin_family_user :: "Kernel \<Rightarrow> u64 \<Rightarrow> u32 option" where
  "sockaddr_in_sin_family_user K = member_user K ''sockaddr_in'' ''sin_family'' 2"

definition sockaddr_in_sin_port :: "Kernel \<Rightarrow> u64 \<Rightarrow> u16 option" where
  "sockaddr_in_sin_port K = member_kernel K ''sockaddr_in'' ''sin_port'' 2"

definition sockaddr_in_sin_port_user :: "Kernel \<Rightarrow> u64 \<Rightarrow> u16 option" where
  "sockaddr_in_sin_port_user K = member_user K ''sockaddr_in'' ''sin_port'' 2"

definition sockaddr_in_s_addr :: "Kernel \<Rightarrow> u64 \<Rightarrow> u32 option" where
  "sockaddr_in_s_addr K = member_kernel K ''sockaddr_in'' ''sin_addr.s_addr'' 4"

definition sockaddr_in_s_addr_user :: "Kernel \<Rightarrow> u64 \<Rightarrow> u32 option" where
  "sockaddr_in_s_addr_user K = member_user K ''sockaddr_in'' ''sin_addr.s_addr'' 4"

definition unix_sock_peer :: "Kernel \<Rightarrow> u64 \<Rightarrow> u64 option" where
  "unix_sock_peer K = member_kernel K ''unix_sock'' ''peer'' 8"

definition unix_sock_path :: "Kernel \<Rightarrow> u64 \<Rightarrow> u64 option" where
  "unix_sock_path K = embedded K ''unix_sock'' ''path''"

definition sock_common_skc_family :: "Kernel \<Rightarrow> u64 \<Rightarrow> u16 option" where
  "sock_common_skc_family K = member_kernel K ''sock_common'' ''skc_family'' 2"

definition sock_common_skc_daddr :: "Kernel \<Rightarrow> u64 \<Rightarrow> u32 option" where
  "sock_common_skc_daddr K = member_kernel K ''sock_common'' ''skc_daddr'' 4"

definition sock_common_skc_rcv_saddr :: "Kernel \<Rightarrow> u64 \<Rightarrow> u32 option" where
  "sock_common_skc_rcv_saddr K = member_kernel K ''sock_common'' ''skc_rcv_saddr'' 4"

definition sock_common_skc_dport :: "Kernel \<Rightarrow> u64 \<Rightarrow> u32 option" where
  "sock_common_skc_dport K = member_kernel K ''sock_common'' ''skc_dport'' 2"

definition sock_common_skc_num :: "Kernel \<Rightarrow> u64 \<Rightarrow> u32 option" where
  "sock_common_skc_num K = member_kernel K ''sock_common'' ''skc_num'' 2"

definition sock_sk_common :: "Kernel \<Rightarrow> u64 \<Rightarrow> u64 option" where
  "sock_sk_common K = embedded K ''sock'' ''__sk_common''"

definition sock_sk_type :: "Kernel \<Rightarrow> u64 \<Rightarrow> u16 option" where
  "sock_sk_type K = member_kernel K ''sock'' ''sk_type'' 2"

definition socket_file :: "Kernel \<Rightarrow> u64 \<Rightarrow> u64 option" where
  "socket_file K = member_kernel K ''socket'' ''file'' 8"

definition socket_sk :: "Kernel \<Rightarrow> u64 \<Rightarrow> u64 option" where
  "socket_sk K = member_kernel K ''socket'' ''sk'' 8"

definition sock_sk_uid :: "Kernel \<Rightarrow> u64 \<Rightarrow> u32 option" where
  "sock_sk_uid K = member_kernel K ''sock'' ''sk_uid'' 4"

section \<open>Missing members, null pointers and poison\<close>

text \<open>The accessors as instances of the macros.\<close>

lemmas file_accessors =
  inode_i_ino_def inode_i_mode_def inode_i_sb_def inode_i_size_def inode_old_i_atime_def
  inode_mid_i_atime_def inode_i_atime_sec_def inode_i_atime_nsec_def inode_old_i_mtime_def
  inode_mid_i_mtime_def inode_i_mtime_sec_def inode_i_mtime_nsec_def inode_old_i_ctime_def
  inode_mid_i_ctime_def inode_i_ctime_sec_def inode_i_ctime_nsec_def file_f_path_def
  file_f_inode_def file_f_flags_def file_private_data_def fd_file_def path_mnt_def path_dentry_def
  qstr_name_def qstr_hash_len_def dentry_d_sb_def dentry_d_parent_def dentry_d_flags_def
  dentry_d_name_def dentry_d_inode_def file_system_type_name_ptr_def super_block_s_root_def
  super_block_s_type_def mount_mnt_def mount_mnt_mountpoint_def mount_mnt_parent_def
  mount_mnt_mp_def vfsmount_mnt_root_def mountpoint_m_dentry_def filename_name_def filename_uptr_def
  fs_struct_root_def fs_struct_pwd_def

lemmas task_accessors =
  mm_struct_arg_end_def mm_struct_arg_start_def mm_struct_exe_file_def linux_binprm_file_def
  task_struct_flags_def task_struct_start_time_def task_struct_cred_def
  task_struct_start_boot_time_field_def task_struct_real_start_time_field_def task_struct_comm_def
  task_struct_tgid_def task_struct_pid_def task_struct_group_leader_def task_struct_real_parent_def
  task_struct_nsproxy_def task_struct_mm_def task_struct_sched_task_group_def task_struct_fs_def
  task_struct_thread_pid_def cgroup_kn_def cgroup_subsys_state_cgroup_def task_group_css_def
  kernfs_node_name_ptr_def kernfs_node_parent_def nsproxy_mnt_ns_def nsproxy_uts_ns_def
  nsproxy_pid_ns_for_children_def pid_namespace_level_def pid_level_def ns_common_inum_def
  mnt_namespace_ns_def mnt_namespace_root_def mnt_namespace_mounts_def uts_namespace_ns_def
  uts_namespace_name_def new_utsname_sysname_def new_utsname_nodename_def new_utsname_release_def
  new_utsname_version_def new_utsname_machine_def new_utsname_domainname_def

lemmas net_accessors =
  sockaddr_sa_family_def sockaddr_sa_family_user_def sockaddr_in_sin_family_def
  sockaddr_in_sin_family_user_def sockaddr_in_sin_port_def sockaddr_in_sin_port_user_def
  sockaddr_in_s_addr_def sockaddr_in_s_addr_user_def unix_sock_peer_def unix_sock_path_def
  sock_common_skc_family_def sock_common_skc_daddr_def sock_common_skc_rcv_saddr_def
  sock_common_skc_dport_def sock_common_skc_num_def sock_sk_common_def sock_sk_type_def
  socket_file_def socket_sk_def

lemma shim_null [simp]:
  "rust_shim_kernel_impl K struc memb get 0 = None" "member_kernel K struc memb n 0 = None"
  "embedded K struc memb 0 = None"
  by (simp_all add: rust_shim_kernel_impl_def member_kernel_def embedded_def)

lemma shim_missing:
  assumes "kr_offset K struc memb = None"
  shows "rust_shim_kernel_impl K struc memb get p = None" "member_kernel K struc memb n p = None"
    "embedded K struc memb p = None"
  using assms by (simp_all add: rust_shim_kernel_impl_def member_kernel_def embedded_def field_exists_def)

text \<open>An access behind a check for its member is never poisoned; an access without one needs the member.\<close>

lemma field_exists_poison [simp]: "field_exists (K\<lparr>kr_poison := g\<rparr>) struc memb = field_exists K struc memb"
  by (simp add: field_exists_def)

lemma member_addr_poison:
  "field_exists K struc memb \<Longrightarrow> member_addr (K\<lparr>kr_poison := g\<rparr>) struc memb p = member_addr K struc memb p"
  by (auto simp: field_exists_def member_addr_def)

lemma bpf_core_read_poison:
  "field_exists K struc memb \<Longrightarrow> bpf_core_read (K\<lparr>kr_poison := g\<rparr>) struc memb n p = bpf_core_read K struc memb n p"
  by (simp add: bpf_core_read_def member_addr_poison)

lemma guarded_poison [simp]:
  "member_kernel (K\<lparr>kr_poison := g\<rparr>) struc memb n = member_kernel K struc memb n"
  "embedded (K\<lparr>kr_poison := g\<rparr>) struc memb = embedded K struc memb"
  "rust_shim_kernel_impl (K\<lparr>kr_poison := g\<rparr>) struc memb (read_timespec64 (K\<lparr>kr_poison := g\<rparr>) struc memb)
     = rust_shim_kernel_impl K struc memb (read_timespec64 K struc memb)"
  by (rule ext, simp add: member_kernel_def embedded_def rust_shim_kernel_impl_def bpf_core_read_poison
      read_timespec64_def member_addr_poison)+

section \<open>The time stamps of an inode\<close>

text \<open>
  The three layouts in which kernels keep a time stamp. Whichever a kernel has, the accessor delivers the
  stamp; where a kernel has more than one, the older layout is read.
\<close>

lemma inode_i_atime_layouts:
  assumes "p \<noteq> 0"
  shows "inode_i_atime K p =
    (if field_exists K ''inode'' ''i_atime'' then Some (read_timespec64 K ''inode'' ''i_atime'' p)
     else if field_exists K ''inode'' ''__i_atime'' then Some (read_timespec64 K ''inode'' ''__i_atime'' p)
     else if field_exists K ''inode'' ''i_atime_sec'' \<and> field_exists K ''inode'' ''i_atime_nsec'' then
       Some \<lparr>tv_sec = bpf_core_read K ''inode'' ''i_atime_sec'' 8 p,
         tv_nsec = bpf_core_read K ''inode'' ''i_atime_nsec'' 4 p\<rparr>
     else None)"
  using assms by (auto simp: inode_i_atime_def file_accessors member_kernel_def rust_shim_kernel_impl_def)

section \<open>Old capabilities\<close>

text \<open>
  With the old layout of the credentials, the result is made of two addresses: it does not depend on what
  the memory holds.
\<close>

lemma old_cap_is_address:
  "field_exists K ''cred_cap_t_older_v515'' ''cap_effective'' \<Longrightarrow>
   cred_cap_effective (K\<lparr>kr_probe := m\<rparr>) p = cred_cap_effective K p"
  by (auto simp: cred_cap_effective_def field_exists_def member_addr_def Let_def split: option.split)

text \<open>
  A kernel with that layout under its own name: there is no \<open>cred_cap_t_older_v515\<close>, and \<open>kernel_cap_t\<close> has no
  \<open>val\<close>. The access cannot be relocated.
\<close>

lemma old_cap_poisoned:
  assumes "\<not> field_exists K ''cred_cap_t_older_v515'' ''cap_effective''"
    and "\<not> field_exists K ''cred'' ''cap_effective.val''"
  shows "cred_cap_effective (K\<lparr>kr_poison := (\<lambda>_ _. x)\<rparr>) p =
    Some (case kr_probe K (p + x) 8 of Some bs \<Rightarrow> le_word bs | None \<Rightarrow> 0)"
  using assms by (simp add: cred_cap_effective_def field_exists_def bpf_core_read_def member_addr_def)

section \<open>Names\<close>

text \<open>The two halves of \<open>hash_len\<close>.\<close>

lemma high_bit_unset: "\<not> bit w (32 + n)" for w :: u32
  using bit_imp_le_length [of w "32 + n"] by auto

lemma qstr_parts:
  "qstr_hash_len K p = Some (push_bit 32 (ucast len) OR ucast hash) \<Longrightarrow>
   qstr_len K p = Some len \<and> qstr_hash K p = Some hash"
  for len hash :: u32
  by (auto simp: qstr_len_def qstr_hash_def high_bit_unset intro!: bit_eqI simp: bit_simps)

end
