(* ===== verification/CoReViews.thy ===== *)
theory CoReViews
  imports CoRe Enforcement Network ProcMon FsMon
begin

text \<open>
  What the programs read through the CO-RE layer. The hooks and monitors are modelled over records of
  reads (\<open>KernelFs\<close>, \<open>KernFs\<close>, \<open>KTask\<close>, \<open>Task\<close>, \<open>KFile\<close> and so on); here each of these records is
  filled in by the chains of accessors that the source writes, so that the programs run on the memory of a
  kernel. The lemmas show which members of a kernel the programs need, what happens where one is missing,
  and what a hook decides on a file in memory.
\<close>

section \<open>The readings\<close>

subsection \<open>Path resolution\<close>

definition inode_metadata :: "Kernel \<Rightarrow> u64 \<Rightarrow> Metadata option" where
  "inode_metadata K i =
     (case (inode_i_atime K i, inode_i_ctime K i, inode_i_mtime K i) of
        (Some atime, Some ctime, Some mtime) \<Rightarrow>
          (case (inode_i_ino K i,
                 core_read_kernel i [inode_i_sb K, super_block_s_root K, dentry_d_inode K, inode_i_ino K],
                 inode_i_size K i) of
             (Some ino, Some sb_ino, Some bytes) \<Rightarrow>
               Some \<lparr>m_ino = ino, m_sb_ino = sb_ino, m_size = bytes, m_atime = atime, m_mtime = mtime,
                 m_ctime = ctime\<rparr>
           | _ \<Rightarrow> None)
      | _ \<Rightarrow> None)"

definition kernel_fs :: "Kernel \<Rightarrow> KernelFs" where
  "kernel_fs K = \<lparr>k_d_inode = dentry_d_inode K, k_metadata = inode_metadata K,
     k_d_parent = dentry_d_parent K,
     k_d_name = (\<lambda>e. core_read_kernel e [dentry_d_name K, qstr_name K]),
     k_d_name_len = (\<lambda>e. Option.bind (dentry_d_name K e) (qstr_len K)),
     k_read = kr_probe K, k_mount = vfsmount_mount K, k_vfs_root = vfsmount_mnt_root K,
     k_mnt_parent = mount_mnt_parent K, k_mnt_mountpoint = mount_mnt_mountpoint K,
     k_mnt_root = (\<lambda>m. core_read_kernel m [mount_mnt K, vfsmount_mnt_root K])\<rparr>"

text \<open>A \<open>struct path\<close> and a \<open>struct file\<close>, as \<open>core_resolve\<close> and \<open>core_resolve_file\<close> read them.\<close>

definition path_at :: "Kernel \<Rightarrow> u64 \<Rightarrow> (u64 option \<times> u64 option) option" where
  "path_at K p = (if p = 0 then None else Some (path_dentry K p, path_mnt K p))"

definition f_path_at :: "Kernel \<Rightarrow> u64 \<Rightarrow> (u64 option \<times> u64 option) option option" where
  "f_path_at K f = map_option (path_at K) (file_f_path K f)"

definition kernel_file :: "Kernel \<Rightarrow> u64 \<Rightarrow> (u64 option \<times> u64 option) option option option" where
  "kernel_file K f = (if f = 0 then None else Some (f_path_at K f))"

subsection \<open>Control groups and tasks\<close>

definition kernel_kernfs :: "Kernel \<Rightarrow> KernFs" where
  "kernel_kernfs K = \<lparr>kn_of = cgroup_kn K,
     kn_name = (\<lambda>kn. map_option (\<lambda>name. if name = 0 then None else Some (kr_str K name)) (kernfs_node_name K kn)),
     kn_id = kernfs_node_id K, kn_parent = kernfs_node_parent K\<rparr>"

definition task_cgroup_id :: "Kernel \<Rightarrow> u64 \<Rightarrow> u64 option" where
  "task_cgroup_id K ts =
     core_read_kernel ts [task_struct_sched_task_group K, task_group_css K, cgroup_subsys_state_cgroup K,
       cgroup_kn K, kernfs_node_id K]"

text \<open>The number of the mount namespace, unless the nsproxy cannot be read or is null.\<close>

definition mnt_ns_of :: "Kernel \<Rightarrow> u64 \<Rightarrow> u32 option option option" where
  "mnt_ns_of K ts =
     map_option (\<lambda>nsproxy. if nsproxy = 0 then None
       else Some (Option.bind (core_read_kernel nsproxy [nsproxy_mnt_ns K, mnt_namespace_ns K]) (ns_common_inum K)))
       (task_struct_nsproxy K ts)"

definition exe_file_of :: "Kernel \<Rightarrow> u64 \<Rightarrow> u64 option" where
  "exe_file_of K ts = core_read_kernel ts [task_struct_mm K, mm_struct_exe_file K]"

definition kernel_task :: "Kernel \<Rightarrow> u64 \<Rightarrow> KTask" where
  "kernel_task K ts = \<lparr>kt_comm = task_struct_comm_array K ts, kt_start_boottime = task_struct_start_boottime K ts,
     kt_tgid = task_struct_tgid K ts, kt_pid = task_struct_pid K ts, kt_mnt_ns = mnt_ns_of K ts,
     kt_exe = map_option (kernel_file K) (exe_file_of K ts),
     kt_cgroup = task_struct_get_cgroup_handle K ts,
     kt_mm = map_option (\<lambda>mm. (mm_struct_arg_start K mm, mm_struct_arg_end K mm)) (task_struct_mm K ts)\<rparr>"

definition kernel_world :: "Kernel \<Rightarrow> World" where
  "kernel_world K = \<lparr>w_fs = kernel_fs K, w_kernfs = kernel_kernfs K, w_user = kr_user K\<rparr>"

definition header_task :: "Kernel \<Rightarrow> u64 \<Rightarrow> KTask option" where
  "header_task K ts = (if ts = 0 then None else Some (kernel_task K ts))"

definition header_parent :: "Kernel \<Rightarrow> u64 \<Rightarrow> KTask option" where
  "header_parent K ts = map_option (kernel_task K) (task_struct_real_parent K ts)"

subsection \<open>The hooks\<close>

definition lsm_task :: "Kernel \<Rightarrow> u64 \<Rightarrow> Task" where
  "lsm_task K ts = \<lparr>ts_cgroup_id = task_cgroup_id K ts, ts_ns_tgid = task_struct_ns_tgid K ts\<rparr>"

definition lsm_file :: "Kernel \<Rightarrow> u64 \<Rightarrow> KFile" where
  "lsm_file K f = \<lparr>kf_path = kernel_file K f, kf_flags = file_f_flags K f\<rparr>"

definition lsm_addr :: "Kernel \<Rightarrow> u64 \<Rightarrow> SockAddr" where
  "lsm_addr K addr = \<lparr>sa_family = sockaddr_sa_family K addr, sa_s_addr = sockaddr_in_s_addr K addr,
     sa_sin_port = sockaddr_in_sin_port K addr\<rparr>"

definition file_open_program :: "'s EnforcementMaps \<Rightarrow> 's \<Rightarrow> Kernel \<Rightarrow> Heap \<Rightarrow> u64 \<Rightarrow> u64 \<Rightarrow> Outcome" where
  "file_open_program P s K h ts f = enforce_file_open P s (kernel_fs K) h (lsm_task K ts) (lsm_file K f)"

definition bprm_check_program :: "'s EnforcementMaps \<Rightarrow> 's \<Rightarrow> Kernel \<Rightarrow> Heap \<Rightarrow> u64 \<Rightarrow> u64 \<Rightarrow> Outcome" where
  "bprm_check_program P s K h ts bprm =
     enforce_bprm_check P s (kernel_fs K) h (lsm_task K ts) (map_option (lsm_file K) (linux_binprm_file K bprm))"

definition socket_connect_program :: "'s EnforcementMaps \<Rightarrow> 's \<Rightarrow> Kernel \<Rightarrow> u64 \<Rightarrow> u64 \<Rightarrow> Outcome" where
  "socket_connect_program P s K ts addr = enforce_socket_connect P s (lsm_task K ts) (lsm_addr K addr)"

subsection \<open>The monitors\<close>

definition fs_kernel :: "Kernel \<Rightarrow> FsKernel" where
  "fs_kernel K = \<lparr>fk_world = kernel_world K, fk_i_mode = inode_i_mode K, fk_i_ino = inode_i_ino K,
     fk_f_inode = file_f_inode K, fk_f_path = f_path_at K\<rparr>"

definition fs_task :: "Kernel \<Rightarrow> u64 \<Rightarrow> u64 \<Rightarrow> u64 \<Rightarrow> FsTask" where
  "fs_task K ts pid_tgid now = \<lparr>ft_cgroup_id = task_cgroup_id K ts, ft_pid_tgid = pid_tgid,
     ft_cred = map_option (cred_uid K) (task_struct_cred K ts), ft_ns_tgid = task_struct_ns_tgid K ts,
     ft_task = header_task K ts, ft_parent_task = header_parent K ts,
     ft_root_mnt = core_read_kernel ts [task_struct_fs K, fs_struct_root K, path_mnt K], ft_now = now\<rparr>"

definition proc_task :: "Kernel \<Rightarrow> u64 \<Rightarrow> u64 \<Rightarrow> u64 \<Rightarrow> ProcTask" where
  "proc_task K ts pid_tgid now = \<lparr>pt_cgroup_id = task_cgroup_id K ts, pt_pid_tgid = pid_tgid,
     pt_parent = map_option (\<lambda>p. (task_struct_pid K p, task_struct_comm_array K p)) (task_struct_real_parent K ts),
     pt_cred = map_option (\<lambda>c. \<lparr>cr_uid = cred_uid K c, cr_gid = cred_gid K c,
       cr_cap_effective = cred_cap_effective K c\<rparr>) (task_struct_cred K ts),
     pt_exe = map_option (\<lambda>f. \<lparr>xf_path = kernel_file K f,
       xf_ino = map_option (inode_i_ino K) (file_f_inode K f)\<rparr>) (exe_file_of K ts),
     pt_task = header_task K ts, pt_parent_task = header_parent K ts, pt_now = now\<rparr>"

definition skb_task :: "Kernel \<Rightarrow> u64 \<Rightarrow> u64 \<Rightarrow> SkbTask" where
  "skb_task K ts pid_tgid = \<lparr>st_comm = task_struct_comm_array K ts, st_tgid = task_struct_tgid K ts,
     st_pid = task_struct_pid K ts, st_start = task_struct_start_boottime K ts, st_pid_tgid = pid_tgid\<rparr>"

definition proxy_sock :: "Kernel \<Rightarrow> u64 \<Rightarrow> ProxySock" where
  "proxy_sock K sk = \<lparr>ps_rcv_saddr = Option.bind (sock_sk_common K sk) (sock_common_skc_rcv_saddr K),
     ps_daddr = Option.bind (sock_sk_common K sk) (sock_common_skc_daddr K),
     ps_dport = Option.bind (sock_sk_common K sk) (sock_common_skc_dport K)\<rparr>"

definition accepted_socket :: "Kernel \<Rightarrow> u64 \<Rightarrow> ProxySock option option" where
  "accepted_socket K socket =
     (if socket = 0 then None else Some (map_option (proxy_sock K) (socket_sk K socket)))"

definition connected_sock :: "Kernel \<Rightarrow> u64 \<Rightarrow> ProxySock option" where
  "connected_sock K sk = (if sk = 0 then None else Some (proxy_sock K sk))"

section \<open>A kernel without control groups\<close>

text \<open>The members that lead from a task to the id of its control group.\<close>

definition cgroup_chain :: "(string \<times> string) list" where
  "cgroup_chain = [(''task_struct'', ''sched_task_group''), (''task_group'', ''css''),
     (''cgroup_subsys_state'', ''cgroup''), (''cgroup'', ''kn'')]"

lemma no_cgroup_id:
  "(struc, memb) \<in> set cgroup_chain \<Longrightarrow> kr_offset K struc memb = None \<Longrightarrow> task_cgroup_id K ts = None"
  by (auto simp: cgroup_chain_def task_cgroup_id_def task_accessors shim_missing split: option.split)

text \<open>
  On a kernel that lacks one of the members that lead from a task to its control group (for instance one
  built without the scheduler's control groups), nothing is enforced and nothing is monitored. Each of the
  three hooks allows every access, silently, whatever policy is loaded; the file programs and the process
  programs report nothing and leave their maps alone.
\<close>

theorem unsupported_kernel_fails_open:
  assumes "(struc, memb) \<in> set cgroup_chain" and "kr_offset K struc memb = None"
  shows "file_open_program P s K h ts f = (0, []) \<and> bprm_check_program P s K h ts bprm = (0, [])
    \<and> socket_connect_program P s K ts addr = (0, [])
    \<and> process_vfs_fentry M m (fs_kernel K) watched (fs_task K ts pid_tgid now) f = (m, Inl 1)
    \<and> (\<exists>r. process_vfs_open M m (fs_kernel K) watched h (fs_task K ts pid_tgid now) retval f = (m, [], r))
    \<and> try_fork_tracepoint N n (kernel_world K) watched h (proc_task K ts pid_tgid now) = (n, [], Inl 1)
    \<and> handle_exec_common N n (kernel_world K) U watched h (proc_task K ts pid_tgid now) name argv = (n, Inl 1)"
  using no_cgroup_id [OF assms, of ts]
  by (simp add: file_open_program_def bprm_check_program_def socket_connect_program_def enforce_file_open_def
      enforce_bprm_check_def enforce_socket_connect_def lsm_task_def process_vfs_fentry_def process_vfs_open_def
      try_fork_tracepoint_def handle_exec_common_def fs_task_def proc_task_def Let_def)

section \<open>What a kernel must have\<close>

text \<open>
  The members that are accessed without a check: the mount around a \<open>vfsmount\<close>, the id of a kernfs node in
  one of its layouts, the numbers of a pid, and the ids and capabilities of the credentials.
\<close>

definition hook_members :: "Kernel \<Rightarrow> bool" where
  "hook_members K =
     (field_exists K ''mount'' ''mnt'' \<and> field_exists K ''pid'' ''numbers[0].nr''
      \<and> (field_exists K ''kernfs_node___older_v55'' ''id'' \<or> field_exists K ''kernfs_node'' ''id''))"

definition cred_members :: "Kernel \<Rightarrow> bool" where
  "cred_members K =
     (field_exists K ''cred'' ''uid.val'' \<and> field_exists K ''cred'' ''gid.val''
      \<and> (if field_exists K ''cred_cap_t_older_v515'' ''cap_effective''
         then field_exists K ''kernel_cap_t_older_v515'' ''cap''
         else field_exists K ''cred'' ''cap_effective.val''))"

lemma memory_poison:
  "kr_probe (K\<lparr>kr_poison := g\<rparr>) = kr_probe K" "kr_user (K\<lparr>kr_poison := g\<rparr>) = kr_user K"
  "kr_str (K\<lparr>kr_poison := g\<rparr>) = kr_str K"
  by simp_all

lemma inode_times_poison:
  "inode_i_atime (K\<lparr>kr_poison := g\<rparr>) = inode_i_atime K"
  "inode_i_mtime (K\<lparr>kr_poison := g\<rparr>) = inode_i_mtime K"
  "inode_i_ctime (K\<lparr>kr_poison := g\<rparr>) = inode_i_ctime K"
  unfolding fun_eq_iff inode_i_atime_def inode_i_mtime_def inode_i_ctime_def file_accessors guarded_poison by simp_all

lemma kernfs_id_poison:
  "hook_members K \<Longrightarrow> kernfs_node_id (K\<lparr>kr_poison := g\<rparr>) = kernfs_node_id K"
  by (rule ext) (auto simp: kernfs_node_id_def hook_members_def bpf_core_read_poison)

lemma cgroup_id_poison:
  "hook_members K \<Longrightarrow> task_cgroup_id (K\<lparr>kr_poison := g\<rparr>) = task_cgroup_id K"
  by (rule ext) (simp only: task_cgroup_id_def kernfs_id_poison task_accessors guarded_poison)

lemma kernel_fs_poison:
  assumes "hook_members K"
  shows "kernel_fs (K\<lparr>kr_poison := g\<rparr>) = kernel_fs K"
proof -
  have "vfsmount_mount (K\<lparr>kr_poison := g\<rparr>) = vfsmount_mount K"
    using assms by (intro ext) (simp add: vfsmount_mount_def hook_members_def member_addr_poison)
  moreover have "inode_metadata (K\<lparr>kr_poison := g\<rparr>) = inode_metadata K"
    unfolding fun_eq_iff inode_metadata_def inode_times_poison file_accessors guarded_poison by simp
  moreover have "qstr_len (K\<lparr>kr_poison := g\<rparr>) = qstr_len K"
    unfolding fun_eq_iff qstr_len_def file_accessors guarded_poison by simp
  ultimately show ?thesis by (simp add: kernel_fs_def file_accessors)
qed

lemma file_views_poison:
  "path_at (K\<lparr>kr_poison := g\<rparr>) = path_at K" "f_path_at (K\<lparr>kr_poison := g\<rparr>) = f_path_at K"
  "kernel_file (K\<lparr>kr_poison := g\<rparr>) = kernel_file K" "lsm_file (K\<lparr>kr_poison := g\<rparr>) = lsm_file K"
  "linux_binprm_file (K\<lparr>kr_poison := g\<rparr>) = linux_binprm_file K"
  "exe_file_of (K\<lparr>kr_poison := g\<rparr>) = exe_file_of K"
proof -
  have path: "path_at (K\<lparr>kr_poison := g\<rparr>) = path_at K"
    unfolding fun_eq_iff path_at_def file_accessors guarded_poison by simp
  have f_path: "f_path_at (K\<lparr>kr_poison := g\<rparr>) = f_path_at K"
    unfolding fun_eq_iff f_path_at_def path file_accessors guarded_poison by simp
  have whole: "kernel_file (K\<lparr>kr_poison := g\<rparr>) = kernel_file K"
    unfolding fun_eq_iff kernel_file_def f_path by simp
  show "path_at (K\<lparr>kr_poison := g\<rparr>) = path_at K" "f_path_at (K\<lparr>kr_poison := g\<rparr>) = f_path_at K"
    "kernel_file (K\<lparr>kr_poison := g\<rparr>) = kernel_file K"
    by (fact path f_path whole)+
  show "lsm_file (K\<lparr>kr_poison := g\<rparr>) = lsm_file K"
    unfolding fun_eq_iff lsm_file_def whole file_accessors guarded_poison by simp
  show "linux_binprm_file (K\<lparr>kr_poison := g\<rparr>) = linux_binprm_file K"
    "exe_file_of (K\<lparr>kr_poison := g\<rparr>) = exe_file_of K"
    unfolding fun_eq_iff exe_file_of_def task_accessors guarded_poison by simp_all
qed

lemma task_views_poison:
  "task_struct_comm_array (K\<lparr>kr_poison := g\<rparr>) = task_struct_comm_array K"
  "task_struct_start_boottime (K\<lparr>kr_poison := g\<rparr>) = task_struct_start_boottime K"
  "task_struct_get_cgroup_handle (K\<lparr>kr_poison := g\<rparr>) = task_struct_get_cgroup_handle K"
  "mnt_ns_of (K\<lparr>kr_poison := g\<rparr>) = mnt_ns_of K"
  unfolding fun_eq_iff task_struct_comm_array_def task_struct_start_boottime_def mnt_ns_of_def
    task_struct_get_cgroup_handle_def task_accessors guarded_poison memory_poison by simp_all

lemma ns_tgid_poison:
  assumes "hook_members K"
  shows "task_struct_ns_tgid (K\<lparr>kr_poison := g\<rparr>) = task_struct_ns_tgid K"
proof -
  have nr: "pid_struct_nr_at_level (K\<lparr>kr_poison := g\<rparr>) = pid_struct_nr_at_level K"
    using assms by (intro ext) (simp add: pid_struct_nr_at_level_def hook_members_def bpf_core_read_poison)
  show ?thesis unfolding fun_eq_iff task_struct_ns_tgid_def nr task_accessors guarded_poison by simp
qed

lemma kernel_task_poison: "kernel_task (K\<lparr>kr_poison := g\<rparr>) = kernel_task K"
  unfolding fun_eq_iff kernel_task_def file_views_poison task_views_poison task_accessors guarded_poison by simp

lemma header_poison:
  "header_task (K\<lparr>kr_poison := g\<rparr>) = header_task K" "header_parent (K\<lparr>kr_poison := g\<rparr>) = header_parent K"
  unfolding fun_eq_iff header_task_def header_parent_def kernel_task_poison task_accessors guarded_poison by simp_all

lemma kernel_world_poison:
  assumes "hook_members K"
  shows "kernel_world (K\<lparr>kr_poison := g\<rparr>) = kernel_world K"
proof -
  have "kernel_kernfs (K\<lparr>kr_poison := g\<rparr>) = kernel_kernfs K"
    unfolding kernel_kernfs_def kernfs_node_name_def kernfs_id_poison [OF assms] task_accessors guarded_poison
      memory_poison by simp
  then show ?thesis by (simp add: kernel_world_def kernel_fs_poison [OF assms])
qed

lemma cred_poison:
  assumes "cred_members K"
  shows "cred_uid (K\<lparr>kr_poison := g\<rparr>) = cred_uid K" "cred_gid (K\<lparr>kr_poison := g\<rparr>) = cred_gid K"
    "cred_cap_effective (K\<lparr>kr_poison := g\<rparr>) = cred_cap_effective K"
  using assms
  by (auto simp: fun_eq_iff cred_uid_def cred_gid_def cred_cap_effective_def cred_members_def
      bpf_core_read_poison member_addr_poison Let_def split: if_splits)

text \<open>
  C14: what the programs read never rests on a member that the kernel lacks. On a kernel that has the members
  accessed without a check (\<open>hook_members\<close>; for the monitors of processes and files also
  \<open>cred_members\<close>), every result of a hook, and everything a monitor reads, is the same for every value of
  the accesses that the loader could not relocate. All other members may be missing.
\<close>

theorem reads_relocated:
  assumes "hook_members K"
  shows "file_open_program P s (K\<lparr>kr_poison := g\<rparr>) h ts f = file_open_program P s K h ts f
    \<and> bprm_check_program P s (K\<lparr>kr_poison := g\<rparr>) h ts bprm = bprm_check_program P s K h ts bprm
    \<and> socket_connect_program P s (K\<lparr>kr_poison := g\<rparr>) ts addr = socket_connect_program P s K ts addr
    \<and> fs_kernel (K\<lparr>kr_poison := g\<rparr>) = fs_kernel K \<and> skb_task (K\<lparr>kr_poison := g\<rparr>) = skb_task K
    \<and> accepted_socket (K\<lparr>kr_poison := g\<rparr>) = accepted_socket K
    \<and> connected_sock (K\<lparr>kr_poison := g\<rparr>) = connected_sock K
    \<and> (cred_members K \<longrightarrow>
        fs_task (K\<lparr>kr_poison := g\<rparr>) = fs_task K \<and> proc_task (K\<lparr>kr_poison := g\<rparr>) = proc_task K)"
proof -
  have task: "lsm_task (K\<lparr>kr_poison := g\<rparr>) = lsm_task K"
    unfolding fun_eq_iff lsm_task_def cgroup_id_poison [OF assms] ns_tgid_poison [OF assms] by simp
  have addr: "lsm_addr (K\<lparr>kr_poison := g\<rparr>) = lsm_addr K"
    unfolding fun_eq_iff lsm_addr_def net_accessors guarded_poison by simp
  have sock: "proxy_sock (K\<lparr>kr_poison := g\<rparr>) = proxy_sock K"
    unfolding fun_eq_iff proxy_sock_def net_accessors guarded_poison by simp
  show ?thesis
    unfolding fun_eq_iff file_open_program_def bprm_check_program_def socket_connect_program_def task addr
      kernel_fs_poison [OF assms] file_views_poison fs_kernel_def kernel_world_poison [OF assms] skb_task_def
      task_views_poison accepted_socket_def connected_sock_def sock fs_task_def proc_task_def header_poison
      cgroup_id_poison [OF assms] ns_tgid_poison [OF assms] file_accessors task_accessors net_accessors guarded_poison
    using cred_poison [of K g] by simp
qed

section \<open>A file in memory\<close>

text \<open>
  C13: from memory to the verdict. If the kernel's memory holds a task in a control group and an open file whose
  dentries and mounts lead to the root by the components of a path, the hook on that task and file allows the
  access exactly if the policy that was loaded for the control group allows that path and access mode.
\<close>

theorem file_open_on_memory:
  assumes "kernel_laws P" and "apply_rules P cgid False rules skb s = (s', Inr stats)"
    and "unbound cgid (tables P s)" and "heap_ready h" and "task_cgroup_id K ts = Some cgid"
    and "core_read_kernel f [file_f_path K, path_dentry K] = Some e"
    and "core_read_kernel f [file_f_path K, path_mnt K] = Some mnt"
    and "dentry_d_inode K e = Some i" and "inode_metadata K i = Some md"
    and "mount_mnt_parent K (vfsmount_mount K mnt) = Some mp" and "vfsmount_mnt_root K mnt = Some mr"
    and "located (kernel_fs K) e (vfsmount_mount K mnt) mp mr comps n" and "n \<le> MAX_PATH_DEPTH"
    and "comps_size comps < MAX_PATH_LEN - 255" and "path = ''/'' @ join ''/'' comps"
  shows "fst (file_open_program P s' K h ts f)
    = (if file_decision rules path (kernel_class path) (requested_access (lsm_file K f)) then 0 else -1)"
proof -
  have "f \<noteq> 0" using assms(6) by (auto simp: file_f_path_def)
  moreover obtain p where p: "file_f_path K f = Some p" "path_dentry K p = Some e" "path_mnt K p = Some mnt"
    using assms(6,7) by (auto split: option.splits)
  moreover have "p \<noteq> 0" using p(2) by (auto simp: path_dentry_def)
  ultimately have "kf_path (lsm_file K f) = Some (Some (Some (Some e, Some mnt)))"
    by (simp add: lsm_file_def kernel_file_def f_path_at_def path_at_def)
  then have "resolves_to (kernel_fs K) h (lsm_file K f) path"
    unfolding assms(15)
    using assms(8-14) by (intro located_resolves [OF assms(4)]) (simp_all add: kernel_fs_def)
  then show ?thesis
    using file_open_loaded [OF load_effect [OF assms(1,2)] assms(3) _ _ refl refl refl refl] assms(5)
    by (simp add: file_open_program_def lsm_task_def)
qed

subsection \<open>A kernel byte by byte\<close>

definition le_bytes :: "nat \<Rightarrow> u64 \<Rightarrow> string" where
  "le_bytes n w = map (\<lambda>i. char_of (unat (drop_bit (8 * i) w AND 0xFF))) [0..<n]"

definition sample_offsets :: "((string \<times> string) \<times> u64) list" where
  "sample_offsets =
     [((''task_struct'', ''sched_task_group''), 8), ((''task_group'', ''css''), 0x10),
      ((''cgroup_subsys_state'', ''cgroup''), 0), ((''cgroup'', ''kn''), 0), ((''kernfs_node'', ''id''), 8),
      ((''file'', ''f_path''), 0x10), ((''file'', ''f_flags''), 0x28), ((''path'', ''mnt''), 0),
      ((''path'', ''dentry''), 8), ((''mount'', ''mnt_parent''), 0), ((''mount'', ''mnt''), 0x10),
      ((''vfsmount'', ''mnt_root''), 0), ((''dentry'', ''d_parent''), 0), ((''dentry'', ''d_name''), 8),
      ((''dentry'', ''d_inode''), 0x18), ((''qstr'', ''hash_len''), 0), ((''qstr'', ''name''), 8),
      ((''inode'', ''i_ino''), 0), ((''inode'', ''i_sb''), 8), ((''inode'', ''i_atime''), 0x10),
      ((''inode'', ''i_mtime''), 0x20), ((''inode'', ''i_ctime''), 0x30), ((''inode'', ''i_size''), 0x40),
      ((''super_block'', ''s_root''), 0), ((''pid'', ''numbers[0].nr''), 0x60),
      ((''cred'', ''uid.val''), 4), ((''cred'', ''gid.val''), 8), ((''cred'', ''cap_effective.val''), 0x30)]"

text \<open>
  A task at \<open>0x1000\<close> in the control group 7, and a file at \<open>0x2000\<close> open for reading, whose dentry \<open>hosts\<close> is in
  the directory \<open>etc\<close> of the only mount.
\<close>

definition sample_cells :: "(u64 \<times> u64) list" where
  "sample_cells =
     [(0x1008, 0x1100), (0x1110, 0x1200), (0x1200, 0x1300), (0x1308, 7),
      (0x2010, 0x3010), (0x2018, 0x4000), (0x3000, 0x3000), (0x3010, 0x4200),
      (0x4000, 0x4100), (0x4008, 0x500000000), (0x4010, 0x5000), (0x4018, 0x6000),
      (0x4100, 0x4200), (0x4108, 0x300000000), (0x4110, 0x5100), (0x4218, 0x6100),
      (0x6000, 9), (0x6008, 0x7000), (0x6100, 1), (0x7000, 0x4200)]"

definition sample_kernel :: Kernel where
  "sample_kernel = \<lparr>kr_offset = (\<lambda>struc memb. map_of sample_offsets (struc, memb)), kr_poison = (\<lambda>_ _. 0),
     kr_probe = (\<lambda>a n. Some (if a = 0x5000 then take n ''hosts'' else if a = 0x5100 then take n ''etc''
       else le_bytes n (case map_of sample_cells a of Some w \<Rightarrow> w | None \<Rightarrow> 0))),
     kr_user = (\<lambda>_ _. None), kr_str = (\<lambda>_. None)\<rparr>"

lemma sample_task:
  "task_cgroup_id sample_kernel 0x1000 = Some 7"
  by code_simp

lemma sample_path:
  "core_read_kernel 0x2000 [file_f_path sample_kernel, path_dentry sample_kernel] = Some 0x4000"
  by code_simp

lemma sample_mount:
  "core_read_kernel 0x2000 [file_f_path sample_kernel, path_mnt sample_kernel] = Some 0x3010"
  by code_simp

lemma sample_inode_of:
  "dentry_d_inode sample_kernel 0x4000 = Some 0x6000"
  by code_simp

lemma sample_container:
  "vfsmount_mount sample_kernel 0x3010 = 0x3000"
  by code_simp

lemma sample_parent_mount:
  "mount_mnt_parent sample_kernel 0x3000 = Some 0x3000"
  by code_simp

lemma sample_root:
  "vfsmount_mnt_root sample_kernel 0x3010 = Some 0x4200"
  by code_simp

lemma sample_parents:
  "dentry_d_parent sample_kernel 0x4000 = Some 0x4100"
  by code_simp

lemma sample_parents2:
  "dentry_d_parent sample_kernel 0x4100 = Some 0x4200"
  by code_simp

lemma sample_names:
  "dentry_name (kernel_fs sample_kernel) 0x4000 = Some ''hosts''"
  by code_simp

lemma sample_names2:
  "dentry_name (kernel_fs sample_kernel) 0x4100 = Some ''etc''"
  by code_simp

lemma sample_metadata:
  "inode_metadata sample_kernel 0x6000 \<noteq> None"
  by code_simp

lemma sample_flags:
  "requested_access (lsm_file sample_kernel 0x2000) = ACCESS_READ"
  by code_simp

lemmas sample_reads = sample_task sample_path sample_mount sample_inode_of sample_container sample_parent_mount sample_root sample_parents sample_parents2 sample_names sample_names2 sample_metadata sample_flags

lemma sample_file_located:
  "located (kernel_fs sample_kernel) 0x4000 (vfsmount_mount sample_kernel 0x3010) 0x3000 0x4200
     [''etc'', ''hosts''] (Suc (Suc 1))"
proof -
  have up: "k_d_parent (kernel_fs sample_kernel) = dentry_d_parent sample_kernel" by (simp add: kernel_fs_def)
  have "located (kernel_fs sample_kernel) 0x4200 0x3000 0x3000 0x4200 [] 1" by (rule located.root)
  then have "located (kernel_fs sample_kernel) 0x4100 0x3000 0x3000 0x4200 ([] @ [''etc'']) (Suc 1)"
    by (rule located.child [rotated 6]) (simp_all add: up sample_reads)
  then have "located (kernel_fs sample_kernel) 0x4000 0x3000 0x3000 0x4200 (([] @ [''etc'']) @ [''hosts'']) (Suc (Suc 1))"
    by (rule located.child [rotated 6]) (simp_all add: up sample_reads)
  then show ?thesis by (simp add: sample_reads)
qed

lemma file_open_on_memory_witness:
  "\<exists>s' stats. apply_rules hash_kernel 7 False hosts_policy True empty_maps = (s', Inr stats)
     \<and> fst (file_open_program hash_kernel s' sample_kernel fresh_heap 0x1000 0x2000) = 0"
proof -
  obtain s' stats where r: "apply_rules hash_kernel 7 False hosts_policy True empty_maps = (s', Inr stats)"
    using small_policy_loads [OF policy_sizes(1)] by blast
  obtain md where md: "inode_metadata sample_kernel 0x6000 = Some md" using sample_reads(12) by blast
  have heap: "heap_ready fresh_heap" by (simp add: heap_ready_def fresh_heap_def)
  have mount: "mount_mnt_parent sample_kernel (vfsmount_mount sample_kernel 0x3010) = Some 0x3000"
    by (simp add: sample_reads)
  have sizes: "Suc (Suc 1) \<le> MAX_PATH_DEPTH" "comps_size [''etc'', ''hosts''] < MAX_PATH_LEN - 255"
    by (simp_all add: MAX_PATH_DEPTH_def comps_size_def MAX_PATH_LEN_def)
  have "fst (file_open_program hash_kernel s' sample_kernel fresh_heap 0x1000 0x2000)
    = (if file_decision hosts_policy ''/etc/hosts'' (kernel_class ''/etc/hosts'')
        (requested_access (lsm_file sample_kernel 0x2000)) then 0 else -1)"
    by (rule file_open_on_memory [OF hash_kernel_laws r empty_unbound heap sample_reads(1,2,3,4) md mount
          sample_reads(7) sample_file_located sizes]) simp
  then show ?thesis using r hosts_decision(1) by (auto simp: sample_reads(13))
qed

lemma reads_relocated_witness:
  "file_open_program hash_kernel empty_maps (sample_kernel\<lparr>kr_poison := (\<lambda>_ _. 1)\<rparr>) fresh_heap 0x1000 0x2000
     = file_open_program hash_kernel empty_maps sample_kernel fresh_heap 0x1000 0x2000
   \<and> fs_task (sample_kernel\<lparr>kr_poison := (\<lambda>_ _. 1)\<rparr>) = fs_task sample_kernel"
proof -
  have "hook_members sample_kernel" "cred_members sample_kernel" by code_simp+
  from reads_relocated [OF this(1), of hash_kernel empty_maps "\<lambda>_ _. 1" fresh_heap "0x1000" "0x2000"] this(2)
  show ?thesis by blast
qed

definition small_kernel :: Kernel where
  "small_kernel = sample_kernel\<lparr>kr_offset := (\<lambda>struc memb. if struc = ''task_group'' then None
     else kr_offset sample_kernel struc memb)\<rparr>"

lemma unsupported_kernel_fails_open_witness:
  "file_open_program hash_kernel empty_maps small_kernel fresh_heap 0x1000 0x2000 = (0, [])"
proof -
  have "(''task_group'', ''css'') \<in> set cgroup_chain" by (simp add: cgroup_chain_def)
  moreover have "kr_offset small_kernel ''task_group'' ''css'' = None" by (simp add: small_kernel_def)
  ultimately show ?thesis by (rule unsupported_kernel_fails_open [THEN conjunct1])
qed

text \<open>
  A kernel from before 6.3, which keeps the capabilities as an array of two words: the access of the monitors to
  them is the one that is not relocated.
\<close>

definition old_kernel :: Kernel where
  "old_kernel = sample_kernel\<lparr>kr_offset := (\<lambda>struc memb. if memb = ''cap_effective.val'' then None
     else kr_offset sample_kernel struc memb)\<rparr>"

lemma old_kernel_poisoned:
  "hook_members old_kernel" "\<not> cred_members old_kernel"
  "cred_cap_effective old_kernel 0x5FD0 \<noteq> cred_cap_effective (old_kernel\<lparr>kr_poison := (\<lambda>_ _. 0x30)\<rparr>) 0x5FD0"
  by code_simp+

end
