(* ===== verification/EventReaders.thy ===== *)
theory EventReaders
  imports Events Driver
begin

text \<open>
  The way of an event from the kernel into the map of counts, \<open>listen_all_events\<close> and \<open>simple_event_reader\<close> in
  \<open>ebpf-mon/src/manager.rs\<close>, and the readers of audit events in \<open>main.rs\<close>. One task per processor reads the
  perf buffer of its processor and sends the events into a bounded channel, and one task receives them. The
  tasks run concurrently: \<open>pipe_step\<close> interleaves them with the output of the kernel.

  Perf buffers and the channel belong to libraries: a buffer is a list of events, and \<open>room\<close> says whether another
  one fits; a reader that is not opened has no buffer, and what its processor puts out is lost.
\<close>

section \<open>The tasks\<close>

definition READ_BUFFERS :: nat where "READ_BUFFERS = 10"
definition CHANNEL_SIZE :: nat where "CHANNEL_SIZE = 100"

text \<open>\<open>rd_perf\<close> is the perf buffer, \<open>rd_hand\<close> are the events of the last read that are still to be sent.\<close>

record Reader =
  rd_cpu :: nat
  rd_perf :: "EncodedEvent list"
  rd_hand :: "EncodedEvent list"

record Pipe =
  pi_readers :: "Reader list"
  pi_channel :: "EncodedEvent list"
  pi_map :: EventMap

definition from_bytes :: "u8 list \<Rightarrow> EncodedEvent" where
  "from_bytes bytes = bytes"

definition open_buffers :: "(nat \<Rightarrow> bool) \<Rightarrow> nat list \<Rightarrow> Reader list" where
  "open_buffers installs cpu_ids =
     map (\<lambda>cpu. \<lparr>rd_cpu = cpu, rd_perf = [], rd_hand = []\<rparr>) (filter installs cpu_ids)"

definition start_pipe :: "(nat \<Rightarrow> bool) \<Rightarrow> nat list \<Rightarrow> Pipe" where
  "start_pipe installs cpu_ids = \<lparr>pi_readers = open_buffers installs cpu_ids, pi_channel = [], pi_map = []\<rparr>"

text \<open>One successful \<open>read_events\<close>.\<close>

definition read_events :: "Reader \<Rightarrow> Reader" where
  "read_events r = r\<lparr>rd_hand := take READ_BUFFERS (rd_perf r), rd_perf := drop READ_BUFFERS (rd_perf r)\<rparr>"

datatype Label = Emitted nat EncodedEvent | Lost nat EncodedEvent | Quiet | Recorded EncodedEvent

inductive pipe_step ::
    "Layouts \<Rightarrow> (Event \<Rightarrow> Event \<Rightarrow> bool) \<Rightarrow> (EncodedEvent list \<Rightarrow> EncodedEvent \<Rightarrow> bool) \<Rightarrow> Pipe \<Rightarrow> Label \<Rightarrow> Pipe \<Rightarrow> bool"
  for L reach room where
  emit: "i < length (pi_readers p) \<Longrightarrow> r = pi_readers p ! i \<Longrightarrow> room (rd_perf r) e \<Longrightarrow>
    pipe_step L reach room p (Emitted (rd_cpu r) e)
      (p\<lparr>pi_readers := (pi_readers p)[i := r\<lparr>rd_perf := rd_perf r @ [e]\<rparr>]\<rparr>)"
| lose: "\<forall>r \<in> set (pi_readers p). rd_cpu r = cpu \<longrightarrow> \<not> room (rd_perf r) e \<Longrightarrow>
    pipe_step L reach room p (Lost cpu e) p"
| read: "i < length (pi_readers p) \<Longrightarrow> r = pi_readers p ! i \<Longrightarrow> rd_hand r = [] \<Longrightarrow> rd_perf r \<noteq> [] \<Longrightarrow>
    pipe_step L reach room p Quiet (p\<lparr>pi_readers := (pi_readers p)[i := read_events r]\<rparr>)"
| send: "i < length (pi_readers p) \<Longrightarrow> r = pi_readers p ! i \<Longrightarrow> rd_hand r = buffer # rest \<Longrightarrow>
    length (pi_channel p) < CHANNEL_SIZE \<Longrightarrow>
    pipe_step L reach room p Quiet
      (p\<lparr>pi_readers := (pi_readers p)[i := r\<lparr>rd_hand := rest\<rparr>],
         pi_channel := pi_channel p @ [from_bytes buffer]\<rparr>)"
| receive: "pi_channel p = e # rest \<Longrightarrow>
    pipe_step L reach room p (Recorded e)
      (p\<lparr>pi_channel := rest, pi_map := read_event L reach (pi_map p) e\<rparr>)"

inductive_cases pipe_stepE: "pipe_step L reach room p l q"

inductive pipe_run ::
    "Layouts \<Rightarrow> (Event \<Rightarrow> Event \<Rightarrow> bool) \<Rightarrow> (EncodedEvent list \<Rightarrow> EncodedEvent \<Rightarrow> bool) \<Rightarrow> Pipe \<Rightarrow> Label list \<Rightarrow> Pipe \<Rightarrow> bool"
  for L reach room where
  empty_run: "pipe_run L reach room p [] p"
| longer_run: "pipe_run L reach room p ls q \<Longrightarrow> pipe_step L reach room q l q' \<Longrightarrow> pipe_run L reach room p (ls @ [l]) q'"

section \<open>The readers of audit events\<close>

text \<open>
  \<open>listen_audit_events\<close>: \<open>None\<close> stands for an early return. A processor whose buffer cannot be opened is left out.
\<close>

definition listen_audit_events :: "bool \<Rightarrow> nat list option \<Rightarrow> (nat \<Rightarrow> bool) \<Rightarrow> nat list option" where
  "listen_audit_events perf_array cpus installs =
     (if \<not> perf_array then None else map_option (filter installs) cpus)"

text \<open>\<open>read_audit_cpu\<close> over the results of its reads: a failed read ends the task.\<close>

fun read_audit_cpu :: "(string + u8 list list) list \<Rightarrow> string list" where
  "read_audit_cpu [] = []"
| "read_audit_cpu (Inr buffers # rs) = List.map_filter audit_line buffers @ read_audit_cpu rs"
| "read_audit_cpu (Inl e # rs) = [''Audit perf read error: '' @ e]"

section \<open>What is recorded\<close>

definition emitted :: "Label list \<Rightarrow> EncodedEvent list" where
  "emitted ls = List.map_filter (\<lambda>l. case l of Emitted c e \<Rightarrow> Some e | _ \<Rightarrow> None) ls"

definition recorded :: "Label list \<Rightarrow> EncodedEvent list" where
  "recorded ls = List.map_filter (\<lambda>l. case l of Recorded e \<Rightarrow> Some e | _ \<Rightarrow> None) ls"

definition held :: "Reader \<Rightarrow> EncodedEvent list" where
  "held r = rd_hand r @ rd_perf r"

definition in_flight :: "Pipe \<Rightarrow> EncodedEvent list" where
  "in_flight p = pi_channel p @ concat (map held (pi_readers p))"

lemma emitted_snoc: "emitted (ls @ [l]) = emitted ls @ (case l of Emitted c e \<Rightarrow> [e] | _ \<Rightarrow> [])"
  by (simp add: emitted_def List.map_filter_def split: Label.split)

lemma recorded_snoc: "recorded (ls @ [l]) = recorded ls @ (case l of Recorded e \<Rightarrow> [e] | _ \<Rightarrow> [])"
  by (simp add: recorded_def List.map_filter_def split: Label.split)

lemma mset_concat_update:
  assumes "i < length rs"
  shows "mset (concat (map g (rs[i := r]))) + mset (g (rs ! i)) = mset (concat (map g rs)) + mset (g r)"
proof -
  have "rs = take i rs @ rs ! i # drop (Suc i) rs" using assms by (rule id_take_nth_drop)
  then have "mset (concat (map g rs)) = mset (concat (map g (take i rs))) + mset (g (rs ! i))
      + mset (concat (map g (drop (Suc i) rs)))"
    by (metis (no_types, lifting) concat.simps(2) concat_append list.simps(9) map_append mset_append union_assoc)
  moreover have "mset (concat (map g (rs[i := r]))) = mset (concat (map g (take i rs))) + mset (g r)
      + mset (concat (map g (drop (Suc i) rs)))"
    using assms by (simp add: upd_conv_take_nth_drop)
  ultimately show ?thesis by simp
qed

lemma held_read: "rd_hand r = [] \<Longrightarrow> held (read_events r) = held r"
  by (simp add: held_def read_events_def)

lemma step_conserves:
  assumes "pipe_step L reach room p l q"
  shows "mset (in_flight q) + mset (case l of Recorded e \<Rightarrow> [e] | _ \<Rightarrow> [])
    = mset (in_flight p) + mset (case l of Emitted c e \<Rightarrow> [e] | _ \<Rightarrow> [])"
  using assms
proof cases
  case (emit i r e)
  then show ?thesis
    using mset_concat_update [of i "pi_readers p" held "r\<lparr>rd_perf := rd_perf r @ [e]\<rparr>"]
    by (simp add: in_flight_def held_def)
next
  case (read i r)
  then show ?thesis
    using mset_concat_update [of i "pi_readers p" held "read_events r"]
    by (simp add: in_flight_def held_read)
next
  case (send i r buffer rest)
  then show ?thesis
    using mset_concat_update [of i "pi_readers p" held "r\<lparr>rd_hand := rest\<rparr>"]
    by (simp add: in_flight_def held_def from_bytes_def)
qed (simp_all add: in_flight_def)

lemma run_conserves:
  "pipe_run L reach room p ls q \<Longrightarrow>
     mset (recorded ls) + mset (in_flight q) = mset (in_flight p) + mset (emitted ls)"
proof (induction rule: pipe_run.induct)
  case (longer_run p ls q l q')
  let ?got = "mset (case l of Recorded e \<Rightarrow> [e] | _ \<Rightarrow> [])" and ?new = "mset (case l of Emitted c e \<Rightarrow> [e] | _ \<Rightarrow> [])"
  have "mset (recorded (ls @ [l])) + mset (in_flight q') = mset (recorded ls) + (mset (in_flight q') + ?got)"
    by (simp add: recorded_snoc ac_simps)
  also have "\<dots> = mset (recorded ls) + mset (in_flight q) + ?new"
    unfolding step_conserves [OF longer_run.hyps(2)] by (simp add: ac_simps)
  also have "\<dots> = mset (in_flight p) + mset (emitted (ls @ [l]))"
    unfolding longer_run.IH by (simp add: emitted_snoc ac_simps)
  finally show ?case .
qed (simp add: emitted_def recorded_def List.map_filter_simps)

lemma run_map:
  "pipe_run L reach room p ls q \<Longrightarrow> pi_map q = simple_event_reader L reach (pi_map p) (recorded ls)"
proof (induction rule: pipe_run.induct)
  case (longer_run p ls q l q')
  from longer_run.hyps(2) show ?case
    by cases (simp_all add: recorded_snoc simple_event_reader_def longer_run.IH)
qed (simp add: recorded_def simple_event_reader_def List.map_filter_simps)

lemma start_empty: "in_flight (start_pipe installs cpu_ids) = []" "pi_map (start_pipe installs cpu_ids) = []"
  by (auto simp: in_flight_def start_pipe_def open_buffers_def held_def)

lemma decoded_mset:
  assumes "mset xs = mset ys"
  shows "length (filter P (decoded L xs)) = length (filter P (decoded L ys))"
proof -
  have "mset (decoded L xs) = mset (decoded L ys)"
    using assms by (simp add: decoded_def List.map_filter_def mset_filter)
  then show ?thesis by (metis mset_filter size_mset)
qed


section \<open>Everything arrives\<close>

text \<open>How many steps the events that are under way still take.\<close>

definition load_of :: "Reader \<Rightarrow> nat" where
  "load_of r = 2 * length (rd_hand r) + 4 * length (rd_perf r)"

definition load :: "Pipe \<Rightarrow> nat" where
  "load p = length (pi_channel p) + sum_list (map load_of (pi_readers p))"

lemma sum_update:
  fixes g :: "Reader \<Rightarrow> nat"
  assumes "i < length rs"
  shows "sum_list (map g (rs[i := r])) + g (rs ! i) = sum_list (map g rs) + g r"
proof -
  have "sum_list (map g rs) = sum_list (map g (take i rs)) + g (rs ! i) + sum_list (map g (drop (Suc i) rs))"
    using id_take_nth_drop [OF assms] by (metis (no_types, lifting) add.assoc list.simps(9) map_append sum_list.Cons sum_list.append)
  then show ?thesis using assms by (simp add: upd_conv_take_nth_drop)
qed

definition internal :: "Label \<Rightarrow> bool" where
  "internal l = (case l of Emitted c e \<Rightarrow> False | Lost c e \<Rightarrow> False | _ \<Rightarrow> True)"

lemma internal_step_decreases:
  assumes "pipe_step L reach room p l q" and "internal l"
  shows "load q < load p"
  using assms
proof cases
  case (read i r)
  have "load_of (read_events r) < load_of r"
    using read by (cases "length (rd_perf r) \<le> READ_BUFFERS") (auto simp: load_of_def read_events_def READ_BUFFERS_def)
  then show ?thesis
    using read sum_update [of i "pi_readers p" load_of "read_events r"] by (simp add: load_def)
next
  case (send i r buffer rest)
  then show ?thesis
    using sum_update [of i "pi_readers p" load_of "r\<lparr>rd_hand := rest\<rparr>"] by (simp add: load_def load_of_def)
qed (simp_all add: internal_def load_def)

lemma internal_run_bounded:
  "pipe_run L reach room p ls q \<Longrightarrow> list_all internal ls \<Longrightarrow> length ls + load q \<le> load p"
proof (induction rule: pipe_run.induct)
  case (longer_run p ls q l q')
  then show ?case using internal_step_decreases [OF longer_run.hyps(2)] by simp
qed simp

lemma internal_step_enabled:
  assumes "in_flight p \<noteq> []"
  shows "\<exists>l q. internal l \<and> pipe_step L reach room p l q"
proof (cases "pi_channel p")
  case (Cons e rest)
  have "internal (Recorded e)" by (simp add: internal_def)
  then show ?thesis using receive [OF Cons, of L reach room] by blast
next
  case Nil
  then obtain r where "r \<in> set (pi_readers p)" "held r \<noteq> []"
    using assms by (auto simp: in_flight_def)
  then obtain i where i: "i < length (pi_readers p)" "r = pi_readers p ! i" by (auto simp: in_set_conv_nth)
  have quiet: "internal Quiet" by (simp add: internal_def)
  show ?thesis
  proof (cases "rd_hand r")
    case (Cons buffer rest)
    have "length (pi_channel p) < CHANNEL_SIZE" using Nil by (simp add: CHANNEL_SIZE_def)
    from send [OF i Cons this, of L reach room] show ?thesis using quiet by blast
  next
    case Nil
    moreover from this have "rd_perf r \<noteq> []" using \<open>held r \<noteq> []\<close> by (simp add: held_def)
    ultimately show ?thesis using read [OF i, of L reach room] quiet by blast
  qed
qed

lemma pipe_run_Cons:
  assumes "pipe_step L reach room p l q" and "pipe_run L reach room q ls r"
  shows "pipe_run L reach room p (l # ls) r"
  using assms(2,1)
proof (induction rule: pipe_run.induct)
  case (empty_run q)
  then show ?case using pipe_run.longer_run [OF pipe_run.empty_run] by fastforce
next
  case (longer_run q ls r l' r')
  then show ?case using pipe_run.longer_run by fastforce
qed

lemma pipe_drains: "\<exists>ls q. list_all internal ls \<and> pipe_run L reach room p ls q \<and> in_flight q = []"
proof (induction "load p" arbitrary: p rule: less_induct)
  case less
  show ?case
  proof (cases "in_flight p = []")
    case True
    moreover have "list_all internal []" by simp
    ultimately show ?thesis using pipe_run.empty_run by blast
  next
    case False
    then obtain l q where l: "internal l" "pipe_step L reach room p l q"
      using internal_step_enabled by blast
    obtain ls q' where "list_all internal ls" "pipe_run L reach room q ls q'" "in_flight q' = []"
      using less [OF internal_step_decreases [OF l(2,1)]] by blast
    then have "list_all internal (l # ls)" "pipe_run L reach room p (l # ls) q'"
      using l pipe_run_Cons by simp_all
    then show ?thesis using \<open>in_flight q' = []\<close> by blast
  qed
qed


text \<open>A processor whose buffer was not opened: all it puts out is lost.\<close>

lemma unopened_lost:
  "cpu \<notin> set (filter installs cpu_ids) \<Longrightarrow>
   pipe_step L reach room (start_pipe installs cpu_ids) (Lost cpu e) (start_pipe installs cpu_ids)"
  by (rule lose) (auto simp: start_pipe_def open_buffers_def)

section \<open>Two processors\<close>

lemma pipe_run_append:
  assumes "pipe_run L reach room q ls r" and "pipe_run L reach room p ks q"
  shows "pipe_run L reach room p (ks @ ls) r"
  using assms
proof (induction rule: pipe_run.induct)
  case (longer_run q ls r l r')
  then show ?case using pipe_run.longer_run by fastforce
qed simp

lemma internal_emits_nothing: "list_all internal ls \<Longrightarrow> emitted ls = []"
  by (induction ls) (auto simp: emitted_def List.map_filter_simps internal_def split: Label.splits)

lemma emitted_append: "emitted (ks @ ls) = emitted ks @ emitted ls"
  by (simp add: emitted_def List.map_filter_def)

text \<open>Layouts in which every byte is a read of the same file.\<close>

definition sample_read :: FsEventRaw where
  "sample_read = zeroed_fs_event\<lparr>er_header := default_event_info\<lparr>ei_event_type := EvFileRead\<rparr>\<rparr>"

definition sample_packet :: NetworkEventRaw where
  "sample_packet = \<lparr>er_header = default_event_info, er_payload = \<lparr>np_comm = [], np_pid = 0, np_tgid = 0,
     np_sk_uid = 0, np_sk_type = 0, np_skc_family = 0, np_protocol = 6, np_src_ip = 0, np_dst_ip = 0,
     np_src_port = 0, np_dst_port = 0, np_doff_flags = 0, np_direction = Egress\<rparr>\<rparr>"

definition sample_layouts :: Layouts where
  "sample_layouts = \<lparr>ly_info = \<lparr>l_size = 1, l_read = (\<lambda>_. er_header sample_read)\<rparr>,
     ly_network = \<lparr>l_size = 1, l_read = (\<lambda>_. sample_packet)\<rparr>,
     ly_fs = \<lparr>l_size = 1, l_read = (\<lambda>_. sample_read)\<rparr>,
     ly_process = \<lparr>l_size = 1, l_read = (\<lambda>_. zeroed_process_event)\<rparr>\<rparr>"

lemma sample_decoded:
  "decoded sample_layouts [[0], [0]] = [FsEv (fs_event_from_raw sample_read), FsEv (fs_event_from_raw sample_read)]"
proof -
  have "transform_event sample_layouts [0] = Inr (FsEv (fs_event_from_raw sample_read))"
    by (simp add: transform_event_def sample_layouts_def event_info_def as_event_with_data_def)
      (simp add: sample_read_def as_event_with_data_def)
  then show ?thesis by (simp add: decoded_def List.map_filter_simps)
qed

definition two_readers :: Pipe where
  "two_readers = start_pipe (\<lambda>_. True) [0, 1]"

lemma two_emitted:
  "\<exists>p. pipe_run L reach (\<lambda>_ _. True) two_readers [Emitted 1 [0], Emitted 0 [0]] p"
proof -
  let ?r1 = "\<lparr>rd_cpu = 1, rd_perf = [], rd_hand = []\<rparr>" and ?r0 = "\<lparr>rd_cpu = 0, rd_perf = [], rd_hand = []\<rparr>"
  let ?p = "two_readers\<lparr>pi_readers := [?r0, ?r1\<lparr>rd_perf := [[0]]\<rparr>]\<rparr>"
  have "pipe_step L reach (\<lambda>_ _. True) two_readers (Emitted (rd_cpu ?r1) [0])
      (two_readers\<lparr>pi_readers := (pi_readers two_readers)[1 := ?r1\<lparr>rd_perf := rd_perf ?r1 @ [[0]]\<rparr>]\<rparr>)"
    by (rule emit) (simp_all add: two_readers_def start_pipe_def open_buffers_def)
  then have "pipe_step L reach (\<lambda>_ _. True) two_readers (Emitted 1 [0]) ?p"
    by (simp add: two_readers_def start_pipe_def open_buffers_def)
  moreover have "pipe_step L reach (\<lambda>_ _. True) ?p (Emitted (rd_cpu ?r0) [0])
      (?p\<lparr>pi_readers := (pi_readers ?p)[0 := ?r0\<lparr>rd_perf := rd_perf ?r0 @ [[0]]\<rparr>]\<rparr>)"
    by (rule emit) simp_all
  ultimately show ?thesis by (fastforce intro: pipe_run_Cons pipe_run.empty_run)
qed



end
