(* ===== verification/Session.thy ===== *)
theory Session
  imports EventReaders Startup
begin

text \<open>
  The running program from the line that says READY to its end, \<open>main\<close> in \<open>ebpf-mon/src/main.rs\<close>: the tasks that
  record events, the task that writes \<open>events.json\<close> every five seconds, and what happens on Ctrl-C. The current
  control group may change at any time (\<open>Restart\<close> models how). Which file operations succeed is open.
\<close>

section \<open>Writing a profile\<close>

text \<open>
  \<open>File::create\<close> truncates the file before \<open>write_all\<close> fills it, so a write that fails half-way leaves a part of
  the text.
\<close>

datatype WriteOutcome = NotSerialized string | NotCreated string | WrittenUpTo nat string | Written

type_synonym Files = "string \<Rightarrow> string option"

definition export_to_file ::
    "(Value \<Rightarrow> string) \<Rightarrow> Files \<Rightarrow> string \<Rightarrow> EventMap \<Rightarrow> u64 \<Rightarrow> WriteOutcome \<Rightarrow> Files \<times> (string + unit)" where
  "export_to_file pretty files filename m cgroup outcome =
     (let json_output = export_events_to_json pretty m cgroup in
      case outcome of
        NotSerialized e \<Rightarrow> (files, Inl e)
      | NotCreated e \<Rightarrow> (files, Inl e)
      | WrittenUpTo n e \<Rightarrow> (files(filename \<mapsto> take n json_output), Inl e)
      | Written \<Rightarrow> (files(filename \<mapsto> json_output), Inr ()))"

text \<open>The total in the log line is a sum of 32-bit counts.\<close>

definition total_events :: "EventMap \<Rightarrow> u32" where
  "total_events m = sum_list (map snd m)"

section \<open>The session\<close>

record Session =
  ss_pipe :: Pipe
  ss_cgid :: u64
  ss_files :: Files
  ss_stop_flag :: "bool option"
  ss_printed :: "string list"
  ss_running :: bool

definition session_start :: "Pipe \<Rightarrow> u64 \<Rightarrow> Files \<Rightarrow> TrackedContainer \<Rightarrow> Session" where
  "session_start p cgid files tc =
     \<lparr>ss_pipe = p, ss_cgid = cgid, ss_files = files,
      ss_stop_flag = map_option (\<lambda>_. False) (watched_container tc),
      ss_printed = [''Waiting for Ctrl-C...'', ''Events will be exported to JSON every 5 seconds...'']
        @ (if tc_restart_tracking_enabled tc then [''Container restart tracking: ENABLED''] else []),
      ss_running = True\<rparr>"

text \<open>One tick of the timer.\<close>

definition export_tick :: "(Value \<Rightarrow> string) \<Rightarrow> WriteOutcome \<Rightarrow> Session \<Rightarrow> Session" where
  "export_tick pretty outcome s =
     (case export_to_file pretty (ss_files s) ''events.json'' (pi_map (ss_pipe s)) (ss_cgid s) outcome of
        (files, r) \<Rightarrow>
          s\<lparr>ss_files := files,
            ss_printed := ss_printed s
              @ (case r of Inl e \<Rightarrow> [''Failed to export events to JSON: '' @ e] | Inr u \<Rightarrow> [])\<rparr>)"

definition rule_line_80 :: string where "rule_line_80 = replicate 80 CHR ''#''"

text \<open>Ctrl-C.\<close>

definition shut_down :: "Args \<Rightarrow> (Value \<Rightarrow> string) \<Rightarrow> WriteOutcome \<Rightarrow> Session \<Rightarrow> Session" where
  "shut_down args pretty outcome s =
     (let s = s\<lparr>ss_stop_flag := map_option (\<lambda>_. True) (ss_stop_flag s), ss_running := False,
        ss_printed := ss_printed s @ [''Exiting...'', [CHR 0x0A, CHR 0x0A], rule_line_80,
          ''###                          FINAL SUMMARY                                  ###'', rule_line_80]\<rparr> in
      if profile_written args then
        (case export_to_file pretty (ss_files s) ''final-events.json'' (pi_map (ss_pipe s)) (ss_cgid s) outcome of
           (files, r) \<Rightarrow>
             s\<lparr>ss_files := files,
               ss_printed := ss_printed s
                 @ (case r of Inl e \<Rightarrow> [''Failed to export final events to JSON: '' @ e] | Inr u \<Rightarrow> [])
                 @ [''### JSON events exported to final-events.json and text summary saved     ###'', rule_line_80]\<rparr>)
      else
        s\<lparr>ss_printed := ss_printed s @ [''### Enforcement mode '' @ [CHR 0xE2, CHR 0x80, CHR 0x94]
            @ '' profile not overwritten                           ###'', rule_line_80]\<rparr>)"

inductive session_run ::
    "Args \<Rightarrow> (Value \<Rightarrow> string) \<Rightarrow> Layouts \<Rightarrow> (Event \<Rightarrow> Event \<Rightarrow> bool) \<Rightarrow> (EncodedEvent list \<Rightarrow> EncodedEvent \<Rightarrow> bool)
      \<Rightarrow> Session \<Rightarrow> Label list \<Rightarrow> Session \<Rightarrow> bool"
  for args pretty L reach room s0 where
  ready: "session_run args pretty L reach room s0 [] s0"
| recording: "session_run args pretty L reach room s0 ls s \<Longrightarrow> ss_running s \<Longrightarrow>
    pipe_step L reach room (ss_pipe s) l p \<Longrightarrow>
    session_run args pretty L reach room s0 (ls @ [l]) (s\<lparr>ss_pipe := p\<rparr>)"
| moved: "session_run args pretty L reach room s0 ls s \<Longrightarrow> ss_running s \<Longrightarrow>
    session_run args pretty L reach room s0 ls (s\<lparr>ss_cgid := cgid\<rparr>)"
| tick: "session_run args pretty L reach room s0 ls s \<Longrightarrow> ss_running s \<Longrightarrow>
    session_run args pretty L reach room s0 ls (export_tick pretty outcome s)"
| ctrl_c: "session_run args pretty L reach room s0 ls s \<Longrightarrow> ss_running s \<Longrightarrow>
    session_run args pretty L reach room s0 ls (shut_down args pretty outcome s)"

section \<open>The files of a session\<close>

lemma export_other_files:
  "name \<noteq> filename \<Longrightarrow> fst (export_to_file pretty files filename m cgroup outcome) name = files name"
  by (simp add: export_to_file_def Let_def split: WriteOutcome.split)

lemma tick_fields [simp]:
  "ss_pipe (export_tick pretty outcome s) = ss_pipe s" "ss_cgid (export_tick pretty outcome s) = ss_cgid s"
  "ss_running (export_tick pretty outcome s) = ss_running s"
  by (simp_all add: export_tick_def split: prod.split)

lemma tick_files:
  "name \<noteq> ''events.json'' \<Longrightarrow> ss_files (export_tick pretty outcome s) name = ss_files s name"
  using export_other_files [of name "''events.json''" pretty "ss_files s" "pi_map (ss_pipe s)" "ss_cgid s" outcome]
  by (auto simp: export_tick_def split: prod.split)

lemma shut_down_fields [simp]:
  "ss_pipe (shut_down args pretty outcome s) = ss_pipe s" "ss_cgid (shut_down args pretty outcome s) = ss_cgid s"
  "\<not> ss_running (shut_down args pretty outcome s)"
  by (simp_all add: shut_down_def Let_def split: prod.split)

lemma shut_down_files:
  "ss_files (shut_down args pretty outcome s) =
    (if profile_written args then
       fst (export_to_file pretty (ss_files s) ''final-events.json'' (pi_map (ss_pipe s)) (ss_cgid s) outcome)
     else ss_files s)"
  by (simp add: shut_down_def Let_def split: prod.split)

text \<open>
  While a policy is enforced, the profiles of the user are left alone: throughout a session with
  \<open>--enforce\<close>, and at its end, every file except \<open>events.json\<close> in the working directory keeps its contents,
  whatever happens in the session and whichever writes fail.
\<close>

theorem enforcing_keeps_profiles:
  assumes "session_run args pretty L reach room s0 ls s" and "ar_enforce args = Some profile_path"
    and "name \<noteq> ''events.json''"
  shows "ss_files s name = ss_files s0 name"
  using assms(1)
proof induction
  case (ctrl_c ls s outcome)
  then show ?case using assms(2) by (simp add: shut_down_files profile_written_def)
qed (simp_all add: tick_files assms(3))

text \<open>Only \<open>events.json\<close> is not safe: a policy read from it is overwritten by the first tick.\<close>

lemma events_json_overwritten:
  "ss_files (export_tick pretty Written s) ''events.json''
     = Some (export_events_to_json pretty (pi_map (ss_pipe s)) (ss_cgid s))"
  by (simp add: export_tick_def export_to_file_def Let_def)

lemma session_pipe:
  "session_run args pretty L reach room s0 ls s \<Longrightarrow> pipe_run L reach room (ss_pipe s0) ls (ss_pipe s)"
  by (induction rule: session_run.induct) (simp_all add: pipe_run.empty_run pipe_run.longer_run)


text \<open>After the end nothing happens any more, and a watcher has been told to stop.\<close>

lemma session_over:
  "session_run args pretty L reach room s ls s' \<Longrightarrow> \<not> ss_running s \<Longrightarrow> s' = s \<and> ls = []"
  by (induction rule: session_run.induct) auto

lemma watcher_told:
  "ss_stop_flag (shut_down args pretty outcome s) = map_option (\<lambda>_. True) (ss_stop_flag s)"
  by (simp add: shut_down_def Let_def split: prod.split)

section \<open>Two short sessions\<close>

definition monitor_args :: "string option \<Rightarrow> Args" where
  "monitor_args enforce = \<lparr>ar_name = None, ar_container = None, ar_cgroup = Some ''/sys/fs/cgroup/x'',
     ar_enforce = enforce, ar_compile = None, ar_audit_only = False, ar_no_optimize = False,
     ar_emit_apparmor = None, ar_emit_json = None, ar_pass_config = None, ar_friction_report = False,
     ar_dump_policy = False\<rparr>"

definition sample_session :: Session where
  "sample_session = session_start two_readers 7 [''profile.json'' \<mapsto> ''saved'']
     \<lparr>tc_name = None, tc_current_id = ''unknown'', tc_current_cgroup_id = 7, tc_current_cgroup_path = ''/sys/fs/cgroup/x'',
      tc_restart_tracking_enabled = False\<rparr>"

lemma enforcing_keeps_profiles_witness:
  "\<exists>s. session_run (monitor_args (Some ''profile.json'')) (\<lambda>v. ''events'') sample_layouts (\<lambda>_ _. False) (\<lambda>_ _. True)
       sample_session [] s
     \<and> \<not> ss_running s \<and> ss_files s ''profile.json'' = Some ''saved''"
proof -
  let ?s = "shut_down (monitor_args (Some ''profile.json'')) (\<lambda>v. ''events'') Written sample_session"
  have "ss_running sample_session" by (simp add: sample_session_def session_start_def)
  then have run: "session_run (monitor_args (Some ''profile.json'')) (\<lambda>v. ''events'') sample_layouts (\<lambda>_ _. False)
      (\<lambda>_ _. True) sample_session [] ?s"
    by (rule session_run.ctrl_c [OF session_run.ready])
  have "ar_enforce (monitor_args (Some ''profile.json'')) = Some ''profile.json''" by (simp add: monitor_args_def)
  from enforcing_keeps_profiles [OF run this, of "''profile.json''"]
  have "ss_files ?s ''profile.json'' = Some ''saved''" by (simp add: sample_session_def session_start_def)
  then show ?thesis using run by auto
qed


end
