(* ===== verification/KernelStrings.thy ===== *)
theory KernelStrings
  imports EventReaders
begin

text \<open>
  The remaining operations of the fixed-size types: the kernel and user sides of \<open>String\<close>
  (\<open>string.rs\<close>, \<open>string/bpf.rs\<close>, \<open>string/user.rs\<close>), the accessors of \<open>Buffer\<close> (\<open>buffer.rs\<close>), the
  container id of a control group (\<open>cgroup.rs\<close>, \<open>cgroup/bpf.rs\<close>), the conversion of \<open>Time\<close> to the system clock
  (\<open>time.rs\<close>), the decoder's access to raw events (\<open>modules.rs\<close>, \<open>modules/user.rs\<close>) and the payload records
  that are declared for further modules.

  A panic and an access outside an array are \<open>None\<close>.
\<close>

section \<open>Strings in the kernel\<close>

definition string_new :: "nat \<Rightarrow> KString" where
  "string_new n = string_default n"

definition string_len :: "KString \<Rightarrow> nat" where
  "string_len s = ks_len s"

text \<open>\<open>copy_from\<close> overwrites the whole structure.\<close>

definition string_copy_from :: "KString \<Rightarrow> KString \<Rightarrow> KString" where
  "string_copy_from s other = other"

text \<open>On the kernel side \<open>as_str\<close> is the whole array, whatever the length.\<close>

definition kernel_as_str :: "KString \<Rightarrow> string" where
  "kernel_as_str s = ks_s s"

text \<open>
  The loop of \<open>starts_with\<close> from index \<open>i\<close> on, with \<open>n\<close> iterations left. \<open>sizeof\<close> is the size of the type of the
  argument, which for a \<open>&str\<close> is the size of a fat pointer and not the length of the text.
\<close>

fun starts_with_loop :: "KString \<Rightarrow> string \<Rightarrow> nat \<Rightarrow> nat \<Rightarrow> bool" where
  "starts_with_loop s start 0 i = True"
| "starts_with_loop s start (Suc n) i =
     (if i = length start \<or> i = string_len s then True
      else case string_get_byte s i of
          Inl _ \<Rightarrow> False
        | Inr b \<Rightarrow> if b \<noteq> start ! i then False else starts_with_loop s start n (i + 1))"

definition string_starts_with :: "nat \<Rightarrow> KString \<Rightarrow> string \<Rightarrow> bool" where
  "string_starts_with sizeof s start =
     (if length start > string_len s then False else starts_with_loop s start sizeof 0)"

definition SIZE_OF_STR :: nat where "SIZE_OF_STR = 16"

section \<open>Strings in user space\<close>

text \<open>
  \<open>as_str\<close> of the user side slices the array (\<open>None\<close> when the length exceeds it); its branch for a trailing NUL
  returns the slice up to its own length.
\<close>

definition user_as_str :: "KString \<Rightarrow> string option" where
  "user_as_str s =
     (if ks_len s > length (ks_s s) then None
      else (let t = take (ks_len s) (ks_s s) in
            if t \<noteq> [] \<and> last t = nul then Some (take (length t) t) else Some t))"

definition to_string_lossy :: "KString \<Rightarrow> string option" where
  "to_string_lossy s = user_as_str s"

definition string_from :: "KString \<Rightarrow> string option" where
  "string_from s = to_string_lossy s"

definition string_display :: "KString \<Rightarrow> string option" where
  "string_display s = to_string_lossy s"

section \<open>Buffers\<close>

definition buffer_new :: "nat \<Rightarrow> Buffer" where
  "buffer_new n = buffer_default n"

definition buffer_index :: "Buffer \<Rightarrow> nat \<Rightarrow> char option" where
  "buffer_index b i = (if i < length (b_buf b) then Some (b_buf b ! i) else None)"

definition buffer_copy :: "Buffer \<Rightarrow> Buffer \<Rightarrow> Buffer" where
  "buffer_copy b other = other"

definition buffer_len :: "Buffer \<Rightarrow> nat" where
  "buffer_len b = b_len b"

definition buffer_is_empty :: "Buffer \<Rightarrow> bool" where
  "buffer_is_empty b = (buffer_len b = 0)"

definition buffer_cap :: "Buffer \<Rightarrow> nat" where
  "buffer_cap b = length (b_buf b)"

section \<open>The container id of a control group\<close>

datatype Container_Type = KUBERNETES | DOCKER | LXC | PODMAN

definition cgroup_new :: Cgroup where
  "cgroup_new = \<lparr>cg_path = string_new CGROUP_STRING_LEN,
     cg_cgroup_id = replicate CONTAINER_ID_MAX_BUF nul, cg_is_parsed = 0, cg_cgrp_id = 0\<rparr>"

definition DOCKER_PREFIX :: nat where "DOCKER_PREFIX = 7"

text \<open>\<open>copy_nonoverlapping\<close> of the bytes \<open>bs\<close> to the front of an array; \<open>None\<close> when they do not fit.\<close>

definition copy_into :: "string \<Rightarrow> string \<Rightarrow> string option" where
  "copy_into bs arr = (if length bs \<le> length arr then Some (write_at 0 bs arr) else None)"

definition parse_container_id :: "Cgroup \<Rightarrow> Cgroup option" where
  "parse_container_id cg =
     (if string_starts_with SIZE_OF_STR (cg_path cg) ''docker-'' then
        map_option (\<lambda>arr. cg\<lparr>cg_cgroup_id := arr\<rparr>)
          (copy_into (drop DOCKER_PREFIX (ks_s (cg_path cg))) (cg_cgroup_id cg))
      else Some cg)"

text \<open>\<open>cgroup_id_to_str\<close>: the whole array, if it is valid UTF-8, that is if the lossy conversion keeps it.\<close>

definition cgroup_id_to_str :: "Cgroup \<Rightarrow> string option" where
  "cgroup_id_to_str cg =
     (if from_utf8_lossy (cg_cgroup_id cg) = cg_cgroup_id cg then Some (cg_cgroup_id cg) else None)"

section \<open>Time\<close>

definition time_new :: "64 word \<Rightarrow> 64 word \<Rightarrow> Time" where
  "time_new sec nsec = \<lparr>tv_sec = sec, tv_nsec = nsec\<rparr>"

definition NANOS_PER_SEC :: nat where "NANOS_PER_SEC = 1000000000"

text \<open>\<open>Duration::new\<close>: whole seconds and the remaining nanoseconds; it panics when the seconds overflow.\<close>

definition duration_new :: "u64 \<Rightarrow> u32 \<Rightarrow> (nat \<times> nat) option" where
  "duration_new secs nanos =
     (let whole = unat secs + unat nanos div NANOS_PER_SEC in
      if whole < 2 ^ 64 then Some (whole, unat nanos mod NANOS_PER_SEC) else None)"

text \<open>
  \<open>UNIX_EPOCH + duration\<close>, as seconds and nanoseconds since the epoch: the system clock counts seconds in an
  \<open>i64\<close>, and the addition panics when they do not fit.
\<close>

definition add_to_epoch :: "nat \<times> nat \<Rightarrow> (nat \<times> nat) option" where
  "add_to_epoch d = (if fst d < 2 ^ 63 then Some d else None)"

definition system_time_from :: "Time \<Rightarrow> (nat \<times> nat) option" where
  "system_time_from t = Option.bind (duration_new (tv_sec t) (ucast (tv_nsec t))) add_to_epoch"

definition into_system_time :: "Time \<Rightarrow> (nat \<times> nat) option" where
  "into_system_time t = system_time_from t"

section \<open>Access to raw events\<close>

text \<open>\<open>size_of\<close> and \<open>as_byte_slice\<close> of a structure: its size and its bytes in memory.\<close>

record 'p Memory = "'p Layout" +
  l_bytes :: "'p \<Rightarrow> u8 list"

definition event_ty :: "'p EventRaw \<Rightarrow> EventType" where
  "event_ty e = ei_event_type (er_header e)"

definition update_payload :: "('p \<Rightarrow> 'p) \<Rightarrow> 'p EventRaw \<Rightarrow> 'p EventRaw" where
  "update_payload f e = e\<lparr>er_payload := f (er_payload e)\<rparr>"

definition size_of_event :: "('p EventRaw, 'z) Memory_scheme \<Rightarrow> nat" where
  "size_of_event L = l_size L"

definition as_byte_slice :: "('p EventRaw, 'z) Memory_scheme \<Rightarrow> 'p EventRaw \<Rightarrow> u8 list" where
  "as_byte_slice L e = l_bytes L e"

definition encode :: "('p EventRaw, 'z) Memory_scheme \<Rightarrow> 'p EventRaw \<Rightarrow> u8 list" where
  "encode L e = as_byte_slice L e"

definition encoded_len :: "EncodedEvent \<Rightarrow> nat" where
  "encoded_len e = length e"

definition from_event :: "('p EventRaw, 'z) Memory_scheme \<Rightarrow> 'p EventRaw \<Rightarrow> EncodedEvent" where
  "from_event L e = from_bytes (encode L e)"

text \<open>
  The unchecked access reads outside of the bytes when they are too few. The mutable accesses are followed by a
  change \<open>f\<close> of what they refer to, which is written back in place.
\<close>

definition info_unchecked :: "EventInfo Layout \<Rightarrow> EncodedEvent \<Rightarrow> EventInfo option" where
  "info_unchecked L e = (if length e < l_size L then None else Some (l_read L e))"

definition write_back :: "('p, 'z) Memory_scheme \<Rightarrow> ('p \<Rightarrow> 'p) \<Rightarrow> EncodedEvent \<Rightarrow> EncodedEvent" where
  "write_back L f e = l_bytes L (f (l_read L e)) @ drop (l_size L) e"

definition info_mut ::
    "(EventInfo, 'z) Memory_scheme \<Rightarrow> (EventInfo \<Rightarrow> EventInfo) \<Rightarrow> EncodedEvent \<Rightarrow> DecoderError + EncodedEvent" where
  "info_mut L f e = (if encoded_len e < l_size L then Inl NotEnoughBytes else Inr (write_back L f e))"

definition as_mut_event_with_data ::
    "('p EventRaw, 'z) Memory_scheme \<Rightarrow> ('p EventRaw \<Rightarrow> 'p EventRaw) \<Rightarrow> EncodedEvent
       \<Rightarrow> DecoderError + EncodedEvent" where
  "as_mut_event_with_data L f e =
     (if encoded_len e < size_of_event L then Inl SizeDontMatch else Inr (write_back L f e))"

section \<open>Payloads of further modules\<close>

record FileOpenEvent =
  fo_process_info :: ProcessInfo
  fo_file_path :: Path
  fo_inode :: u64
  fo_access_mask :: u8
  fo_allowed :: bool

datatype VFSEventType = VfsREAD | VfsWRITE

definition MAX_FS_TYPE_SIZE :: nat where "MAX_FS_TYPE_SIZE = 100"

record VfsIoEvent =
  vi_process_info :: ProcessInfo
  vi_path :: Path
  vi_fs_type :: string
  vi_delay :: u64
  vi_event_type :: VFSEventType

record UnixSockTest =
  us_process_info :: ProcessInfo

definition MAX_ARGV_SIZE :: nat where "MAX_ARGV_SIZE = 512"

record ForkPayload =
  fk_executable :: Path
  fk_argv :: Buffer
  fk_cgroup :: Cgroup

type_synonym ForkEvent = "ForkPayload EventRaw"

record ExecvePayload =
  ex_executable :: Path
  ex_interpreter :: Path
  ex_argv :: Buffer
  ex_cgroup :: Cgroup

type_synonym ExecveEvent = "ExecvePayload EventRaw"

record CgroupMkdir =
  cm_cgroup :: Cgroup
  cm_path :: Path

type_synonym CgroupMkdirEvent = "CgroupMkdir EventRaw"

section \<open>Comparison with a prefix\<close>

lemma starts_with_loop_iff:
  "i \<le> length start \<Longrightarrow> length start \<le> i + n \<Longrightarrow> length start \<le> ks_len s \<Longrightarrow> ks_len s \<le> string_cap s \<Longrightarrow>
    starts_with_loop s start n i = (\<forall>j. i \<le> j \<and> j < length start \<longrightarrow> ks_s s ! j = start ! j)"
proof (induction n arbitrary: i)
  case 0
  then show ?case by auto
next
  case (Suc n)
  show ?case
  proof (cases "i = length start")
    case True
    then show ?thesis by auto
  next
    case False
    with Suc.prems have i: "i < length start" by simp
    with Suc.prems have b: "string_get_byte s i = Inr (ks_s s ! i)" "i \<noteq> ks_len s"
      by (auto simp: string_get_byte_def string_cap_def)
    have split: "(\<forall>j. i \<le> j \<and> j < length start \<longrightarrow> ks_s s ! j = start ! j)
        \<longleftrightarrow> ks_s s ! i = start ! i \<and> (\<forall>j. i + 1 \<le> j \<and> j < length start \<longrightarrow> ks_s s ! j = start ! j)"
      using i by (metis Suc_eq_plus1 Suc_leI le_antisym not_less_eq_eq order_refl less_imp_le Suc_leD)
    show ?thesis
      using Suc.IH [of "i + 1"] Suc.prems i b False by (simp add: split string_len_def)
  qed
qed

text \<open>
  \<open>starts_with\<close> answers whether the text starts with the argument, as long as the argument is not longer than its
  own type: a \<open>&str\<close> is compared in its first 16 bytes only.
\<close>

lemma starts_with_correct:
  assumes "ks_len s \<le> string_cap s" and "length start \<le> sizeof"
  shows "string_starts_with sizeof s start = prefix start (string_as_str s)"
proof (cases "length start \<le> ks_len s")
  case True
  have "prefix start (string_as_str s) \<longleftrightarrow> take (length start) (string_as_str s) = start"
    by (metis append_eq_conv_conj prefix_def append_take_drop_id)
  also have "\<dots> \<longleftrightarrow> (\<forall>j < length start. ks_s s ! j = start ! j)"
    using True assms(1) by (auto simp: list_eq_iff_nth_eq string_as_str_def string_cap_def)
  finally show ?thesis
    using starts_with_loop_iff [of 0 start sizeof s] True assms
    by (simp add: string_starts_with_def string_len_def)
next
  case False
  then have "\<not> prefix start (string_as_str s)"
    using prefix_length_le [of start "string_as_str s"] assms(1) by (auto simp: string_as_str_def string_cap_def)
  then show ?thesis using False by (simp add: string_starts_with_def string_len_def)
qed

lemma starts_with_long_argument:
  "string_starts_with SIZE_OF_STR (fst (read_str_bytes (string_default 32) (Some (Some ''system.slice/docker-1''))))
     ''system.slice/doctor-'' = True"
  by code_simp

section \<open>The container id\<close>

text \<open>
  \<open>parse_container_id\<close> copies everything after the prefix, 249 bytes, into the 72 bytes of the id: for every path
  that it is meant for, it writes outside of the array.
\<close>

lemma parse_container_id_overruns:
  assumes "length (ks_s (cg_path cg)) = CGROUP_STRING_LEN" and "length (cg_cgroup_id cg) = CONTAINER_ID_MAX_BUF"
    and "ks_len (cg_path cg) \<le> CGROUP_STRING_LEN"
  shows "parse_container_id cg = (if prefix ''docker-'' (string_as_str (cg_path cg)) then None else Some cg)"
proof -
  have "string_starts_with SIZE_OF_STR (cg_path cg) ''docker-'' = prefix ''docker-'' (string_as_str (cg_path cg))"
    using assms by (intro starts_with_correct) (simp_all add: string_cap_def SIZE_OF_STR_def)
  then show ?thesis
    using assms
    by (simp add: parse_container_id_def copy_into_def DOCKER_PREFIX_def CGROUP_STRING_LEN_def
        CGROUP_PATH_MAX_def CONTAINER_ID_MAX_BUF_def)
qed

section \<open>Conversions in user space\<close>

text \<open>The branch for a trailing NUL changes nothing: the NUL stays in the text.\<close>

lemma user_as_str_keeps_nul:
  "ks_len s \<le> string_cap s \<Longrightarrow> user_as_str s = Some (string_as_str s)"
  by (simp add: user_as_str_def string_as_str_def string_cap_def Let_def)

lemma string_conversion_roundtrip:
  "string_try_from n v = Some s \<Longrightarrow> string_from s = Some v \<and> string_display s = Some v"
  by (auto simp: string_try_from_def string_from_def string_display_def to_string_lossy_def
      user_as_str_keeps_nul string_as_str_def string_cap_def split: if_splits)

lemma sint_cases:
  "sint (w :: 64 word) = (if uint w < 2 ^ 63 then uint w else uint w - 2 ^ 64)"
proof -
  have b: "0 \<le> uint w" "uint w < 2 ^ 64" using uint_bounded [of w] by simp_all
  have "sint w = (uint w + 2 ^ 63) mod 2 ^ 64 - 2 ^ 63"
    by (simp add: sint_uint signed_take_bit_eq_take_bit_shift take_bit_eq_mod)
  also have "\<dots> = (if uint w < 2 ^ 63 then uint w else uint w - 2 ^ 64)"
    using b by (simp add: mod_pos_pos_trivial mod_pos_geq)
  finally show ?thesis .
qed

lemma sint_nonneg:
  assumes "0 \<le> sint (w :: 64 word)"
  shows "unat w < 2 ^ 63 \<and> nat (sint w) = unat w"
proof -
  have "uint w < 2 ^ 63 \<and> sint w = uint w"
    using assms uint_bounded [of w] by (auto simp: sint_cases split: if_splits)
  moreover from this have "int (unat w) < int (2 ^ 63)" by simp
  ultimately show ?thesis by (simp only: of_nat_less_iff nat_uint_eq)
qed

lemma system_time_of:
  assumes "0 \<le> sint (tv_sec t)" and "0 \<le> sint (tv_nsec t)" and "sint (tv_nsec t) < 10 ^ 9"
  shows "into_system_time t = Some (nat (sint (tv_sec t)), nat (sint (tv_nsec t)))"
proof -
  note sec = sint_nonneg [OF assms(1)]
  have nsec: "unat (tv_nsec t) < 10 ^ 9" "nat (sint (tv_nsec t)) = unat (tv_nsec t)"
    using sint_nonneg [OF assms(2)] assms(3) by auto
  then have "unat (ucast (tv_nsec t) :: u32) = unat (tv_nsec t)"
    by (simp add: unsigned_ucast_eq take_bit_nat_eq_self)
  with sec nsec show ?thesis
    by (simp add: into_system_time_def system_time_from_def duration_new_def add_to_epoch_def NANOS_PER_SEC_def)
qed

text \<open>A time before the epoch is converted to a huge unsigned number of seconds, and the addition panics.\<close>

lemma system_time_before_epoch:
  assumes "sint (tv_sec t) < 0"
  shows "into_system_time t = None"
proof -
  have "2 ^ 63 \<le> uint (tv_sec t)" using assms by (auto simp: sint_cases split: if_splits)
  then have "int (2 ^ 63) \<le> int (unat (tv_sec t))" by simp
  then have "2 ^ 63 \<le> unat (tv_sec t)" by (simp only: of_nat_le_iff)
  then show ?thesis
    by (auto simp: into_system_time_def system_time_from_def duration_new_def add_to_epoch_def Let_def
        split: bind_splits if_splits)
qed

section \<open>Encoding and decoding events\<close>

text \<open>
  What a structure in memory promises: its bytes have its size, and reading them gives it back. The header is the
  first field of an event.
\<close>

definition memory_ok :: "('p, 'z) Memory_scheme \<Rightarrow> bool" where
  "memory_ok L = (\<forall>x rest. length (l_bytes L x) = l_size L \<and> l_read L (l_bytes L x @ rest) = x)"

definition header_first :: "(EventInfo, 'y) Memory_scheme \<Rightarrow> ('p EventRaw, 'z) Memory_scheme \<Rightarrow> bool" where
  "header_first H L =
     (l_size H \<le> l_size L \<and> (\<forall>e rest. l_read H (l_bytes L e @ rest) = er_header e))"

lemma decode_encoded:
  assumes "memory_ok L"
  shows "as_event_with_data (Layout.truncate L) (from_event L e @ rest) = Inr e"
  using assms by (simp add: as_event_with_data_def from_event_def from_bytes_def encode_def as_byte_slice_def
      memory_ok_def Layout.truncate_def)

lemma info_of_encoded:
  assumes "memory_ok L" and "header_first H L"
  shows "event_info (Layout.truncate H) (from_event L e @ rest) = Inr (er_header e)"
  using assms by (simp add: event_info_def from_event_def from_bytes_def encode_def as_byte_slice_def
      memory_ok_def header_first_def Layout.truncate_def le_add1 trans_le_add1)

text \<open>A change through the mutable access is read back, and the rest of the bytes stays.\<close>

lemma mutable_access:
  assumes "memory_ok L"
  shows "as_mut_event_with_data L f (from_event L e @ rest) = Inr (from_event L (f e) @ rest)"
  using assms by (simp add: as_mut_event_with_data_def write_back_def encoded_len_def size_of_event_def
      from_event_def from_bytes_def encode_def as_byte_slice_def memory_ok_def)

lemma decoders_refuse_short:
  assumes "length e < l_size H" and "length e < l_size L"
  shows "event_info (Layout.truncate H) e = Inl NotEnoughBytes \<and> info_mut H g e = Inl NotEnoughBytes
    \<and> as_event_with_data (Layout.truncate L) e = Inl SizeDontMatch
    \<and> as_mut_event_with_data L f e = Inl SizeDontMatch"
  using assms by (simp add: event_info_def info_mut_def as_event_with_data_def as_mut_event_with_data_def
      encoded_len_def size_of_event_def Layout.truncate_def)

end
