(* ===== verification/Determinism.thy ===== *)
theory Determinism
  imports Driver
begin

text \<open>
  What the compiler of policies computes, apart from ids, metadata and order. The optimizer of
  \<open>ebpf-mon-common/src/policy/passes.rs\<close> iterates over hash maps, whose order changes from run to run, and picks
  the first rule of a group. \<open>spec_optimize\<close> is its specification on the set of (subject, object, action,
  verdict), without any order; the pipeline refines it when the rules agree on their verdicts. The consequences:
  two runs give the same policy, and a second run changes nothing. Without the agreement the policy does depend
  on the iteration order of a hash map.
\<close>

type_synonym Meaning = "(Subject \<times> Object \<times> Action) \<times> Verdict"

definition rule_meaning :: "BehaviorRule \<Rightarrow> Meaning" where
  "rule_meaning r = (signature r, r_verdict r)"

abbreviation meanings :: "BehaviorRule list \<Rightarrow> Meaning set" where
  "meanings rules \<equiv> rule_meaning ` set rules"

lemma rule_meaning_eq:
  "rule_meaning r = ((s, ob, a), v)
    \<longleftrightarrow> r_subject r = s \<and> r_object r = ob \<and> r_action r = a \<and> r_verdict r = v"
  by (auto simp: rule_meaning_def signature_def)

lemma verdicts_agree_meanings: "verdicts_agree rules \<longleftrightarrow> single_valued (meanings rules)"
proof
  show "verdicts_agree rules \<Longrightarrow> single_valued (meanings rules)"
    by (rule single_valuedI) (auto simp: verdicts_agree_def list_all_iff rule_meaning_def, metis)
next
  assume sv: "single_valued (meanings rules)"
  have "r_verdict r = r_verdict r'" if "r \<in> set rules" "r' \<in> set rules" "signature r = signature r'" for r r'
  proof -
    have "(signature r, r_verdict r) \<in> meanings rules"
      using that(1) unfolding rule_meaning_def [of r, symmetric] by (rule imageI)
    moreover have "(signature r, r_verdict r') \<in> meanings rules"
      using that(2) unfolding that(3) rule_meaning_def [of r', symmetric] by (rule imageI)
    ultimately show ?thesis by (rule single_valuedD [OF sv])
  qed
  then show "verdicts_agree rules" unfolding verdicts_agree_def list_all_iff by blast
qed

lemma single_valued_verdict:
  "single_valued S \<Longrightarrow> (g, v) \<in> S \<Longrightarrow> (g, v') \<in> S \<Longrightarrow> v = v'"
  by (simp add: single_valued_def)

section \<open>The specification\<close>

definition canon_meaning :: "Meaning \<Rightarrow> Meaning" where
  "canon_meaning m =
     (case m of ((s, ob, a), v) \<Rightarrow>
        ((s, (case ob of
                File f \<Rightarrow> File (f\<lparr>fo_pattern := canonicalize_pattern (fo_pattern f)\<rparr>)
              | _ \<Rightarrow> ob), a), v))"

definition classify_meaning :: "Meaning \<Rightarrow> Meaning" where
  "classify_meaning m =
     (case m of ((s, ob, a), v) \<Rightarrow>
        ((s, (case ob of
                File f \<Rightarrow>
                  (case fo_pattern f of
                     ExactPath path \<Rightarrow>
                       (case try_classify path of
                          Some c \<Rightarrow> File (f\<lparr>fo_pattern := Classified c\<rparr>)
                        | None \<Rightarrow> ob)
                   | _ \<Rightarrow> ob)
              | _ \<Rightarrow> ob), a), v))"

definition exact_in :: "Meaning set \<Rightarrow> GroupKey \<Rightarrow> string set" where
  "exact_in S k =
     (case k of (s, a, v, dir) \<Rightarrow>
        {p. ((s, File \<lparr>fo_pattern = ExactPath p, fo_is_sensitive = False\<rparr>, a), v) \<in> S \<and> parent_dir p = Some dir})"

definition opposed :: "Meaning set \<Rightarrow> Subject \<Rightarrow> Verdict \<Rightarrow> string \<Rightarrow> bool" where
  "opposed S s v dir =
     (\<exists>fo a v'. ((s, File fo, a), v') \<in> S \<and> v' \<noteq> v \<and> relation_to (Prefix dir) (fo_pattern fo) \<noteq> Disjoint)"

text \<open>A set of names looks generated: they share a start or an end of some length, or are hexadecimal numbers.\<close>

definition look_generated :: "string set \<Rightarrow> nat \<Rightarrow> bool" where
  "look_generated L n =
     (card L \<ge> 2
      \<and> ((\<exists>w. length w = n \<and> (\<forall>x \<in> L. prefix w x)) \<or> (\<exists>w. length w = n \<and> (\<forall>x \<in> L. suffix w x))
         \<or> (\<forall>x \<in> L. x \<noteq> [] \<and> list_all PrefixGen.is_ascii_hexdigit x \<and> list_ex is_digit x)))"

definition widened :: "PrefixGeneralizationPass \<Rightarrow> Meaning set \<Rightarrow> GroupKey \<Rightarrow> bool" where
  "widened pass S k =
     (case k of (s, a, v, dir) \<Rightarrow>
        exact_in S k \<noteq> {} \<and> card (exact_in S k) \<ge> min_cluster pass \<and> dir_generalizable pass dir
        \<and> length dir \<le> PREFIX_MAX_LEN
        \<and> look_generated (drop (length dir) ` exact_in S k) (min_affix pass)
        \<and> \<not> opposed S s v dir)"

definition prefix_meaning :: "GroupKey \<Rightarrow> Meaning" where
  "prefix_meaning k =
     (case k of (s, a, v, dir) \<Rightarrow> ((s, File \<lparr>fo_pattern = Prefix dir, fo_is_sensitive = False\<rparr>, a), v))"

definition exact_meaning :: "GroupKey \<Rightarrow> string \<Rightarrow> Meaning" where
  "exact_meaning k p =
     (case k of (s, a, v, dir) \<Rightarrow> ((s, File \<lparr>fo_pattern = ExactPath p, fo_is_sensitive = False\<rparr>, a), v))"

definition widen_set :: "PrefixGeneralizationPass \<Rightarrow> Meaning set \<Rightarrow> Meaning set" where
  "widen_set pass S =
     (S - {exact_meaning k p | k p. widened pass S k \<and> p \<in> exact_in S k}) \<union> prefix_meaning ` {k. widened pass S k}"

definition meaning_covered :: "Meaning \<Rightarrow> Meaning \<Rightarrow> bool" where
  "meaning_covered x y =
     (case (x, y) of (((s, ob, a), v), ((s', ob', a'), v')) \<Rightarrow>
        s = s' \<and> a = a' \<and> v = v' \<and> object_subsumed ob ob')"

definition subsume_set :: "Meaning set \<Rightarrow> Meaning set" where
  "subsume_set S = {x \<in> S. \<not> (\<exists>y \<in> S. meaning_covered x y)}"

definition spec_optimize :: "PassConfig \<Rightarrow> Meaning set \<Rightarrow> Meaning set" where
  "spec_optimize config S =
     subsume_set (widen_set (from_config config) (classify_meaning ` canon_meaning ` S))"

section \<open>The passes one by one\<close>

lemma meanings_canonicalize: "meanings (canonicalization_run rules) = canon_meaning ` meanings rules"
  by (force simp: canonicalization_run_map image_iff rule_meaning_def signature_def canon_meaning_def
      canonicalize_rule_def split: Object.splits)

lemma meanings_classify: "meanings (generalization_run rules) = classify_meaning ` meanings rules"
  unfolding generalization_run_map set_map image_image
  by (rule image_cong [OF refl])
    (auto simp: rule_meaning_def signature_def classify_meaning_def generalize_rule_def
      split: Object.splits FilePattern.splits option.splits)

lemma meanings_dedup:
  assumes "verdicts_agree rules"
  shows "meanings (dedup_run ks rules) = meanings rules"
proof -
  have "x \<in> meanings (dedup_run ks rules) \<longleftrightarrow> x \<in> meanings rules" for x
    using dedup_ex [OF assms, of "\<lambda>r. x = rule_meaning r" ks] by (auto simp: image_iff rule_meaning_def)
  then show ?thesis by blast
qed

lemma meanings_subsume: "meanings (subsumption_run rules) = subsume_set (meanings rules)"
proof -
  have cov: "meaning_covered (rule_meaning r) (rule_meaning t) = rule_covered r t" for r t
    by (simp add: meaning_covered_def rule_meaning_def signature_def rule_covered_def)
  show ?thesis by (auto simp: subsumption_run_filter subsume_set_def cov)
qed

section \<open>The widening pass\<close>

text \<open>The loop over the names finds the length of their common start.\<close>

lemma common_len_le: "common_len as bs \<le> length as" "common_len as bs \<le> length bs"
  by (induction as bs rule: common_len.induct) auto

lemma common_len_iff:
  "n \<le> common_len as bs \<longleftrightarrow> n \<le> length as \<and> n \<le> length bs \<and> take n as = take n bs"
proof (induction as bs arbitrary: n rule: common_len.induct)
  case (1 a as b bs)
  then show ?case by (cases n) auto
qed auto

lemma affix_loop_iff:
  "len \<le> length first \<Longrightarrow>
   n \<le> affix_loop first len rest
     \<longleftrightarrow> n \<le> len \<and> (\<forall>x \<in> set rest. n \<le> length x \<and> take n x = take n first)"
proof (induction rest arbitrary: len)
  case (Cons x rest)
  let ?len = "common_len (take len first) x"
  have le: "?len \<le> length first" using common_len_le(1) [of "take len first" x] by simp
  have n: "n \<le> ?len \<longleftrightarrow> n \<le> len \<and> n \<le> length x \<and> take n x = take n first"
    using Cons.prems by (auto simp: common_len_iff min_def)
  show ?case
  proof (cases "?len = 0")
    case True
    then show ?thesis using n by (auto simp: Let_def)
  next
    case False
    then show ?thesis using Cons.IH [OF le] n by (auto simp: Let_def)
  qed
qed simp

lemma common_prefix_iff:
  assumes "leaves \<noteq> []"
  shows "n \<le> common_prefix_len leaves \<longleftrightarrow> (\<exists>w. length w = n \<and> (\<forall>x \<in> set leaves. prefix w x))"
proof -
  obtain y ys where l: "leaves = y # ys" using assms by (cases leaves) auto
  have pre: "prefix w x \<longleftrightarrow> length w \<le> length x \<and> take (length w) x = w" for w x :: string
    by (metis prefix_length_le take_is_prefix append_eq_conv_conj prefix_def)
  have "n \<le> common_prefix_len leaves \<longleftrightarrow> (\<forall>x \<in> set leaves. n \<le> length x \<and> take n x = take n y)"
    using affix_loop_iff [of "length y" y n ys] by (auto simp: common_prefix_len_def l)
  also have "\<dots> \<longleftrightarrow> (\<exists>w. length w = n \<and> (\<forall>x \<in> set leaves. prefix w x))"
    by (auto simp: pre l intro!: exI [of _ "take n y"])
  finally show ?thesis .
qed

lemma common_suffix_iff:
  assumes "leaves \<noteq> []"
  shows "n \<le> common_suffix_len leaves \<longleftrightarrow> (\<exists>w. length w = n \<and> (\<forall>x \<in> set leaves. suffix w x))"
proof -
  have "common_suffix_len leaves = common_prefix_len (map rev leaves)"
    using assms by (simp add: common_suffix_len_def common_prefix_len_def hd_map map_tl)
  then have "n \<le> common_suffix_len leaves
      \<longleftrightarrow> (\<exists>w. length w = n \<and> (\<forall>x \<in> set leaves. prefix w (rev x)))"
    using common_prefix_iff [of "map rev leaves" n] assms by simp
  also have "\<dots> \<longleftrightarrow> (\<exists>w. length w = n \<and> (\<forall>x \<in> set leaves. suffix w x))"
    by (metis length_rev rev_rev_ident suffix_to_prefix)
  finally show ?thesis .
qed

lemma leaves_look_generated_set:
  assumes "distinct leaves"
  shows "leaves_look_generated leaves n = look_generated (set leaves) n"
proof (cases "length leaves < 2")
  case True
  then show ?thesis using assms by (simp add: leaves_look_generated_def look_generated_def distinct_card)
next
  case False
  then have "leaves \<noteq> []" by auto
  have card: "card (set leaves) \<ge> 2" using False assms by (simp add: distinct_card)
  show ?thesis
    unfolding leaves_look_generated_def look_generated_def common_affix_len_def le_max_iff_disj
      common_prefix_iff [OF \<open>leaves \<noteq> []\<close>] common_suffix_iff [OF \<open>leaves \<noteq> []\<close>] list_all_iff
    using False card by auto
qed

text \<open>The pass groups rules by index; the names of a group are different when the signatures are.\<close>

definition candidates_distinct :: "BehaviorRule list \<Rightarrow> bool" where
  "candidates_distinct rules = distinct (map signature (filter (\<lambda>r. candidate_key r \<noteq> None) rules))"

lemma candidate_meaning:
  "candidate_key r = Some k \<longleftrightarrow> (\<exists>p. rule_meaning r = exact_meaning k p \<and> parent_dir p = Some (snd (snd (snd k))))"
  by (cases k) (auto simp: candidate_key_Some exact_meaning_def rule_meaning_eq)

lemma exact_in_iff: "p \<in> exact_in S k \<longleftrightarrow> exact_meaning k p \<in> S \<and> parent_dir p = Some (snd (snd (snd k)))"
  by (cases k) (simp add: exact_in_def exact_meaning_def)

lemma exact_meaning_inj [simp]:
  "exact_meaning k p = exact_meaning k' p' \<longleftrightarrow> p = p' \<and> fst k = fst k' \<and> fst (snd k) = fst (snd k')
    \<and> fst (snd (snd k)) = fst (snd (snd k'))"
  by (cases k; cases k') (auto simp: exact_meaning_def)

lemma distinct_map_filter_nth:
  "distinct (map f (filter P xs)) \<Longrightarrow> i < length xs \<Longrightarrow> j < length xs \<Longrightarrow> P (xs ! i) \<Longrightarrow> P (xs ! j)
   \<Longrightarrow> f (xs ! i) = f (xs ! j) \<Longrightarrow> i = j"
proof (induction xs arbitrary: i j)
  case (Cons x xs)
  have new: "\<not> (P x \<and> P (xs ! n) \<and> f x = f (xs ! n))" if "n < length xs" for n
    using Cons.prems(1) that by (auto simp: image_iff split: if_splits)
  show ?case
  proof (cases i; cases j)
    fix m n assume "i = Suc m" "j = Suc n"
    then show ?thesis using Cons.IH [of m n] Cons.prems by (auto split: if_splits)
  qed (use Cons.prems new in \<open>auto dest: sym\<close>)
qed simp

definition path_of :: "BehaviorRule \<Rightarrow> string" where
  "path_of r =
     (case r_object r of
        File f \<Rightarrow> (case fo_pattern f of ExactPath p \<Rightarrow> p | _ \<Rightarrow> [])
      | _ \<Rightarrow> [])"

lemma path_of_candidate:
  "candidate_key r = Some k
    \<longleftrightarrow> rule_meaning r = exact_meaning k (path_of r) \<and> parent_dir (path_of r) = Some (snd (snd (snd k)))"
  by (cases k) (auto simp: candidate_key_Some exact_meaning_def rule_meaning_eq path_of_def)

lemma path_of_exact: "rule_meaning r = exact_meaning k p \<Longrightarrow> path_of r = p"
  by (cases k) (auto simp: exact_meaning_def rule_meaning_eq path_of_def)

lemma group_paths:
  assumes "candidates_distinct rules" and g: "(k, idxs) \<in> set (groups rules)"
  shows "distinct (map (\<lambda>i. path_of (rules ! i)) idxs)"
    and "path_of ` (!) rules ` set idxs = exact_in (meanings rules) k"
proof -
  have key: "i < length rules \<and> candidate_key (rules ! i) = Some k" if "i \<in> set idxs" for i
    using in_group [OF g] that by blast
  have idxs: "distinct idxs"
    using distinct_group_indices [of rules] g
    by (auto simp: distinct_concat_iff dest: in_set_conv_decomp [THEN iffD1])
  have "i = j" if "i \<in> set idxs" "j \<in> set idxs" "path_of (rules ! i) = path_of (rules ! j)" for i j
  proof (rule distinct_map_filter_nth [OF assms(1) [unfolded candidates_distinct_def]])
    have "rule_meaning (rules ! i) = rule_meaning (rules ! j)"
      using key [OF that(1)] key [OF that(2)] that(3) by (simp add: path_of_candidate)
    then show "signature (rules ! i) = signature (rules ! j)" by (simp add: rule_meaning_def)
  qed (use key that in auto)
  then show "distinct (map (\<lambda>i. path_of (rules ! i)) idxs)"
    using idxs by (simp add: distinct_map inj_on_def)
  have "p \<in> path_of ` (!) rules ` set idxs \<longleftrightarrow> (\<exists>r \<in> set rules. candidate_key r = Some k \<and> p = path_of r)" for p
    using in_group [OF g] by (auto simp: image_iff) (metis in_set_conv_nth)+
  also have "\<dots> p \<longleftrightarrow> p \<in> exact_in (meanings rules) k" for p
    by (auto simp: exact_in_iff path_of_candidate image_iff) (metis path_of_exact)+
  finally show "path_of ` (!) rules ` set idxs = exact_in (meanings rules) k" by blast
qed

lemma group_opposed: "opposing_verdict_under rules s v dir = opposed (meanings rules) s v dir"
proof -
  have fobj: "(case ob of File fo \<Rightarrow> P fo | _ \<Rightarrow> False) \<longleftrightarrow> (\<exists>fo. ob = File fo \<and> P fo)" for ob P
    by (cases ob) auto
  have "opposing_verdict_under rules s v dir
      \<longleftrightarrow> (\<exists>r \<in> set rules. \<exists>fo a v'. rule_meaning r = ((s, File fo, a), v') \<and> v' \<noteq> v
        \<and> relation_to (Prefix dir) (fo_pattern fo) \<noteq> Disjoint)"
    by (auto simp: opposing_verdict_under_def list_ex_iff rule_meaning_eq fobj)
  also have "\<dots> \<longleftrightarrow> opposed (meanings rules) s v dir"
    unfolding opposed_def image_iff by (metis (no_types, lifting))
  finally show ?thesis .
qed

lemma group_leaves:
  assumes g: "((s, a, v, dir), idxs) \<in> set (groups rules)"
  shows "List.map_filter (\<lambda>i. leaf dir (rules ! i)) idxs
    = map (\<lambda>i. drop (length dir) (path_of (rules ! i))) idxs"
proof -
  have "leaf dir (rules ! i) = Some (drop (length dir) (path_of (rules ! i)))" if i: "i \<in> set idxs" for i
  proof -
    have "candidate_key (rules ! i) = Some (s, a, v, dir)" using in_group [OF g] i by blast
    then obtain p where p: "r_object (rules ! i) = File \<lparr>fo_pattern = ExactPath p, fo_is_sensitive = False\<rparr>"
        and d: "parent_dir p = Some dir"
      by (auto simp: candidate_key_Some)
    from parent_dir_Some [OF d] have "length dir \<le> length p" by auto
    then show ?thesis by (simp add: leaf_def path_of_def p)
  qed
  then show ?thesis by (induction idxs) (simp_all add: List.map_filter_simps)
qed

lemma exact_in_below: "p \<in> exact_in S (s, a, v, dir) \<Longrightarrow> prefix dir p"
  using parent_dir_Some by (fastforce simp: exact_in_def)

lemma group_widened:
  assumes "candidates_distinct rules" and g: "(k, idxs) \<in> set (groups rules)"
  shows "group_collapses pass rules (k, idxs) = widened pass (meanings rules) k"
proof -
  obtain s a v dir where k: "k = (s, a, v, dir)" by (metis prod.exhaust)
  let ?E = "exact_in (meanings rules) k"
  let ?leaves = "map (\<lambda>i. drop (length dir) (path_of (rules ! i))) idxs"
  note paths = group_paths [OF assms]
  have E: "?E = set (map (\<lambda>i. path_of (rules ! i)) idxs)"
    using paths(2) by (simp add: image_image)
  have card: "length idxs = card ?E" using distinct_card [OF paths(1)] by (simp add: E)
  have "inj_on (drop (length dir)) ?E"
    by (rule inj_onI) (auto simp: k dest!: exact_in_below elim!: prefixE)
  then have "distinct (map (drop (length dir)) (map (\<lambda>i. path_of (rules ! i)) idxs))"
    using paths(1) by (simp add: E distinct_map del: map_map)
  then have "distinct ?leaves" by (simp add: comp_def)
  moreover have "set ?leaves = drop (length dir) ` ?E" by (simp add: E image_image)
  ultimately have look: "leaves_look_generated ?leaves n = look_generated (drop (length dir) ` ?E) n" for n
    by (simp only: leaves_look_generated_set)
  have "?E \<noteq> {}" using group_not_Nil [OF g] by (simp add: E)
  then show ?thesis
    unfolding k group_collapses_def widened_def prod.case group_leaves [OF g [unfolded k]] card [unfolded k]
      look [unfolded k] group_opposed
    by auto
qed

lemma opens_iff:
  "opens pass rules k \<longleftrightarrow> (\<exists>idxs. (k, idxs) \<in> set (groups rules) \<and> group_collapses pass rules (k, idxs))"
  (is "_ \<longleftrightarrow> ?rhs")
proof
  assume "opens pass rules k"
  then obtain g where "g \<in> set (groups rules)" "fst g = k" "group_collapses pass rules g"
    unfolding opens_def list_ex_iff by blast
  then show ?rhs by (metis prod.collapse)
next
  assume ?rhs
  then show "opens pass rules k" unfolding opens_def list_ex_iff by force
qed

lemma opens_widened:
  assumes "candidates_distinct rules"
  shows "opens pass rules k = widened pass (meanings rules) k"
proof (cases "\<exists>idxs. (k, idxs) \<in> set (groups rules)")
  case True
  then obtain idxs where g: "(k, idxs) \<in> set (groups rules)" by blast
  have "idxs' = idxs" if "(k, idxs') \<in> set (groups rules)" for idxs'
    using group_members [OF g] group_members [OF that] by simp
  then have "opens pass rules k = group_collapses pass rules (k, idxs)"
    unfolding opens_iff using g by blast
  then show ?thesis using group_widened [OF assms g] by simp
next
  case False
  then have "\<not> opens pass rules k" unfolding opens_iff by blast
  moreover have "exact_in (meanings rules) k = {}"
  proof -
    have "candidate_key r \<noteq> Some k" if "r \<in> set rules" for r
    proof
      assume "candidate_key r = Some k"
      then have "k \<in> fst ` set (candidates rules)"
        using that by (auto simp: in_candidates image_iff in_set_conv_nth) (metis fst_conv in_candidates)
      then have "k \<in> fst ` set (groups rules)" by (simp add: groups_def)
      then show False using False by auto
    qed
    then show ?thesis by (force simp: exact_in_iff candidate_meaning)
  qed
  ultimately show ?thesis by (cases k) (simp add: widened_def)
qed

lemma synthesize_meaning: "rule_meaning (synthesize rules (k, idxs)) = prefix_meaning k"
  by (cases k) (simp add: synthesize_def Let_def rule_meaning_eq prefix_meaning_def)

lemma kept_image:
  assumes "\<And>i. i < length xs \<Longrightarrow> i \<notin> D \<longleftrightarrow> f (xs ! i) \<notin> G"
  shows "(\<exists>i < length xs. x = f (xs ! i) \<and> i \<notin> D) \<longleftrightarrow> x \<in> f ` set xs - G"
proof
  assume "\<exists>i < length xs. x = f (xs ! i) \<and> i \<notin> D"
  then obtain i where i: "i < length xs" "x = f (xs ! i)" "i \<notin> D" by blast
  then show "x \<in> f ` set xs - G" using assms [OF i(1)] by simp
next
  assume x: "x \<in> f ` set xs - G"
  then obtain i where i: "i < length xs" "x = f (xs ! i)" by (auto simp: in_set_conv_nth)
  then show "\<exists>i < length xs. x = f (xs ! i) \<and> i \<notin> D" using assms [OF i(1)] x by blast
qed

lemma meanings_widen:
  assumes "candidates_distinct rules"
  shows "meanings (prefix_generalization_run ks pass rules) = widen_set pass (meanings rules)"
proof -
  let ?gone = "set (concat (map snd (collapsing ks pass rules)))"
  let ?G = "{exact_meaning k p | k p. widened pass (meanings rules) k \<and> p \<in> exact_in (meanings rules) k}"
  have collapsed: "(k, idxs) \<in> set (collapsing ks pass rules)
      \<longleftrightarrow> (k, idxs) \<in> set (groups rules) \<and> widened pass (meanings rules) k" for k idxs
    unfolding collapsing_groups using group_widened [OF assms, of k idxs] by blast
  have gone: "i \<in> ?gone \<longleftrightarrow> (\<exists>k. candidate_key (rules ! i) = Some k \<and> widened pass (meanings rules) k)"
    if i: "i < length rules" for i
  proof
    assume "i \<in> ?gone"
    then obtain k idxs where g: "(k, idxs) \<in> set (collapsing ks pass rules)" and "i \<in> set idxs" by auto
    then show "\<exists>k. candidate_key (rules ! i) = Some k \<and> widened pass (meanings rules) k"
      using in_group [of k idxs rules i] by (auto simp: collapsed)
  next
    assume "\<exists>k. candidate_key (rules ! i) = Some k \<and> widened pass (meanings rules) k"
    then obtain k where k: "candidate_key (rules ! i) = Some k" "widened pass (meanings rules) k" by blast
    then have "opens pass rules k" by (simp add: opens_widened [OF assms])
    then obtain idxs where g: "(k, idxs) \<in> set (groups rules)" unfolding opens_iff by blast
    have "i \<in> set idxs" using in_group [OF g] i k(1) by blast
    moreover have "(k, idxs) \<in> set (collapsing ks pass rules)" using collapsed g k(2) by blast
    ultimately show "i \<in> ?gone" unfolding set_concat set_map image_image by (metis UN_I snd_conv)
  qed
  have kept: "(\<exists>i < length rules. x = rule_meaning (rules ! i) \<and> i \<notin> ?gone)
      \<longleftrightarrow> x \<in> meanings rules - ?G" for x
  proof -
    have "i \<notin> ?gone \<longleftrightarrow> rule_meaning (rules ! i) \<notin> ?G" if i: "i < length rules" for i
    proof -
      have "rule_meaning (rules ! i) \<in> meanings rules" using i by simp
      then show ?thesis unfolding gone [OF i] candidate_meaning exact_in_iff mem_Collect_eq by metis
    qed
    then show ?thesis by (rule kept_image)
  qed
  have new: "rule_meaning ` synthesize rules ` set (collapsing ks pass rules) = prefix_meaning ` {k. widened pass (meanings rules) k}"
  proof -
    have "k \<in> fst ` set (collapsing ks pass rules) \<longleftrightarrow> widened pass (meanings rules) k" for k
    proof
      assume "k \<in> fst ` set (collapsing ks pass rules)"
      then obtain g where "g \<in> set (collapsing ks pass rules)" "k = fst g" by blast
      then have "(k, snd g) \<in> set (collapsing ks pass rules)" by simp
      then show "widened pass (meanings rules) k" using collapsed by blast
    next
      assume w: "widened pass (meanings rules) k"
      then obtain idxs where "(k, idxs) \<in> set (collapsing ks pass rules)"
        using opens_widened [OF assms, of pass k] collapsed unfolding opens_iff by blast
      then show "k \<in> fst ` set (collapsing ks pass rules)" by (rule image_eqI [rotated]) simp
    qed
    then have keys: "fst ` set (collapsing ks pass rules) = {k. widened pass (meanings rules) k}"
      unfolding set_eq_iff mem_Collect_eq by (rule allI)
    have "rule_meaning (synthesize rules g) = prefix_meaning (fst g)" for g
      by (cases g) (simp only: synthesize_meaning fst_conv)
    then have "rule_meaning ` synthesize rules ` set (collapsing ks pass rules)
        = prefix_meaning ` fst ` set (collapsing ks pass rules)"
      by (simp only: image_image)
    then show ?thesis unfolding keys .
  qed
  have "x \<in> meanings (prefix_generalization_run ks pass rules) \<longleftrightarrow> x \<in> widen_set pass (meanings rules)" for x
  proof -
    have "x \<in> meanings (prefix_generalization_run ks pass rules)
      \<longleftrightarrow> (\<exists>i < length rules. x = rule_meaning (rules ! i) \<and> i \<notin> ?gone)
        \<or> x \<in> rule_meaning ` synthesize rules ` set (collapsing ks pass rules)"
      unfolding image_iff Bex_def prefix_run_set by blast
    then show ?thesis unfolding kept new widen_set_def by blast
  qed
  then show ?thesis by blast
qed

section \<open>The pipeline refines the specification\<close>

text \<open>Agreement on the verdicts survives every step, and the classified rules still have different names.\<close>

lemma single_valued_map:
  assumes "single_valued (f ` S)" and "\<And>g v g' v'. f (g, v) = (g', v') \<Longrightarrow> v' = v"
    and "\<And>g v v'. fst (f (g, v)) = fst (f (g, v'))"
  shows "single_valued S"
proof (rule single_valuedI)
  fix g v v' assume "(g, v) \<in> S" "(g, v') \<in> S"
  then have "(fst (f (g, v)), v) \<in> f ` S" "(fst (f (g, v)), v') \<in> f ` S"
    using assms(2) [of g v] assms(2) [of g v'] assms(3) [of g v v'] by (metis image_eqI prod.collapse)+
  then show "v = v'" by (rule single_valued_verdict [OF assms(1)])
qed

lemma agree_before_classify:
  assumes "single_valued (classify_meaning ` S)"
  shows "single_valued S"
  using assms by (rule single_valued_map) (auto simp: classify_meaning_def split: prod.splits)

lemma widened_agrees:
  "widened pass S (s, a, v, dir) \<Longrightarrow> ((s, File fo, a'), v') \<in> S
   \<Longrightarrow> relation_to (Prefix dir) (fo_pattern fo) \<noteq> Disjoint \<Longrightarrow> v' = v"
  by (auto simp: widened_def opposed_def)

lemma single_valued_widen:
  assumes "single_valued S"
  shows "single_valued (widen_set pass S)"
proof -
  have old: "v = w" if "widened pass S k" "prefix_meaning k = (g, v)" "(g, w) \<in> S" for g v w k
    using that by (cases k) (auto simp: prefix_meaning_def dest: widened_agrees)
  have new: "v = w"
    if wk: "widened pass S k" and mk: "prefix_meaning k = (g, v)" and wl: "widened pass S l" and ml: "prefix_meaning l = (g, w)"
    for g v w k l
  proof -
    obtain s a dir where k: "k = (s, a, v, dir)" and l: "l = (s, a, w, dir)"
      using mk ml by (cases k; cases l) (auto simp: prefix_meaning_def)
    obtain p where "p \<in> exact_in S l" using wl by (auto simp: l widened_def)
    then have "prefix dir p" "((s, File \<lparr>fo_pattern = ExactPath p, fo_is_sensitive = False\<rparr>, a), w) \<in> S"
      using exact_in_below by (auto simp: l exact_in_def)
    then show ?thesis using widened_agrees [OF wk [unfolded k]] by fastforce
  qed
  show ?thesis
    by (rule single_valuedI)
      (auto simp: widen_set_def image_iff dest: single_valued_verdict [OF assms] old old [symmetric] new,
        (metis old new single_valued_verdict [OF assms])+)
qed

lemma single_valued_subset_eq: "single_valued S \<Longrightarrow> single_valued (subsume_set S)"
  by (rule single_valued_subset [of _ S]) (auto simp: subsume_set_def)

lemma generalize_candidate: "candidate_key (generalize_rule r) \<noteq> None \<Longrightarrow> generalize_rule r = r"
  by (auto simp: generalize_rule_def candidate_key_def split: Object.splits FilePattern.splits option.splits if_splits)

lemma candidates_distinct_classified:
  assumes "distinct (map signature rules)"
  shows "candidates_distinct (generalization_run rules)"
proof -
  have "filter (\<lambda>r. candidate_key r \<noteq> None) (map generalize_rule rules)
      = filter (\<lambda>r. candidate_key (generalize_rule r) \<noteq> None) rules"
    unfolding filter_map comp_def by (rule map_idI) (auto intro!: generalize_candidate)
  then show ?thesis
    using assms by (simp add: candidates_distinct_def generalization_run_map distinct_map_filter)
qed

lemma optimize_refines:
  assumes "verdicts_agree (generalization_run (canonicalization_run rules))"
  shows "meanings (optimize k1 kg k2 config rules) = spec_optimize config (meanings rules)"
proof -
  let ?canon = "canonicalization_run rules"
  let ?seen = "dedup_run k1 ?canon"
  let ?wide = "prefix_generalization_run kg (from_config config) (generalization_run ?seen)"
  have agree: "single_valued (classify_meaning ` canon_meaning ` meanings rules)"
    using assms by (simp only: verdicts_agree_meanings meanings_classify meanings_canonicalize)
  have "verdicts_agree ?canon"
    using agree_before_classify [OF agree] by (simp only: verdicts_agree_meanings meanings_canonicalize)
  then have seen: "meanings (generalization_run ?seen) = classify_meaning ` canon_meaning ` meanings rules"
    by (simp only: meanings_classify meanings_dedup meanings_canonicalize)
  have wide: "meanings ?wide = widen_set (from_config config) (classify_meaning ` canon_meaning ` meanings rules)"
    by (simp only: meanings_widen [OF candidates_distinct_classified [OF dedup_distinct_signatures]] seen)
  then have rest: "meanings (subsumption_run ?wide) = spec_optimize config (meanings rules)"
    by (simp only: meanings_subsume spec_optimize_def)
  have "verdicts_agree (subsumption_run ?wide)"
    unfolding verdicts_agree_meanings meanings_subsume wide
    by (intro single_valued_subset_eq single_valued_widen agree)
  then show ?thesis by (simp only: optimize_def meanings_dedup rest)
qed

section \<open>Linking\<close>

definition link_new :: "Meaning set \<Rightarrow> Meaning set \<Rightarrow> Meaning set" where
  "link_new S X =
     {((s, linked_object p, a), v) | s p a v.
        ((s, Process \<lparr>po_binary = Path p\<rparr>, ProcExec), v) \<in> X \<and> (a = FileOpen \<or> a = FileRead)
        \<and> (s, linked_object p, a) \<notin> fst ` S}"

definition spec_link :: "Meaning set \<Rightarrow> Meaning set" where
  "spec_link S = S \<union> link_new S S"

lemma exec_meaning:
  "exec_binary_path r = Some p
    \<longleftrightarrow> (\<exists>s v. rule_meaning r = ((s, Process \<lparr>po_binary = Path p\<rparr>, ProcExec), v))"
proof
  assume "exec_binary_path r = Some p"
  then have "r_action r = ProcExec" "r_object r = Process \<lparr>po_binary = Path p\<rparr>"
    by (auto simp: exec_binary_path_def split: if_splits Object.splits BinaryRef.splits)
  then show "\<exists>s v. rule_meaning r = ((s, Process \<lparr>po_binary = Path p\<rparr>, ProcExec), v)"
    by (simp add: rule_meaning_eq)
next
  assume "\<exists>s v. rule_meaning r = ((s, Process \<lparr>po_binary = Path p\<rparr>, ProcExec), v)"
  then show "exec_binary_path r = Some p" by (auto simp: rule_meaning_eq exec_binary_path_def)
qed

lemma implies_meaning: "list_ex (implies_rule s ob a) rules \<longleftrightarrow> (s, ob, a) \<in> fst ` meanings rules"
  by (force simp: list_ex_iff implies_rule_def image_image rule_meaning_def signature_def)

lemma rule_meaning_make [simp]:
  "rule_meaning \<lparr>r_id = n, r_subject = s, r_object = ob, r_action = a, r_verdict = v, r_metadata = m\<rparr> = ((s, ob, a), v)"
  by (simp add: rule_meaning_eq)

text \<open>One step adds the meaning it stands for, unless a rule has its name.\<close>

lemma link_action_meanings:
  "meanings (fst (link_action rules rule ob st a)) = meanings (fst st) \<union>
     (if (r_subject rule, ob, a) \<in> fst ` meanings (rules @ fst st) then {}
      else {((r_subject rule, ob, a), r_verdict rule)})"
  by (cases st) (simp add: link_action_cases implies_meaning image_Un)

definition link_one :: "Meaning set \<Rightarrow> Subject \<Rightarrow> string \<Rightarrow> Verdict \<Rightarrow> Action \<Rightarrow> Meaning set" where
  "link_one S s p v a = (if (s, linked_object p, a) \<in> fst ` S then {} else {((s, linked_object p, a), v)})"

lemma link_action_adds:
  assumes "\<And>w. ((r_subject rule, linked_object p, a), w) \<in> meanings (fst st) \<Longrightarrow> w = r_verdict rule"
  shows "meanings (fst (link_action rules rule (linked_object p) st a))
    = meanings (fst st) \<union> link_one (meanings rules) (r_subject rule) p (r_verdict rule) a"
proof (cases "(r_subject rule, linked_object p, a) \<in> fst ` meanings (fst st)")
  case True
  then obtain x where x: "(r_subject rule, linked_object p, a) = fst x" "x \<in> meanings (fst st)"
    by (rule imageE)
  then have w: "((r_subject rule, linked_object p, a), snd x) \<in> meanings (fst st)" by simp
  have "((r_subject rule, linked_object p, a), r_verdict rule) \<in> meanings (fst st)"
    using w unfolding assms [OF w] .
  then show ?thesis using True by (auto simp: link_action_meanings link_one_def image_Un)
qed (simp add: link_action_meanings link_one_def image_Un)

lemma link_rule_meanings:
  assumes sv: "single_valued (meanings rules)" and X: "X \<subseteq> meanings rules" and rule: "rule \<in> set rules"
    and st: "meanings (fst st) = link_new (meanings rules) X"
  shows "meanings (fst (link_rule rules st rule)) = link_new (meanings rules) (insert (rule_meaning rule) X)"
proof (cases "exec_binary_path rule")
  case None
  then have "rule_meaning rule \<noteq> ((s, Process \<lparr>po_binary = Path p\<rparr>, ProcExec), v)" for s p v
    using exec_meaning [of rule p] by auto
  then have "((s, Process \<lparr>po_binary = Path p\<rparr>, ProcExec), v) \<in> insert (rule_meaning rule) X
      \<longleftrightarrow> ((s, Process \<lparr>po_binary = Path p\<rparr>, ProcExec), v) \<in> X" for s p v
    using insert_iff by metis
  then have "link_new (meanings rules) (insert (rule_meaning rule) X) = link_new (meanings rules) X"
    by (simp only: link_new_def)
  then show ?thesis by (simp add: link_rule_def None st)
next
  case (Some p)
  let ?s = "r_subject rule" and ?v = "r_verdict rule" and ?S = "meanings rules"
  have m: "rule_meaning rule = ((?s, Process \<lparr>po_binary = Path p\<rparr>, ProcExec), ?v)"
    using Some exec_meaning [of rule p] by (auto simp: rule_meaning_eq)
  then have inS: "((?s, Process \<lparr>po_binary = Path p\<rparr>, ProcExec), ?v) \<in> ?S" using rule by force
  have old: "w = ?v" if "((?s, linked_object p, a), w) \<in> link_new ?S X" for a w
  proof -
    from that have "((?s, Process \<lparr>po_binary = Path p\<rparr>, ProcExec), w) \<in> X"
      by (auto simp: link_new_def linked_object_def)
    then show ?thesis using single_valued_verdict [OF sv inS] X by blast
  qed
  have first: "meanings (fst (link_action rules rule (linked_object p) st FileOpen))
      = link_new ?S X \<union> link_one ?S ?s p ?v FileOpen"
    using link_action_adds [of rule p FileOpen st rules] old by (simp add: st)
  have "meanings (fst (link_action rules rule (linked_object p)
        (link_action rules rule (linked_object p) st FileOpen) FileRead))
      = link_new ?S X \<union> link_one ?S ?s p ?v FileOpen \<union> link_one ?S ?s p ?v FileRead"
    by (subst link_action_adds) (auto simp: first link_one_def split: if_splits dest: old)
  also have "\<dots> = link_new ?S (insert (rule_meaning rule) X)"
    unfolding m by (auto simp: link_new_def link_one_def)
  finally show ?thesis by (simp add: link_rule_def Some)
qed

lemma link_fold_meanings:
  assumes "single_valued (meanings rules)"
  shows "set rs \<subseteq> set rules \<Longrightarrow> X \<subseteq> meanings rules \<Longrightarrow> meanings (fst st) = link_new (meanings rules) X
    \<Longrightarrow> meanings (fst (foldl (link_rule rules) st rs)) = link_new (meanings rules) (meanings rs \<union> X)"
proof (induction rs arbitrary: st X)
  case (Cons r rs)
  have "meanings (fst (link_rule rules st r)) = link_new (meanings rules) (insert (rule_meaning r) X)"
    using Cons.prems by (intro link_rule_meanings [OF assms]) auto
  then show ?case
    using Cons.IH [of "insert (rule_meaning r) X" "link_rule rules st r"] Cons.prems by auto
qed simp

lemma link_refines:
  assumes "verdicts_agree rules"
  shows "meanings (link_cross_category rules) = spec_link (meanings rules)"
proof -
  have sv: "single_valued (meanings rules)" using assms by (simp only: verdicts_agree_meanings)
  have "meanings (fst (foldl (link_rule rules) ([], max_id rules + 1) rules)) = link_new (meanings rules) (meanings rules \<union> {})"
    by (rule link_fold_meanings [OF sv]) (auto simp: link_new_def)
  then show ?thesis by (simp add: link_cross_category_append image_Un spec_link_def)
qed

section \<open>A second run changes nothing\<close>

text \<open>The parent directory of a canonical path is a canonical prefix, and the rest of the path is one name.\<close>

lemma no_final_slash: "CHR ''/'' \<notin> set l \<Longrightarrow> l \<noteq> [] \<Longrightarrow> \<not> suffix ''/'' (q @ l)"
  by (cases l rule: rev_cases) (auto simp: suffix_def)

lemma strip_suffix_None: "\<not> suffix p s \<Longrightarrow> strip_suffix p s = None"
  by (cases "strip_suffix p s") (auto simp: strip_suffix_Some suffix_def)

lemma parent_dir_plain:
  assumes "CHR ''/'' \<notin> set l" and "l \<noteq> []"
  shows "parent_dir (q @ ''/'' @ l) = (if q = [] then None else Some (q @ ''/''))"
    and "parent_dir l = None"
proof -
  have "strip_suffix ''/'' (q @ ''/'' @ l) = None"
    using no_final_slash [OF assms, of "q @ ''/''"] by (intro strip_suffix_None) simp
  moreover have "rfind_idx (\<lambda>c. c = CHR ''/'') (q @ CHR ''/'' # l) = Some (length q)"
    using assms by (intro rfind_idx_append) auto
  ultimately show "parent_dir (q @ ''/'' @ l) = (if q = [] then None else Some (q @ ''/''))"
    by (simp add: parent_dir_def)
  have "strip_suffix ''/'' l = None"
    using no_final_slash [OF assms, of "[]"] by (intro strip_suffix_None) simp
  moreover have "rfind_idx (\<lambda>c. c = CHR ''/'') l = None"
    using assms by (auto simp: rfind_idx_def find_idx_None)
  ultimately show "parent_dir l = None" by (simp add: parent_dir_def)
qed

lemma comps_ok_butlast: "comps_ok absolute (init @ [l]) \<Longrightarrow> comps_ok absolute init"
proof -
  assume ok: "comps_ok absolute (init @ [l])"
  then obtain n rest where out: "init @ [l] = replicate n ''..'' @ rest" and rest: "''..'' \<notin> set rest"
    and n: "absolute \<longrightarrow> n = 0" by (auto simp: comps_ok_def)
  have "\<exists>n rest. init = replicate n ''..'' @ rest \<and> ''..'' \<notin> set rest \<and> (absolute \<longrightarrow> n = 0)"
  proof (cases rest rule: rev_cases)
    case Nil
    then have "init = replicate (n - 1) ''..'' @ []"
      using out by (cases n) (auto simp: replicate_append_same [symmetric])
    then show ?thesis using n by (intro exI [of _ "n - 1"] exI [of _ "[]"]) auto
  next
    case (snoc rest' l')
    then show ?thesis using out rest n by (intro exI [of _ n] exI [of _ rest']) auto
  qed
  then show ?thesis using ok by (simp add: comps_ok_def)
qed

lemma join_snoc_nonempty: "init \<noteq> [] \<Longrightarrow> join sep (init @ [l]) = join sep init @ sep @ l"
  by (induction init rule: induct_list012) auto

lemma canonical_parent:
  assumes "canonicalize_path p = p" and dir: "parent_dir p = Some dir"
  shows "\<exists>l. p = dir @ l \<and> CHR ''/'' \<notin> set l \<and> canonicalize_prefix dir = dir"
proof -
  have "canonical_path p" using canonicalize_is_canonical [of p] assms(1) by simp
  moreover have "p \<noteq> '''' \<and> p \<noteq> ''.'' \<and> p \<noteq> ''/''"
    using dir parent_dir_plain(2) [of "''.''"]
    by (auto simp: parent_dir_def strip_suffix_def rfind_idx_def)
  ultimately obtain absolute out where ok: "comps_ok absolute out" and "out \<noteq> []"
    and p: "p = (if absolute then ''/'' else []) @ join ''/'' out"
    unfolding canonical_path_def by (metis append_Nil append_self_conv join.simps(1))
  then obtain init l where out: "out = init @ [l]" by (metis rev_exhaust)
  have l: "CHR ''/'' \<notin> set l" "l \<noteq> []" using ok by (auto simp: out comps_ok_def plain_comp_def)
  have init: "comps_ok absolute init" using ok comps_ok_butlast by (simp add: out)
  have "init \<noteq> []"
  proof
    assume "init = []"
    then have "p = ''/'' @ l \<or> p = l" by (simp add: p out)
    then show False using dir parent_dir_plain(1) [OF l, of "[]"] parent_dir_plain(2) [OF l] by auto
  qed
  let ?q = "(if absolute then ''/'' else []) @ join ''/'' init"
  have pq: "p = ?q @ ''/'' @ l" using \<open>init \<noteq> []\<close> by (simp add: p out join_snoc_nonempty)
  have "join ''/'' init \<noteq> []" using join_eq_Nil [OF init] \<open>init \<noteq> []\<close> by simp
  then have d: "dir = ?q @ ''/''"
    using dir parent_dir_plain(1) [OF l, of ?q] unfolding pq by (simp split: if_splits)
  have "canonical_path ?q" using init \<open>init \<noteq> []\<close> by (auto simp: canonical_path_def)
  then have "canonicalize_path ?q = ?q" by (rule canonicalize_canonical)
  moreover have "?q \<noteq> []" using \<open>join ''/'' init \<noteq> []\<close> by simp
  moreover have "canonicalize_path (?q @ ''/'') = canonicalize_path ?q"
    using calculation(2) by (rule canonicalize_trailing)
  ultimately have "canonicalize_path dir = ?q" unfolding d by (simp only:)
  moreover have "\<not> suffix ''/'' ?q"
  proof -
    obtain rest m where i: "init = rest @ [m]" using \<open>init \<noteq> []\<close> by (metis rev_exhaust)
    have m: "CHR ''/'' \<notin> set m" "m \<noteq> []" using init by (auto simp: i comps_ok_def plain_comp_def)
    show ?thesis
      using no_final_slash [OF m, of "(if absolute then ''/'' else []) @ join ''/'' rest @ ''/''"]
        no_final_slash [OF m, of "if absolute then ''/'' else []"]
      by (cases "rest = []") (simp_all add: i join_snoc_nonempty)
  qed
  ultimately have "canonicalize_prefix dir = dir" by (simp add: canonicalize_prefix_def d)
  then show ?thesis using l pq d by auto
qed

text \<open>What the first run leaves: canonical patterns that cannot be classified further.\<close>

definition settled :: "Meaning set \<Rightarrow> bool" where
  "settled S = (\<forall>x \<in> S. canon_meaning x = x \<and> classify_meaning x = x)"

lemma canon_meaning_idem [simp]: "canon_meaning (canon_meaning m) = canon_meaning m"
proof -
  have "canonicalize_pattern (canonicalize_pattern p) = canonicalize_pattern p" for p
    by (cases p) simp_all
  then show ?thesis by (auto simp: canon_meaning_def split: prod.splits Object.splits)
qed

lemma classify_meaning_idem [simp]: "classify_meaning (classify_meaning m) = classify_meaning m"
  by (auto simp: classify_meaning_def split: prod.splits Object.splits FilePattern.splits option.splits)

lemma canon_classified:
  "canon_meaning m = m \<Longrightarrow> canon_meaning (classify_meaning m) = classify_meaning m"
  by (auto simp: canon_meaning_def classify_meaning_def
      split: prod.splits Object.splits FilePattern.splits option.splits)

lemma settled_classified: "settled (classify_meaning ` canon_meaning ` S)"
  by (auto simp: settled_def canon_classified)

lemma settled_image: "settled S \<Longrightarrow> classify_meaning ` canon_meaning ` S = S"
  by (force simp: settled_def)

lemma settled_exact:
  "settled S \<Longrightarrow> p \<in> exact_in S (s, a, v, dir) \<Longrightarrow>
   \<exists>l. p = dir @ l \<and> CHR ''/'' \<notin> set l \<and> canonicalize_prefix dir = dir"
proof (rule canonical_parent)
  assume "settled S" "p \<in> exact_in S (s, a, v, dir)"
  then have "canon_meaning (exact_meaning (s, a, v, dir) p) = exact_meaning (s, a, v, dir) p"
    by (auto simp: settled_def exact_in_iff)
  then show "canonicalize_path p = p" by (simp add: canon_meaning_def exact_meaning_def)
qed (auto simp: exact_in_def)

lemma settled_widen: "settled S \<Longrightarrow> settled (widen_set pass S)"
proof -
  assume S: "settled S"
  have "canon_meaning (prefix_meaning k) = prefix_meaning k \<and> classify_meaning (prefix_meaning k) = prefix_meaning k"
    if w: "widened pass S k" for k
  proof -
    obtain s a v dir where k: "k = (s, a, v, dir)" by (metis prod.exhaust)
    obtain p where "p \<in> exact_in S (s, a, v, dir)" using w by (auto simp: widened_def k)
    from settled_exact [OF S this] have "canonicalize_prefix dir = dir" by blast
    then show ?thesis by (simp add: k prefix_meaning_def canon_meaning_def classify_meaning_def)
  qed
  then show ?thesis using S by (auto simp: settled_def widen_set_def)
qed

lemma settled_prefix:
  "settled S \<Longrightarrow> ((s, File fo, a), v) \<in> S \<Longrightarrow> fo_pattern fo = Prefix q \<Longrightarrow> suffix ''/'' q"
proof -
  assume "settled S" "((s, File fo, a), v) \<in> S" and q: "fo_pattern fo = Prefix q"
  then have "canon_meaning ((s, File fo, a), v) = ((s, File fo, a), v)" by (auto simp: settled_def)
  then have "fo\<lparr>fo_pattern := canonicalize_pattern (fo_pattern fo)\<rparr> = fo" by (simp add: canon_meaning_def)
  then have "canonicalize_pattern (fo_pattern fo) = fo_pattern fo" by (metis FileObject.select_convs(1) FileObject.surjective FileObject.update_convs(1))
  then have "canonicalize_prefix q = q" by (simp add: q)
  then show ?thesis using canonicalize_prefix_slash [of q] by simp
qed

text \<open>Covered meanings are covered by one that stays.\<close>

lemma meaning_covered_cases:
  "meaning_covered ((s, ob, a), v) y \<longleftrightarrow>
     (\<exists>fo fo'. ob = File fo \<and> y = ((s, File fo', a), v) \<and> relation_to (fo_pattern fo') (fo_pattern fo) = Superset)"
  by (cases ob; cases "fst (snd (fst y))"; cases y) (auto simp: meaning_covered_def object_subsumed_def)

lemma meaning_covered_trans: "meaning_covered x y \<Longrightarrow> meaning_covered y z \<Longrightarrow> meaning_covered x z"
  by (cases x; cases "fst x") (auto simp: meaning_covered_cases, erule (1) relation_to_trans)

definition meaning_size :: "Meaning \<Rightarrow> nat" where
  "meaning_size m = (case m of ((s, ob, a), v) \<Rightarrow> (case ob of File fo \<Rightarrow> prefix_size (fo_pattern fo) | _ \<Rightarrow> 0))"

lemma relation_to_shorter:
  "relation_to b a = Superset \<Longrightarrow> relation_to c b = Superset \<Longrightarrow> prefix_size c < prefix_size b"
  by (cases b) (auto simp: relation_to_Superset prefix_def)

lemma meaning_covered_shorter: "meaning_covered x y \<Longrightarrow> meaning_covered y z \<Longrightarrow> meaning_size z < meaning_size y"
  by (cases x; cases "fst x") (auto simp: meaning_covered_cases meaning_size_def, erule (1) relation_to_shorter)

lemma covered_survivor:
  "meaning_covered x y \<Longrightarrow> y \<in> S \<Longrightarrow> \<exists>z \<in> subsume_set S. meaning_covered x z"
proof (induction "meaning_size y" arbitrary: y rule: less_induct)
  case less
  show ?case
  proof (cases "\<exists>z \<in> S. meaning_covered y z")
    case True
    then obtain z where z: "z \<in> S" "meaning_covered y z" by blast
    show ?thesis
      using less(1) [OF meaning_covered_shorter [OF less(2) z(2)] meaning_covered_trans [OF less(2) z(2)] z(1)] .
  next
    case False
    then have "y \<in> subsume_set S" using less(3) by (auto simp: subsume_set_def)
    then show ?thesis using less(2) by blast
  qed
qed

lemma overlap_mono:
  "relation_to (Prefix dir) p \<noteq> Disjoint \<Longrightarrow> relation_to (Prefix q) p = Superset
   \<Longrightarrow> relation_to (Prefix dir) (Prefix q) \<noteq> Disjoint"
  by (cases p) (auto simp: prefix_vs_glob_def Let_def relation_to_Superset split: if_splits
      dest: prefix_same_cases intro: prefix_order.trans)

lemma opposed_survives:
  assumes "opposed S s v dir"
  shows "opposed (subsume_set (widen_set pass S)) s v dir"
proof -
  obtain fo a v' where x: "((s, File fo, a), v') \<in> S" "v' \<noteq> v" "relation_to (Prefix dir) (fo_pattern fo) \<noteq> Disjoint"
    using assms by (auto simp: opposed_def)
  let ?x = "((s, File fo, a), v')"
  have "\<exists>y \<in> widen_set pass S. y = ?x \<or> meaning_covered ?x y"
  proof (cases "?x \<in> widen_set pass S")
    case False
    then obtain k p where k: "widened pass S k" "p \<in> exact_in S k" "?x = exact_meaning k p"
      using x(1) by (auto simp: widen_set_def)
    then have "prefix_meaning k \<in> widen_set pass S" by (auto simp: widen_set_def)
    moreover have "meaning_covered ?x (prefix_meaning k)"
      using k(2) exact_in_below
      by (cases k) (auto simp: k(3) exact_meaning_def prefix_meaning_def meaning_covered_cases relation_to_Superset)
    ultimately show ?thesis by blast
  qed blast
  then obtain y where y: "y \<in> widen_set pass S" "y = ?x \<or> meaning_covered ?x y" by blast
  have "\<exists>z \<in> subsume_set (widen_set pass S). z = y \<or> meaning_covered y z"
  proof (cases "y \<in> subsume_set (widen_set pass S)")
    case False
    then obtain z where "z \<in> widen_set pass S" "meaning_covered y z" using y(1) by (auto simp: subsume_set_def)
    then show ?thesis using covered_survivor by blast
  qed blast
  then obtain z where z: "z \<in> subsume_set (widen_set pass S)" "z = ?x \<or> meaning_covered ?x z"
    using y(2) meaning_covered_trans by blast
  then consider "z = ?x" | fo' where "z = ((s, File fo', a), v')" "relation_to (fo_pattern fo') (fo_pattern fo) = Superset"
    by (auto simp: meaning_covered_cases)
  then show ?thesis
  proof cases
    case 1
    then show ?thesis using z(1) x by (auto simp: opposed_def)
  next
    case 2
    then obtain q where "fo_pattern fo' = Prefix q" by (auto simp: relation_to_Superset)
    then have "relation_to (Prefix dir) (fo_pattern fo') \<noteq> Disjoint" using overlap_mono x(3) 2(2) by metis
    then show ?thesis using z(1) x(2) unfolding 2(1) opposed_def by blast
  qed
qed

lemma exact_in_widen:
  "p \<in> exact_in (widen_set pass S) k \<longleftrightarrow> p \<in> exact_in S k \<and> \<not> widened pass S k"
proof -
  have "exact_meaning k p \<noteq> prefix_meaning l" for l
    by (cases k; cases l) (simp add: exact_meaning_def prefix_meaning_def)
  moreover have "l = k" if "q \<in> exact_in S l" "exact_meaning k p = exact_meaning l q" "p \<in> exact_in S k" for l q
    using that by (cases k; cases l) (auto simp: exact_in_def exact_meaning_def)
  ultimately show ?thesis
    by (auto simp: widen_set_def exact_in_iff)
qed

text \<open>No directory is opened by the second run.\<close>

lemma nothing_more_widened:
  assumes S: "settled S"
  shows "\<not> widened pass (subsume_set (widen_set pass S)) k"
proof
  obtain s a v dir where k: "k = (s, a, v, dir)" by (metis prod.exhaust)
  let ?T = "widen_set pass S"
  let ?U = "subsume_set ?T"
  assume w: "widened pass ?U k"
  have sub: "?U \<subseteq> ?T" by (auto simp: subsume_set_def)
  obtain p where pU: "p \<in> exact_in ?U k" using w by (auto simp: widened_def k)
  then have "p \<in> exact_in ?T k" using sub by (auto simp: exact_in_iff)
  then have pS: "p \<in> exact_in S k" and not: "\<not> widened pass S k" by (auto simp: exact_in_widen)
  have "exact_in ?U k = exact_in S k"
  proof
    have "exact_in ?U k \<subseteq> exact_in ?T k" using sub by (auto simp: exact_in_iff)
    then show "exact_in ?U k \<subseteq> exact_in S k" by (auto simp: exact_in_widen)
    show "exact_in S k \<subseteq> exact_in ?U k"
    proof
      fix y assume y: "y \<in> exact_in S k"
      have "\<not> meaning_covered (exact_meaning k y) z" if z: "z \<in> ?T" for z
      proof
        assume "meaning_covered (exact_meaning k y) z"
        then obtain fo where zf: "z = ((s, File fo, a), v)" and "relation_to (fo_pattern fo) (ExactPath y) = Superset"
          by (auto simp: k exact_meaning_def meaning_covered_cases)
        then obtain q where q: "fo_pattern fo = Prefix q" "prefix q y" by (auto simp: relation_to_Superset)
        have "suffix ''/'' q" using settled_prefix [OF settled_widen [OF S] z [unfolded zf] q(1)] .
        moreover obtain l where l: "y = dir @ l" "CHR ''/'' \<notin> set l"
          using settled_exact [OF S y [unfolded k]] by blast
        ultimately have "prefix q dir"
          using q(2) by (auto simp: prefix_append suffix_def) (metis append_is_Nil_conv append_self_conv2 in_set_conv_decomp last_appendR last_in_set last_snoc prefix_def set_mono_prefix subsetD not_Cons_self2)
        then have "prefix q p" using exact_in_below [OF pS [unfolded k]] prefix_order.trans by blast
        then have "meaning_covered (exact_meaning k p) z"
          by (auto simp: k exact_meaning_def zf meaning_covered_cases relation_to_Superset q(1))
        then show False using pU z by (auto simp: exact_in_iff subsume_set_def)
      qed
      moreover have "y \<in> exact_in ?T k" using y not by (simp add: exact_in_widen)
      ultimately show "y \<in> exact_in ?U k" by (auto simp: exact_in_iff subsume_set_def)
    qed
  qed
  moreover have "\<not> opposed S s v dir" using w opposed_survives by (auto simp: widened_def k)
  ultimately have "widened pass S k" using w by (simp add: widened_def k)
  then show False using not by blast
qed

lemma settled_subsume: "settled S \<Longrightarrow> settled (subsume_set S)"
  by (simp add: settled_def subsume_set_def)

lemma subsume_set_idem: "subsume_set (subsume_set S) = subsume_set S"
  by (auto simp: subsume_set_def)

lemma widen_set_none: "(\<And>k. \<not> widened pass S k) \<Longrightarrow> widen_set pass S = S"
  by (simp add: widen_set_def)

lemma spec_optimize_idem: "spec_optimize config (spec_optimize config S) = spec_optimize config S"
proof -
  let ?pass = "from_config config"
  let ?S = "classify_meaning ` canon_meaning ` S"
  let ?U = "subsume_set (widen_set ?pass ?S)"
  have U: "settled ?U" by (intro settled_subsume settled_widen settled_classified)
  have w: "widen_set ?pass ?U = ?U"
    by (intro widen_set_none nothing_more_widened settled_classified)
  show ?thesis unfolding spec_optimize_def settled_image [OF U] w by (rule subsume_set_idem)
qed

text \<open>The canonical and classified rules of the result are the result.\<close>

lemma spec_optimize_settled: "classify_meaning ` canon_meaning ` spec_optimize config S = spec_optimize config S"
  unfolding spec_optimize_def by (intro settled_image settled_subsume settled_widen settled_classified)

lemma single_valued_spec:
  "single_valued (classify_meaning ` canon_meaning ` S) \<Longrightarrow> single_valued (spec_optimize config S)"
  unfolding spec_optimize_def by (intro single_valued_subset_eq single_valued_widen)

lemma optimized_agree:
  assumes "verdicts_agree (generalization_run (canonicalization_run rules))"
  shows "verdicts_agree (optimize k1 kg k2 config rules)"
    and "verdicts_agree (generalization_run (canonicalization_run (optimize k1 kg k2 config rules)))"
proof -
  have sv: "single_valued (spec_optimize config (meanings rules))"
    using assms by (simp only: verdicts_agree_meanings meanings_classify meanings_canonicalize single_valued_spec)
  then show "verdicts_agree (optimize k1 kg k2 config rules)"
    by (simp only: verdicts_agree_meanings optimize_refines [OF assms])
  show "verdicts_agree (generalization_run (canonicalization_run (optimize k1 kg k2 config rules)))"
    using sv by (simp only: verdicts_agree_meanings meanings_classify meanings_canonicalize optimize_refines [OF assms]
        spec_optimize_settled)
qed

section \<open>The results\<close>

text \<open>
  C22: the optimizer computes its specification. If no two rules that fall together after canonicalization and
  classification have different verdicts, the pipeline returns, as a set of decisions (subject, object,
  action, verdict), \<open>spec_optimize\<close> of the decisions it was given: whatever the iteration order of the three
  hash maps, the order of the rules, how often a rule was there, and the ids and metadata.
\<close>

theorem pipeline_refines:
  assumes "verdicts_agree (generalization_run (canonicalization_run rules))"
  shows "rule_meaning ` set (fst (run_pipeline_reported_with k1 kg k2 rules config))
    = spec_optimize config (rule_meaning ` set rules)"
  unfolding run_pipeline_rules by (rule optimize_refines [OF assms])

text \<open>
  C25: the optimizer converges. A second run of the pipeline on its own result, with any other iteration
  orders, returns the same decisions.
\<close>

theorem pipeline_idempotent:
  assumes "verdicts_agree (generalization_run (canonicalization_run rules))"
  shows "rule_meaning ` set (fst (run_pipeline_reported_with l1 lg l2
      (fst (run_pipeline_reported_with k1 kg k2 rules config)) config))
    = rule_meaning ` set (fst (run_pipeline_reported_with k1 kg k2 rules config))"
  unfolding run_pipeline_rules
  by (simp only: optimize_refines [OF optimized_agree(2) [OF assms]] optimize_refines [OF assms] spec_optimize_idem)

lemma allow_only_generalized:
  "allow_only rules \<Longrightarrow> verdicts_agree (generalization_run (canonicalization_run rules))"
  by (rule allow_only_agree) simp

lemma translated_allow_only:
  "translate_all_events_json from_str pfv profile = Inr rules \<Longrightarrow> allow_only rules"
  unfolding allow_only_def by (rule translated_allow)

lemma compiled_alike:
  "rel_sum (=) (\<lambda>rules rules'. meanings rules = meanings rules')
     (compile_profile (T\<lparr>tl_orders := orders\<rparr>) profile no_optimize config)
     (compile_profile T profile no_optimize config)"
proof (cases "translate_all_events_json (tl_from_str T) (tl_pattern_from_value T) profile")
  case (Inr raw)
  have agree: "verdicts_agree (generalization_run (canonicalization_run raw))"
    by (intro allow_only_generalized translated_allow_only [OF Inr])
  have "meanings (link_cross_category (optimize k1 kg k2 config raw)) = spec_link (spec_optimize config (meanings raw))"
    for k1 kg k2
    by (simp only: link_refines [OF optimized_agree(1) [OF agree]] optimize_refines [OF agree])
  then show ?thesis using Inr by (simp add: compile_profile_def split: prod.splits)
qed (simp add: compile_profile_def)

lemma map_sum_alike:
  "rel_sum (=) Q x y \<Longrightarrow> (\<And>a b. Q a b \<Longrightarrow> f a = f b) \<Longrightarrow> map_sum id f x = map_sum id f y"
  by (cases x; cases y) simp_all

text \<open>
  C23: compiling a profile is deterministic. Two runs on the same profile, in which the hash maps are iterated
  in different orders, end in the same error or give the same decisions, with and without optimization.
\<close>

theorem compile_deterministic:
  "map_sum id (\<lambda>rules. rule_meaning ` set rules) (compile_profile (T\<lparr>tl_orders := orders\<rparr>) profile no_optimize config)
   = map_sum id (\<lambda>rules. rule_meaning ` set rules) (compile_profile T profile no_optimize config)"
  by (rule map_sum_alike [OF compiled_alike])

text \<open>
  The lines of the printed profile are sorted and listed once, and a line depends on the decision of its rule only:
  the decisions determine the text.
\<close>

lemma distinct_remdups_adj_sorted: "sorted xs \<Longrightarrow> distinct (remdups_adj xs)"
  by (induction xs rule: remdups_adj.induct) force+

lemma dedup_sort_determined: "set xs = set ys \<Longrightarrow> dedup_sort xs = dedup_sort ys"
  unfolding dedup_sort_def by (intro sorted_distinct_set_unique distinct_remdups_adj_sorted) simp_all

lemma rule_line_meaning:
  assumes "rule_meaning r = rule_meaning r'"
  shows "rule_line r = rule_line r'"
proof -
  have eq: "r_object r = r_object r'" "r_action r = r_action r'" "r_verdict r = r_verdict r'"
    using assms by (simp_all add: rule_meaning_def signature_def)
  show ?thesis unfolding rule_line_def deny_text_def eq by (rule refl)
qed

lemma section_lines_in:
  "l \<in> set (section_lines s (lower_all dbg rules)) \<longleftrightarrow> (\<exists>r \<in> set rules. rule_line r = Some (s, l))"
  by (induction rules) (auto simp: lower_all_lines List.map_filter_simps split: option.splits if_splits)

lemma profile_text_by_lines:
  assumes "rule_line ` set rules = rule_line ` set rules'"
  shows "fst (lower_to_apparmor dbg rules name) = fst (lower_to_apparmor dbg rules' name)"
proof -
  have "dedup_sort (section_lines s (lower_all dbg rules)) = dedup_sort (section_lines s (lower_all dbg rules'))" for s
  proof (rule dedup_sort_determined)
    have "set (section_lines s (lower_all dbg rs)) = {l. Some (s, l) \<in> rule_line ` set rs}" for rs
      by (rule set_eqI) (simp add: section_lines_in image_iff eq_commute)
    then show "set (section_lines s (lower_all dbg rules)) = set (section_lines s (lower_all dbg rules'))"
      by (simp only: assms)
  qed
  from this [of Sec_exec] this [of Sec_file] this [of Sec_net] show ?thesis
    by (simp add: lower_to_apparmor_def Let_def)
qed

lemma profile_text_determined:
  assumes "meanings rules = meanings rules'"
  shows "fst (lower_to_apparmor dbg rules name) = fst (lower_to_apparmor dbg rules' name)"
proof (rule profile_text_by_lines)
  have "rule_line ` set as \<subseteq> rule_line ` set bs" if "meanings as = meanings bs" for as bs
  proof (rule image_subsetI)
    fix r
    assume "r \<in> set as"
    with that obtain r' where "r' \<in> set bs" "rule_meaning r = rule_meaning r'" by (metis imageE imageI)
    with rule_line_meaning show "rule_line r \<in> rule_line ` set bs" by (metis imageI)
  qed
  from this [OF assms] this [OF assms [symmetric]]
  show "rule_line ` set rules = rule_line ` set rules'" by (rule equalityI)
qed

text \<open>
  C24: the profile that is written for AppArmor is deterministic. The same recorded profile gives the same text, byte
  for byte, in whichever order the hash maps of the optimizer are iterated.
\<close>

theorem emitted_profile_deterministic:
  "map_sum id (\<lambda>rules. fst (lower_to_apparmor dbg rules name))
     (compile_profile (T\<lparr>tl_orders := orders\<rparr>) profile no_optimize config)
   = map_sum id (\<lambda>rules. fst (lower_to_apparmor dbg rules name)) (compile_profile T profile no_optimize config)"
  by (rule map_sum_alike [OF compiled_alike]) (rule profile_text_determined)

text \<open>
  Without the agreement the order of a hash map decides: an allowed and a denied file that fall into one class
  leave one rule, and which verdict it has depends on the order in which the first deduplication returned them.
\<close>

definition two_processes :: "BehaviorRule list" where
  "two_processes = [sample_rule 1 ''/proc/1/status'', (sample_rule 2 ''/proc/2/status'')\<lparr>r_verdict := Deny\<rparr>]"

lemma order_decides_verdict:
  "map r_verdict (fst (run_pipeline_reported_with [] [] [] two_processes default_config)) = [Allow]"
  "map r_verdict (fst (run_pipeline_reported_with [1] [] [] two_processes default_config)) = [Deny]"
  by code_simp+

lemma pipeline_refines_witness:
  "rule_meaning ` set (fst (run_pipeline_reported_with [2, 0] [1] [1] sample_rules default_config))
   = spec_optimize default_config (rule_meaning ` set sample_rules)"
proof -
  have "verdicts_agree (generalization_run (canonicalization_run sample_rules))" by code_simp
  then show ?thesis by (rule pipeline_refines)
qed

lemma pipeline_idempotent_witness:
  "rule_meaning ` set (fst (run_pipeline_reported_with [3] [] [] (fst (run_pipeline_reported_with [2, 0] [1] [1]
      (sample_rules @ sample_rules) default_config)) default_config))
   = rule_meaning ` set (fst (run_pipeline_reported_with [2, 0] [1] [1] (sample_rules @ sample_rules) default_config))"
proof -
  have "verdicts_agree (generalization_run (canonicalization_run (sample_rules @ sample_rules)))" by code_simp
  then show ?thesis by (rule pipeline_idempotent)
qed

end
