(* ===== verification/Scenario.thy ===== *)
theory Scenario
  imports CrossFormat Determinism
begin

text \<open>
  \<open>main\<close> of \<open>ebpf-mon-common/examples/cross_format.rs\<close>, the demonstration that the repository prints: the
  same behaviour as recorded events and as a handwritten profile, compiled by the same pipeline, printed in both
  formats and asked the same questions.

  Where \<open>main\<close> unwraps a result and there is none, it panics: \<open>None\<close>. \<open>MONITOR_EVENTS\<close> is the document that
  \<open>serde_json\<close> reads from the text of the events. Of the terminal output the model has the decision table, the
  divergences and the rows of the shared IR; headlines and the display of the two formats are left out.
\<close>

section \<open>The two inputs\<close>

definition object :: "(string \<times> Value) list \<Rightarrow> Value" where
  "object kvs = JObject kvs"

definition number :: "u64 \<Rightarrow> Value" where
  "number n = JNumber (PosInt n)"

definition process_ctx :: Value where
  "process_ctx = object [(''executable'', JString ''/usr/bin/python3''), (''uid'', number 0), (''cgroup_id'', number 111)]"

definition fs_value :: "string \<Rightarrow> string \<Rightarrow> u64 \<Rightarrow> Value" where
  "fs_value path r_w freq =
     object [(''path'', JString path), (''r_w'', JString r_w), (''freq'', number freq), (''process_ctx'', process_ctx)]"

definition MONITOR_EVENTS :: Value where
  "MONITOR_EVENTS = object
    [(''fs'', JArray
       [fs_value ''/app/config.yaml'' ''read'' 5,
        fs_value ''/var/lib/app/cache/cache_00000001'' ''write'' 1,
        fs_value ''/var/lib/app/cache/cache_00000002'' ''write'' 1,
        fs_value ''/var/lib/app/cache/cache_00000003'' ''write'' 1,
        fs_value ''/var/lib/app/cache/cache_00000004'' ''write'' 1,
        fs_value ''/var/lib/app/cache/cache_00000005'' ''write'' 1,
        fs_value ''/var/lib/app/cache/cache_00000006'' ''write'' 1,
        fs_value ''/proc/999/status'' ''read'' 3]),
     (''process'', JArray
       [object [(''exec_path'', JString ''/usr/bin/python3''), (''ps_type'', JString ''execve''),
          (''cgroup_id'', number 111), (''process_ctx'', object [(''uid'', number 0)])]]),
     (''network'', JArray
       [object [(''dst_ip'', JString ''93.184.216.34''), (''dst_port'', number 443), (''protocol'', JString ''TCP''),
          (''direction'', JString ''outgoing''), (''freq'', number 10), (''process_ctx'', process_ctx)]])]"

definition APPARMOR_PROFILE :: string where
  "APPARMOR_PROFILE =
     ''profile demo flags=(attach_disconnected) {'' @ [newline] @
     ''  /app/config.yaml r,'' @ [newline] @
     ''  /var/lib/app/cache/** w,'' @ [newline] @
     ''  /proc/*/status r,'' @ [newline] @
     ''  /usr/bin/python3 ix,'' @ [newline] @
     ''  network inet stream peer=(ip=93.184.216.34 port=443),'' @ [newline] @
     ''}'' @ [newline]"

section \<open>Printing\<close>

definition escape :: "string \<Rightarrow> string" where
  "escape code = [CHR 0x1B] @ ''['' @ code @ ''m''"

definition G :: string where "G = escape ''0;32''"
definition R :: string where "R = escape ''0;31''"
definition D :: string where "D = escape ''0;90''"
definition NC :: string where "NC = escape ''0''"

text \<open>\<open>{:<n}\<close> and \<open>{:>n}\<close>.\<close>

definition pad_right :: "nat \<Rightarrow> string \<Rightarrow> string" where
  "pad_right n s = s @ replicate (n - length (rust_chars s)) CHR '' ''"

definition pad_left :: "nat \<Rightarrow> string \<Rightarrow> string" where
  "pad_left n s = replicate (n - length (rust_chars s)) CHR '' '' @ s"

definition verdict_text :: "bool \<Rightarrow> string" where
  "verdict_text b = (if b then G @ ''ALLOW'' @ NC else R @ ''deny'' @ NC)"

primrec verdict_name :: "Verdict \<Rightarrow> string" where
  "verdict_name Allow = ''Allow''"
| "verdict_name Deny = ''Deny''"
| "verdict_name Audit = ''Audit''"

definition describe_object :: "Object \<Rightarrow> string" where
  "describe_object ob =
     (case ob of
        File f \<Rightarrow>
          (case fo_pattern f of
             ExactPath p \<Rightarrow> ''file exact  '' @ p
           | Prefix p \<Rightarrow> ''file prefix '' @ p @ ''**''
           | Classified c \<Rightarrow> ''file glob   '' @ as_str c)
      | Process p \<Rightarrow> (case po_binary p of Path b \<Rightarrow> ''exec        '' @ b | Comm _ \<Rightarrow> ''exec        <comm>'')
      | Network n \<Rightarrow>
          ''net         ip='' @ (case no_dst_ip n of None \<Rightarrow> ''any'' | Some a \<Rightarrow> ip_str a)
          @ '' port='' @ dbg_option unat (no_dst_port n) @ '' proto='' @ dbg_option unat (no_protocol n))"

definition describe :: "BehaviorRule \<Rightarrow> string" where
  "describe r =
     verdict_name (r_verdict r) @ '' '' @ pad_right 10 (action_name (r_action r)) @ '' '' @ describe_object (r_object r)"

definition table_line :: "string \<times> bool \<times> bool \<times> bool \<Rightarrow> string" where
  "table_line row =
     (case row of (op, a, b, agree) \<Rightarrow>
        ''    '' @ pad_right 40 op @ '' '' @ pad_left 17 (verdict_text a) @ '' '' @ pad_left 17 (verdict_text b) @ '' ''
        @ pad_left 15 (if agree then G @ ''yes'' @ NC else R @ ''NO'' @ NC))"

definition diverge_row :: "string \<Rightarrow> bool \<Rightarrow> bool \<Rightarrow> string \<Rightarrow> string list" where
  "diverge_row op aa bpf why =
     [''  '' @ op,
      ''     AppArmor '' @ verdict_text aa @ ''   BPF-LSM '' @ verdict_text bpf @ ''   '' @ D @ ''('' @ why @ '')'' @ NC]"

section \<open>The demonstration\<close>

type_synonym Orders = "nat list \<times> nat list \<times> nat list"

definition compile_in :: "Orders \<Rightarrow> BehaviorRule list \<Rightarrow> BehaviorRule list" where
  "compile_in ord raw = (case ord of (k1, kg, k2) \<Rightarrow> compile k1 kg k2 raw)"

text \<open>Step 1: the two frontends.\<close>

definition two_frontends ::
    "Orders \<Rightarrow> Orders \<Rightarrow> (string \<Rightarrow> string + Value) \<Rightarrow> (Value \<Rightarrow> PathPattern option) \<Rightarrow> string
       \<Rightarrow> (BehaviorRule list \<times> BehaviorRule list) option" where
  "two_frontends oe oa from_str pattern_from_value events =
     (case (translate_all_events_json from_str pattern_from_value events, parse_apparmor APPARMOR_PROFILE) of
        (Inr raw_e, Some raw_a) \<Rightarrow> Some (compile_in oe raw_e, compile_in oa raw_a)
      | _ \<Rightarrow> None)"

text \<open>Step 2: what they mean, and the rows of the shared IR.\<close>

definition identical :: "BehaviorRule list \<Rightarrow> BehaviorRule list \<Rightarrow> bool" where
  "identical ir_from_events ir_from_aa = (semantic_set ir_from_events = semantic_set ir_from_aa)"

definition ir_rows :: "BehaviorRule list \<Rightarrow> string list" where
  "ir_rows ir = remdups_adj (sort (map describe ir))"

text \<open>Step 4: the decision table.\<close>

definition decision_table :: "string \<Rightarrow> BpfImage \<Rightarrow> (string \<times> bool \<times> bool \<times> bool) list option" where
  "decision_table aa_text bpf = those (map (decision_row aa_text bpf) shared)"

definition all_agree :: "(string \<times> bool \<times> bool \<times> bool) list \<Rightarrow> bool" where
  "all_agree rows = foldl (\<lambda>acc row. acc \<and> snd (snd (snd row))) True rows"

text \<open>Step 5: the two rows on which the formats differ.\<close>

definition divergences :: "(string \<Rightarrow> string) \<Rightarrow> string \<Rightarrow> BpfImage \<Rightarrow> string list option" where
  "divergences dbg aa_text bpf =
     (let udp = ProbeNet (ip 93 184 216 34) 443 17;
          other = ProbeNet (ip 1 2 3 4) 443 6
      in case (aa_decides aa_text udp, aa_decides (fst (lower_to_apparmor dbg any_peer_rule ''demo'')) other) of
          (Some aa, Some aa_any) \<Rightarrow>
            Some (diverge_row ''connect 93.184.216.34:443 / UDP  (profiled TCP)'' aa (bpf_decides bpf udp)
                    ''AppArmor keeps stream/dgram; BPF-LSM socket key omits protocol''
                  @ diverge_row ''connect <any-ip>:443  (ip-less allow rule)'' aa_any
                    (bpf_decides (lower_bpf any_peer_rule) other)
                    (''AppArmor expresses '' @ [CHR 0x27] @ ''any peer'' @ [CHR 0x27] @ ''; BPF-LSM loader drops ip-less rules''))
        | _ \<Rightarrow> None)"

record Demonstration =
  dm_identical :: bool
  dm_rows :: "string list"
  dm_table :: "string list"
  dm_all_agree :: bool
  dm_divergences :: "string list"

definition demonstration ::
    "Orders \<Rightarrow> Orders \<Rightarrow> (string \<Rightarrow> string + Value) \<Rightarrow> (Value \<Rightarrow> PathPattern option) \<Rightarrow> (string \<Rightarrow> string)
       \<Rightarrow> string \<Rightarrow> Demonstration option" where
  "demonstration oe oa from_str pattern_from_value dbg events =
     (case two_frontends oe oa from_str pattern_from_value events of
        None \<Rightarrow> None
      | Some (ir, ir_from_aa) \<Rightarrow>
          (let aa_text = fst (lower_to_apparmor dbg ir ''demo'');
               bpf = lower_bpf ir
           in case (decision_table aa_text bpf, divergences dbg aa_text bpf) of
               (Some rows, Some lines) \<Rightarrow>
                 Some \<lparr>dm_identical = identical ir ir_from_aa, dm_rows = ir_rows ir,
                   dm_table = map table_line rows, dm_all_agree = all_agree rows, dm_divergences = lines\<rparr>
             | _ \<Rightarrow> None))"

section \<open>What the two inputs compile to\<close>

text \<open>A rule for a decision, and the decisions of the demonstration.\<close>

definition of_meaning :: "Meaning \<Rightarrow> BehaviorRule" where
  "of_meaning m =
     (case m of ((s, ob, a), v) \<Rightarrow>
        \<lparr>r_id = 0, r_subject = s, r_object = ob, r_action = a, r_verdict = v, r_metadata = meta Fs\<rparr>)"

lemma rule_meaning_of [simp]: "rule_meaning (of_meaning m) = m"
  by (cases m) (auto simp: of_meaning_def rule_meaning_eq)

lemma meanings_of [simp]: "meanings (map of_meaning ms) = set ms"
  by (simp add: image_image)

text \<open>
  The result of compiling, in any iteration order, is computed pass by pass on lists of decisions: \<open>M\<close> after
  classification, \<open>W\<close> after widening, \<open>S\<close> after subsumption and \<open>F\<close> after linking.
\<close>

lemma compiled_meanings:
  assumes "allow_only raw"
    and M: "classify_meaning ` canon_meaning ` meanings raw = set M"
    and "candidates_distinct (map of_meaning M)"
    and W: "map rule_meaning (prefix_generalization_run [] (from_config default_config) (map of_meaning M)) = W"
    and S: "map rule_meaning (subsumption_run (map of_meaning W)) = S"
    and "allow_only (map of_meaning S)"
    and F: "map rule_meaning (link_cross_category (map of_meaning S)) = F"
  shows "meanings (compile_in ord raw) = set F"
proof -
  obtain k1 kg k2 where ord: "ord = (k1, kg, k2)" by (cases ord)
  have agree: "verdicts_agree (generalization_run (canonicalization_run raw))"
    by (rule allow_only_generalized [OF assms(1)])
  have "widen_set (from_config default_config) (meanings (map of_meaning M)) = set W"
    unfolding meanings_widen [OF assms(3), symmetric, where ks = "[]"] by (simp add: W [symmetric])
  moreover have "subsume_set (meanings (map of_meaning W)) = set S"
    unfolding meanings_subsume [symmetric] by (simp add: S [symmetric])
  ultimately have opt: "spec_optimize default_config (meanings raw) = meanings (map of_meaning S)"
    by (simp only: spec_optimize_def M meanings_of)
  have link: "spec_link (meanings (map of_meaning S)) = set F"
    unfolding link_refines [OF allow_only_agree [OF assms(6)], symmetric] by (simp add: F [symmetric])
  have "compile_in ord raw = link_cross_category (optimize k1 kg k2 default_config raw)"
    by (simp add: ord compile_in_def compile_def run_pipeline_def run_pipeline_reported_def split_beta)
  then show ?thesis
    by (simp only: link_refines [OF optimized_agree(1) [OF agree]] optimize_refines [OF agree] opt link)
qed

definition observed :: Subject where
  "observed = \<lparr>sub_container = Some (CgroupId 111), sub_binary = Some (Path ''/usr/bin/python3''), sub_uid = Some 0\<rparr>"

definition exec_observed :: Subject where
  "exec_observed = \<lparr>sub_container = Some (CgroupId 111), sub_binary = None, sub_uid = Some 0\<rparr>"

definition file_of :: "FilePattern \<Rightarrow> Object" where
  "file_of p = File \<lparr>fo_pattern = p, fo_is_sensitive = False\<rparr>"

definition python :: Object where
  "python = Process \<lparr>po_binary = Path ''/usr/bin/python3''\<rparr>"

definition peer :: Object where
  "peer = Network \<lparr>no_dst_ip = Some (ip 93 184 216 34), no_dst_port = Some 443, no_protocol = Some 6,
     no_direction = Some 1\<rparr>"

definition cache_file :: "string \<Rightarrow> Meaning" where
  "cache_file n = ((observed, file_of (ExactPath (''/var/lib/app/cache/cache_'' @ n)), FileWrite), Allow)"

definition seen_events :: "Meaning list" where
  "seen_events =
     [((observed, file_of (ExactPath ''/app/config.yaml''), FileRead), Allow)]
     @ map cache_file [''00000001'', ''00000002'', ''00000003'', ''00000004'', ''00000005'', ''00000006'']
     @ [((observed, file_of (Classified ProcPidStatus), FileRead), Allow), ((observed, peer, NetConnect), Allow),
        ((exec_observed, python, ProcExec), Allow)]"

definition widened_events :: "Meaning list" where
  "widened_events =
     [((observed, file_of (ExactPath ''/app/config.yaml''), FileRead), Allow),
      ((observed, file_of (Classified ProcPidStatus), FileRead), Allow),
      ((observed, peer, NetConnect), Allow),
      ((exec_observed, python, ProcExec), Allow),
      ((observed, file_of (Prefix ''/var/lib/app/cache/''), FileWrite), Allow)]"

text \<open>What linking adds for the executable.\<close>

definition linked_files :: "Subject \<Rightarrow> Meaning list" where
  "linked_files s =
     [((s, file_of (ExactPath ''/usr/bin/python3''), FileOpen), Allow),
      ((s, file_of (ExactPath ''/usr/bin/python3''), FileRead), Allow)]"

definition written_profile :: "Meaning list" where
  "written_profile =
     [((empty_subject, file_of (ExactPath ''/app/config.yaml''), FileRead), Allow),
      ((empty_subject, file_of (Prefix ''/var/lib/app/cache/''), FileWrite), Allow),
      ((empty_subject, file_of (Classified ProcPidStatus), FileRead), Allow),
      ((empty_subject, python, ProcExec), Allow),
      ((empty_subject, peer, NetConnect), Allow)]"

subsection \<open>The recorded events\<close>

lemma events_translated:
  assumes "from_str events = Inr MONITOR_EVENTS"
  obtains raw where "translate_all_events_json from_str pfv events = Inr raw"
    and "classify_meaning ` canon_meaning ` meanings raw = set seen_events"
proof -
  have "case translate_all_events_json (\<lambda>_. Inr MONITOR_EVENTS) pfv '''' of
      Inr raw \<Rightarrow> map rule_meaning (generalization_run (canonicalization_run raw)) = seen_events | Inl _ \<Rightarrow> False"
    by code_simp
  moreover have "translate_all_events_json (\<lambda>_. Inr MONITOR_EVENTS) pfv '''' = translate_all_events_json from_str pfv events"
    using assms by (simp add: translate_all_events_json_def)
  ultimately obtain raw where raw: "translate_all_events_json from_str pfv events = Inr raw"
    and "map rule_meaning (generalization_run (canonicalization_run raw)) = seen_events"
    by (cases "translate_all_events_json from_str pfv events") simp_all
  then have "meanings (generalization_run (canonicalization_run raw)) = set seen_events"
    by (metis list.set_map)
  with that [OF raw] show ?thesis by (simp add: meanings_classify meanings_canonicalize)
qed

lemma events_distinct: "candidates_distinct (map of_meaning seen_events)"
  by code_simp

lemma events_groups:
  "map snd (collapsing [] (from_config default_config) (map of_meaning seen_events)) = [[1, 2, 3, 4, 5, 6]]"
  "map (prefix_meaning \<circ> fst) (collapsing [] (from_config default_config) (map of_meaning seen_events))
     = [((observed, file_of (Prefix (''/var/lib/app/cache/'')), FileWrite), Allow)]"
  by code_simp+

lemma events_kept:
  "map (\<lambda>i. seen_events ! i) (filter (\<lambda>i. i \<notin> set [1, 2, 3, 4, 5, 6]) [0..<length seen_events]) = butlast widened_events"
  by code_simp

lemma widened_meanings:
  assumes "concat (map snd (collapsing ks pass (map of_meaning ms))) = ci" and "ci \<noteq> []"
  shows "map rule_meaning (prefix_generalization_run ks pass (map of_meaning ms)) =
    map ((!) ms) (filter (\<lambda>i. i \<notin> set ci) [0..<length ms])
    @ map (prefix_meaning \<circ> fst) (collapsing ks pass (map of_meaning ms))"
proof -
  let ?rules = "map of_meaning ms"
  have synth: "map (rule_meaning \<circ> synthesize ?rules) gs = map (prefix_meaning \<circ> fst) gs" for gs
    by (rule map_cong [OF refl]) (auto simp: synthesize_meaning)
  have kept: "map (rule_meaning \<circ> (!) ?rules) is = map ((!) ms) is" if "\<forall>i \<in> set is. i < length ms" for "is"
    using that by simp
  have "prefix_generalization_run ks pass ?rules =
      map ((!) ?rules) (filter (\<lambda>i. i \<notin> set ci) [0..<length ms]) @ map (synthesize ?rules) (collapsing ks pass ?rules)"
    unfolding prefix_generalization_run_def Let_def assms(1) using assms(2) by simp
  moreover have "map (rule_meaning \<circ> (!) ?rules) (filter (\<lambda>i. i \<notin> set ci) [0..<length ms])
      = map ((!) ms) (filter (\<lambda>i. i \<notin> set ci) [0..<length ms])"
    by (rule kept) simp
  ultimately show ?thesis by (simp only: map_append map_map synth)
qed

lemma events_widened:
  "map rule_meaning (prefix_generalization_run [] (from_config default_config) (map of_meaning seen_events)) = widened_events"
proof -
  have "concat (map snd (collapsing [] (from_config default_config) (map of_meaning seen_events))) = [1, 2, 3, 4, 5, 6]"
    by (simp add: events_groups(1))
  from widened_meanings [OF this] show ?thesis
    unfolding events_groups(2) events_kept by (simp add: widened_events_def)
qed

lemma events_linked:
  "map rule_meaning (subsumption_run (map of_meaning widened_events)) = widened_events"
  "allow_only (map of_meaning widened_events)"
  "map rule_meaning (link_cross_category (map of_meaning widened_events)) = widened_events @ linked_files exec_observed"
  by code_simp+

subsection \<open>The handwritten profile\<close>

text \<open>The rules as they are parsed, line by line.\<close>

lemma parsed_file_line:
  assumes "path_text g" and "perms_text p" and "l = file_line '''' g p"
  shows "parse_line (rules, n) l = Some (perm_rules rules n Allow g p)"
  using parse_file_line [OF assms(1,2), of "''''" Allow rules n] assms(3) by simp

lemma profile_lines:
  "rust_lines APPARMOR_PROFILE =
     [''profile demo flags=(attach_disconnected) {'', ''  /app/config.yaml r,'', ''  /var/lib/app/cache/** w,'',
      ''  /proc/*/status r,'', ''  /usr/bin/python3 ix,'',
      ''  network inet stream peer=(ip=93.184.216.34 port=443),'', ''}'']"
  by code_simp

lemma profile_file_lines:
  "parse_line (rules, n) ''  /app/config.yaml r,'' = Some (perm_rules rules n Allow ''/app/config.yaml'' ''r'')"
  "parse_line (rules, n) ''  /var/lib/app/cache/** w,'' = Some (perm_rules rules n Allow ''/var/lib/app/cache/**'' ''w'')"
  "parse_line (rules, n) ''  /proc/*/status r,'' = Some (perm_rules rules n Allow ''/proc/*/status'' ''r'')"
  "parse_line (rules, n) ''  /usr/bin/python3 ix,'' = Some (perm_rules rules n Allow ''/usr/bin/python3'' ''ix'')"
  by (rule parsed_file_line; code_simp)+

lemma profile_net_line:
  "parse_line (rules, n) ''  network inet stream peer=(ip=93.184.216.34 port=443),'' =
     Some (rules @ [\<lparr>r_id = n, r_subject = empty_subject, r_object = peer, r_action = NetConnect, r_verdict = Allow,
       r_metadata = meta Net\<rparr>], n + 1)"
proof -
  have l: "''  network inet stream peer=(ip=93.184.216.34 port=443),''
      = ''  '' @ '''' @ (''network'' @ net_tail 6 (Some (ip 93 184 216 34)) (Some 443)) @ '',''"
    by code_simp
  show ?thesis
    unfolding l by (subst parse_net_line [where v = Allow]) (simp_all add: parse_network_tail peer_def)
qed

lemma profile_skipped:
  "parse_line st ''profile demo flags=(attach_disconnected) {'' = Some st" "parse_line st ''}'' = Some st"
proof -
  have skipped: "skipped_line (trim ''profile demo flags=(attach_disconnected) {'')" "skipped_line (trim ''}'')"
    by code_simp+
  show "parse_line st ''profile demo flags=(attach_disconnected) {'' = Some st" "parse_line st ''}'' = Some st"
    unfolding parse_line_def using skipped by (simp_all add: Let_def split: prod.split)
qed

lemma profile_globs:
  "glob_to_pattern ''/app/config.yaml'' = ExactPath ''/app/config.yaml''"
  "glob_to_pattern ''/var/lib/app/cache/**'' = Prefix ''/var/lib/app/cache/''"
  "glob_to_pattern ''/proc/*/status'' = Classified ProcPidStatus"
  by code_simp+

lemma profile_parsed:
  obtains raw where "parse_apparmor APPARMOR_PROFILE = Some raw" and "map rule_meaning raw = written_profile"
  by (simp add: parse_apparmor_def profile_lines profile_skipped profile_file_lines profile_net_line perm_rules_def
      file_rule_def exec_rule_def alloc_def profile_globs rule_meaning_def signature_def written_profile_def
      file_of_def python_def)

lemma profile_classified: "map (classify_meaning \<circ> canon_meaning) written_profile = written_profile"
  by code_simp

lemma profile_widened:
  "candidates_distinct (map of_meaning written_profile)"
  "collapsing [] (from_config default_config) (map of_meaning written_profile) = []"
  by code_simp+

lemma profile_linked:
  "map rule_meaning (subsumption_run (map of_meaning written_profile)) = written_profile"
  "allow_only (map of_meaning written_profile)"
  "map rule_meaning (link_cross_category (map of_meaning written_profile)) = written_profile @ linked_files empty_subject"
  by code_simp+

section \<open>Both inputs mean the same\<close>

definition compiled_events :: "Meaning list" where
  "compiled_events = widened_events @ linked_files exec_observed"

definition compiled_profile :: "Meaning list" where
  "compiled_profile = written_profile @ linked_files empty_subject"

lemma events_compiled:
  assumes "from_str events = Inr MONITOR_EVENTS"
  obtains raw where "translate_all_events_json from_str pfv events = Inr raw"
    and "\<And>ord. meanings (compile_in ord raw) = set compiled_events"
proof -
  obtain raw where raw: "translate_all_events_json from_str pfv events = Inr raw"
    "classify_meaning ` canon_meaning ` meanings raw = set seen_events"
    by (rule events_translated [where from_str = from_str and events = events, OF assms])
  have "meanings (compile_in ord raw) = set compiled_events" for ord
    unfolding compiled_events_def
    by (rule compiled_meanings [OF translated_allow_only [OF raw(1)] raw(2) events_distinct events_widened events_linked])
  with that raw(1) show ?thesis by blast
qed

lemma profile_compiled:
  obtains raw where "parse_apparmor APPARMOR_PROFILE = Some raw"
    and "\<And>ord. meanings (compile_in ord raw) = set compiled_profile"
proof -
  obtain raw where raw: "parse_apparmor APPARMOR_PROFILE = Some raw" "map rule_meaning raw = written_profile"
    by (rule profile_parsed)
  have meanings: "meanings raw = set written_profile" by (metis raw(2) list.set_map)
  have classified: "classify_meaning ` canon_meaning ` meanings raw = set written_profile"
    unfolding meanings image_comp by (metis profile_classified list.set_map)
  have "\<forall>m \<in> meanings raw. snd m = Allow" unfolding meanings by (simp add: written_profile_def)
  then have "allow_only raw" by (simp add: allow_only_def list_all_iff rule_meaning_def)
  moreover have "map rule_meaning (prefix_generalization_run [] (from_config default_config) (map of_meaning written_profile))
      = written_profile"
    by (simp add: prefix_generalization_run_def profile_widened(2) comp_def)
  ultimately have "meanings (compile_in ord raw) = set compiled_profile" for ord
    unfolding compiled_profile_def
    by (intro compiled_meanings [OF _ classified profile_widened(1) _ profile_linked])
  with that raw(1) show ?thesis by blast
qed

lemma semantic_set_meanings: "semantic_set rules = (\<lambda>((s, ob, a), v). (ob, a, v)) ` meanings rules"
  by (simp add: semantic_set_def image_image rule_meaning_def signature_def)

lemma inputs_converge:
  assumes "meanings ir = set compiled_events" and "meanings ir' = set compiled_profile"
  shows "identical ir ir'"
  unfolding identical_def semantic_set_meanings assms
  by (simp add: compiled_events_def compiled_profile_def widened_events_def written_profile_def linked_files_def
      insert_commute)

section \<open>The decisions of both formats\<close>

text \<open>A rule is read by its decision only, so the image of a policy decides by the set of the decisions.\<close>

lemma of_meaning_parts:
  "r_object (of_meaning (rule_meaning r)) = r_object r" "r_action (of_meaning (rule_meaning r)) = r_action r"
  "r_verdict (of_meaning (rule_meaning r)) = r_verdict r" "snd (rule_meaning r) = r_verdict r"
  by (simp_all add: of_meaning_def rule_meaning_def signature_def)

lemma read_by_meaning:
  "rule_pattern (of_meaning (rule_meaning r)) = rule_pattern r" "rule_class (of_meaning (rule_meaning r)) = rule_class r"
  "rule_prefix (of_meaning (rule_meaning r)) = rule_prefix r" "exec_path (of_meaning (rule_meaning r)) = exec_path r"
  "connect_to (of_meaning (rule_meaning r)) = connect_to r"
  unfolding rule_class_def rule_prefix_def rule_pattern_def exec_path_def connect_to_def of_meaning_parts
  by (rule refl)+

lemma granted_by_meaning:
  assumes "meanings rules = meanings rules'" and "\<And>r. Q (of_meaning (rule_meaning r)) = Q r"
  shows "(\<exists>r \<in> set (granted rules). Q r) = (\<exists>r \<in> set (granted rules'). Q r)"
proof -
  have "(\<exists>r \<in> set (granted rs). Q r) \<longleftrightarrow> (\<exists>m \<in> meanings rs. snd m = Allow \<and> Q (of_meaning m))" for rs
    by (simp add: granted_def assms(2) of_meaning_parts) blast
  then show ?thesis by (simp only: assms(1))
qed

lemma image_access_iff:
  assumes "req = ACCESS_READ \<or> req = ACCESS_WRITE"
  shows "bpf_access (lower_bpf rules) path req =
    (if \<exists>r \<in> set (granted rules). rule_pattern r = Some (ExactPath path)
     then \<exists>r \<in> set (granted rules). rule_pattern r = Some (ExactPath path)
       \<and> (r_action r = FileWrite) = (req = ACCESS_WRITE)
     else (\<exists>c. classify_probe path = Some c \<and> (\<exists>r \<in> set (granted rules). rule_class r = Some c))
       \<or> (\<exists>r \<in> set (granted rules). \<exists>pre. rule_prefix r = Some pre \<and> prefix pre path))"
proof (cases "exact_rules rules path = []")
  case True
  then have none: "\<not> (\<exists>r \<in> set (granted rules). rule_pattern r = Some (ExactPath path))"
    by (simp add: exact_rules_def filter_empty_conv)
  have "list_ex (\<lambda>pre. prefix pre path) (List.map_filter rule_prefix rs)
      \<longleftrightarrow> (\<exists>r \<in> set rs. \<exists>pre. rule_prefix r = Some pre \<and> prefix pre path)" for rs
    by (induction rs) (auto simp: List.map_filter_simps split: option.splits)
  with True none show ?thesis
    by (simp add: bpf_access_def image_exact mask_of_def image_patterns image_prefixes split: option.split)
next
  case False
  then have some: "\<exists>r \<in> set (granted rules). rule_pattern r = Some (ExactPath path)"
    by (simp add: exact_rules_def filter_empty_conv)
  have two: "ACCESS_READ \<noteq> ACCESS_WRITE" by (simp add: ACCESS_READ_def ACCESS_WRITE_def)
  have two: "ACCESS_READ \<noteq> ACCESS_WRITE" by (simp add: ACCESS_READ_def ACCESS_WRITE_def)
  have "allow_only (exact_rules rules path)" by (simp add: allow_only_iff exact_rules_def granted_def)
  with False have "bpf_access (lower_bpf rules) path req =
      (foldl (\<lambda>m r. m OR access_bit (r_action r)) 0 (exact_rules rules path) AND req = req)"
    by (simp add: bpf_access_def image_exact mask_of_def foldl_mask)
  also have "\<dots> \<longleftrightarrow> list_ex (\<lambda>r. (r_action r = FileWrite) = (req = ACCESS_WRITE)) (exact_rules rules path)"
    using assms two by (elim disjE) (simp_all add: mask_permits)
  also have "\<dots> \<longleftrightarrow> (\<exists>r \<in> set (granted rules). rule_pattern r = Some (ExactPath path)
      \<and> (r_action r = FileWrite) = (req = ACCESS_WRITE))"
    by (auto simp: list_ex_iff exact_rules_def)
  finally show ?thesis using some by simp
qed

lemma image_determined:
  assumes "meanings rules = meanings rules'"
  shows "bpf_decides (lower_bpf rules) p = bpf_decides (lower_bpf rules') p"
proof -
  note same = granted_by_meaning [OF assms]
  have access: "bpf_access (lower_bpf rules) path req = bpf_access (lower_bpf rules') path req"
    if "req = ACCESS_READ \<or> req = ACCESS_WRITE" for path req
    unfolding image_access_iff [OF that]
    by (intro if_cong disj_cong ex_cong conj_cong refl same) (simp_all only: read_by_meaning of_meaning_parts)
  show ?thesis
    by (cases p)
      (simp_all add: bpf_decides_def access image_exec image_net
        same [of "\<lambda>r. exec_path r = Some b" for b] same [of "\<lambda>r. connect_to r = Some d" for d] read_by_meaning)
qed

section \<open>The demonstration holds\<close>

text \<open>
  The printed profile shows \<open>FileOpen\<close> and \<open>FileRead\<close> of one file as the same line, so it has the text of the policy
  without its \<open>FileOpen\<close> rules, and that policy can be read back.
\<close>

definition shown_events :: "Meaning list" where
  "shown_events = widened_events @ tl (linked_files exec_observed)"

lemma demo_text:
  assumes "meanings ir = set compiled_events"
  shows "fst (lower_to_apparmor dbg ir ''demo'') = fst (lower_to_apparmor dbg (map of_meaning shown_events) ''demo'')"
proof -
  have "rule_line (of_meaning ((s, file_of p, FileOpen), v)) = rule_line (of_meaning ((s, file_of p, FileRead), v))"
    for s p v
    by (simp add: rule_line_def of_meaning_def file_of_def deny_text_def)
  then have "rule_line ` set (map of_meaning compiled_events) = rule_line ` set (map of_meaning shown_events)"
    by (simp add: compiled_events_def shown_events_def linked_files_def)
  from profile_text_by_lines [OF this]
  show ?thesis using profile_text_determined [of ir "map of_meaning compiled_events"] assms
    by (simp only: meanings_of)
qed

lemma demo_decides:
  assumes "meanings ir = set compiled_events"
  shows "aa_decides (fst (lower_to_apparmor dbg ir ''demo'')) p = Some (rules_decide (map of_meaning shown_events) p)"
    and "bpf_decides (lower_bpf ir) p = bpf_decides (lower_bpf (map of_meaning compiled_events)) p"
proof -
  have name: "ascii ''demo''" "newline \<notin> set ''demo''" by (simp_all add: is_ascii_def newline_def)
  have "list_all reparsable (map of_meaning shown_events)" by code_simp
  from reparsed_decides [OF this name]
  show "aa_decides (fst (lower_to_apparmor dbg ir ''demo'')) p = Some (rules_decide (map of_meaning shown_events) p)"
    by (simp only: demo_text [OF assms])
  show "bpf_decides (lower_bpf ir) p = bpf_decides (lower_bpf (map of_meaning compiled_events)) p"
    by (rule image_determined) (simp only: assms meanings_of)
qed

definition demo_verdicts :: "bool list" where
  "demo_verdicts = [True, False, True, True, True, False, False, True, False, True, False]"

lemma shared_verdicts:
  "map (rules_decide (map of_meaning shown_events)) shared = demo_verdicts"
  "map (bpf_decides (lower_bpf (map of_meaning compiled_events))) shared = demo_verdicts"
  by code_simp+

lemma udp_verdicts:
  "rules_decide (map of_meaning shown_events) (ProbeNet (ip 93 184 216 34) 443 17) = False"
  "bpf_decides (lower_bpf (map of_meaning compiled_events)) (ProbeNet (ip 93 184 216 34) 443 17) = True"
  by code_simp+

definition expected_rows :: "(string \<times> bool \<times> bool \<times> bool) list" where
  "expected_rows = map2 (\<lambda>p b. (label p, b, b, True)) shared demo_verdicts"

lemma those_map_Some: "those (map (\<lambda>x. Some (f x)) xs) = Some (map f xs)"
  by (induction xs) simp_all

lemma demo_table:
  assumes "meanings ir = set compiled_events"
  shows "decision_table (fst (lower_to_apparmor dbg ir ''demo'')) (lower_bpf ir) = Some expected_rows"
proof -
  let ?a = "rules_decide (map of_meaning shown_events)" and ?b = "bpf_decides (lower_bpf (map of_meaning compiled_events))"
  have row: "decision_row (fst (lower_to_apparmor dbg ir ''demo'')) (lower_bpf ir)
      = (\<lambda>p. Some (label p, ?a p, ?b p, ?a p = ?b p))"
    by (rule ext) (simp add: decision_row_def demo_decides [OF assms] Let_def)
  have "\<forall>p \<in> set shared. ?a p = ?b p"
    using shared_verdicts by (metis (no_types, lifting) map_eq_conv)
  then have "map (\<lambda>p. (label p, ?a p, ?b p, ?a p = ?b p)) shared = map (\<lambda>p. (label p, ?a p, ?a p, True)) shared"
    by simp
  also have "\<dots> = map2 (\<lambda>p b. (label p, b, b, True)) shared (map ?a shared)"
    by (simp add: zip_map2 map_zip_map2 zip_same_conv_map)
  finally show ?thesis
    unfolding decision_table_def row those_map_Some expected_rows_def shared_verdicts(1) by simp
qed

lemma expected_agree: "all_agree expected_rows"
proof -
  have "foldl (\<lambda>acc row. acc \<and> snd (snd (snd row))) a rows = (a \<and> list_all (\<lambda>row. snd (snd (snd row))) rows)"
    for a and rows :: "(string \<times> bool \<times> bool \<times> bool) list"
    by (induction rows arbitrary: a) auto
  then show ?thesis by (auto simp: all_agree_def expected_rows_def list_all_iff)
qed

lemma rows_determined:
  assumes "meanings rules = meanings rules'"
  shows "ir_rows rules = ir_rows rules'"
proof -
  have "describe r = describe (of_meaning (rule_meaning r))" for r
    by (simp only: describe_def of_meaning_parts)
  then have "describe ` set rs = (describe \<circ> of_meaning) ` meanings rs" for rs
    unfolding image_comp comp_def by (rule image_cong [OF refl])
  then have "set (map describe rules) = set (map describe rules')" by (simp only: list.set_map assms)
  from dedup_sort_determined [OF this] show ?thesis by (simp add: ir_rows_def dedup_sort_def)
qed

text \<open>
  What the demonstration prints, for every iteration order of the hash maps: the two inputs compile to the same
  rules, the two formats agree on the eleven shared operations, and they differ on the two last rows in the way
  that is announced.
\<close>

lemma demonstration_holds:
  assumes "from_str events = Inr MONITOR_EVENTS"
  shows "demonstration oe oa from_str pfv dbg events =
    Some \<lparr>dm_identical = True, dm_rows = ir_rows (map of_meaning compiled_events),
      dm_table = map table_line expected_rows, dm_all_agree = True,
      dm_divergences =
        diverge_row ''connect 93.184.216.34:443 / UDP  (profiled TCP)'' False True
          ''AppArmor keeps stream/dgram; BPF-LSM socket key omits protocol''
        @ diverge_row ''connect <any-ip>:443  (ip-less allow rule)'' True False
          (''AppArmor expresses '' @ [CHR 0x27] @ ''any peer'' @ [CHR 0x27] @ ''; BPF-LSM loader drops ip-less rules'')\<rparr>"
proof -
  obtain raw_e where e: "translate_all_events_json from_str pfv events = Inr raw_e"
    "\<And>ord. meanings (compile_in ord raw_e) = set compiled_events"
    using events_compiled [where from_str = from_str and events = events and pfv = pfv, OF assms] by blast
  obtain raw_a where a: "parse_apparmor APPARMOR_PROFILE = Some raw_a"
    "\<And>ord. meanings (compile_in ord raw_a) = set compiled_profile"
    using profile_compiled by blast
  let ?ir = "compile_in oe raw_e"
  have ir: "meanings ?ir = set compiled_events" by (rule e(2))
  have "ir_rows ?ir = ir_rows (map of_meaning compiled_events)"
    by (rule rows_determined) (simp only: ir meanings_of)
  then show ?thesis
    by (simp add: demonstration_def two_frontends_def e(1) a(1) demo_table [OF ir] divergences_def Let_def
        demo_decides [OF ir] udp_verdicts demo_divergence inputs_converge [OF ir a(2)] expected_agree)
qed

end
